(* ===== verification/Prelude.thy ===== *)
theory Prelude
  imports Main "HOL-Library.Word" "HOL-Library.Monad_Syntax"
begin

text \<open>
  Shared vocabulary of the development: the C integer conversions the library relies on,
  network byte order, blocks of heap memory with bounds-checked access, the allocator, and
  the lemma collections the component theories extend.

  A C computation that may go wrong is a value of an \<open>option\<close> type: \<open>None\<close> stands for
  "the call does not return normally": undefined behaviour (a NULL or freed pointer is
  dereferenced, memory outside a block is touched), a failed \<open>assert\<close>, or a loop that never
  ends. Error codes that the code returns are ordinary values under \<open>Some\<close>.
\<close>

unbundle bit_operations_syntax

named_theorems c_arith "conversions and wrap-around of C integers"
named_theorems mem_simps "reads and writes of memory blocks"
named_theorems buf_laws "behaviour of the network buffer operations"

type_synonym byte = "8 word"
type_synonym addr = nat
type_synonym mem = "byte list"

section \<open>C integer conversions\<close>

definition u16 :: "int \<Rightarrow> nat" where
  "u16 x = nat (x mod 65536)"

definition u32 :: "int \<Rightarrow> nat" where
  "u32 x = nat (x mod 4294967296)"

definition u64 :: "int \<Rightarrow> nat" where
  "u64 x = nat (x mod 18446744073709551616)"

definition s32 :: "int \<Rightarrow> int" where
  "s32 x = (x + 2147483648) mod 4294967296 - 2147483648"

lemma u16_id [c_arith]: "0 \<le> x \<Longrightarrow> x < 65536 \<Longrightarrow> u16 x = nat x"
  by (simp add: u16_def)

lemma u32_id [c_arith]: "0 \<le> x \<Longrightarrow> x < 4294967296 \<Longrightarrow> u32 x = nat x"
  by (simp add: u32_def)

lemma u64_id [c_arith]: "0 \<le> x \<Longrightarrow> x < 18446744073709551616 \<Longrightarrow> u64 x = nat x"
  by (simp add: u64_def)

lemma s32_id [c_arith]: "-2147483648 \<le> x \<Longrightarrow> x < 2147483648 \<Longrightarrow> s32 x = x"
  by (simp add: s32_def)

lemma u16_less: "u16 x < 65536"
  by (simp add: u16_def nat_less_iff)

lemma u32_less: "u32 x < 4294967296"
  by (simp add: u32_def nat_less_iff)

text \<open>An unsigned subtraction that would go below zero wraps to a huge value.\<close>

lemma u32_neg: "-4294967296 \<le> x \<Longrightarrow> x < 0 \<Longrightarrow> u32 x = nat (x + 4294967296)"
proof -
  assume "-4294967296 \<le> x" "x < 0"
  then have "x mod 4294967296 = x + 4294967296"
    by (intro int_mod_pos_eq [where q = "-1"]) auto
  then show ?thesis by (simp add: u32_def)
qed

section \<open>Network byte order\<close>

text \<open>The bytes \<open>htons\<close> and \<open>htonl\<close> leave in memory, and what \<open>ntohs\<close> and \<open>ntohl\<close> read.\<close>

definition be16 :: "nat \<Rightarrow> byte list" where
  "be16 n = [word_of_nat (n div 256), word_of_nat n]"

definition rd16 :: "byte \<Rightarrow> byte \<Rightarrow> nat" where
  "rd16 h l = unat h * 256 + unat l"

definition be32 :: "32 word \<Rightarrow> byte list" where
  "be32 v = (let n = unat v in
     [word_of_nat (n div 16777216), word_of_nat (n div 65536), word_of_nat (n div 256),
      word_of_nat n])"

definition rd32 :: "byte \<Rightarrow> byte \<Rightarrow> byte \<Rightarrow> byte \<Rightarrow> 32 word" where
  "rd32 a b c d =
     word_of_nat (unat a * 16777216 + unat b * 65536 + unat c * 256 + unat d)"

lemma length_be16 [simp]: "length (be16 n) = 2"
  by (simp add: be16_def)

lemma length_be32 [simp]: "length (be32 v) = 4"
  by (simp add: be32_def Let_def)

lemma unat_byte_less [simp]: "unat (b :: byte) < 256"
  using unsigned_less [of b] by simp

lemma unat_u16_less [simp]: "unat (m :: 16 word) < 65536"
  using unsigned_less [of m] by simp

lemma uint_u16_less [simp]: "uint (m :: 16 word) < 65536"
  using uint_lt2p [of m] by simp

lemma unat_u32_less [simp]: "unat (m :: 32 word) < 4294967296"
  using unsigned_less [of m] by simp

text \<open>Word literals are compared by their values.\<close>

declare word_eq_numeral_iff_iszero [simp del]
lemma word_numeral_eq [simp]:
  "(numeral m :: 'a::len word) = numeral n \<longleftrightarrow> (numeral m :: nat) mod 2 ^ LENGTH('a) = numeral n mod 2 ^ LENGTH('a)"
  "(numeral m :: 'a::len word) = 0 \<longleftrightarrow> (numeral m :: nat) mod 2 ^ LENGTH('a) = 0"
  "(numeral m :: 'a::len word) = 1 \<longleftrightarrow> (numeral m :: nat) mod 2 ^ LENGTH('a) = 1"
  "0 = (numeral m :: 'a::len word) \<longleftrightarrow> (numeral m :: nat) mod 2 ^ LENGTH('a) = 0"
  "1 = (numeral m :: 'a::len word) \<longleftrightarrow> (numeral m :: nat) mod 2 ^ LENGTH('a) = 1"
proof -
  have u: "unat (numeral k :: 'a word) = (numeral k :: nat) mod 2 ^ LENGTH('a)" for k
    by (simp only: unsigned_numeral take_bit_eq_mod of_nat_id)
  have z: "x = y \<longleftrightarrow> unat x = unat y" "x = 0 \<longleftrightarrow> unat x = 0" "x = 1 \<longleftrightarrow> unat x = 1" for x y :: "'a word"
    by (simp_all add: word_unat_eq_iff)
  show "(numeral m :: 'a::len word) = numeral n \<longleftrightarrow> (numeral m :: nat) mod 2 ^ LENGTH('a) = numeral n mod 2 ^ LENGTH('a)"
    by (simp only: z(1) u)
  show "(numeral m :: 'a::len word) = 0 \<longleftrightarrow> (numeral m :: nat) mod 2 ^ LENGTH('a) = 0"
    "(numeral m :: 'a::len word) = 1 \<longleftrightarrow> (numeral m :: nat) mod 2 ^ LENGTH('a) = 1"
    "0 = (numeral m :: 'a::len word) \<longleftrightarrow> (numeral m :: nat) mod 2 ^ LENGTH('a) = 0"
    "1 = (numeral m :: 'a::len word) \<longleftrightarrow> (numeral m :: nat) mod 2 ^ LENGTH('a) = 1"
    by (simp_all only: z(2,3) u eq_commute [of 0] eq_commute [of 1])
qed
declare unsigned_numeral [simp del] uint_bintrunc [simp del] unat_bintrunc [simp del]

lemma unat_numeral_word [simp]:
  "unat (numeral k :: 'a::len word) = (numeral k :: nat) mod 2 ^ LENGTH('a)"
  by (simp only: unsigned_numeral take_bit_eq_mod of_nat_id)

lemma uint_numeral_word [simp]:
  "uint (numeral k :: 'a::len word) = (numeral k :: int) mod 2 ^ LENGTH('a)"
  by (simp only: unsigned_numeral take_bit_eq_mod of_nat_mod of_nat_power of_nat_numeral)

lemma unat_byte_of_nat: "unat (word_of_nat n :: byte) = n mod 256"
  by (simp add: unsigned_of_nat take_bit_eq_mod)

lemma be16_u16 [simp]: "be16 (u16 (int n)) = be16 n"
proof -
  have u: "u16 (int n) = n mod 65536" by (simp add: u16_def nat_mod_distrib)
  have "n mod 65536 div 256 mod 256 = n div 256 mod 256" "n mod 65536 mod 256 = n mod 256"
    using mod_mult2_eq [of n 256 256] by (simp_all add: mod_mod_cancel)
  then have "unat (word_of_nat (n mod 65536 div 256) :: byte) = unat (word_of_nat (n div 256) :: byte)"
    "unat (word_of_nat (n mod 65536) :: byte) = unat (word_of_nat n :: byte)"
    unfolding unat_byte_of_nat by simp_all
  then show ?thesis unfolding be16_def u by (simp add: word_unat_eq_iff del: unsigned_of_nat)
qed

lemma rd16_be16: "n < 65536 \<Longrightarrow> rd16 (word_of_nat (n div 256)) (word_of_nat n) = n"
proof -
  assume "n < 65536"
  then have "n div 256 < 256" by (simp add: less_mult_imp_div_less)
  then show ?thesis
    by (simp add: rd16_def unat_byte_of_nat div_mult_mod_eq)
qed

lemma rd16_less: "rd16 h l < 65536"
proof -
  have "unat h \<le> 255" "unat l \<le> 255"
    using unat_byte_less [of h] unat_byte_less [of l] by linarith+
  then show ?thesis by (simp add: rd16_def)
qed

lemma rd32_be32:
  "rd32 (word_of_nat (unat v div 16777216)) (word_of_nat (unat v div 65536))
        (word_of_nat (unat v div 256)) (word_of_nat (unat v)) = v"
proof -
  define n where "n = unat v"
  have n: "n < 4294967296" by (simp add: n_def)
  define a b c where "a = n div 256" and "b = a div 256" and "c = b div 256"
  have c: "c < 256"
    using n by (simp add: a_def b_def c_def div_mult2_eq [symmetric] less_mult_imp_div_less)
  have "n = a * 256 + n mod 256" "a = b * 256 + a mod 256" "b = c * 256 + b mod 256"
    by (simp_all add: a_def b_def c_def div_mult_mod_eq)
  then have sum: "c * 16777216 + b mod 256 * 65536 + a mod 256 * 256 + n mod 256 = n"
    by linarith
  have "n div 16777216 = c" "n div 65536 = b"
    by (simp_all add: a_def b_def c_def div_mult2_eq [symmetric])
  with c sum a_def have "n div 16777216 mod 256 * 16777216 + n div 65536 mod 256 * 65536
      + n div 256 mod 256 * 256 + n mod 256 = n"
    by simp
  then have "rd32 (word_of_nat (n div 16777216)) (word_of_nat (n div 65536))
      (word_of_nat (n div 256)) (word_of_nat n) = (word_of_nat n :: 32 word)"
    unfolding rd32_def unat_byte_of_nat by (simp only:)
  then show ?thesis by (simp add: n_def)
qed

section \<open>Memory blocks and the allocator\<close>

text \<open>
  A block of heap memory is the list of its bytes; a pointer into it is an offset. Reading or
  writing outside the block is undefined behaviour, hence \<open>None\<close>. A pointer the library only
  reads through (the source of a copy) is given as the list of the bytes from the pointer to
  the end of its block.
\<close>

definition mem_read :: "mem \<Rightarrow> nat \<Rightarrow> nat \<Rightarrow> byte list option" where
  "mem_read m off n = (if off + n \<le> length m then Some (take n (drop off m)) else None)"

definition mem_write :: "mem \<Rightarrow> nat \<Rightarrow> byte list \<Rightarrow> mem option" where
  "mem_write m off d =
     (if off + length d \<le> length m
      then Some (take off m @ d @ drop (off + length d) m) else None)"

definition memmove :: "mem \<Rightarrow> nat \<Rightarrow> nat \<Rightarrow> nat \<Rightarrow> mem option" where
  "memmove m dst src n = do { d \<leftarrow> mem_read m src n; mem_write m dst d }"

text \<open>
  The allocator is a parameter: \<open>None\<close> when \<open>malloc\<close> returns NULL for a request of that size,
  otherwise the arbitrary bytes a fresh block holds. The C library never hands out a block
  larger than \<open>PTRDIFF_MAX\<close>.
\<close>

type_synonym alloc = "nat \<Rightarrow> (nat \<Rightarrow> byte) option"

definition malloc :: "alloc \<Rightarrow> nat \<Rightarrow> mem option" where
  "malloc A n =
     (if n < 9223372036854775808
      then (case A n of None \<Rightarrow> None | Some f \<Rightarrow> Some (map f [0..<n])) else None)"

definition realloc :: "alloc \<Rightarrow> mem \<Rightarrow> nat \<Rightarrow> mem option" where
  "realloc A m n =
     (case malloc A n of None \<Rightarrow> None | Some fresh \<Rightarrow> Some (take n m @ drop (length m) fresh))"

definition malloc_ok :: "alloc \<Rightarrow> nat \<Rightarrow> bool" where
  "malloc_ok A n \<longleftrightarrow> malloc A n \<noteq> None"

text \<open>An allocator that never fails below \<open>PTRDIFF_MAX\<close>, with zeroed blocks; used in examples.\<close>

definition zero_alloc :: alloc where
  "zero_alloc n = Some (\<lambda>_. 0)"

definition generous :: "alloc \<Rightarrow> bool" where
  "generous A \<longleftrightarrow> (\<forall>n. A n \<noteq> None)"

lemma generous_zero_alloc [simp]: "generous zero_alloc"
  by (simp add: generous_def zero_alloc_def)

lemma length_malloc: "malloc A n = Some m \<Longrightarrow> length m = n"
  by (auto simp: malloc_def split: if_splits option.splits)

lemma malloc_bound: "malloc A n = Some m \<Longrightarrow> n < 9223372036854775808"
  by (auto simp: malloc_def split: if_splits)

lemma malloc_generous:
  "generous A \<Longrightarrow> n < 9223372036854775808 \<Longrightarrow> \<exists>m. malloc A n = Some m \<and> length m = n"
  by (auto simp: generous_def malloc_def split: option.splits)

lemma malloc_ok_generous [simp]:
  "generous A \<Longrightarrow> n < 9223372036854775808 \<Longrightarrow> malloc_ok A n"
  using malloc_generous [of A n] by (auto simp: malloc_ok_def)

lemma length_realloc: "realloc A m n = Some m' \<Longrightarrow> length m' = n"
  by (auto simp: realloc_def split: option.splits dest!: length_malloc)

lemma realloc_bound: "realloc A m n = Some m' \<Longrightarrow> n < 9223372036854775808"
  by (auto simp: realloc_def dest: malloc_bound split: option.splits)

lemma realloc_generous:
  "generous A \<Longrightarrow> n < 9223372036854775808 \<Longrightarrow> \<exists>m'. realloc A m n = Some m' \<and> length m' = n"
  using malloc_generous [of A n] by (auto simp: realloc_def)

lemma realloc_keeps: "realloc A m n = Some m' \<Longrightarrow> k \<le> n \<Longrightarrow> k \<le> length m \<Longrightarrow> take k m' = take k m"
  by (auto simp: realloc_def min_def split: option.splits)

lemma mem_read_Some [mem_simps]:
  "off + n \<le> length m \<Longrightarrow> mem_read m off n = Some (take n (drop off m))"
  by (simp add: mem_read_def)

lemma mem_write_Some [mem_simps]:
  "off + length d \<le> length m \<Longrightarrow>
   mem_write m off d = Some (take off m @ d @ drop (off + length d) m)"
  by (simp add: mem_write_def)

lemma memmove_Some [mem_simps]:
  "dst + n \<le> length m \<Longrightarrow> src + n \<le> length m \<Longrightarrow>
   memmove m dst src n = Some (take dst m @ take n (drop src m) @ drop (dst + n) m)"
  by (simp add: memmove_def mem_simps)

lemma mem_write_length: "mem_write m off d = Some m' \<Longrightarrow> length m' = length m"
  by (auto simp: mem_write_def split: if_splits)

lemma memmove_length: "memmove m dst src n = Some m' \<Longrightarrow> length m' = length m"
  by (auto simp: memmove_def bind_eq_Some_conv dest: mem_write_length)

end
