(* ===== verification/Databuffer.thy ===== *)
theory Databuffer
  imports Prelude
begin

text \<open>
  lib/databuffer.c: the singly linked list \<open>slist_t\<close> and the network buffer \<open>buf_t\<close>.

  A list node holds a pointer; here a list is the sequence of the pointers with what they point
  to. A buffer is one heap block laid out as \<open>head_avail\<close> free bytes, \<open>data_size\<close> bytes of valid
  data and free bytes behind it, counted partly in \<open>tail_avail\<close> and partly in \<open>data_avail\<close>.
  \<open>bf_data\<close> is the offset of \<open>p->data\<close> in the block. Pointers into the block are offsets paired
  with the ghost counter \<open>bf_gen\<close>, which counts the reallocations of the block: an old pointer is
  dead once the block has been reallocated.

  A \<open>buf_t *\<close> that may be NULL is a \<open>databuffer option\<close> where it is stored; the operations
  below are the code behind their NULL test.
\<close>

section \<open>Linked lists\<close>

type_synonym 'a slist = "(addr \<times> 'a) list"

text \<open>\<open>malloc\<close> of the node is followed by \<open>assert\<close>, so a failed allocation aborts.\<close>

fun slist_link :: "'a slist \<Rightarrow> addr \<times> 'a \<Rightarrow> 'a slist" where
  "slist_link [] node = [node]"
| "slist_link (p # ps) node = p # slist_link ps node"

definition slist_append :: "alloc \<Rightarrow> 'a slist \<Rightarrow> addr \<times> 'a \<Rightarrow> 'a slist option" where
  "slist_append A list element =
     (if malloc_ok A 16 then Some (slist_link list element) else None)"

fun slist_remove :: "'a slist \<Rightarrow> addr \<Rightarrow> 'a slist" where
  "slist_remove [] element = []"
| "slist_remove ((p, x) # list) element =
     (if p = element then slist_remove list element else (p, x) # slist_remove list element)"

lemma slist_link_append [simp]: "slist_link l e = l @ [e]"
  by (induction l) auto

lemma slist_append_Some [simp]: "malloc_ok A 16 \<Longrightarrow> slist_append A l e = Some (l @ [e])"
  by (simp add: slist_append_def)

lemma slist_append_eq_Some: "slist_append A l e = Some l' \<longleftrightarrow> malloc_ok A 16 \<and> l' = l @ [e]"
  by (auto simp: slist_append_def)

lemma slist_remove_filter: "slist_remove l p = filter (\<lambda>n. fst n \<noteq> p) l"
  by (induction l p rule: slist_remove.induct) auto

lemma slist_remove_notin [simp]: "p \<notin> fst ` set l \<Longrightarrow> slist_remove l p = l"
  by (force simp: slist_remove_filter filter_id_conv)

lemma slist_remove_head:
  "distinct (map fst ((p, x) # l)) \<Longrightarrow> slist_remove ((p, x) # l) p = l"
  by simp

section \<open>The buffer\<close>

record databuffer =
  bf_buffer :: "mem option"
  bf_data :: nat
  head_avail :: nat
  data_avail :: nat
  tail_avail :: nat
  data_size :: nat
  bf_gen :: nat

text \<open>The block, with a NULL \<open>buffer\<close> as the empty block.\<close>

definition buf_mem :: "databuffer \<Rightarrow> mem" where
  "buf_mem p = (case bf_buffer p of None \<Rightarrow> [] | Some m \<Rightarrow> m)"

definition buf_new :: "alloc \<Rightarrow> nat \<Rightarrow> databuffer option" where
  "buf_new A default_size =
     (if \<not> malloc_ok A 48 then None
      else case malloc A default_size of None \<Rightarrow> None
      | Some m \<Rightarrow> Some \<lparr>bf_buffer = Some m, bf_data = 0, head_avail = 0,
                        data_avail = default_size, tail_avail = 0, data_size = 0, bf_gen = 0\<rparr>)"

definition buf_total_size :: "databuffer \<Rightarrow> nat" where
  "buf_total_size p = u64 (int (head_avail p + data_avail p + tail_avail p + data_size p))"

text \<open>
  The shrinking part of \<open>buf_resize\<close>: \<open>itRem\<close> bytes are taken from the shared free space, then
  from the tail, then from the head (moving the data down), then from the data itself.
\<close>

definition buf_shrink_data_avail :: "databuffer \<Rightarrow> nat \<Rightarrow> nat \<times> databuffer" where
  "buf_shrink_data_avail p itRem =
     (if itRem > data_avail p then (itRem - data_avail p, p\<lparr>data_avail := 0\<rparr>)
      else (0, p\<lparr>data_avail := data_avail p - itRem\<rparr>))"

definition buf_shrink_tail_avail :: "databuffer \<Rightarrow> nat \<Rightarrow> nat \<times> databuffer" where
  "buf_shrink_tail_avail p itRem =
     (if itRem > tail_avail p then (itRem - tail_avail p, p\<lparr>tail_avail := 0\<rparr>)
      else (0, p\<lparr>tail_avail := tail_avail p - itRem\<rparr>))"

definition buf_shrink_head_avail :: "databuffer \<Rightarrow> nat \<Rightarrow> (nat \<times> databuffer) option" where
  "buf_shrink_head_avail p itRem =
     (if itRem > head_avail p
      then do {
        m \<leftarrow> memmove (buf_mem p) 0 (head_avail p) (data_size p);
        Some (itRem - head_avail p, p\<lparr>bf_buffer := map_option (\<lambda>_. m) (bf_buffer p), head_avail := 0\<rparr>) }
      else do {
        m \<leftarrow> memmove (buf_mem p) (head_avail p - itRem) (head_avail p) (data_size p);
        Some (0, p\<lparr>bf_buffer := map_option (\<lambda>_. m) (bf_buffer p),
                   head_avail := head_avail p - itRem\<rparr>) })"

definition buf_shrink_data :: "databuffer \<Rightarrow> nat \<Rightarrow> databuffer" where
  "buf_shrink_data p itRem =
     (if itRem > data_size p then p\<lparr>data_size := 0\<rparr>
      else p\<lparr>data_size := data_size p - itRem\<rparr>)"

definition buf_resize :: "alloc \<Rightarrow> databuffer \<Rightarrow> nat \<Rightarrow> databuffer option" where
  "buf_resize A p new_size =
     (let bSize = buf_total_size p in
      do {
        (p, bSize) \<leftarrow>
          (if new_size < bSize
           then (let (itRem, p) = buf_shrink_data_avail p (bSize - new_size);
                     (itRem, p) = buf_shrink_tail_avail p itRem
                 in do { (itRem, p) \<leftarrow> buf_shrink_head_avail p itRem;
                         Some (buf_shrink_data p itRem, 0) })
           else Some (p, new_size - bSize));
        (if new_size = 0
         then Some \<lparr>bf_buffer = None, bf_data = 0, head_avail = 0, data_avail = 0,
                    tail_avail = 0, data_size = 0, bf_gen = Suc (bf_gen p)\<rparr>
         else case realloc A (buf_mem p) new_size of
           None \<Rightarrow> Some p
         | Some tmp \<Rightarrow> Some (p\<lparr>data_avail := data_avail p + bSize, bf_buffer := Some tmp,
                              bf_data := head_avail p, bf_gen := Suc (bf_gen p)\<rparr>))
      })"

definition buf_reuse :: "databuffer \<Rightarrow> databuffer" where
  "buf_reuse p =
     p\<lparr>data_avail := buf_total_size p, head_avail := 0, tail_avail := 0, data_size := 0,
       bf_data := 0\<rparr>"

text \<open>
  The reserving operations return the offset of the reserved bytes, or \<open>None\<close> for the NULL
  pointer of a failed reallocation. \<open>size_t\<close> arithmetic wraps.
\<close>

definition buf_reserve_begin :: "alloc \<Rightarrow> databuffer \<Rightarrow> nat \<Rightarrow> (nat option \<times> databuffer) option" where
  "buf_reserve_begin A p n =
     (if head_avail p \<ge> n
      then Some (Some (head_avail p - n),
                 p\<lparr>head_avail := head_avail p - n, data_size := data_size p + n,
                   bf_data := head_avail p - n\<rparr>)
      else do {
        (fits, p) \<leftarrow>
          (if n > u64 (int (head_avail p + data_avail p))
           then do {
             p' \<leftarrow> buf_resize A p (u64 (int (buf_total_size p) + int n
                                        - int (head_avail p) - int (data_avail p)));
             (if data_avail p = data_avail p' then Some (False, p')
              else Some (True, p'\<lparr>data_avail := 0\<rparr>)) }
           else Some (True, p\<lparr>data_avail := u64 (int (data_avail p) - (int n - int (head_avail p)))\<rparr>));
        (if \<not> fits then Some (None, p)
         else do {
           m \<leftarrow> memmove (buf_mem p) n (head_avail p) (data_size p);
           Some (Some 0, p\<lparr>bf_buffer := map_option (\<lambda>_. m) (bf_buffer p), head_avail := 0,
                           bf_data := 0, data_size := u64 (int (data_size p + n))\<rparr>) }) })"

definition buf_reserve_end :: "alloc \<Rightarrow> databuffer \<Rightarrow> nat \<Rightarrow> (nat option \<times> databuffer) option" where
  "buf_reserve_end A p n = do {
     (fits, p) \<leftarrow>
       (if tail_avail p \<ge> n then Some (True, p\<lparr>tail_avail := tail_avail p - n\<rparr>)
        else if n > u64 (int (tail_avail p + data_avail p))
        then do {
          p' \<leftarrow> buf_resize A p (u64 (int (buf_total_size p) + int n
                                     - int (tail_avail p) - int (data_avail p)));
          (if data_avail p = data_avail p' then Some (False, p')
           else Some (True, p'\<lparr>data_avail := 0, tail_avail := 0\<rparr>)) }
        else Some (True, p\<lparr>data_avail := u64 (int (data_avail p) - (int n - int (tail_avail p))),
                           tail_avail := 0\<rparr>));
     (if \<not> fits then Some (None, p)
      else Some (Some (head_avail p + data_size p),
                 p\<lparr>data_size := u64 (int (data_size p + n)), bf_data := head_avail p\<rparr>)) }"

text \<open>
  A store through a pointer into the block; \<open>None\<close> is the NULL pointer. \<open>memcpy\<close> reads \<open>n\<close>
  bytes from \<open>src\<close>, the bytes from the source pointer to the end of its block.
\<close>

definition buf_store :: "databuffer \<Rightarrow> nat option \<Rightarrow> byte list \<Rightarrow> databuffer option" where
  "buf_store p dest d =
     (case dest of None \<Rightarrow> None
      | Some off \<Rightarrow> do { m \<leftarrow> mem_write (buf_mem p) off d;
                        Some (p\<lparr>bf_buffer := map_option (\<lambda>_. m) (bf_buffer p)\<rparr>) })"

definition buf_insert_begin :: "alloc \<Rightarrow> databuffer \<Rightarrow> byte list \<Rightarrow> nat \<Rightarrow> databuffer option" where
  "buf_insert_begin A p src n = do {
     (dest, p) \<leftarrow> buf_reserve_begin A p n;
     d \<leftarrow> mem_read src 0 n;
     buf_store p dest d }"

definition buf_insert_end :: "alloc \<Rightarrow> databuffer \<Rightarrow> byte list \<Rightarrow> nat \<Rightarrow> databuffer option" where
  "buf_insert_end A p src n = do {
     (dest, p) \<leftarrow> buf_reserve_end A p n;
     d \<leftarrow> mem_read src 0 n;
     buf_store p dest d }"

definition buf_remove_begin :: "databuffer \<Rightarrow> nat \<Rightarrow> databuffer" where
  "buf_remove_begin p n =
     (let p = (if n < data_size p
               then p\<lparr>head_avail := head_avail p + n, data_size := data_size p - n\<rparr>
               else p\<lparr>head_avail := head_avail p + data_size p, data_size := 0\<rparr>)
      in p\<lparr>bf_data := head_avail p\<rparr>)"

definition buf_remove_end :: "databuffer \<Rightarrow> nat \<Rightarrow> databuffer" where
  "buf_remove_end p n =
     (if n < data_size p
      then p\<lparr>tail_avail := tail_avail p + n, data_size := data_size p - n\<rparr>
      else p\<lparr>tail_avail := tail_avail p + data_size p, data_size := 0\<rparr>)"

text \<open>What \<open>p->data\<close> points at: the bytes to the end of the block, and the valid bytes.\<close>

definition buf_ptr :: "databuffer \<Rightarrow> byte list" where
  "buf_ptr p = drop (bf_data p) (buf_mem p)"

definition buf_bytes :: "databuffer \<Rightarrow> byte list" where
  "buf_bytes p = take (data_size p) (buf_ptr p)"


section \<open>Invariant and behaviour\<close>

text \<open>
  The four counters partition the block, \<open>p->data\<close> points behind the free head, and no block is
  larger than \<open>PTRDIFF_MAX\<close>.
\<close>

definition buf_wf :: "databuffer \<Rightarrow> bool" where
  "buf_wf p \<longleftrightarrow>
     length (buf_mem p) = head_avail p + data_avail p + tail_avail p + data_size p
     \<and> bf_data p = head_avail p
     \<and> length (buf_mem p) < 9223372036854775808"

definition buf_cap :: "databuffer \<Rightarrow> nat" where
  "buf_cap p = length (buf_mem p)"

lemma buf_mem_update [simp]:
  "buf_mem (p\<lparr>bf_data := a\<rparr>) = buf_mem p" "buf_mem (p\<lparr>head_avail := a\<rparr>) = buf_mem p"
  "buf_mem (p\<lparr>data_avail := a\<rparr>) = buf_mem p" "buf_mem (p\<lparr>tail_avail := a\<rparr>) = buf_mem p"
  "buf_mem (p\<lparr>data_size := a\<rparr>) = buf_mem p" "buf_mem (p\<lparr>bf_gen := a\<rparr>) = buf_mem p"
  "buf_mem (p\<lparr>bf_buffer := Some m\<rparr>) = m"
  by (simp_all add: buf_mem_def)

lemma buf_mem_map: "length m = length (buf_mem p) \<Longrightarrow>
   buf_mem (p\<lparr>bf_buffer := map_option (\<lambda>_. m) (bf_buffer p)\<rparr>) = m"
  by (cases "bf_buffer p") (simp_all add: buf_mem_def)

lemma buf_wf_total [buf_laws]: "buf_wf p \<Longrightarrow> buf_total_size p = length (buf_mem p)"
  by (simp add: buf_wf_def buf_total_size_def u64_id)

lemma length_buf_bytes [buf_laws]: "buf_wf p \<Longrightarrow> length (buf_bytes p) = data_size p"
  by (simp add: buf_wf_def buf_bytes_def buf_ptr_def)

lemma mem_read_bytes:
  assumes "buf_wf p" and "i + n \<le> data_size p"
  shows "mem_read (buf_ptr p) i n = Some (take n (drop i (buf_bytes p)))"
  using assms by (simp add: mem_read_def buf_ptr_def buf_bytes_def buf_wf_def drop_take)

lemma buf_new_cases:
  "buf_new A n = Some p \<Longrightarrow>
     buf_wf p \<and> buf_bytes p = [] \<and> data_size p = 0 \<and> buf_cap p = n \<and> data_avail p = n
     \<and> tail_avail p = 0 \<and> head_avail p = 0"
  using length_malloc [of A n] malloc_bound [of A n]
  by (auto simp: buf_new_def buf_wf_def buf_bytes_def buf_cap_def buf_mem_def
      split: if_splits option.splits)

lemma buf_new_generous:
  "generous A \<Longrightarrow> n < 9223372036854775808 \<Longrightarrow> \<exists>p. buf_new A n = Some p"
  using malloc_generous [of A n] by (auto simp: buf_new_def)

lemma buf_reuse_laws [buf_laws]:
  assumes "buf_wf p"
  shows "buf_wf (buf_reuse p)" "buf_bytes (buf_reuse p) = []" "data_size (buf_reuse p) = 0"
    "buf_mem (buf_reuse p) = buf_mem p" "data_avail (buf_reuse p) = length (buf_mem p)"
    "head_avail (buf_reuse p) = 0" "tail_avail (buf_reuse p) = 0" "bf_gen (buf_reuse p) = bf_gen p"
  using assms buf_wf_total [OF assms]
  by (simp_all add: buf_reuse_def buf_wf_def buf_bytes_def)

lemma buf_remove_begin_mem [simp]:
  "buf_mem (buf_remove_begin p n) = buf_mem p" "bf_gen (buf_remove_begin p n) = bf_gen p"
  by (simp_all add: buf_remove_begin_def Let_def)

lemma buf_remove_end_mem [simp]:
  "buf_mem (buf_remove_end p n) = buf_mem p" "bf_gen (buf_remove_end p n) = bf_gen p"
  by (simp_all add: buf_remove_end_def)

lemma buf_remove_begin_laws [buf_laws]:
  assumes "buf_wf p"
  shows "buf_wf (buf_remove_begin p n)" "buf_bytes (buf_remove_begin p n) = drop n (buf_bytes p)"
    "data_size (buf_remove_begin p n) = data_size p - n"
  using assms
  by (auto simp: buf_remove_begin_def Let_def buf_wf_def buf_bytes_def buf_ptr_def drop_take
      ac_simps)

lemma buf_remove_end_laws [buf_laws]:
  assumes "buf_wf p"
  shows "buf_wf (buf_remove_end p n)"
    "buf_bytes (buf_remove_end p n) = take (data_size p - n) (buf_bytes p)"
    "data_size (buf_remove_end p n) = data_size p - n"
  using assms
  by (auto simp: buf_remove_end_def buf_wf_def buf_bytes_def buf_ptr_def min_def)

subsection \<open>Resizing\<close>

text \<open>
  Shrinking never moves outside the block; the data that survives is its prefix of the new size.
\<close>

lemma buf_shrink_head_avail_laws:
  assumes "length (buf_mem p) \<ge> head_avail p + data_size p"
  obtains p' where "buf_shrink_head_avail p r = Some (r - head_avail p, p')"
    "length (buf_mem p') = length (buf_mem p)" "head_avail p' = head_avail p - r"
    "take (data_size p) (drop (head_avail p') (buf_mem p'))
       = take (data_size p) (drop (head_avail p) (buf_mem p))"
    "data_size p' = data_size p" "data_avail p' = data_avail p" "tail_avail p' = tail_avail p"
    "bf_gen p' = bf_gen p" "bf_data p' = bf_data p"
proof -
  define dst where "dst = head_avail p - r"
  define m where "m = take dst (buf_mem p) @ take (data_size p) (drop (head_avail p) (buf_mem p))
    @ drop (dst + data_size p) (buf_mem p)"
  have le: "dst + data_size p \<le> length (buf_mem p)"
    using assms by (simp add: dst_def)
  have move: "memmove (buf_mem p) dst (head_avail p) (data_size p) = Some m"
    unfolding m_def by (rule memmove_Some [OF le assms])
  have len: "length m = length (buf_mem p)"
    using move by (rule memmove_length)
  define q where "q = p\<lparr>bf_buffer := map_option (\<lambda>_. m) (bf_buffer p), head_avail := dst\<rparr>"
  have q: "buf_mem q = m"
    using buf_mem_map [OF len] by (simp add: q_def)
  have run: "buf_shrink_head_avail p r = Some (r - head_avail p, q)"
    using move by (auto simp: buf_shrink_head_avail_def q_def dst_def)
  have data: "take (data_size p) (drop dst m) = take (data_size p) (drop (head_avail p) (buf_mem p))"
    using assms le by (simp add: m_def)
  show ?thesis
    using that [OF run] q len data by (simp add: q_def dst_def)
qed

definition buf_shrunk :: "databuffer \<Rightarrow> nat \<Rightarrow> databuffer option" where
  "buf_shrunk p r =
     (let (itRem, p) = buf_shrink_data_avail p r;
          (itRem, p) = buf_shrink_tail_avail p itRem
      in do { (itRem, p) \<leftarrow> buf_shrink_head_avail p itRem; Some (buf_shrink_data p itRem) })"

lemma buf_shrink_avail:
  "buf_shrink_data_avail p r = (r - data_avail p, p\<lparr>data_avail := data_avail p - r\<rparr>)"
  "buf_shrink_tail_avail p r = (r - tail_avail p, p\<lparr>tail_avail := tail_avail p - r\<rparr>)"
  by (simp_all add: buf_shrink_data_avail_def buf_shrink_tail_avail_def)

lemma buf_shrunk_laws:
  assumes wf: "buf_wf p" and r: "r \<le> length (buf_mem p)"
  obtains p' where "buf_shrunk p r = Some p'"
    "length (buf_mem p') = length (buf_mem p)"
    "head_avail p' + data_avail p' + tail_avail p' + data_size p' = length (buf_mem p) - r"
    "data_size p' = min (data_size p) (length (buf_mem p) - r)"
    "take (data_size p') (drop (head_avail p') (buf_mem p'))
       = take (length (buf_mem p) - r) (buf_bytes p)"
    "bf_gen p' = bf_gen p"
proof -
  define r1 where "r1 = r - data_avail p"
  define r2 where "r2 = r1 - tail_avail p"
  define q where "q = p\<lparr>data_avail := data_avail p - r, tail_avail := tail_avail p - r1\<rparr>"
  have q: "buf_mem q = buf_mem p" "head_avail q = head_avail p" "data_size q = data_size p"
    "data_avail q = data_avail p - r" "tail_avail q = tail_avail p - r1" "bf_gen q = bf_gen p"
    by (simp_all add: q_def)
  have "length (buf_mem q) \<ge> head_avail q + data_size q"
    using wf by (simp add: q buf_wf_def)
  from buf_shrink_head_avail_laws [OF this, of r2] obtain p1 where p1:
    "buf_shrink_head_avail q r2 = Some (r2 - head_avail q, p1)"
    "length (buf_mem p1) = length (buf_mem q)" "head_avail p1 = head_avail q - r2"
    "take (data_size q) (drop (head_avail p1) (buf_mem p1))
       = take (data_size q) (drop (head_avail q) (buf_mem q))"
    "data_size p1 = data_size q" "data_avail p1 = data_avail q" "tail_avail p1 = tail_avail q"
    "bf_gen p1 = bf_gen q" by blast
  define p2 where "p2 = buf_shrink_data p1 (r2 - head_avail q)"
  have run: "buf_shrunk p r = Some p2"
    using p1(1) by (simp add: buf_shrunk_def buf_shrink_avail p2_def r2_def r1_def q_def)
  have p2: "data_size p2 = data_size p - (r2 - head_avail p)" "buf_mem p2 = buf_mem p1"
    "head_avail p2 = head_avail p - r2" "data_avail p2 = data_avail p - r"
    "tail_avail p2 = tail_avail p - r1" "bf_gen p2 = bf_gen p"
    using p1 q by (auto simp: p2_def buf_shrink_data_def)
  have len: "length (buf_mem p) = head_avail p + data_avail p + tail_avail p + data_size p"
    using wf by (simp add: buf_wf_def)
  have ds: "data_size p2 = min (data_size p) (length (buf_mem p) - r)"
    using p2(1) len r by (simp add: r1_def r2_def)
  have sum: "head_avail p2 + data_avail p2 + tail_avail p2 + data_size p2 = length (buf_mem p) - r"
  proof -
    have "data_avail p2 + r = data_avail p + r1" "tail_avail p2 + r1 = tail_avail p + r2"
      "head_avail p2 + r2 = head_avail p + (r2 - head_avail p)"
      by (simp_all add: p2 r1_def r2_def)
    moreover have "r2 - head_avail p \<le> data_size p"
      using len r by (simp add: r1_def r2_def)
    ultimately show ?thesis using len p2(1) by linarith
  qed
  have "take (data_size p2) (drop (head_avail p2) (buf_mem p2))
      = take (data_size p2) (take (data_size p) (drop (head_avail p2) (buf_mem p2)))"
    using ds by (simp add: min_def)
  also have "\<dots> = take (data_size p2) (buf_bytes p)"
    using p1(3,4) p2 q wf by (simp add: buf_bytes_def buf_ptr_def buf_wf_def)
  also have "\<dots> = take (length (buf_mem p) - r) (buf_bytes p)"
    using ds length_buf_bytes [OF wf] by (simp add: min_def)
  finally show ?thesis
    using that run sum ds p2 p1(2) q by simp
qed

lemma buf_resize_unfold:
  "buf_resize A p n =
     (do { (p, b) \<leftarrow> (if n < buf_total_size p
                      then do { p \<leftarrow> buf_shrunk p (buf_total_size p - n); Some (p, 0) }
                      else Some (p, n - buf_total_size p));
           (if n = 0
            then Some \<lparr>bf_buffer = None, bf_data = 0, head_avail = 0, data_avail = 0,
                       tail_avail = 0, data_size = 0, bf_gen = Suc (bf_gen p)\<rparr>
            else case realloc A (buf_mem p) n of None \<Rightarrow> Some p
              | Some tmp \<Rightarrow> Some (p\<lparr>data_avail := data_avail p + b, bf_buffer := Some tmp,
                                   bf_data := head_avail p, bf_gen := Suc (bf_gen p)\<rparr>)) })"
  by (simp add: buf_resize_def buf_shrunk_def Let_def split_beta)


text \<open>
  A resize either succeeds (the block has exactly the new size and keeps the longest prefix of the
  data that fits) or, when the allocator refuses to grow the block, changes nothing.
\<close>

lemma buf_resize_laws:
  assumes wf: "buf_wf p" and ok: "n = 0 \<or> malloc_ok A n"
  obtains p' where "buf_resize A p n = Some p'" "buf_wf p'" "buf_cap p' = n"
    "buf_bytes p' = take n (buf_bytes p)" "data_size p' = min (data_size p) n"
    "bf_gen p' = Suc (bf_gen p)"
proof -
  have tot: "buf_total_size p = length (buf_mem p)"
    by (rule buf_wf_total [OF wf])
  show ?thesis
  proof (cases "n = 0")
    case True
    have "\<exists>b q. (if n < buf_total_size p
                then do { p \<leftarrow> buf_shrunk p (buf_total_size p - n); Some (p, 0) }
                else Some (p, n - buf_total_size p)) = Some (q, b) \<and> bf_gen q = bf_gen p"
    proof (cases "buf_total_size p = 0")
      case True
      then show ?thesis using \<open>n = 0\<close> by simp
    next
      case False
      obtain p' where "buf_shrunk p (length (buf_mem p)) = Some p'" "bf_gen p' = bf_gen p"
        by (rule buf_shrunk_laws [OF wf order.refl])
      then show ?thesis using False \<open>n = 0\<close> tot by simp
    qed
    then show ?thesis
      using True that
      by (auto simp: buf_resize_unfold buf_wf_def buf_cap_def buf_mem_def buf_bytes_def buf_ptr_def)
  next
    case False
    with ok obtain f where f: "malloc A n = Some f" "length f = n" "n < 9223372036854775808"
      by (auto simp: malloc_ok_def dest: length_malloc malloc_bound)
    obtain q b where q: "(if n < buf_total_size p
          then do { p \<leftarrow> buf_shrunk p (buf_total_size p - n); Some (p, 0) }
          else Some (p, n - buf_total_size p)) = Some (q, b)"
      and part: "head_avail q + data_avail q + tail_avail q + data_size q + b = n"
      and ds: "data_size q = min (data_size p) n"
      and bts: "take (data_size q) (drop (head_avail q) (buf_mem q)) = take n (buf_bytes p)"
      and gen: "bf_gen q = bf_gen p"
      and len: "length (buf_mem q) = length (buf_mem p)"
      and fit: "head_avail q + data_size q \<le> length (buf_mem q)"
    proof (cases "n < buf_total_size p")
      case True
      have le: "length (buf_mem p) - n \<le> length (buf_mem p)" by simp
      have nn: "length (buf_mem p) - (length (buf_mem p) - n) = n" using True tot by simp
      obtain p' where p': "buf_shrunk p (length (buf_mem p) - n) = Some p'"
        "length (buf_mem p') = length (buf_mem p)"
        "head_avail p' + data_avail p' + tail_avail p' + data_size p' = n"
        "data_size p' = min (data_size p) n"
        "take (data_size p') (drop (head_avail p') (buf_mem p')) = take n (buf_bytes p)"
        "bf_gen p' = bf_gen p"
        by (rule buf_shrunk_laws [OF wf le, unfolded nn])
      have "head_avail p' + data_size p' \<le> length (buf_mem p')"
        using p'(2,3) True tot by linarith
      then show ?thesis using that [of p' 0] p' True tot by simp
    next
      case False
      have "length (buf_mem p) \<le> n" using False tot by simp
      with wf have d: "data_size p \<le> n" "head_avail p + data_size p \<le> length (buf_mem p)"
        "head_avail p + data_avail p + tail_avail p + data_size p = length (buf_mem p)"
        by (simp_all add: buf_wf_def)
      have "take (data_size p) (drop (head_avail p) (buf_mem p)) = take n (buf_bytes p)"
        using wf d by (simp add: buf_bytes_def buf_ptr_def buf_wf_def)
      then show ?thesis
        using that [of p "n - length (buf_mem p)"] d False tot by simp
    qed
    define m where "m = take n (buf_mem q) @ drop (length (buf_mem q)) f"
    have m: "realloc A (buf_mem q) n = Some m"
      using f by (simp add: realloc_def m_def)
    have lenm: "length m = n" by (rule length_realloc [OF m])
    define r where "r = q\<lparr>data_avail := data_avail q + b, bf_buffer := Some m,
      bf_data := head_avail q, bf_gen := Suc (bf_gen q)\<rparr>"
    have run: "buf_resize A p n = Some r"
      using q False m by (simp add: buf_resize_unfold r_def)
    have r: "buf_mem r = m" "bf_data r = head_avail r" "head_avail r = head_avail q"
      "data_size r = data_size q" "data_avail r = data_avail q + b" "tail_avail r = tail_avail q"
      by (simp_all add: r_def buf_mem_def)
    have hd: "head_avail q + data_size q \<le> n" using part by linarith
    have "take (head_avail q + data_size q) m = take (head_avail q + data_size q) (buf_mem q)"
      by (rule realloc_keeps [OF m hd fit])
    then have "take (data_size q) (drop (head_avail q) m)
        = take (data_size q) (drop (head_avail q) (buf_mem q))"
      by (metis take_drop add.commute)
    with bts have bytes: "buf_bytes r = take n (buf_bytes p)"
      by (simp add: buf_bytes_def buf_ptr_def r)
    have "buf_wf r"
      unfolding buf_wf_def r lenm using part f(3) by simp
    then show ?thesis
      using that [OF run] bytes lenm r ds gen by (simp add: buf_cap_def r_def)
  qed
qed

lemma buf_resize_refused:
  assumes wf: "buf_wf p" and grow: "length (buf_mem p) \<le> n" and "n \<noteq> 0" and "\<not> malloc_ok A n"
  shows "buf_resize A p n = Some p"
  using assms buf_wf_total [OF wf]
  by (auto simp: buf_resize_unfold malloc_ok_def realloc_def)

text \<open>Growing keeps the bytes before the free tail and adds the new space to the shared part.\<close>

lemma buf_grow_laws:
  assumes wf: "buf_wf p" and grow: "length (buf_mem p) < n" and ok: "malloc_ok A n"
  obtains m where "buf_resize A p n = Some (p\<lparr>data_avail := data_avail p + (n - length (buf_mem p)),
      bf_buffer := Some m, bf_data := head_avail p, bf_gen := Suc (bf_gen p)\<rparr>)"
    "length m = n" "take (length (buf_mem p)) m = buf_mem p"
proof -
  obtain m where m: "realloc A (buf_mem p) n = Some m"
    using ok by (auto simp: malloc_ok_def realloc_def)
  have "take (length (buf_mem p)) m = buf_mem p"
    using realloc_keeps [OF m less_imp_le [OF grow]] by simp
  moreover have "buf_resize A p n = Some (p\<lparr>data_avail := data_avail p + (n - length (buf_mem p)),
      bf_buffer := Some m, bf_data := head_avail p, bf_gen := Suc (bf_gen p)\<rparr>)"
    using m grow buf_wf_total [OF wf] by (simp add: buf_resize_unfold)
  ultimately show ?thesis using that length_realloc [OF m] by blast
qed


subsection \<open>Reserving and inserting\<close>

text \<open>
  Room for \<open>n\<close> more bytes: there is free space, or the allocator grants the larger block.
\<close>

definition buf_room_end :: "alloc \<Rightarrow> databuffer \<Rightarrow> nat \<Rightarrow> bool" where
  "buf_room_end A p n \<longleftrightarrow> n < 9223372036854775808 \<and> (n \<le> tail_avail p + data_avail p
     \<or> malloc_ok A (head_avail p + data_size p + n))"

definition buf_room_begin :: "alloc \<Rightarrow> databuffer \<Rightarrow> nat \<Rightarrow> bool" where
  "buf_room_begin A p n \<longleftrightarrow> n < 9223372036854775808 \<and> (n \<le> head_avail p + data_avail p
     \<or> malloc_ok A (tail_avail p + data_size p + n))"

lemma buf_reserve_end_laws:
  assumes wf: "buf_wf p" and room: "buf_room_end A p n"
  obtains p' where "buf_reserve_end A p n = Some (Some (head_avail p + data_size p), p')"
    "buf_wf p'" "head_avail p' = head_avail p" "data_size p' = data_size p + n"
    "take (data_size p) (buf_bytes p') = buf_bytes p"
    "buf_cap p' = max (buf_cap p) (head_avail p + data_size p + n)"
    "n \<le> tail_avail p + data_avail p \<Longrightarrow> bf_gen p' = bf_gen p"
proof -
  have len: "length (buf_mem p) = head_avail p + data_avail p + tail_avail p + data_size p"
    and lt: "length (buf_mem p) < 9223372036854775808" and bd: "bf_data p = head_avail p"
    using wf by (simp_all add: buf_wf_def)
  have n: "n < 9223372036854775808" using room by (simp add: buf_room_end_def)
  have u: "u64 (int (tail_avail p + data_avail p)) = tail_avail p + data_avail p"
    "u64 (int (data_size p + n)) = data_size p + n"
    using len lt n by (simp_all add: u64_id)
  show ?thesis
  proof (cases "n \<le> tail_avail p + data_avail p")
    case True
    define p' where "p' = p\<lparr>tail_avail := tail_avail p - n, data_avail := data_avail p - (n - tail_avail p),
      data_size := data_size p + n, bf_data := head_avail p\<rparr>"
    have "u64 (int (data_avail p) - (int n - int (tail_avail p))) = data_avail p - (n - tail_avail p)"
      if "n > tail_avail p"
    proof -
      have "int (data_avail p) - (int n - int (tail_avail p)) = int (data_avail p - (n - tail_avail p))"
        using that True by linarith
      then show ?thesis using len lt by (simp add: u64_id)
    qed
    then have run: "buf_reserve_end A p n = Some (Some (head_avail p + data_size p), p')"
      using True u by (auto simp: buf_reserve_end_def p'_def)
    have p': "buf_mem p' = buf_mem p" "head_avail p' = head_avail p" "data_size p' = data_size p + n"
      "bf_gen p' = bf_gen p" "bf_data p' = head_avail p"
      "data_avail p' + tail_avail p' + n = data_avail p + tail_avail p"
      using True by (auto simp: p'_def)
    have "buf_wf p'" unfolding buf_wf_def p' using len lt p'(6) by simp
    moreover have "take (data_size p) (buf_bytes p') = buf_bytes p"
      by (simp add: buf_bytes_def buf_ptr_def p' bd)
    ultimately show ?thesis using that [OF run] p' len True by (simp add: buf_cap_def)
  next
    case False
    define k where "k = head_avail p + data_size p + n"
    have k: "length (buf_mem p) < k" using False len by (simp add: k_def)
    have "malloc_ok A k" using room False by (simp add: buf_room_end_def k_def)
    from buf_grow_laws [OF wf k this] obtain m where
      m: "buf_resize A p k = Some (p\<lparr>data_avail := data_avail p + (k - length (buf_mem p)),
        bf_buffer := Some m, bf_data := head_avail p, bf_gen := Suc (bf_gen p)\<rparr>)"
        "length m = k" "take (length (buf_mem p)) m = buf_mem p" by blast
    have kk: "k < 9223372036854775808"
      using \<open>malloc_ok A k\<close> by (auto simp: malloc_ok_def dest: malloc_bound)
    have "int (buf_total_size p) + int n - int (tail_avail p) - int (data_avail p) = int k"
      using len by (simp add: buf_wf_total [OF wf] k_def)
    then have uk: "u64 (int (buf_total_size p) + int n - int (tail_avail p) - int (data_avail p)) = k"
      using kk by (simp add: u64_id)
    define p' where "p' = p\<lparr>data_avail := 0, bf_buffer := Some m, bf_data := head_avail p,
      bf_gen := Suc (bf_gen p), tail_avail := 0, data_size := data_size p + n\<rparr>"
    have run: "buf_reserve_end A p n = Some (Some (head_avail p + data_size p), p')"
      using False u uk m(1) k by (simp add: buf_reserve_end_def p'_def)
    have p': "buf_mem p' = m" "head_avail p' = head_avail p" "data_size p' = data_size p + n"
      "bf_data p' = head_avail p" "data_avail p' = 0" "tail_avail p' = 0"
      by (simp_all add: p'_def buf_mem_def)
    have "buf_wf p'" unfolding buf_wf_def p' using m(2) kk by (simp add: k_def)
    moreover have "take (data_size p) (buf_bytes p') = buf_bytes p"
    proof -
      have "take (head_avail p + data_size p) m = take (head_avail p + data_size p) (buf_mem p)"
        using m(3) len by (metis le_add1 add.assoc add.commute take_take min.absorb1)
      then have "take (data_size p) (drop (head_avail p) m) = take (data_size p) (drop (head_avail p) (buf_mem p))"
        by (metis take_drop add.commute)
      then show ?thesis by (simp add: buf_bytes_def buf_ptr_def p' bd)
    qed
    ultimately show ?thesis using that [OF run] p' m(2) k False by (simp add: buf_cap_def k_def)
  qed
qed

lemma buf_reserve_end_refused:
  assumes wf: "buf_wf p" and "\<not> n \<le> tail_avail p + data_avail p" and n: "n < 9223372036854775808"
    and no: "\<not> malloc_ok A (head_avail p + data_size p + n)"
  shows "buf_reserve_end A p n = Some (None, p)"
proof -
  have len: "length (buf_mem p) = head_avail p + data_avail p + tail_avail p + data_size p"
    and lt: "length (buf_mem p) < 9223372036854775808"
    using wf by (simp_all add: buf_wf_def)
  have u: "u64 (int (tail_avail p + data_avail p)) = tail_avail p + data_avail p"
    using len lt by (simp add: u64_id)
  define k where "k = head_avail p + data_size p + n"
  have eq: "int (buf_total_size p) + int n - int (tail_avail p) - int (data_avail p) = int k"
    using len by (simp add: buf_wf_total [OF wf] k_def)
  have "k < 18446744073709551616" using len lt n by (simp add: k_def)
  then have uk: "u64 (int (buf_total_size p) + int n - int (tail_avail p) - int (data_avail p)) = k"
    unfolding eq by (simp add: u64_id)
  have "buf_resize A p k = Some p"
    by (rule buf_resize_refused [OF wf]) (use assms len in \<open>simp_all add: k_def\<close>)
  then show ?thesis using assms(2) u uk by (simp add: buf_reserve_end_def)
qed


lemma buf_reserve_begin_laws:
  assumes wf: "buf_wf p" and room: "buf_room_begin A p n"
  obtains off p' where "buf_reserve_begin A p n = Some (Some off, p')" "off = head_avail p'"
    "buf_wf p'" "data_size p' = data_size p + n" "drop n (buf_bytes p') = buf_bytes p"
    "buf_cap p' = max (buf_cap p) (tail_avail p + data_size p + n)"
proof -
  have len: "length (buf_mem p) = head_avail p + data_avail p + tail_avail p + data_size p"
    and lt: "length (buf_mem p) < 9223372036854775808" and bd: "bf_data p = head_avail p"
    using wf by (simp_all add: buf_wf_def)
  have n: "n < 9223372036854775808" using room by (simp add: buf_room_begin_def)
  have u: "u64 (int (head_avail p + data_avail p)) = head_avail p + data_avail p"
    "u64 (int (data_size p + n)) = data_size p + n"
    using len lt n by (simp_all add: u64_id)
  consider (head) "n \<le> head_avail p" | (free) "n > head_avail p" "n \<le> head_avail p + data_avail p"
    | (grow) "n > head_avail p + data_avail p" by linarith
  then show ?thesis
  proof cases
    case head
    define p' where "p' = p\<lparr>head_avail := head_avail p - n, data_size := data_size p + n,
      bf_data := head_avail p - n\<rparr>"
    have run: "buf_reserve_begin A p n = Some (Some (head_avail p - n), p')"
      using head by (simp add: buf_reserve_begin_def p'_def)
    have "buf_bytes p' = take (n + data_size p) (drop (head_avail p - n) (buf_mem p))"
      by (simp add: p'_def buf_bytes_def buf_ptr_def add.commute)
    then have "drop n (buf_bytes p') = buf_bytes p"
      using head by (simp add: drop_take buf_bytes_def buf_ptr_def bd)
    moreover have "buf_wf p'" using len lt head by (simp add: p'_def buf_wf_def)
    ultimately show ?thesis using that [OF run] len head by (simp add: p'_def buf_cap_def)
  next
    case free
    define d where "d = data_avail p - (n - head_avail p)"
    have "int (data_avail p) - (int n - int (head_avail p)) = int d"
      using free by (simp add: d_def)
    moreover have "d < 18446744073709551616" using len lt by (simp add: d_def)
    ultimately have ud: "u64 (int (data_avail p) - (int n - int (head_avail p))) = d"
      by (simp add: u64_id)
    have le: "n + data_size p \<le> length (buf_mem p)" "head_avail p + data_size p \<le> length (buf_mem p)"
      using len free by simp_all
    define m where "m = take n (buf_mem p) @ take (data_size p) (drop (head_avail p) (buf_mem p))
      @ drop (n + data_size p) (buf_mem p)"
    have move: "memmove (buf_mem p) n (head_avail p) (data_size p) = Some m"
      unfolding m_def by (rule memmove_Some [OF le])
    have lenm: "length m = length (buf_mem p)" by (rule memmove_length [OF move])
    define p' where "p' = p\<lparr>data_avail := d, bf_buffer := map_option (\<lambda>_. m) (bf_buffer p),
      head_avail := 0, bf_data := 0, data_size := data_size p + n\<rparr>"
    have "\<not> n \<le> head_avail p" "\<not> u64 (int (head_avail p + data_avail p)) < n"
      using free u(1) by linarith+
    then have run: "buf_reserve_begin A p n = Some (Some 0, p')"
      using move u(2) ud unfolding buf_reserve_begin_def p'_def
      by (simp add: buf_mem_def)
    have mem': "buf_mem p' = m"
      using buf_mem_map [OF lenm] by (simp add: p'_def buf_mem_def)
    have "buf_bytes p' = take (n + data_size p) m"
      unfolding buf_bytes_def buf_ptr_def mem' by (simp add: p'_def add.commute)
    then have "drop n (buf_bytes p') = buf_bytes p"
      using le by (simp add: m_def drop_take buf_bytes_def buf_ptr_def bd)
    moreover have "buf_wf p'"
      unfolding buf_wf_def mem' lenm using len lt free by (simp add: p'_def d_def)
    ultimately show ?thesis
      using that [OF run] len free mem' lenm by (simp add: p'_def buf_cap_def)
  next
    case grow
    define k where "k = tail_avail p + data_size p + n"
    have k: "length (buf_mem p) < k" using grow len by (simp add: k_def)
    have ok: "malloc_ok A k" using room grow by (simp add: buf_room_begin_def k_def)
    from buf_grow_laws [OF wf k ok] obtain m where
      m: "buf_resize A p k = Some (p\<lparr>data_avail := data_avail p + (k - length (buf_mem p)),
        bf_buffer := Some m, bf_data := head_avail p, bf_gen := Suc (bf_gen p)\<rparr>)"
        "length m = k" "take (length (buf_mem p)) m = buf_mem p" by blast
    have kk: "k < 9223372036854775808" using ok by (auto simp: malloc_ok_def dest: malloc_bound)
    have "int (buf_total_size p) + int n - int (head_avail p) - int (data_avail p) = int k"
      using len by (simp add: buf_wf_total [OF wf] k_def)
    then have uk: "u64 (int (buf_total_size p) + int n - int (head_avail p) - int (data_avail p)) = k"
      using kk by (simp add: u64_id)
    have le: "n + data_size p \<le> length m" "head_avail p + data_size p \<le> length m"
      using m(2) k len by (simp_all add: k_def)
    define m' where "m' = take n m @ take (data_size p) (drop (head_avail p) m) @ drop (n + data_size p) m"
    have move: "memmove m n (head_avail p) (data_size p) = Some m'"
      unfolding m'_def by (rule memmove_Some [OF le])
    have lenm: "length m' = k" using memmove_length [OF move] m(2) by simp
    define p' where "p' = p\<lparr>data_avail := 0, bf_buffer := Some m', head_avail := 0, bf_data := 0,
      bf_gen := Suc (bf_gen p), data_size := data_size p + n\<rparr>"
    have "\<not> n \<le> head_avail p" "u64 (int (head_avail p + data_avail p)) < n"
      using grow u(1) by linarith+
    then have run: "buf_reserve_begin A p n = Some (Some 0, p')"
      using move u(2) uk m(1) k unfolding buf_reserve_begin_def p'_def by simp
    have mem': "buf_mem p' = m'" by (simp add: p'_def buf_mem_def)
    have "take (head_avail p + data_size p) m = take (head_avail p + data_size p) (buf_mem p)"
      using m(3) len by (metis le_add1 add.assoc add.commute take_take min.absorb1)
    then have dat: "take (data_size p) (drop (head_avail p) m) = buf_bytes p"
      by (metis take_drop add.commute bd buf_bytes_def buf_ptr_def)
    have "buf_bytes p' = take (n + data_size p) m'"
      unfolding buf_bytes_def buf_ptr_def mem' by (simp add: p'_def add.commute)
    then have "drop n (buf_bytes p') = buf_bytes p"
      using le dat length_buf_bytes [OF wf] by (simp add: m'_def drop_take)
    moreover have "buf_wf p'" unfolding buf_wf_def mem' lenm using kk by (simp add: p'_def k_def)
    ultimately show ?thesis
      using that [OF run] len grow mem' lenm k by (simp add: p'_def buf_cap_def k_def)
  qed
qed


text \<open>A store inside the valid data replaces exactly those bytes.\<close>

lemma buf_store_laws:
  assumes wf: "buf_wf p" and lo: "head_avail p \<le> off"
    and hi: "off + length d \<le> head_avail p + data_size p"
  obtains p' where "buf_store p (Some off) d = Some p'" "buf_wf p'" "head_avail p' = head_avail p"
    "data_size p' = data_size p" "tail_avail p' = tail_avail p" "data_avail p' = data_avail p"
    "bf_gen p' = bf_gen p" "buf_cap p' = buf_cap p"
    "buf_bytes p' = take (off - head_avail p) (buf_bytes p) @ d
        @ drop (off - head_avail p + length d) (buf_bytes p)"
proof -
  have len: "length (buf_mem p) = head_avail p + data_avail p + tail_avail p + data_size p"
    and bd: "bf_data p = head_avail p"
    using wf by (simp_all add: buf_wf_def)
  define m where "m = take off (buf_mem p) @ d @ drop (off + length d) (buf_mem p)"
  have w: "mem_write (buf_mem p) off d = Some m"
    unfolding m_def using hi len by (intro mem_write_Some) simp
  have lenm: "length m = length (buf_mem p)" by (rule mem_write_length [OF w])
  define p' where "p' = p\<lparr>bf_buffer := map_option (\<lambda>_. m) (bf_buffer p)\<rparr>"
  have run: "buf_store p (Some off) d = Some p'" by (simp add: buf_store_def w p'_def)
  have mem': "buf_mem p' = m" unfolding p'_def by (rule buf_mem_map [OF lenm])
  have f: "head_avail p' = head_avail p" "data_size p' = data_size p" "tail_avail p' = tail_avail p"
    "data_avail p' = data_avail p" "bf_gen p' = bf_gen p" "bf_data p' = bf_data p"
    by (simp_all add: p'_def)
  have "buf_wf p'" using wf by (simp add: buf_wf_def mem' lenm f)
  moreover have "buf_bytes p' = take (off - head_avail p) (buf_bytes p) @ d
        @ drop (off - head_avail p + length d) (buf_bytes p)"
  proof -
    define a where "a = off - head_avail p"
    have off: "off = head_avail p + a" using lo by (simp add: a_def)
    have "buf_bytes p' = take (data_size p) (take a (drop (head_avail p) (buf_mem p)) @ d
        @ drop (off + length d) (buf_mem p))"
      using hi len unfolding buf_bytes_def buf_ptr_def mem' f bd m_def
      by (simp add: off drop_take)
    also have "\<dots> = take a (drop (head_avail p) (buf_mem p)) @ d
        @ take (data_size p - (a + length d)) (drop (head_avail p + (a + length d)) (buf_mem p))"
    proof -
      have "length (take a (drop (head_avail p) (buf_mem p))) = a"
        "a \<le> data_size p" "length d \<le> data_size p - a"
        using hi len off by simp_all
      then show ?thesis by (simp add: off add.assoc del: length_take)
    qed
    also have "\<dots> = take a (buf_bytes p) @ d @ drop (a + length d) (buf_bytes p)"
      using hi off by (simp add: buf_bytes_def buf_ptr_def bd drop_take min_def ac_simps)
    finally show ?thesis by (simp add: a_def)
  qed
  ultimately show ?thesis using that [OF run] f mem' lenm by (simp add: buf_cap_def)
qed

text \<open>The free tail is only given back by removals at the end.\<close>

lemma buf_resize_tail: "buf_resize A p n = Some p' \<Longrightarrow> tail_avail p' \<le> tail_avail p"
  by (auto simp: buf_resize_def Let_def buf_shrink_data_avail_def buf_shrink_tail_avail_def
      buf_shrink_head_avail_def buf_shrink_data_def split: if_splits option.splits Option.bind_splits)

lemma buf_reserve_end_tail: "buf_reserve_end A p n = Some (off, p') \<Longrightarrow> tail_avail p' \<le> tail_avail p"
  by (auto simp: buf_reserve_end_def dest!: buf_resize_tail split: if_splits Option.bind_splits)

lemma buf_store_tail: "buf_store p dest d = Some p' \<Longrightarrow> tail_avail p' = tail_avail p"
  by (auto simp: buf_store_def split: option.splits Option.bind_splits)

lemma buf_insert_end_tail: "buf_insert_end A p src n = Some p' \<Longrightarrow> tail_avail p' \<le> tail_avail p"
  by (auto simp: buf_insert_end_def dest!: buf_reserve_end_tail buf_store_tail split: Option.bind_splits)
definition buf_free_end :: "databuffer \<Rightarrow> nat" where
  "buf_free_end p = tail_avail p + data_avail p"

lemma buf_room_fits: "buf_wf p \<Longrightarrow> n \<le> buf_free_end p \<Longrightarrow> buf_room_end A p n"
  by (auto simp: buf_room_end_def buf_free_end_def buf_wf_def)

text \<open>
  Reserving at the end and storing \<open>d\<close> there appends \<open>d\<close>; this is what every caller does with
  the pointer it gets.
\<close>

lemma buf_reserve_store_end:
  assumes wf: "buf_wf p" and room: "buf_room_end A p (length d)"
  obtains off p1 p' where "buf_reserve_end A p (length d) = Some (Some off, p1)"
    "buf_store p1 (Some off) d = Some p'" "buf_wf p'" "buf_bytes p' = buf_bytes p @ d"
    "data_size p' = data_size p + length d" "head_avail p' = head_avail p"
    "buf_cap p' = max (buf_cap p) (head_avail p + data_size p + length d)"
    "length d \<le> buf_free_end p \<Longrightarrow>
       bf_gen p' = bf_gen p \<and> buf_free_end p' = buf_free_end p - length d"
proof -
  obtain p1 where r: "buf_reserve_end A p (length d) = Some (Some (head_avail p + data_size p), p1)"
    and wf1: "buf_wf p1" and h1: "head_avail p1 = head_avail p"
    and d1: "data_size p1 = data_size p + length d" and b1: "take (data_size p) (buf_bytes p1) = buf_bytes p"
    and c1: "buf_cap p1 = max (buf_cap p) (head_avail p + data_size p + length d)"
    and g1: "length d \<le> tail_avail p + data_avail p \<Longrightarrow> bf_gen p1 = bf_gen p"
    by (rule buf_reserve_end_laws [OF wf room]) blast
  have lo: "head_avail p1 \<le> head_avail p + data_size p"
    and hi: "head_avail p + data_size p + length d \<le> head_avail p1 + data_size p1"
    using h1 d1 by simp_all
  obtain p' where s: "buf_store p1 (Some (head_avail p + data_size p)) d = Some p'"
    and wf': "buf_wf p'" and h': "head_avail p' = head_avail p1" and d': "data_size p' = data_size p1"
    and g': "bf_gen p' = bf_gen p1" and c': "buf_cap p' = buf_cap p1"
    and b': "buf_bytes p' = take (head_avail p + data_size p - head_avail p1) (buf_bytes p1) @ d
        @ drop (head_avail p + data_size p - head_avail p1 + length d) (buf_bytes p1)"
    by (rule buf_store_laws [OF wf1 lo hi]) blast
  have bytes: "buf_bytes p' = buf_bytes p @ d"
    using b' b1 d1 h1 length_buf_bytes [OF wf1] by simp
  have free: "buf_free_end p' = buf_free_end p - length d" if "length d \<le> buf_free_end p"
    using that wf wf' c' c1 d' d1 h' h1
    by (simp add: buf_wf_def buf_free_end_def buf_cap_def max_def split: if_splits)
  show ?thesis
    by (rule that [OF r s wf' bytes])
      (use d' d1 h' h1 c' c1 g' g1 free in \<open>simp_all add: buf_free_end_def\<close>)
qed

lemma buf_insert_end_laws:
  assumes wf: "buf_wf p" and n: "n \<le> length src" and room: "buf_room_end A p n"
  obtains p' where "buf_insert_end A p src n = Some p'" "buf_wf p'"
    "buf_bytes p' = buf_bytes p @ take n src" "data_size p' = data_size p + n"
    "head_avail p' = head_avail p" "buf_cap p' = max (buf_cap p) (head_avail p + data_size p + n)"
    "n \<le> buf_free_end p \<Longrightarrow> bf_gen p' = bf_gen p \<and> buf_free_end p' = buf_free_end p - n"
proof -
  have l: "length (take n src) = n" using n by simp
  obtain off p1 p' where r: "buf_reserve_end A p n = Some (Some off, p1)"
    and s: "buf_store p1 (Some off) (take n src) = Some p'" and w: "buf_wf p'"
      "buf_bytes p' = buf_bytes p @ take n src" "data_size p' = data_size p + n"
      "head_avail p' = head_avail p" "buf_cap p' = max (buf_cap p) (head_avail p + data_size p + n)"
    and g: "n \<le> buf_free_end p \<Longrightarrow> bf_gen p' = bf_gen p \<and> buf_free_end p' = buf_free_end p - n"
    by (rule buf_reserve_store_end [OF wf, of A "take n src", unfolded l, OF room]) blast
  have "buf_insert_end A p src n = Some p'"
    using r s n by (simp add: buf_insert_end_def mem_simps)
  then show ?thesis using that w g by blast
qed

lemma buf_insert_begin_laws:
  assumes wf: "buf_wf p" and n: "n \<le> length src" and room: "buf_room_begin A p n"
  obtains p' where "buf_insert_begin A p src n = Some p'" "buf_wf p'"
    "buf_bytes p' = take n src @ buf_bytes p" "data_size p' = data_size p + n"
    "buf_cap p' = max (buf_cap p) (tail_avail p + data_size p + n)"
proof -
  obtain off p1 where r: "buf_reserve_begin A p n = Some (Some off, p1)" and off: "off = head_avail p1"
    and wf1: "buf_wf p1" and d1: "data_size p1 = data_size p + n"
    and b1: "drop n (buf_bytes p1) = buf_bytes p"
    and c1: "buf_cap p1 = max (buf_cap p) (tail_avail p + data_size p + n)"
    by (rule buf_reserve_begin_laws [OF wf room]) blast
  have lo: "head_avail p1 \<le> off" and hi: "off + length (take n src) \<le> head_avail p1 + data_size p1"
    using off d1 n by simp_all
  obtain p' where s: "buf_store p1 (Some off) (take n src) = Some p'" and wf': "buf_wf p'"
    and d': "data_size p' = data_size p1" and c': "buf_cap p' = buf_cap p1"
    and b': "buf_bytes p' = take (off - head_avail p1) (buf_bytes p1) @ take n src
        @ drop (off - head_avail p1 + length (take n src)) (buf_bytes p1)"
    by (rule buf_store_laws [OF wf1 lo hi]) blast
  have "buf_bytes p' = take n src @ buf_bytes p" using b' b1 off n by (simp add: min_def)
  moreover have "buf_insert_begin A p src n = Some p'"
    using r s n by (simp add: buf_insert_begin_def mem_simps)
  ultimately show ?thesis using that wf' d' d1 c' c1 by simp
qed


text \<open>A buffer holding given bytes with \<open>k\<close> free bytes behind them, for examples.\<close>

definition buf_holding :: "byte list \<Rightarrow> nat \<Rightarrow> databuffer" where
  "buf_holding d k = \<lparr>bf_buffer = Some (d @ replicate k 0), bf_data = 0, head_avail = 0,
     data_avail = k, tail_avail = 0, data_size = length d, bf_gen = 0\<rparr>"

lemma buf_holding_simps [simp]:
  "buf_mem (buf_holding d k) = d @ replicate k 0" "buf_bytes (buf_holding d k) = d"
  "data_size (buf_holding d k) = length d" "head_avail (buf_holding d k) = 0"
  "tail_avail (buf_holding d k) = 0" "data_avail (buf_holding d k) = k"
  "buf_ptr (buf_holding d k) = d @ replicate k 0" "bf_gen (buf_holding d k) = 0"
  by (simp_all add: buf_holding_def buf_mem_def buf_bytes_def buf_ptr_def)

lemma buf_wf_holding: "length d + k < 9223372036854775808 \<Longrightarrow> buf_wf (buf_holding d k)"
  by (simp add: buf_wf_def) (simp add: buf_holding_def)

section \<open>The buffer as a byte queue\<close>

text \<open>
  What the users of a buffer rely on: appending within the free space concatenates, dropping from
  the front drops. The senders of the library build their packets through this interface.
\<close>

primrec append_all :: "('b \<Rightarrow> byte list \<Rightarrow> 'b option) \<Rightarrow> 'b \<Rightarrow> byte list list \<Rightarrow> 'b option" where
  "append_all f b [] = Some b"
| "append_all f b (d # ds) = do { b' \<leftarrow> f b d; append_all f b' ds }"

locale byte_queue =
  fixes valid :: "'b \<Rightarrow> bool" and contents :: "'b \<Rightarrow> byte list" and room :: "'b \<Rightarrow> nat"
    and stamp :: "'b \<Rightarrow> nat" and append_end :: "'b \<Rightarrow> byte list \<Rightarrow> 'b option" and drop_front :: "'b \<Rightarrow> nat \<Rightarrow> 'b"
  assumes append_fits: "valid b \<Longrightarrow> length d \<le> room b \<Longrightarrow>
      \<exists>b'. append_end b d = Some b' \<and> valid b' \<and> contents b' = contents b @ d
           \<and> room b' = room b - length d \<and> stamp b' = stamp b"
    and drop_valid: "valid b \<Longrightarrow> valid (drop_front b n)"
    and drop_contents: "valid b \<Longrightarrow> contents (drop_front b n) = drop n (contents b)"
begin

lemma append_all_fits:
  "valid b \<Longrightarrow> length (concat ds) \<le> room b \<Longrightarrow>
   \<exists>b'. append_all append_end b ds = Some b' \<and> valid b' \<and> contents b' = contents b @ concat ds
        \<and> room b' = room b - length (concat ds) \<and> stamp b' = stamp b"
proof (induction ds arbitrary: b)
  case Nil
  then show ?case by simp
next
  case (Cons d ds)
  then obtain b' where b': "append_end b d = Some b'" "valid b'" "contents b' = contents b @ d"
    "room b' = room b - length d" "stamp b' = stamp b"
    using append_fits [of b d] by auto
  moreover have "length (concat ds) \<le> room b'" using Cons.prems(2) b'(4) by simp
  ultimately show ?case using Cons.IH [of b'] by auto
qed

lemma append_all_drain:
  assumes "valid b" "contents b = []" "length (concat ds) \<le> room b"
  obtains b' where "append_all append_end b ds = Some b'"
    "contents (drop_front b' (length (concat ds))) = []"
    "\<And>k. contents (drop_front b' k) = drop k (concat ds)"
  using append_all_fits [OF assms(1,3)] assms(2) drop_contents by force

end

interpretation netbuf: byte_queue buf_wf buf_bytes buf_free_end bf_gen
    "\<lambda>p d. buf_insert_end A p d (length d)" buf_remove_begin for A :: alloc
proof unfold_locales
  fix b and d :: "byte list"
  assume wf: "buf_wf b" and fits: "length d \<le> buf_free_end b"
  obtain p' where "buf_insert_end A b d (length d) = Some p'" "buf_wf p'"
    "buf_bytes p' = buf_bytes b @ take (length d) d"
    "length d \<le> buf_free_end b \<Longrightarrow> bf_gen p' = bf_gen b \<and> buf_free_end p' = buf_free_end b - length d"
    by (rule buf_insert_end_laws [OF wf order.refl buf_room_fits [OF wf fits]]) blast
  then show "\<exists>b'. buf_insert_end A b d (length d) = Some b' \<and> buf_wf b'
      \<and> buf_bytes b' = buf_bytes b @ d \<and> buf_free_end b' = buf_free_end b - length d
      \<and> bf_gen b' = bf_gen b"
    using fits by simp
qed (simp_all add: buf_laws)

section \<open>The buffer implements a double-ended byte sequence\<close>

datatype buf_op = InsertEnd "byte list" | InsertBegin "byte list" | RemoveBegin nat
  | RemoveEnd nat | Reuse | Resize nat

text \<open>The specification: what each operation does to the sequence of valid bytes.\<close>

primrec seq_op :: "byte list \<Rightarrow> buf_op \<Rightarrow> byte list" where
  "seq_op xs (InsertEnd d) = xs @ d"
| "seq_op xs (InsertBegin d) = d @ xs"
| "seq_op xs (RemoveBegin n) = drop n xs"
| "seq_op xs (RemoveEnd n) = take (length xs - n) xs"
| "seq_op xs Reuse = []"
| "seq_op xs (Resize n) = take n xs"

primrec buf_do :: "alloc \<Rightarrow> databuffer \<Rightarrow> buf_op \<Rightarrow> databuffer option" where
  "buf_do A p (InsertEnd d) = buf_insert_end A p d (length d)"
| "buf_do A p (InsertBegin d) = buf_insert_begin A p d (length d)"
| "buf_do A p (RemoveBegin n) = Some (buf_remove_begin p n)"
| "buf_do A p (RemoveEnd n) = Some (buf_remove_end p n)"
| "buf_do A p Reuse = Some (buf_reuse p)"
| "buf_do A p (Resize n) = buf_resize A p n"

primrec buf_run :: "alloc \<Rightarrow> databuffer \<Rightarrow> buf_op list \<Rightarrow> databuffer option" where
  "buf_run A p [] = Some p"
| "buf_run A p (x # xs) = do { p' \<leftarrow> buf_do A p x; buf_run A p' xs }"

primrec op_bytes :: "buf_op \<Rightarrow> nat" where
  "op_bytes (InsertEnd d) = length d"
| "op_bytes (InsertBegin d) = length d"
| "op_bytes (RemoveBegin n) = 0"
| "op_bytes (RemoveEnd n) = 0"
| "op_bytes Reuse = 0"
| "op_bytes (Resize n) = n"

lemma buf_do_refines:
  assumes A: "generous A" and wf: "buf_wf p" and small: "buf_cap p + op_bytes x < 9223372036854775808"
  obtains p' where "buf_do A p x = Some p'" "buf_wf p'" "buf_bytes p' = seq_op (buf_bytes p) x"
    "buf_cap p' \<le> buf_cap p + op_bytes x"
proof -
  have len: "buf_cap p = head_avail p + data_avail p + tail_avail p + data_size p"
    using wf by (simp add: buf_wf_def buf_cap_def)
  show ?thesis
  proof (cases x)
    case (InsertEnd d)
    then have "buf_room_end A p (length d)"
      using small len A by (simp add: buf_room_end_def)
    from buf_insert_end_laws [OF wf order.refl this] obtain p' where
      p': "buf_insert_end A p d (length d) = Some p'" "buf_wf p'"
        "buf_bytes p' = buf_bytes p @ take (length d) d"
        "buf_cap p' = max (buf_cap p) (head_avail p + data_size p + length d)" by blast
    have "buf_cap p' \<le> buf_cap p + length d" using p'(4) len by simp
    then show ?thesis using that [of p'] p' InsertEnd by simp
  next
    case (InsertBegin d)
    then have "buf_room_begin A p (length d)"
      using small len A by (simp add: buf_room_begin_def)
    from buf_insert_begin_laws [OF wf order.refl this] obtain p' where
      p': "buf_insert_begin A p d (length d) = Some p'" "buf_wf p'"
        "buf_bytes p' = take (length d) d @ buf_bytes p"
        "buf_cap p' = max (buf_cap p) (tail_avail p + data_size p + length d)" by blast
    have "buf_cap p' \<le> buf_cap p + length d" using p'(4) len by simp
    then show ?thesis using that [of p'] p' InsertBegin by simp
  next
    case (Resize n)
    have "n = 0 \<or> malloc_ok A n" using A small Resize by simp
    from buf_resize_laws [OF wf this] obtain p' where
      "buf_resize A p n = Some p'" "buf_wf p'" "buf_cap p' = n"
      "buf_bytes p' = take n (buf_bytes p)" by blast
    then show ?thesis using that [of p'] Resize by simp
  qed (use that wf in \<open>simp_all add: buf_laws buf_cap_def\<close>)
qed

lemma buf_run_refines:
  "generous A \<Longrightarrow> buf_wf p \<Longrightarrow> buf_cap p + sum_list (map op_bytes xs) < 9223372036854775808 \<Longrightarrow>
   \<exists>p'. buf_run A p xs = Some p' \<and> buf_wf p' \<and> buf_bytes p' = foldl seq_op (buf_bytes p) xs"
proof (induction xs arbitrary: p)
  case Nil
  then show ?case by simp
next
  case (Cons x xs)
  then have small: "buf_cap p + op_bytes x < 9223372036854775808" by simp
  obtain p1 where p1: "buf_do A p x = Some p1" "buf_wf p1" "buf_bytes p1 = seq_op (buf_bytes p) x"
    "buf_cap p1 \<le> buf_cap p + op_bytes x"
    by (rule buf_do_refines [OF Cons.prems(1,2) small]) blast
  have "buf_cap p1 + sum_list (map op_bytes xs) < 9223372036854775808"
    using Cons.prems(3) p1(4) by simp
  from Cons.IH [OF Cons.prems(1) p1(2) this] show ?case using p1 by simp
qed

section \<open>Properties\<close>

text \<open>
  C12: the network buffer implements a byte sequence: after any run of insertions at
  either end, removals at either end, reuse and resizing, the valid bytes are those the same run
  produces on a plain list, and the four counters still partition the block, as long as the
  allocator serves the requests and the block stays below PTRDIFF_MAX.
\<close>

theorem buf_implements_sequence:
  assumes "generous A" and "buf_new A n = Some p"
    and "n + sum_list (map op_bytes xs) < 9223372036854775808"
  shows "\<exists>p'. buf_run A p xs = Some p' \<and> buf_wf p' \<and> buf_bytes p' = foldl seq_op [] xs"
proof -
  have "buf_wf p" "buf_bytes p = []" "buf_cap p = n" using buf_new_cases [OF assms(2)] by simp_all
  then show ?thesis using buf_run_refines [of A p xs] assms by simp
qed

theorem buf_implements_sequence_witness:
  "\<exists>p p'. buf_new zero_alloc 4 = Some p
     \<and> buf_run zero_alloc p [InsertEnd [1, 2, 3], InsertBegin [9, 8], RemoveBegin 1, RemoveEnd 1,
          Resize 2] = Some p' \<and> buf_wf p' \<and> buf_bytes p' = [8, 1]"
proof -
  obtain p where p: "buf_new zero_alloc 4 = Some p"
    using buf_new_generous [OF generous_zero_alloc, of 4] by auto
  show ?thesis
    using buf_implements_sequence [OF generous_zero_alloc p, of "[InsertEnd [1, 2, 3],
        InsertBegin [9, 8], RemoveBegin 1, RemoveEnd 1, Resize 2]"] p
    by auto
qed

text \<open>
  Appending chunks that together fit in the free space behind the data concatenates
  them, uses up exactly that much space and never reallocates the block, so that pointers into it
  stay valid.
\<close>

theorem buf_append_chunks_in_place:
  assumes "buf_wf p" and "length (concat ds) \<le> buf_free_end p"
  shows "\<exists>p'. append_all (\<lambda>b d. buf_insert_end A b d (length d)) p ds = Some p' \<and> buf_wf p'
     \<and> buf_bytes p' = buf_bytes p @ concat ds
     \<and> buf_free_end p' = buf_free_end p - length (concat ds) \<and> bf_gen p' = bf_gen p"
  using netbuf.append_all_fits [OF assms] .

theorem buf_append_chunks_in_place_witness:
  "\<exists>p p'. buf_new zero_alloc 5 = Some p
     \<and> append_all (\<lambda>b d. buf_insert_end (\<lambda>_. None) b d (length d)) p [[1, 2], [], [3, 4]] = Some p'
     \<and> buf_bytes p' = [1, 2, 3, 4] \<and> buf_free_end p' = 1"
proof -
  obtain p where p: "buf_new zero_alloc 5 = Some p"
    using buf_new_generous [OF generous_zero_alloc, of 5] by auto
  have q: "buf_wf p" "buf_bytes p = []" "buf_free_end p = 5"
    using buf_new_cases [OF p] by (simp_all add: buf_free_end_def)
  show ?thesis
    using buf_append_chunks_in_place [OF q(1), of "[[1, 2], [], [3, 4]]" "\<lambda>_. None"] p q by auto
qed

end
