(* ===== verification/Obex_Types.thy ===== *)
theory Obex_Types
  imports Databuffer
begin

text \<open>
  The constants of include/openobex/obex_const.h and lib/defines.h, the structures of
  lib/obex_object.h and lib/obex_main.h, and the world the library runs in.

  A \<open>world\<close> is one OBEX handle (\<open>struct obex\<close>), the heap of OBEX objects it may point to, a
  supply of fresh addresses and the state \<open>ext\<close> of everything outside the library (operating
  system, peer, application). What lies outside is an \<open>env\<close>: the allocator, the event callback
  of the application, the callbacks of a custom transport and the system calls, each a parameter
  of the model. A callback receives the whole world, because it may call back into the library.
\<close>

section \<open>Constants\<close>

datatype obex_event = OBEX_EV_PROGRESS | OBEX_EV_REQHINT | OBEX_EV_REQ | OBEX_EV_REQDONE
  | OBEX_EV_LINKERR | OBEX_EV_PARSEERR | OBEX_EV_ACCEPTHINT | OBEX_EV_ABORT
  | OBEX_EV_STREAMEMPTY | OBEX_EV_STREAMAVAIL | OBEX_EV_UNEXPECTED | OBEX_EV_REQCHECK

datatype obex_role = OBEX_MODE_CLIENT | OBEX_MODE_SERVER

datatype trans_type = OBEX_TRANS_IRDA | OBEX_TRANS_INET | OBEX_TRANS_CUSTOM
  | OBEX_TRANS_BLUETOOTH | OBEX_TRANS_FD | OBEX_TRANS_USB | OBEX_TRANS_OTHER int

text \<open>\<open>state\<close> is the mode bit combined with one of the four states.\<close>

datatype obex_mode = MODE_SRV | MODE_CLI
datatype obex_state = STATE_IDLE | STATE_START | STATE_SEND | STATE_REC

abbreviation "OBEX_CMD_CONNECT \<equiv> (0x00 :: byte)"
abbreviation "OBEX_CMD_DISCONNECT \<equiv> (0x01 :: byte)"
abbreviation "OBEX_CMD_PUT \<equiv> (0x02 :: byte)"
abbreviation "OBEX_CMD_GET \<equiv> (0x03 :: byte)"
abbreviation "OBEX_CMD_SETPATH \<equiv> (0x05 :: byte)"
abbreviation "OBEX_CMD_ABORT \<equiv> (0x7f :: byte)"
abbreviation "OBEX_FINAL \<equiv> (0x80 :: byte)"

abbreviation "OBEX_RSP_CONTINUE \<equiv> (0x10 :: byte)"
abbreviation "OBEX_RSP_SUCCESS \<equiv> (0x20 :: byte)"
abbreviation "OBEX_RSP_BAD_REQUEST \<equiv> (0x40 :: byte)"
abbreviation "OBEX_RSP_FORBIDDEN \<equiv> (0x43 :: byte)"
abbreviation "OBEX_RSP_INTERNAL_SERVER_ERROR \<equiv> (0x50 :: byte)"
abbreviation "OBEX_RSP_NOT_IMPLEMENTED \<equiv> (0x51 :: byte)"

abbreviation "OBEX_HI_MASK \<equiv> (0xc0 :: byte)"
abbreviation "OBEX_UNICODE \<equiv> (0x00 :: byte)"
abbreviation "OBEX_BYTE_STREAM \<equiv> (0x40 :: byte)"
abbreviation "OBEX_BYTE \<equiv> (0x80 :: byte)"
abbreviation "OBEX_INT \<equiv> (0xc0 :: byte)"

abbreviation "OBEX_HDR_EMPTY \<equiv> (0x00 :: byte)"
abbreviation "OBEX_HDR_NAME \<equiv> (0x01 :: byte)"
abbreviation "OBEX_HDR_LENGTH \<equiv> (0xc3 :: byte)"
abbreviation "OBEX_HDR_BODY \<equiv> (0x48 :: byte)"
abbreviation "OBEX_HDR_BODY_END \<equiv> (0x49 :: byte)"

abbreviation "OBEX_FL_FIT_ONE_PACKET \<equiv> (0x01 :: 32 word)"
abbreviation "OBEX_FL_STREAM_START \<equiv> (0x02 :: 32 word)"
abbreviation "OBEX_FL_STREAM_DATA \<equiv> (0x04 :: 32 word)"
abbreviation "OBEX_FL_STREAM_DATAEND \<equiv> (0x08 :: 32 word)"
abbreviation "OBEX_FL_SUSPEND \<equiv> (0x10 :: 32 word)"

abbreviation "OBEX_DEFAULT_MTU \<equiv> 1024"
abbreviation "OBEX_MINIMUM_MTU \<equiv> 255"
abbreviation "OBEX_MAXIMUM_MTU \<equiv> 65535"
abbreviation "OBEX_OBJECT_ALLOCATIONTRESHOLD \<equiv> 10240"
abbreviation "INVALID_SOCKET \<equiv> (-1 :: int)"

section \<open>Headers and objects\<close>

record header_element =
  h_buf :: "databuffer option"
  h_hi :: byte
  h_flags :: "32 word"
  h_length :: nat
  h_offset :: nat
  h_body_touched :: bool
  h_stream :: bool

text \<open>
  \<open>s_buf\<close> is the pointer to streaming data: NULL, or the bytes from it to the end of its block.
  C \<open>int\<close> fields that only hold truth values are \<open>bool\<close>.
\<close>

record obex_object =
  tx_headerq :: "header_element slist"
  rx_headerq :: "header_element slist"
  rx_headerq_rm :: "header_element slist"
  rx_body :: "databuffer option"
  tx_nonhdr_data :: "databuffer option"
  rx_nonhdr_data :: "databuffer option"
  ob_cmd :: byte
  ob_opcode :: byte
  ob_lastopcode :: byte
  headeroffset :: nat
  hinted_body_len :: int
  totallen :: int
  abort_req :: bool
  checked :: bool
  suspend :: bool
  continue_received :: bool
  first_packet_sent :: bool
  s_buf :: "byte list option"
  s_len :: nat
  s_offset :: nat
  s_stop :: bool
  s_srv :: bool

text \<open>\<open>obex_headerdata_t\<close>: the member of the union that is in use.\<close>

datatype obex_headerdata = BQ4 "32 word" | BQ1 byte | BS "byte list option"

section \<open>The handle\<close>

text \<open>
  Function pointers and user pointers are numbers, 0 is NULL. The member of the address union in
  use is a constructor; ports are in host byte order, an IPv4 address is the number \<open>s_addr\<close>.
\<close>

type_synonym ptr = nat

record sockaddr_in6 =
  sin6_family :: nat
  sin6_port :: nat
  sin6_flowinfo :: nat
  sin6_addr :: "byte list"

text \<open>
  \<open>sir_name\<close> is an array of 25 characters, not always with a terminating zero.
  The constants in the other fields of an IrDA address (family, selector) are left out. The USB interface
  record has the fields of \<open>struct obex_usb_intf_transport_t\<close> but for the list links.
\<close>

record sockaddr_irda =
  sir_addr :: "32 word"
  sir_name :: "byte list"

record usb_intf =
  ui_configuration :: nat
  ui_configuration_desc :: nat
  ui_control_interface :: nat
  ui_control_setting :: nat
  ui_control_desc :: nat
  ui_extra :: "byte list option"
  ui_extra_len :: int
  ui_data_interface :: nat
  ui_idle_setting :: nat
  ui_idle_desc :: nat
  ui_active_setting :: nat
  ui_active_desc :: nat
  ui_endpoint_read :: nat
  ui_endpoint_write :: nat
  ui_device :: ptr
  ui_dev :: ptr

datatype saddr = SA_NONE | SA_INET nat "32 word" | SA_INET6 sockaddr_in6
  | SA_RFCOMM "byte list" byte | SA_IRDA sockaddr_irda | SA_USB usb_intf | SA_UNKNOWN nat

text \<open>\<open>obex_usb_intf_service_t\<close> and \<open>obex_usb_intf_t\<close>: what the application sees of a USB interface.\<close>

record usb_service =
  us_role :: byte
  us_uuid :: "byte list"
  us_version :: "16 word"
  us_default_uuid :: bool

record usb_interface =
  if_intf :: usb_intf
  if_manufacturer :: "string option"
  if_product :: "string option"
  if_serial :: "string option"
  if_configuration :: "string option"
  if_control :: "string option"
  if_idle :: "string option"
  if_active :: "string option"
  if_service :: "usb_service option"
  if_vendor :: nat
  if_product_id :: nat
  if_bus :: nat
  if_address :: nat
  if_number :: nat

record transport =
  t_type :: trans_type
  t_connected :: bool
  t_mtu :: nat
  t_self :: saddr
  t_peer :: saddr

record ctrans =
  ct_connect :: ptr
  ct_disconnect :: ptr
  ct_listen :: ptr
  ct_write :: ptr
  ct_handleinput :: ptr
  ct_customdata :: ptr

record obex =
  mtu_tx :: "16 word"
  mtu_rx :: "16 word"
  mtu_tx_max :: "16 word"
  fd :: int
  serverfd :: int
  writefd :: int
  state :: "obex_mode \<times> obex_state"
  keepserver :: bool
  filterhint :: bool
  filterias :: bool
  tx_msg :: databuffer
  rx_msg :: databuffer
  cur_object :: "addr option"
  eventcb :: ptr
  tport :: transport
  ctrans :: ctrans
  interfaces :: "usb_interface list option"
  interfaces_number :: int
  userdata :: ptr

section \<open>World and environment\<close>

text \<open>
  The world: the handle, the objects by address, the outside, and the static variable \<open>libusb_ctx\<close> of
  lib/usb1obex.c, which is NULL, a live context, or dangling after \<open>libusb_exit\<close>.
\<close>

datatype usb_ctx = CTX_NULL | CTX_LIVE | CTX_DEAD

record 'e world =
  hnd :: obex
  objs :: "addr \<Rightarrow> obex_object option"
  next_addr :: addr
  ext :: 'e
  libusb_ctx :: usb_ctx

text \<open>
  What libusb tells about a device, and its calls on an open handle; the socket options of the IrDA
  stack.
\<close>

record usb_endpoint =
  ep_address :: byte
  ep_attributes :: byte

record usb_altsetting =
  as_number :: nat
  as_setting :: nat
  as_class :: nat
  as_subclass :: nat
  as_desc :: nat
  as_endpoints :: "usb_endpoint list"
  as_extra :: "byte list option"

record usb_config =
  uc_value :: nat
  uc_desc :: nat
  uc_interfaces :: "usb_altsetting list list"

record usb_device =
  ud_vendor :: nat
  ud_product_id :: nat
  ud_manufacturer :: nat
  ud_product :: nat
  ud_serial :: nat

datatype usb_call = UsbClaim nat | UsbAltSetting nat nat | UsbRelease nat | UsbClearHalt nat | UsbClose

record 'e usb =
  lu_init :: "'e \<Rightarrow> int \<times> 'e"
  lu_exit :: "'e \<Rightarrow> 'e"
  lu_devices :: "'e \<Rightarrow> ptr list option \<times> 'e"
  lu_config :: "ptr \<Rightarrow> 'e \<Rightarrow> usb_config option \<times> 'e"
  lu_descriptor :: "ptr \<Rightarrow> 'e \<Rightarrow> usb_device option \<times> 'e"
  lu_bus :: "ptr \<Rightarrow> nat"
  lu_address :: "ptr \<Rightarrow> nat"
  lu_string :: "ptr \<Rightarrow> nat \<Rightarrow> 'e \<Rightarrow> string \<times> 'e"
  lu_open :: "ptr \<Rightarrow> 'e \<Rightarrow> (int \<times> ptr) \<times> 'e"
  lu_call :: "usb_call \<Rightarrow> ptr \<Rightarrow> 'e \<Rightarrow> int \<times> 'e"

record 'e irda =
  ir_set_hints :: "int \<Rightarrow> byte list \<Rightarrow> 'e \<Rightarrow> int \<times> 'e"
  ir_set_hint_mask :: "int \<Rightarrow> byte list \<Rightarrow> 'e \<Rightarrow> int \<times> 'e"
  ir_max_sdu :: "int \<Rightarrow> 'e \<Rightarrow> (int \<times> nat) \<times> 'e"
  ir_devices :: "int \<Rightarrow> 'e \<Rightarrow> (int \<times> (32 word \<times> 32 word) list) \<times> 'e"
  ir_ias_query :: "int \<Rightarrow> 32 word \<Rightarrow> byte list \<Rightarrow> 'e \<Rightarrow> int \<times> 'e"

text \<open>
  System calls return their C result and the new outside state; \<open>recv\<close> and \<open>read\<close> also return
  the bytes they store. Callbacks may fail to return (\<open>None\<close>).
\<close>

record 'e env =
  env_alloc :: alloc
  env_event :: "ptr \<Rightarrow> 'e world \<Rightarrow> addr option \<Rightarrow> obex_role \<Rightarrow> obex_event \<Rightarrow> byte \<Rightarrow> byte
                  \<Rightarrow> 'e world option"
  env_send :: "int \<Rightarrow> byte list \<Rightarrow> 'e \<Rightarrow> int \<times> 'e"
  env_write :: "int \<Rightarrow> byte list \<Rightarrow> 'e \<Rightarrow> int \<times> 'e"
  env_recv :: "int \<Rightarrow> nat \<Rightarrow> 'e \<Rightarrow> (int \<times> byte list) \<times> 'e"
  env_read :: "int \<Rightarrow> nat \<Rightarrow> 'e \<Rightarrow> (int \<times> byte list) \<times> 'e"
  env_bulk_write :: "saddr \<Rightarrow> byte list \<Rightarrow> 'e \<Rightarrow> (int \<times> int) \<times> 'e"
  env_bulk_read :: "saddr \<Rightarrow> nat \<Rightarrow> 'e \<Rightarrow> ((int \<times> int) \<times> byte list) \<times> 'e"
  env_ct_connect :: "ptr \<Rightarrow> 'e world \<Rightarrow> ptr \<Rightarrow> (int \<times> 'e world) option"
  env_ct_disconnect :: "ptr \<Rightarrow> 'e world \<Rightarrow> ptr \<Rightarrow> (int \<times> 'e world) option"
  env_ct_listen :: "ptr \<Rightarrow> 'e world \<Rightarrow> ptr \<Rightarrow> (int \<times> 'e world) option"
  env_ct_write :: "ptr \<Rightarrow> 'e world \<Rightarrow> ptr \<Rightarrow> byte list \<Rightarrow> (int \<times> 'e world) option"
  env_ct_handleinput :: "ptr \<Rightarrow> 'e world \<Rightarrow> ptr \<Rightarrow> int \<Rightarrow> (int \<times> 'e world) option"
  env_select :: "int list \<Rightarrow> int \<Rightarrow> 'e \<Rightarrow> (int \<times> int list) \<times> 'e"
  env_socket :: "nat \<Rightarrow> nat \<Rightarrow> 'e \<Rightarrow> int \<times> 'e"
  env_v6only :: "int \<Rightarrow> 'e \<Rightarrow> int \<times> 'e"
  env_bind :: "int \<Rightarrow> saddr \<Rightarrow> 'e \<Rightarrow> int \<times> 'e"
  env_listen :: "int \<Rightarrow> nat \<Rightarrow> 'e \<Rightarrow> int \<times> 'e"
  env_accept :: "int \<Rightarrow> 'e \<Rightarrow> (int \<times> saddr) \<times> 'e"
  env_connect :: "int \<Rightarrow> saddr \<Rightarrow> 'e \<Rightarrow> int \<times> 'e"
  env_close :: "int \<Rightarrow> 'e \<Rightarrow> int \<times> 'e"
  env_inet_ntop :: "byte list \<Rightarrow> bool"
  env_irda :: "'e irda"
  env_usb :: "'e usb"

text \<open>Shorthands for updates deep inside the world.\<close>

abbreviation (input) upd_hnd :: "'e world \<Rightarrow> (obex \<Rightarrow> obex) \<Rightarrow> 'e world" where
  "upd_hnd w f \<equiv> w\<lparr>hnd := f (hnd w)\<rparr>"

abbreviation (input) set_tx :: "'e world \<Rightarrow> databuffer \<Rightarrow> 'e world" where
  "set_tx w b \<equiv> w\<lparr>hnd := (hnd w)\<lparr>tx_msg := b\<rparr>\<rparr>"

abbreviation (input) set_rx :: "'e world \<Rightarrow> databuffer \<Rightarrow> 'e world" where
  "set_rx w b \<equiv> w\<lparr>hnd := (hnd w)\<lparr>rx_msg := b\<rparr>\<rparr>"

abbreviation (input) set_state :: "'e world \<Rightarrow> obex_mode \<times> obex_state \<Rightarrow> 'e world" where
  "set_state w s \<equiv> w\<lparr>hnd := (hnd w)\<lparr>state := s\<rparr>\<rparr>"

abbreviation (input) set_ext :: "'e world \<Rightarrow> 'e \<Rightarrow> 'e world" where
  "set_ext w e \<equiv> w\<lparr>ext := e\<rparr>"

text \<open>Reading and writing the object at an address; a dangling address is undefined behaviour.\<close>

definition upd_obj :: "'e world \<Rightarrow> addr \<Rightarrow> (obex_object \<Rightarrow> obex_object) \<Rightarrow> 'e world option" where
  "upd_obj w a f = (case objs w a of None \<Rightarrow> None
     | Some ob \<Rightarrow> Some (w\<lparr>objs := (objs w)(a := Some (f ob))\<rparr>))"

text \<open>\<open>self->object->field\<close>: undefined when \<open>self->object\<close> is NULL.\<close>

definition cur_obj :: "'e world \<Rightarrow> obex_object option" where
  "cur_obj w = do { a \<leftarrow> cur_object (hnd w); objs w a }"

definition upd_cur :: "'e world \<Rightarrow> (obex_object \<Rightarrow> obex_object) \<Rightarrow> 'e world option" where
  "upd_cur w f = do { a \<leftarrow> cur_object (hnd w); upd_obj w a f }"

lemma upd_obj_Some [simp]:
  "objs w a = Some ob \<Longrightarrow> upd_obj w a f = Some (w\<lparr>objs := (objs w)(a := Some (f ob))\<rparr>)"
  by (simp add: upd_obj_def)

lemma cur_obj_Some [simp]: "cur_object (hnd w) = Some a \<Longrightarrow> cur_obj w = objs w a"
  by (simp add: cur_obj_def)

lemma upd_cur_Some [simp]: "cur_object (hnd w) = Some a \<Longrightarrow> upd_cur w f = upd_obj w a f"
  by (simp add: upd_cur_def)

lemma hi_mask_bits:
  fixes hi :: byte
  shows "hi AND OBEX_HI_MASK = (if bit hi 7 then 0x80 else 0) OR (if bit hi 6 then 0x40 else 0)"
proof (rule bit_word_eqI)
  fix n :: nat
  assume "n < LENGTH(8)"
  then have "n \<in> {0, 1, 2, 3, 4, 5, 6, 7}" by auto
  then show "bit (hi AND OBEX_HI_MASK) n =
      bit ((if bit hi 7 then 0x80 else 0) OR (if bit hi 6 then 0x40 else 0) :: byte) n"
    by (auto simp: bit_and_iff bit_or_iff bit_numeral_rec)
qed

lemma hi_mask_cases:
  fixes hi :: byte
  obtains "hi AND OBEX_HI_MASK = OBEX_UNICODE" | "hi AND OBEX_HI_MASK = OBEX_BYTE_STREAM"
    | "hi AND OBEX_HI_MASK = OBEX_BYTE" | "hi AND OBEX_HI_MASK = OBEX_INT"
  using that by (cases "bit hi 7"; cases "bit hi 6") (simp_all add: hi_mask_bits)

end
