(* ===== verification/Transport_IO.thy ===== *)
theory Transport_IO
  imports Obex_Types
begin

text \<open>
  The reading and writing half of lib/obex_transport.c: fragmented writes to a descriptor and the
  per-transport \<open>obex_transport_write\<close> and \<open>obex_transport_read\<close>. The build that is modelled has
  IrDA, Bluetooth and USB (libusb 1) support and runs on a POSIX system.
\<close>

section \<open>Fragmented write\<close>

text \<open>
  \<open>do_write\<close> loops while the message holds data; \<open>actual\<close> is the result of the last write. The
  loop need not end (a write function may claim progress that is not made), hence a partial
  function. \<open>e\<close> is the state of the system behind \<open>write_func\<close>.
\<close>

partial_function (option) do_write_loop ::
    "(byte list \<Rightarrow> 'e \<Rightarrow> int \<times> 'e) \<Rightarrow> nat \<Rightarrow> int \<Rightarrow> databuffer \<Rightarrow> 'e \<Rightarrow> (int \<times> databuffer \<times> 'e) option"
where
  "do_write_loop write_func mtu actual msg e =
     (if data_size msg = 0 then Some (actual, msg, e)
      else (let n = (if data_size msg > mtu then mtu else data_size msg) in
        do {
          d \<leftarrow> mem_read (buf_ptr msg) 0 n;
          (let (actual, e) = write_func d e in
            if actual \<le> 0 then Some (actual, msg, e)
            else do_write_loop write_func mtu actual (buf_remove_begin msg (nat actual)) e) }))"

definition do_write ::
    "(byte list \<Rightarrow> 'e \<Rightarrow> int \<times> 'e) \<Rightarrow> databuffer \<Rightarrow> nat \<Rightarrow> 'e \<Rightarrow> (int \<times> databuffer \<times> 'e) option" where
  "do_write write_func msg mtu e = do_write_loop write_func mtu (-1) msg e"

definition send_wrap :: "'e env \<Rightarrow> int \<Rightarrow> byte list \<Rightarrow> 'e \<Rightarrow> int \<times> 'e" where
  "send_wrap E s buf e = env_send E s buf e"

definition write_wrap :: "'e env \<Rightarrow> int \<Rightarrow> byte list \<Rightarrow> 'e \<Rightarrow> int \<times> 'e" where
  "write_wrap E s buf e = env_write E s buf e"

section \<open>Writing a message\<close>

text \<open>Every caller passes \<open>self->tx_msg\<close>, so the message is that buffer of the handle.\<close>

definition obex_transport_write :: "'e env \<Rightarrow> 'e world \<Rightarrow> (int \<times> 'e world) option" where
  "obex_transport_write E w =
     (let self = hnd w; t = tport self; msg = tx_msg self in
      case t_type t of
        OBEX_TRANS_IRDA \<Rightarrow> do {
          (actual, msg, e) \<leftarrow> do_write (send_wrap E (fd self)) msg (t_mtu t) (ext w);
          Some (actual, set_ext (set_tx w msg) e) }
      | OBEX_TRANS_BLUETOOTH \<Rightarrow> do {
          (actual, msg, e) \<leftarrow> do_write (send_wrap E (fd self)) msg (t_mtu t) (ext w);
          Some (actual, set_ext (set_tx w msg) e) }
      | OBEX_TRANS_INET \<Rightarrow> do {
          (actual, msg, e) \<leftarrow> do_write (send_wrap E (fd self)) msg (t_mtu t) (ext w);
          Some (actual, set_ext (set_tx w msg) e) }
      | OBEX_TRANS_FD \<Rightarrow> do {
          (actual, msg, e) \<leftarrow> do_write (write_wrap E (writefd self)) msg (t_mtu t) (ext w);
          Some (actual, set_ext (set_tx w msg) e) }
      | OBEX_TRANS_USB \<Rightarrow>
          (if \<not> t_connected t then Some (-1, w)
           else do {
             d \<leftarrow> mem_read (buf_ptr msg) 0 (data_size msg);
             (let ((usberror, actual), e) = env_bulk_write E (t_self t) d (ext w) in
               Some (if usberror \<noteq> 0 then usberror else actual, set_ext w e)) })
      | OBEX_TRANS_CUSTOM \<Rightarrow>
          (if ct_write (ctrans self) \<noteq> 0
           then do {
             d \<leftarrow> mem_read (buf_ptr msg) 0 (data_size msg);
             env_ct_write E (ct_write (ctrans self)) w (ct_customdata (ctrans self)) d }
           else Some (-1, w))
      | OBEX_TRANS_OTHER _ \<Rightarrow> Some (-1, w))"

section \<open>Reading into the receive buffer\<close>

text \<open>
  \<open>recv\<close> and \<open>read\<close> store what they return at the reserved bytes. A NULL destination (refused
  reallocation) makes the system call fail. When nothing was read the reserved bytes stay part
  of the message: only a positive result is trimmed.
\<close>

definition read_fd ::
    "(nat \<Rightarrow> 'e \<Rightarrow> (int \<times> byte list) \<times> 'e) \<Rightarrow> alloc \<Rightarrow> 'e world \<Rightarrow> nat \<Rightarrow> (int \<times> 'e world) option" where
  "read_fd sys A w maxn = do {
     (dest, msg) \<leftarrow> buf_reserve_end A (rx_msg (hnd w)) maxn;
     (case dest of
        None \<Rightarrow> Some (-1, set_rx w msg)
      | Some off \<Rightarrow>
          (let ((actual, bytes), e) = sys maxn (ext w) in do {
             msg \<leftarrow> buf_store msg (Some off) (take maxn bytes);
             Some (actual, set_ext (set_rx w
               (if actual > 0 then buf_remove_end msg (u64 (int maxn - actual)) else msg)) e) })) }"

definition obex_transport_read ::
    "'e env \<Rightarrow> 'e world \<Rightarrow> int \<Rightarrow> byte list option \<Rightarrow> int \<Rightarrow> (int \<times> 'e world) option" where
  "obex_transport_read E w maxn buf buflen =
     (let self = hnd w; t = tport self; A = env_alloc E in
      case t_type t of
        OBEX_TRANS_IRDA \<Rightarrow> read_fd (env_recv E (fd self)) A w (u64 maxn)
      | OBEX_TRANS_BLUETOOTH \<Rightarrow> read_fd (env_recv E (fd self)) A w (u64 maxn)
      | OBEX_TRANS_INET \<Rightarrow> read_fd (env_recv E (fd self)) A w (u64 maxn)
      | OBEX_TRANS_FD \<Rightarrow> read_fd (env_read E (fd self)) A w (u64 maxn)
      | OBEX_TRANS_USB \<Rightarrow>
          (if \<not> t_connected t then Some (-1, w)
           else do {
             (dest, msg) \<leftarrow> buf_reserve_end A (rx_msg self) (unat (mtu_rx self));
             (let (((usberror, got), bytes), e) =
                    env_bulk_read E (t_self t) (unat (mtu_rx self)) (ext w);
                  actual = (if usberror \<noteq> 0 then usberror else got) in do {
                msg \<leftarrow> buf_store msg dest (take (unat (mtu_rx self)) bytes);
                Some (actual, set_ext (set_rx w
                  (buf_remove_end msg (u64 (int (unat (mtu_rx self)) - actual)))) e) }) })
      | OBEX_TRANS_CUSTOM \<Rightarrow>
          (let n = (if buflen > maxn then maxn else buflen) in do {
             (dest, msg) \<leftarrow> buf_reserve_end A (rx_msg self) (u64 n);
             d \<leftarrow> mem_read (case buf of None \<Rightarrow> [] | Some m \<Rightarrow> m) 0 (u64 n);
             msg \<leftarrow> buf_store msg dest d;
             Some (n, set_rx w msg) })
      | OBEX_TRANS_OTHER _ \<Rightarrow> Some (-1, w))"

section \<open>The fragmented write delivers the message\<close>

text \<open>
  What POSIX promises of \<open>send\<close> and \<open>write\<close>: a positive result counts bytes of the buffer that
  was passed. \<open>write_log\<close> runs a loop of such writes on a byte list and collects the fragments.
\<close>

definition write_contract :: "(byte list \<Rightarrow> 'e \<Rightarrow> int \<times> 'e) \<Rightarrow> bool" where
  "write_contract f \<longleftrightarrow> (\<forall>d e. d \<noteq> [] \<longrightarrow> fst (f d e) \<le> int (length d))"

inductive writes :: "(byte list \<Rightarrow> 'e \<Rightarrow> int \<times> 'e) \<Rightarrow> nat \<Rightarrow> byte list \<Rightarrow> 'e \<Rightarrow> byte list list \<Rightarrow> int \<Rightarrow> byte list \<Rightarrow> 'e \<Rightarrow> bool"
  for f :: "byte list \<Rightarrow> 'e \<Rightarrow> int \<times> 'e" and mtu :: nat
where
  writes_last: "xs \<noteq> [] \<Longrightarrow> f (take mtu xs) e = (r, e') \<Longrightarrow> r = int (length xs) \<Longrightarrow>
     writes f mtu xs e [xs] r [] e'"
| writes_fail: "xs \<noteq> [] \<Longrightarrow> f (take mtu xs) e = (r, e') \<Longrightarrow> r \<le> 0 \<Longrightarrow> writes f mtu xs e [] r xs e'"
| writes_more: "xs \<noteq> [] \<Longrightarrow> f (take mtu xs) e = (r, e') \<Longrightarrow> 0 < r \<Longrightarrow> r < int (length xs) \<Longrightarrow>
     writes f mtu (drop (nat r) xs) e' frags r' rest e'' \<Longrightarrow>
     writes f mtu xs e (take (nat r) xs # frags) r' rest e''"

lemma writes_concat: "writes f mtu xs e frags r rest e' \<Longrightarrow> concat frags @ rest = xs"
  by (induction rule: writes.induct) auto

lemma writes_result: "writes f mtu xs e frags r rest e' \<Longrightarrow> (rest = [] \<longleftrightarrow> 0 < r)"
  by (induction rule: writes.induct) auto

lemma write_contractD:
  "write_contract f \<Longrightarrow> 0 < mtu \<Longrightarrow> xs \<noteq> [] \<Longrightarrow> f (take mtu xs) e = (r, e') \<Longrightarrow>
   r \<le> int (length (take mtu xs))"
proof -
  assume *: "write_contract f" "0 < mtu" "xs \<noteq> []" "f (take mtu xs) e = (r, e')"
  then have "take mtu xs \<noteq> []" by simp
  with *(1) have "fst (f (take mtu xs) e) \<le> int (length (take mtu xs))"
    unfolding write_contract_def by blast
  with *(4) show ?thesis by simp
qed

lemma writes_fragment_le:
  "writes f mtu xs e frags r rest e' \<Longrightarrow> write_contract f \<Longrightarrow> 0 < mtu \<Longrightarrow>
   \<forall>d \<in> set frags. length d \<le> mtu"
proof (induction rule: writes.induct)
  case (writes_last xs e r e')
  from write_contractD [OF writes_last.prems(1,2) writes_last.hyps(1,2)] writes_last.hyps(3)
  show ?case by simp
next
  case (writes_more xs e r e' frags r' rest e'')
  from write_contractD [OF writes_more.prems(1,2) writes_more.hyps(1,2)]
  show ?case using writes_more by auto
qed simp

lemma do_write_writes:
  "write_contract f \<Longrightarrow> 0 < mtu \<Longrightarrow> buf_wf msg \<Longrightarrow> data_size msg \<noteq> 0 \<Longrightarrow>
   \<exists>frags r msg' e'. do_write_loop f mtu a msg e = Some (r, msg', e') \<and> buf_wf msg'
     \<and> writes f mtu (buf_bytes msg) e frags r (buf_bytes msg') e'
     \<and> buf_mem msg' = buf_mem msg"
proof (induction "data_size msg" arbitrary: msg a e rule: less_induct)
  case less
  define xs where "xs = buf_bytes msg"
  have len: "length xs = data_size msg" using length_buf_bytes [OF less.prems(3)] by (simp add: xs_def)
  have ne: "xs \<noteq> []" using len less.prems(4) by auto
  define n where "n = (if data_size msg > mtu then mtu else data_size msg)"
  have n: "take n xs = take mtu xs" "n \<le> data_size msg" using len by (auto simp: n_def)
  have "data_size msg \<le> length (buf_ptr msg)"
    using less.prems(3) by (simp add: buf_wf_def buf_ptr_def)
  then have rd: "mem_read (buf_ptr msg) 0 n = Some (take mtu xs)"
    using n by (simp add: mem_simps xs_def buf_bytes_def min_def flip: n(1))
  obtain r e1 where f: "f (take mtu xs) e = (r, e1)" by fastforce
  have rle: "r \<le> int (length xs)"
    using write_contractD [OF less.prems(1,2) ne f] by simp
  have step: "do_write_loop f mtu a msg e = (if r \<le> 0 then Some (r, msg, e1)
      else do_write_loop f mtu r (buf_remove_begin msg (nat r)) e1)"
    using less.prems(4) rd f by (subst do_write_loop.simps) (simp add: Let_def n_def [symmetric])
  define msg1 where "msg1 = buf_remove_begin msg (nat r)"
  have m1: "buf_wf msg1" "buf_bytes msg1 = drop (nat r) xs" "data_size msg1 = data_size msg - nat r"
    "buf_mem msg1 = buf_mem msg"
    using buf_remove_begin_laws [OF less.prems(3)] by (simp_all add: msg1_def xs_def)
  consider (fail) "r \<le> 0" | (last) "0 < r" "r = int (length xs)" | (more) "0 < r" "r < int (length xs)"
    using rle by linarith
  then show ?case
  proof cases
    case fail
    then have "writes f mtu xs e [] r xs e1" using ne f by (intro writes_fail)
    then show ?thesis using step fail less.prems(3) by (auto simp: xs_def)
  next
    case last
    then have z: "data_size msg1 = 0" using m1 len by simp
    have "do_write_loop f mtu a msg e = Some (r, msg1, e1)"
      using step last z by (simp add: msg1_def do_write_loop.simps)
    moreover have "writes f mtu xs e [xs] r [] e1" using ne f last by (intro writes_last)
    moreover have "buf_bytes msg1 = []" using m1 last by simp
    ultimately show ?thesis using m1 unfolding xs_def [symmetric] by (metis msg1_def)
  next
    case more
    have "data_size msg1 < data_size msg" "data_size msg1 \<noteq> 0" using more m1 len by simp_all
    from less.hyps [OF this(1) less.prems(1,2) m1(1) this(2), of r e1] obtain frags r' msg' e' where
      ih: "do_write_loop f mtu r msg1 e1 = Some (r', msg', e')" "buf_wf msg'"
      "writes f mtu (buf_bytes msg1) e1 frags r' (buf_bytes msg') e'" "buf_mem msg' = buf_mem msg1"
      by blast
    have "do_write_loop f mtu a msg e = Some (r', msg', e')"
      using step more ih(1) by (simp add: msg1_def)
    moreover have "writes f mtu xs e (take (nat r) xs # frags) r' (buf_bytes msg') e'"
      using ne f more ih(3) m1 by (intro writes_more) simp_all
    ultimately show ?thesis using ih(2,4) m1(4) unfolding xs_def by metis
  qed
qed

section \<open>Properties\<close>

text \<open>
  The receiver's view of a write function: \<open>sent\<close> is what it has taken so far, a positive result
  counts the bytes it took from the front of what it was given.
\<close>

definition sink_contract :: "('e \<Rightarrow> byte list) \<Rightarrow> (byte list \<Rightarrow> 'e \<Rightarrow> int \<times> 'e) \<Rightarrow> bool" where
  "sink_contract sent f \<longleftrightarrow> (\<forall>d e r e'. d \<noteq> [] \<longrightarrow> f d e = (r, e') \<longrightarrow>
     r \<le> int (length d) \<and> sent e' = sent e @ take (nat r) d)"

lemma sink_contract_write: "sink_contract sent f \<Longrightarrow> write_contract f"
  unfolding sink_contract_def write_contract_def by (metis prod.collapse)

inductive_simps writes_Nil: "writes f mtu [] e frags r rest e'"

lemma sink_contractD:
  "sink_contract sent f \<Longrightarrow> 0 < mtu \<Longrightarrow> xs \<noteq> [] \<Longrightarrow> f (take mtu xs) e = (r, e') \<Longrightarrow>
   sent e' = sent e @ take (nat r) xs"
proof -
  assume *: "sink_contract sent f" "0 < mtu" "xs \<noteq> []" "f (take mtu xs) e = (r, e')"
  then have "take mtu xs \<noteq> []" by simp
  with * have "r \<le> int (length (take mtu xs))" "sent e' = sent e @ take (nat r) (take mtu xs)"
    unfolding sink_contract_def by blast+
  then show ?thesis by (simp add: min_def split: if_splits)
qed

lemma writes_sent:
  "writes f mtu xs e frags r rest e' \<Longrightarrow> sink_contract sent f \<Longrightarrow> 0 < mtu \<Longrightarrow>
   sent e' = sent e @ concat frags"
proof (induction rule: writes.induct)
  case (writes_last xs e r e')
  with sink_contractD [OF writes_last.prems writes_last.hyps(1,2)] show ?case by simp
next
  case (writes_fail xs e r e')
  with sink_contractD [OF writes_fail.prems writes_fail.hyps(1,2)] show ?case by simp
next
  case (writes_more xs e r e' frags r' rest e'')
  with sink_contractD [OF writes_more.prems writes_more.hyps(1,2)] show ?case by simp
qed

text \<open>
  C16: the fragmented write always returns; what the descriptor has taken and what is left in the
  message are together exactly the message, no fragment is longer than the MTU, and the result is
  positive exactly when the whole message was taken.
\<close>

theorem do_write_delivers:
  assumes "sink_contract sent f" and "0 < mtu" and "buf_wf msg" and "data_size msg \<noteq> 0"
  shows "\<exists>frags r msg' e'. do_write f msg mtu e = Some (r, msg', e') \<and> buf_wf msg'
     \<and> writes f mtu (buf_bytes msg) e frags r (buf_bytes msg') e'
     \<and> sent e' @ buf_bytes msg' = sent e @ buf_bytes msg \<and> sent e' = sent e @ concat frags
     \<and> (\<forall>d \<in> set frags. length d \<le> mtu) \<and> (0 < r \<longleftrightarrow> buf_bytes msg' = [])"
proof -
  note w = sink_contract_write [OF assms(1)]
  obtain frags r msg' e' where run: "do_write_loop f mtu (-1) msg e = Some (r, msg', e')"
    and wf: "buf_wf msg'" and ws: "writes f mtu (buf_bytes msg) e frags r (buf_bytes msg') e'"
    using do_write_writes [OF w assms(2-4), of "-1" e] by blast
  show ?thesis
    using run wf ws writes_sent [OF ws assms(1,2)] writes_concat [OF ws] writes_result [OF ws]
      writes_fragment_le [OF ws w assms(2)]
    unfolding do_write_def by (metis append.assoc)
qed

text \<open>A descriptor that takes at most two bytes at a time.\<close>

definition slow_sink :: "byte list \<Rightarrow> byte list \<Rightarrow> int \<times> byte list" where
  "slow_sink d e = (int (length (take 2 d)), e @ take 2 d)"

theorem do_write_delivers_witness:
  "\<exists>msg r msg' e'. buf_bytes msg = [1, 2, 3, 4, 5]
     \<and> do_write slow_sink msg 3 [] = Some (r, msg', e') \<and> e' @ buf_bytes msg' = [1, 2, 3, 4, 5]"
proof -
  have m: "buf_wf (buf_holding [1, 2, 3, 4, 5] 0)" by (intro buf_wf_holding) simp
  have "sink_contract (\<lambda>e. e) slow_sink" by (auto simp: sink_contract_def slow_sink_def min_def)
  then show ?thesis using do_write_delivers [of "\<lambda>e. e" slow_sink 3 "buf_holding [1, 2, 3, 4, 5] 0" "[]"] m
    by (intro exI [of _ "buf_holding [1, 2, 3, 4, 5] 0"]) auto
qed

end
