(* ===== verification/Obex_Header.thy ===== *)
theory Obex_Header
  imports Obex_Types
begin

text \<open>
  lib/obex_header.c: encoding of the four kinds of OBEX headers at the end of a buffer. Each
  function reserves the bytes of the packed header structure and stores its fields, in network
  byte order, through the pointer it gets. Only \<open>insert_byte_stream_header\<close> checks that pointer;
  in the other three a refused reallocation ends in a store through NULL (\<open>None\<close>).
  Every function returns the C return value and the buffer.
\<close>

definition insert_uint_header :: "alloc \<Rightarrow> databuffer \<Rightarrow> byte \<Rightarrow> 32 word \<Rightarrow> (int \<times> databuffer) option" where
  "insert_uint_header A msg identifier v = do {
     (hdr, msg) \<leftarrow> buf_reserve_end A msg 5;
     msg \<leftarrow> buf_store msg hdr ([identifier] @ be32 v);
     Some (5, msg) }"

definition insert_ubyte_header :: "alloc \<Rightarrow> databuffer \<Rightarrow> byte \<Rightarrow> byte \<Rightarrow> (int \<times> databuffer) option" where
  "insert_ubyte_header A msg identifier v = do {
     (hdr, msg) \<leftarrow> buf_reserve_end A msg 2;
     msg \<leftarrow> buf_store msg hdr [identifier, v];
     Some (2, msg) }"

text \<open>\<open>size\<close> is a C \<open>int\<close>; \<open>memcpy\<close> gets it converted to \<open>size_t\<close>. The text pointer may be NULL.\<close>

definition insert_unicode_header ::
    "alloc \<Rightarrow> databuffer \<Rightarrow> byte \<Rightarrow> byte list option \<Rightarrow> int \<Rightarrow> (int \<times> databuffer) option" where
  "insert_unicode_header A msg opc txt n =
     (if \<not> (txt \<noteq> None \<or> n = 0) then Some (-1, msg)
      else do {
        (hdr, msg) \<leftarrow> buf_reserve_end A msg (u64 (n + 3));
        d \<leftarrow> mem_read (case txt of None \<Rightarrow> [] | Some m \<Rightarrow> m) 0 (u64 n);
        msg \<leftarrow> buf_store msg hdr ([opc] @ be16 (u16 (n + 3)) @ d);
        Some (s32 (n + 3), msg) })"

definition insert_byte_stream_header ::
    "alloc \<Rightarrow> databuffer \<Rightarrow> byte \<Rightarrow> byte list option \<Rightarrow> int \<Rightarrow> (int \<times> databuffer) option" where
  "insert_byte_stream_header A msg opc stream n =
     (if \<not> (stream \<noteq> None \<or> n = 0) then Some (-1, msg)
      else do {
        (hdr, msg) \<leftarrow> buf_reserve_end A msg (u64 (n + 3));
        (if hdr = None then Some (0, msg)
         else do {
           d \<leftarrow> mem_read (case stream of None \<Rightarrow> [] | Some m \<Rightarrow> m) 0 (u64 n);
           msg \<leftarrow> buf_store msg hdr ([opc] @ be16 (u16 (n + 3)) @ d);
           Some (s32 (n + 3), msg) }) })"

section \<open>The wire format\<close>

text \<open>The encoding each function is meant to produce, as a sequence of bytes.\<close>

datatype hdr_value = HInt "32 word" | HByte byte | HBytes "byte list"

definition enc_header :: "byte \<Rightarrow> hdr_value \<Rightarrow> byte list" where
  "enc_header hi v = (case v of HInt x \<Rightarrow> hi # be32 x | HByte b \<Rightarrow> [hi, b]
     | HBytes d \<Rightarrow> hi # be16 (length d + 3) @ d)"

definition hdr_kind_ok :: "byte \<Rightarrow> hdr_value \<Rightarrow> bool" where
  "hdr_kind_ok hi v = (case v of
       HInt _ \<Rightarrow> hi AND OBEX_HI_MASK = OBEX_INT
     | HByte _ \<Rightarrow> hi AND OBEX_HI_MASK = OBEX_BYTE
     | HBytes d \<Rightarrow> (hi AND OBEX_HI_MASK = OBEX_UNICODE \<or> hi AND OBEX_HI_MASK = OBEX_BYTE_STREAM)
                  \<and> length d + 3 < 65536)"

lemma insert_uint_header_spec:
  assumes wf: "buf_wf p" and room: "buf_room_end A p 5"
  obtains p' where "insert_uint_header A p hi v = Some (5, p')" "buf_wf p'"
    "buf_bytes p' = buf_bytes p @ enc_header hi (HInt v)" "data_size p' = data_size p + 5"
proof -
  have l: "length ([hi] @ be32 v) = 5" by simp
  obtain off p1 p' where "buf_reserve_end A p 5 = Some (Some off, p1)"
    "buf_store p1 (Some off) ([hi] @ be32 v) = Some p'" "buf_wf p'"
    "buf_bytes p' = buf_bytes p @ [hi] @ be32 v" "data_size p' = data_size p + 5"
    by (rule buf_reserve_store_end [OF wf, of A "[hi] @ be32 v", unfolded l, OF room]) blast
  then show ?thesis using that by (simp add: insert_uint_header_def enc_header_def)
qed

lemma insert_ubyte_header_spec:
  assumes wf: "buf_wf p" and room: "buf_room_end A p 2"
  obtains p' where "insert_ubyte_header A p hi v = Some (2, p')" "buf_wf p'"
    "buf_bytes p' = buf_bytes p @ enc_header hi (HByte v)" "data_size p' = data_size p + 2"
proof -
  have l: "length [hi, v] = 2" by simp
  obtain off p1 p' where "buf_reserve_end A p 2 = Some (Some off, p1)"
    "buf_store p1 (Some off) [hi, v] = Some p'" "buf_wf p'"
    "buf_bytes p' = buf_bytes p @ [hi, v]" "data_size p' = data_size p + 2"
    by (rule buf_reserve_store_end [OF wf, of A "[hi, v]", unfolded l, OF room]) blast
  then show ?thesis using that by (simp add: insert_ubyte_header_def enc_header_def)
qed

text \<open>A byte sequence of length \<open>n\<close>, for both of the length-prefixed kinds.\<close>

lemma reserve_store_sequence:
  assumes wf: "buf_wf p" and n: "n = length d" "n + 3 < 2147483648" and room: "buf_room_end A p (n + 3)"
  obtains off p1 p' where "buf_reserve_end A p (u64 (int n + 3)) = Some (Some off, p1)"
    "buf_store p1 (Some off) ([hi] @ be16 (u16 (int n + 3)) @ d) = Some p'" "buf_wf p'"
    "buf_bytes p' = buf_bytes p @ enc_header hi (HBytes d)" "data_size p' = data_size p + (n + 3)"
proof -
  have u: "u64 (int n + 3) = n + 3" "be16 (u16 (int n + 3)) = be16 (n + 3)"
    using n be16_u16 [of "n + 3"] by (simp_all add: c_arith nat_add_distrib)
  have l: "length ([hi] @ be16 (n + 3) @ d) = n + 3" using n by simp
  obtain off p1 p' where "buf_reserve_end A p (n + 3) = Some (Some off, p1)"
    "buf_store p1 (Some off) ([hi] @ be16 (n + 3) @ d) = Some p'" "buf_wf p'"
    "buf_bytes p' = buf_bytes p @ [hi] @ be16 (n + 3) @ d" "data_size p' = data_size p + (n + 3)"
    by (rule buf_reserve_store_end [OF wf, of A "[hi] @ be16 (n + 3) @ d", unfolded l, OF room]) blast
  then show ?thesis using that [unfolded u] n(1) by (simp add: enc_header_def)
qed

lemma insert_byte_stream_header_spec:
  assumes wf: "buf_wf p" and n: "n \<le> length src" "n + 3 < 2147483648" and room: "buf_room_end A p (n + 3)"
  obtains p' where "insert_byte_stream_header A p hi (Some src) (int n) = Some (int n + 3, p')"
    "buf_wf p'" "buf_bytes p' = buf_bytes p @ enc_header hi (HBytes (take n src))"
    "data_size p' = data_size p + (n + 3)"
proof -
  have l: "n = length (take n src)" using n by simp
  obtain off p1 p' where "buf_reserve_end A p (u64 (int n + 3)) = Some (Some off, p1)"
    "buf_store p1 (Some off) ([hi] @ be16 (u16 (int n + 3)) @ take n src) = Some p'" "buf_wf p'"
    "buf_bytes p' = buf_bytes p @ enc_header hi (HBytes (take n src))" "data_size p' = data_size p + (n + 3)"
    by (rule reserve_store_sequence [OF wf l n(2) room, of hi]) blast
  moreover have "u64 (int n) = n" "s32 (int n + 3) = int n + 3" using n by (simp_all add: c_arith)
  ultimately show ?thesis
    using that n(1) by (simp add: insert_byte_stream_header_def mem_simps)
qed

lemma insert_unicode_header_spec:
  assumes wf: "buf_wf p" and n: "n \<le> length src" "n + 3 < 2147483648" and room: "buf_room_end A p (n + 3)"
  obtains p' where "insert_unicode_header A p hi (Some src) (int n) = Some (int n + 3, p')"
    "buf_wf p'" "buf_bytes p' = buf_bytes p @ enc_header hi (HBytes (take n src))"
    "data_size p' = data_size p + (n + 3)"
proof -
  have l: "n = length (take n src)" using n by simp
  obtain off p1 p' where "buf_reserve_end A p (u64 (int n + 3)) = Some (Some off, p1)"
    "buf_store p1 (Some off) ([hi] @ be16 (u16 (int n + 3)) @ take n src) = Some p'" "buf_wf p'"
    "buf_bytes p' = buf_bytes p @ enc_header hi (HBytes (take n src))" "data_size p' = data_size p + (n + 3)"
    by (rule reserve_store_sequence [OF wf l n(2) room, of hi]) blast
  moreover have "u64 (int n) = n" "s32 (int n + 3) = int n + 3" using n by (simp_all add: c_arith)
  ultimately show ?thesis
    using that n(1) by (simp add: insert_unicode_header_def mem_simps)
qed

lemma length_enc_header:
  "length (enc_header hi v) = (case v of HInt _ \<Rightarrow> 5 | HByte _ \<Rightarrow> 2 | HBytes d \<Rightarrow> length d + 3)"
  by (cases v) (simp_all add: enc_header_def)

section \<open>Properties\<close>

text \<open>
  Each header encoder appends exactly its wire format to the message, with the header code, a
  big-endian value or the big-endian total length followed by the data, and returns the number of
  bytes appended.
\<close>

theorem header_encoders_wire_format:
  assumes "buf_wf p" and "n \<le> length src" and "n + 3 < 2147483648"
    and "buf_room_end A p 2" and "buf_room_end A p 5" and "buf_room_end A p (n + 3)"
  shows "(\<exists>p'. insert_uint_header A p hi v = Some (5, p') \<and> buf_wf p'
           \<and> buf_bytes p' = buf_bytes p @ hi # be32 v)
     \<and> (\<exists>p'. insert_ubyte_header A p hi b = Some (2, p') \<and> buf_wf p'
           \<and> buf_bytes p' = buf_bytes p @ [hi, b])
     \<and> (\<exists>p'. insert_byte_stream_header A p hi (Some src) (int n) = Some (int n + 3, p') \<and> buf_wf p'
           \<and> buf_bytes p' = buf_bytes p @ hi # be16 (n + 3) @ take n src)
     \<and> (\<exists>p'. insert_unicode_header A p hi (Some src) (int n) = Some (int n + 3, p') \<and> buf_wf p'
           \<and> buf_bytes p' = buf_bytes p @ hi # be16 (n + 3) @ take n src)"
proof (intro conjI)
  have t: "length (take n src) = n" using assms(2) by simp
  show "\<exists>p'. insert_uint_header A p hi v = Some (5, p') \<and> buf_wf p' \<and> buf_bytes p' = buf_bytes p @ hi # be32 v"
    by (rule insert_uint_header_spec [OF assms(1,5), of hi v]) (auto simp: enc_header_def)
  show "\<exists>p'. insert_ubyte_header A p hi b = Some (2, p') \<and> buf_wf p' \<and> buf_bytes p' = buf_bytes p @ [hi, b]"
    by (rule insert_ubyte_header_spec [OF assms(1,4), of hi b]) (auto simp: enc_header_def)
  show "\<exists>p'. insert_byte_stream_header A p hi (Some src) (int n) = Some (int n + 3, p') \<and> buf_wf p'
      \<and> buf_bytes p' = buf_bytes p @ hi # be16 (n + 3) @ take n src"
    by (rule insert_byte_stream_header_spec [OF assms(1,2,3,6), of hi])
      (auto simp: enc_header_def t simp del: length_take)
  show "\<exists>p'. insert_unicode_header A p hi (Some src) (int n) = Some (int n + 3, p') \<and> buf_wf p'
      \<and> buf_bytes p' = buf_bytes p @ hi # be16 (n + 3) @ take n src"
    by (rule insert_unicode_header_spec [OF assms(1,2,3,6), of hi])
      (auto simp: enc_header_def t simp del: length_take)
qed

theorem header_encoders_wire_format_witness:
  "\<exists>p'. insert_unicode_header zero_alloc (buf_holding [7] 0) 1 (Some [0, 65, 0, 0]) 4 = Some (7, p')
     \<and> buf_bytes p' = [7, 1, 0, 7, 0, 65, 0, 0]"
proof -
  have room: "buf_room_end zero_alloc (buf_holding [7] 0) k" if "k < 1000" for k
    using that by (simp add: buf_room_end_def)
  have wf: "buf_wf (buf_holding [7] 0)" by (intro buf_wf_holding) simp
  show ?thesis
    using header_encoders_wire_format [OF wf, of 4 "[0, 65, 0, 0]" zero_alloc 1]
    by (auto simp: room be16_def)
qed

end
