(* ===== verification/Obex_Core.thy ===== *)
theory Obex_Core
  imports Transport_IO Obex_Header
begin

text \<open>
  The parts of lib/obex_object.c and lib/obex_main.c that everything else uses: creation and
  deletion of objects, delivery of an event to the application, and sending a packet with the
  common three-byte header.
\<close>

section \<open>Objects\<close>

definition obex_object_setcmd :: "obex_object \<Rightarrow> byte \<Rightarrow> byte \<Rightarrow> obex_object" where
  "obex_object_setcmd ob c lastcmd = ob\<lparr>ob_cmd := c, ob_opcode := c, ob_lastopcode := lastcmd\<rparr>"

definition obex_object_setrsp :: "obex_object \<Rightarrow> byte \<Rightarrow> byte \<Rightarrow> obex_object" where
  "obex_object_setrsp ob rsp lastrsp = ob\<lparr>ob_opcode := rsp, ob_lastopcode := lastrsp\<rparr>"

text \<open>The zeroed structure, with the default response set.\<close>

definition obex_object_zero :: obex_object where
  "obex_object_zero = \<lparr>tx_headerq = [], rx_headerq = [], rx_headerq_rm = [], rx_body = None,
     tx_nonhdr_data = None, rx_nonhdr_data = None, ob_cmd = 0, ob_opcode = 0, ob_lastopcode = 0,
     headeroffset = 0, hinted_body_len = 0, totallen = 0, abort_req = False, checked = False,
     suspend = False, continue_received = False, first_packet_sent = False, s_buf = None,
     s_len = 0, s_offset = 0, s_stop = False, s_srv = False\<rparr>"

definition obex_object_init :: obex_object where
  "obex_object_init =
     obex_object_setrsp obex_object_zero OBEX_RSP_NOT_IMPLEMENTED OBEX_RSP_NOT_IMPLEMENTED"

definition obex_object_new :: "'e env \<Rightarrow> 'e world \<Rightarrow> addr option \<times> 'e world" where
  "obex_object_new E w =
     (if \<not> malloc_ok (env_alloc E) 120 then (None, w)
      else (Some (next_addr w),
            w\<lparr>objs := (objs w)(next_addr w := Some obex_object_init), next_addr := Suc (next_addr w)\<rparr>))"

text \<open>
  \<open>free_headerq\<close> empties a queue by removing its first pointer until none is left; the elements and
  their buffers are owned by the queue.
\<close>

function free_headerq :: "'a slist \<Rightarrow> 'a slist" where
  "free_headerq [] = []"
| "free_headerq ((h, x) # q) = free_headerq (slist_remove ((h, x) # q) h)"
  by pat_completeness auto
termination
  by (relation "measure length") (auto simp: slist_remove_filter le_imp_less_Suc)

lemma free_headerq_empty [simp]: "free_headerq q = []"
  by (induction q rule: free_headerq.induct) auto

text \<open>Deleting frees what the object owns, then the object; a second deletion is undefined.\<close>

definition obex_object_delete :: "'e world \<Rightarrow> addr option \<Rightarrow> (int \<times> 'e world) option" where
  "obex_object_delete w object =
     (case object of None \<Rightarrow> Some (-1, w)
      | Some a \<Rightarrow> do {
          w \<leftarrow> upd_obj w a (\<lambda>ob. ob\<lparr>tx_headerq := free_headerq (tx_headerq ob),
                 rx_headerq := free_headerq (rx_headerq ob),
                 rx_headerq_rm := free_headerq (rx_headerq_rm ob),
                 tx_nonhdr_data := None, rx_nonhdr_data := None, rx_body := None\<rparr>);
          Some (0, w\<lparr>objs := (objs w)(a := None)\<rparr>) })"

definition obex_object_getspace :: "obex \<Rightarrow> obex_object \<Rightarrow> 32 word \<Rightarrow> int" where
  "obex_object_getspace self ob flags =
     (if flags AND OBEX_FL_FIT_ONE_PACKET \<noteq> 0
      then s32 (int (unat (mtu_tx self)) - totallen ob - 3)
      else s32 (int (unat (mtu_tx self)) - 3))"

lemma obex_object_delete_Some:
  "objs w a = Some ob \<Longrightarrow>
   obex_object_delete w (Some a) = Some (0, w\<lparr>objs := (objs w)(a := None)\<rparr>)"
  by (simp add: obex_object_delete_def)

lemma obex_object_delete_NULL [simp]: "obex_object_delete w None = Some (-1, w)"
  by (simp add: obex_object_delete_def)

section \<open>Events\<close>

definition obex_deliver_event ::
    "'e env \<Rightarrow> 'e world \<Rightarrow> obex_event \<Rightarrow> byte \<Rightarrow> byte \<Rightarrow> bool \<Rightarrow> 'e world option" where
  "obex_deliver_event E w event c rsp del =
     (let object = cur_object (hnd w);
          w = (if del then upd_hnd w (cur_object_update (\<lambda>_. None)) else w);
          mode = (if fst (state (hnd w)) = MODE_SRV then OBEX_MODE_SERVER else OBEX_MODE_CLIENT)
      in do {
        w \<leftarrow> env_event E (eventcb (hnd w)) w object mode event c rsp;
        (if del then do { (_, w) \<leftarrow> obex_object_delete w object; Some w } else Some w) })"

section \<open>Packets\<close>

text \<open>
  \<open>obex_data_request\<close> puts opcode and total length (16 bits, network order) in front of the
  message and hands it to the transport. \<open>msg\<close> is always \<open>self->tx_msg\<close>.
\<close>

definition obex_data_request :: "'e env \<Rightarrow> 'e world \<Rightarrow> byte \<Rightarrow> (int \<times> 'e world) option" where
  "obex_data_request E w opc = do {
     (hdr, msg) \<leftarrow> buf_reserve_begin (env_alloc E) (tx_msg (hnd w)) 3;
     msg \<leftarrow> buf_store msg hdr ([opc] @ be16 (u16 (int (data_size msg))));
     obex_transport_write E (set_tx w msg) }"

definition obex_response_request :: "'e env \<Rightarrow> 'e world \<Rightarrow> byte \<Rightarrow> 'e world option" where
  "obex_response_request E w opc = do {
     (_, w) \<leftarrow> obex_data_request E (set_tx w (buf_reuse (tx_msg (hnd w)))) (opc OR OBEX_FINAL);
     Some w }"

definition obex_response_to_string :: "int \<Rightarrow> string" where
  "obex_response_to_string rsp =
     (if rsp = 0x10 then ''Continue''
      else if rsp = 0x11 then ''Switching protocols''
      else if rsp = 0x20 then ''OK, Success''
      else if rsp = 0x21 then ''Created''
      else if rsp = 0x22 then ''Accepted''
      else if rsp = 0x24 then ''No Content''
      else if rsp = 0x40 then ''Bad Request''
      else if rsp = 0x41 then ''Unauthorized''
      else if rsp = 0x42 then ''Payment required''
      else if rsp = 0x43 then ''Forbidden''
      else if rsp = 0x44 then ''Not found''
      else if rsp = 0x45 then ''Method not allowed''
      else if rsp = 0x49 then ''Conflict''
      else if rsp = 0x50 then ''Internal server error''
      else if rsp = 0x51 then ''Not implemented!''
      else if rsp = 0x60 then ''Database full''
      else if rsp = 0x61 then ''Database locked''
      else ''Unknown response'')"

text \<open>
  The packet that reaches the transport: the common header with the true length, then the message.
\<close>

lemma obex_data_request_packet:
  assumes wf: "buf_wf (tx_msg (hnd w))" and room: "buf_room_begin (env_alloc E) (tx_msg (hnd w)) 3"
  obtains msg where "obex_data_request E w opc = obex_transport_write E (set_tx w msg)"
    "buf_wf msg" "buf_bytes msg = opc # be16 (data_size (tx_msg (hnd w)) + 3) @ buf_bytes (tx_msg (hnd w))"
    "buf_cap msg = max (buf_cap (tx_msg (hnd w))) (tail_avail (tx_msg (hnd w)) + data_size (tx_msg (hnd w)) + 3)"
proof -
  define p where "p = tx_msg (hnd w)"
  define n where "n = data_size p + 3"
  obtain off p1 where r: "buf_reserve_begin (env_alloc E) p 3 = Some (Some off, p1)" "off = head_avail p1"
    and wf1: "buf_wf p1" and d1: "data_size p1 = n" and b1: "drop 3 (buf_bytes p1) = buf_bytes p"
    and c1: "buf_cap p1 = max (buf_cap p) (tail_avail p + data_size p + 3)"
    by (rule buf_reserve_begin_laws [OF wf room]) (auto simp: p_def n_def)
  have lo: "head_avail p1 \<le> off" and hi: "off + length ([opc] @ be16 n) \<le> head_avail p1 + data_size p1"
    using r d1 by (simp_all add: n_def)
  obtain msg where s: "buf_store p1 (Some off) ([opc] @ be16 n) = Some msg" "buf_wf msg"
    "buf_bytes msg = take (off - head_avail p1) (buf_bytes p1) @ ([opc] @ be16 n)
        @ drop (off - head_avail p1 + length ([opc] @ be16 n)) (buf_bytes p1)" "buf_cap msg = buf_cap p1"
    by (rule buf_store_laws [OF wf1 lo hi]) blast
  have "obex_data_request E w opc = obex_transport_write E (set_tx w msg)"
    using r s(1) d1 by (simp add: obex_data_request_def flip: p_def)
  moreover have "buf_bytes msg = opc # be16 n @ buf_bytes p"
    using s(3) r(2) b1 by simp
  ultimately show ?thesis using that s(2,4) c1 by (simp add: p_def n_def)
qed

section \<open>An example environment\<close>

text \<open>
  For examples: an application whose callbacks do nothing, an allocator that never fails, and a
  custom transport that takes every packet and logs it in the outside state. The handle has the
  default MTU and a current object at address 1.
\<close>

definition ex_env :: "byte list list env" where
  "ex_env = \<lparr>env_alloc = zero_alloc, env_event = (\<lambda>cb w ob r ev c rsp. Some w),
     env_send = (\<lambda>s d e. (int (length d), e @ [d])),
     env_write = (\<lambda>s d e. (int (length d), e @ [d])),
     env_recv = (\<lambda>s n e. ((0, []), e)), env_read = (\<lambda>s n e. ((0, []), e)),
     env_bulk_write = (\<lambda>a d e. ((0, int (length d)), e @ [d])),
     env_bulk_read = (\<lambda>a n e. (((0, 0), []), e)),
     env_ct_connect = (\<lambda>f w c. Some (1, w)), env_ct_disconnect = (\<lambda>f w c. Some (1, w)),
     env_ct_listen = (\<lambda>f w c. Some (1, w)),
     env_ct_write = (\<lambda>f w c d. Some (int (length d), w\<lparr>ext := ext w @ [d]\<rparr>)),
     env_ct_handleinput = (\<lambda>f w c t. Some (1, w)),
     env_select = (\<lambda>fds t e. ((0, []), e)), env_socket = (\<lambda>d p e. (3, e)),
     env_v6only = (\<lambda>s e. (0, e)),
     env_bind = (\<lambda>s a e. (0, e)), env_listen = (\<lambda>s n e. (0, e)),
     env_accept = (\<lambda>s e. ((4, SA_NONE), e)), env_connect = (\<lambda>s a e. (0, e)),
     env_close = (\<lambda>s e. (0, e)), env_inet_ntop = (\<lambda>_. True),
     env_irda = \<lparr>ir_set_hints = (\<lambda>s h e. (0, e)), ir_set_hint_mask = (\<lambda>s h e. (0, e)),
       ir_max_sdu = (\<lambda>s e. ((0, 2048), e)), ir_devices = (\<lambda>s e. ((0, []), e)),
       ir_ias_query = (\<lambda>s a n e. (0, e))\<rparr>,
     env_usb = \<lparr>lu_init = (\<lambda>e. (0, e)), lu_exit = id, lu_devices = (\<lambda>e. (Some [], e)),
       lu_config = (\<lambda>d e. (None, e)), lu_descriptor = (\<lambda>d e. (None, e)), lu_bus = (\<lambda>_. 0),
       lu_address = (\<lambda>_. 0), lu_string = (\<lambda>d i e. ([], e)), lu_open = (\<lambda>d e. ((0, 1), e)),
       lu_call = (\<lambda>c d e. (0, e))\<rparr>\<rparr>"

definition ex_handle :: obex where
  "ex_handle = \<lparr>mtu_tx = 255, mtu_rx = 1024, mtu_tx_max = 1024, fd = -1, serverfd = -1, writefd = -1,
     state = (MODE_SRV, STATE_IDLE), keepserver = False, filterhint = False, filterias = False,
     tx_msg = buf_holding [] 1024, rx_msg = buf_holding [] 1024, cur_object = Some 1, eventcb = 1,
     tport = \<lparr>t_type = OBEX_TRANS_CUSTOM, t_connected = True, t_mtu = 1024, t_self = SA_NONE,
              t_peer = SA_NONE\<rparr>,
     ctrans = \<lparr>ct_connect = 1, ct_disconnect = 1, ct_listen = 1, ct_write = 1, ct_handleinput = 1,
               ct_customdata = 0\<rparr>,
     interfaces = None, interfaces_number = 0, userdata = 0\<rparr>"

definition ex_world :: "obex_object \<Rightarrow> byte list list world" where
  "ex_world ob = \<lparr>hnd = ex_handle, objs = (\<lambda>a. if a = 1 then Some ob else None), next_addr = 2,
     ext = [], libusb_ctx = CTX_NULL\<rparr>"

lemma ex_env_alloc [simp]: "env_alloc ex_env = zero_alloc" "generous (env_alloc ex_env)"
  by (simp_all add: ex_env_def)

lemma ex_env_event [simp]: "env_event ex_env cb w ob r ev c rsp = Some w"
  by (simp add: ex_env_def)

lemma ex_env_ct_write [simp]:
  "env_ct_write ex_env f w c d = Some (int (length d), w\<lparr>ext := ext w @ [d]\<rparr>)"
  by (simp add: ex_env_def)

lemma ex_world_simps [simp]:
  "hnd (ex_world ob) = ex_handle" "objs (ex_world ob) 1 = Some ob"
  "objs (ex_world ob) (Suc 0) = Some ob" "next_addr (ex_world ob) = 2" "ext (ex_world ob) = []"
  by (simp_all add: ex_world_def)

text \<open>A header and an object with a queue of headers to send.\<close>

definition ex_elem :: "byte \<Rightarrow> byte list \<Rightarrow> header_element" where
  "ex_elem hi d = \<lparr>h_buf = Some (buf_holding d 0), h_hi = hi, h_flags = 0, h_length = length d,
     h_offset = 0, h_body_touched = False, h_stream = False\<rparr>"

definition ex_object :: "header_element slist \<Rightarrow> obex_object" where
  "ex_object q = (obex_object_setcmd obex_object_init 2 2)\<lparr>tx_headerq := q\<rparr>"

lemma ex_object_simps [simp]:
  "tx_headerq (ex_object q) = q" "\<not> suspend (ex_object q)" "tx_nonhdr_data (ex_object q) = None"
  "ob_opcode (ex_object q) = 2" "ob_lastopcode (ex_object q) = 2"
  by (simp_all add: ex_object_def obex_object_setcmd_def obex_object_init_def obex_object_setrsp_def
      obex_object_zero_def)

lemma ex_handle_simps [simp]:
  "mtu_tx ex_handle = 255" "mtu_rx ex_handle = 1024" "t_type (tport ex_handle) = OBEX_TRANS_CUSTOM"
  "ct_write (ctrans ex_handle) = 1" "tx_msg ex_handle = buf_holding [] 1024"
  "rx_msg ex_handle = buf_holding [] 1024" "cur_object ex_handle = Some 1"
  by (simp_all add: ex_handle_def)

end
