(* ===== verification/Obex_Object.thy ===== *)
theory Obex_Object
  imports Obex_Core
begin

text \<open>
  lib/obex_object.c: the header queues of an object, packing them into packets
  (\<open>obex_object_send\<close> with its body and stream cases), and unpacking received packets
  (\<open>obex_object_receive\<close>). Objects live in the heap \<open>objs\<close> and are named by address, because a
  function may keep a pointer to an object across a callback that frees it; using such a pointer
  is undefined behaviour (\<open>None\<close>).
\<close>

section \<open>Adding a header\<close>

text \<open>\<open>hv.bs\<close>, \<open>hv.bq4\<close>, \<open>hv.bq1\<close>: reading a member of the union that was not stored is undefined.\<close>

definition hv_bs :: "obex_headerdata \<Rightarrow> byte list option option" where
  "hv_bs hv = (case hv of BS p \<Rightarrow> Some p | _ \<Rightarrow> None)"

definition hv_bq4 :: "obex_headerdata \<Rightarrow> 32 word option" where
  "hv_bq4 hv = (case hv of BQ4 v \<Rightarrow> Some v | _ \<Rightarrow> None)"

definition hv_bq1 :: "obex_headerdata \<Rightarrow> byte option" where
  "hv_bq1 hv = (case hv of BQ1 v \<Rightarrow> Some v | _ \<Rightarrow> None)"

text \<open>
  The \<open>switch\<close> over the encoding: the return code so far, the element's buffer and length. The
  buffer is NULL, the length 0 and the code -1 when the buffer cannot be allocated.
\<close>

definition addheader_encode ::
    "alloc \<Rightarrow> byte \<Rightarrow> obex_headerdata \<Rightarrow> nat \<Rightarrow> (int \<times> databuffer option \<times> nat) option" where
  "addheader_encode A hi hv hv_size =
     (if hi AND OBEX_HI_MASK = OBEX_INT
      then (case buf_new A 5 of None \<Rightarrow> Some (-1, None, 0)
        | Some b \<Rightarrow> do { v \<leftarrow> hv_bq4 hv; (ret, b) \<leftarrow> insert_uint_header A b hi v;
                       Some (ret, Some b, 5) })
      else if hi AND OBEX_HI_MASK = OBEX_BYTE
      then (case buf_new A 2 of None \<Rightarrow> Some (-1, None, 0)
        | Some b \<Rightarrow> do { v \<leftarrow> hv_bq1 hv; (ret, b) \<leftarrow> insert_ubyte_header A b hi v;
                       Some (ret, Some b, 2) })
      else if hi AND OBEX_HI_MASK = OBEX_BYTE_STREAM
      then (case buf_new A (hv_size + 3) of None \<Rightarrow> Some (-1, None, 0)
        | Some b \<Rightarrow> do { bs \<leftarrow> hv_bs hv;
                       (ret, b) \<leftarrow> insert_byte_stream_header A b hi bs (s32 (int hv_size));
                       Some (ret, Some b, u32 (int hv_size + 3)) })
      else if hi AND OBEX_HI_MASK = OBEX_UNICODE
      then (case buf_new A (hv_size + 3) of None \<Rightarrow> Some (-1, None, 0)
        | Some b \<Rightarrow> do { bs \<leftarrow> hv_bs hv;
                       (ret, b) \<leftarrow> insert_unicode_header A b hi bs (s32 (int hv_size));
                       Some (ret, Some b, u32 (int hv_size + 3)) })
      else Some (-1, None, 0))"

definition add_tx_header ::
    "'e env \<Rightarrow> 'e world \<Rightarrow> addr \<Rightarrow> header_element \<Rightarrow> int \<Rightarrow> 'e world option" where
  "add_tx_header E w a element added = do {
     ob \<leftarrow> objs w a;
     q \<leftarrow> slist_append (env_alloc E) (tx_headerq ob) (next_addr w, element);
     upd_obj (w\<lparr>next_addr := Suc (next_addr w)\<rparr>) a
       (\<lambda>ob. ob\<lparr>tx_headerq := q, totallen := s32 (totallen ob + added)\<rparr>) }"

definition obex_object_addheader ::
    "'e env \<Rightarrow> 'e world \<Rightarrow> addr \<Rightarrow> byte \<Rightarrow> obex_headerdata \<Rightarrow> nat \<Rightarrow> 32 word
     \<Rightarrow> (int \<times> 'e world) option" where
  "obex_object_addheader E w a hi hv hv_size flags =
     (if flags AND OBEX_FL_STREAM_DATAEND \<noteq> 0
      then (if cur_object (hnd w) = None then Some (-1, w)
            else do { bs \<leftarrow> hv_bs hv;
                      w \<leftarrow> upd_cur w (\<lambda>ob. ob\<lparr>s_stop := True, s_buf := bs, s_len := hv_size\<rparr>);
                      Some (1, w) })
      else if flags AND OBEX_FL_STREAM_DATA \<noteq> 0
      then (if cur_object (hnd w) = None then Some (-1, w)
            else do { bs \<leftarrow> hv_bs hv;
                      w \<leftarrow> upd_cur w (\<lambda>ob. ob\<lparr>s_buf := bs, s_len := hv_size\<rparr>);
                      Some (1, w) })
      else do {
        ob \<leftarrow> objs w a;
        (let maxlen = (if flags AND OBEX_FL_FIT_ONE_PACKET \<noteq> 0
                       then u32 (int (unat (mtu_tx (hnd w))) - totallen ob - 3)
                       else u32 (int (unat (mtu_tx (hnd w))) - 3));
             element = \<lparr>h_buf = None, h_hi = hi, h_flags = flags, h_length = 0, h_offset = 0,
                        h_body_touched = False, h_stream = False\<rparr>
         in if \<not> malloc_ok (env_alloc E) 32 then Some (-1, w)
            else if flags AND OBEX_FL_STREAM_START \<noteq> 0
            then do { w \<leftarrow> add_tx_header E w a (element\<lparr>h_stream := True\<rparr>) 0; Some (1, w) }
            else if hi = OBEX_HDR_EMPTY
            then do { w \<leftarrow> add_tx_header E w a element 0; Some (1, w) }
            else do {
              (ret, buf, len) \<leftarrow> addheader_encode (env_alloc E) hi hv hv_size;
              (let ret = (if (hi \<noteq> OBEX_HDR_BODY \<or> flags AND OBEX_FL_FIT_ONE_PACKET \<noteq> 0)
                             \<and> maxlen < len then -1 else ret)
               in if ret > 0
                  then do { w \<leftarrow> add_tx_header E w a (element\<lparr>h_buf := buf, h_length := len\<rparr>) ret;
                            Some (1, w) }
                  else Some (ret, w)) }) })"

section \<open>What adding a header does\<close>

text \<open>The value of a header as the application passes it.\<close>

definition hv_data :: "hdr_value \<Rightarrow> obex_headerdata" where
  "hv_data v = (case v of HInt x \<Rightarrow> BQ4 x | HByte b \<Rightarrow> BQ1 b | HBytes d \<Rightarrow> BS (Some d))"

definition hv_len :: "hdr_value \<Rightarrow> nat" where
  "hv_len v = (case v of HInt x \<Rightarrow> 4 | HByte b \<Rightarrow> 1 | HBytes d \<Rightarrow> length d)"

definition hdr_size_ok :: "byte \<Rightarrow> hdr_value \<Rightarrow> bool" where
  "hdr_size_ok hi v = (case v of
       HInt _ \<Rightarrow> hi AND OBEX_HI_MASK = OBEX_INT
     | HByte _ \<Rightarrow> hi AND OBEX_HI_MASK = OBEX_BYTE
     | HBytes d \<Rightarrow> (hi AND OBEX_HI_MASK = OBEX_UNICODE \<or> hi AND OBEX_HI_MASK = OBEX_BYTE_STREAM)
                  \<and> length d + 3 < 2147483648)"

lemma addheader_encode_spec:
  assumes A: "generous A" and ok: "hdr_size_ok hi v"
  obtains b where "addheader_encode A hi (hv_data v) (hv_len v)
      = Some (int (length (enc_header hi v)), Some b, length (enc_header hi v))"
    "buf_wf b" "buf_bytes b = enc_header hi v" "data_size b = length (enc_header hi v)"
proof -
  obtain b0 where b0: "buf_new A (length (enc_header hi v)) = Some b0"
    using buf_new_generous [OF A, of "length (enc_header hi v)"] ok
    by (auto simp: length_enc_header hdr_size_ok_def split: hdr_value.splits)
  have wf: "buf_wf b0" and b0': "buf_bytes b0 = []" "data_size b0 = 0" "head_avail b0 = 0"
    using buf_new_cases [OF b0] by simp_all
  have room: "buf_room_end A b0 k" if "k < 2147483651" for k
    using that A b0' by (simp add: buf_room_end_def)
  show ?thesis
  proof (cases v)
    case (HInt x)
    obtain p' where "insert_uint_header A b0 hi x = Some (5, p')" "buf_wf p'"
      "buf_bytes p' = buf_bytes b0 @ enc_header hi (HInt x)" "data_size p' = data_size b0 + 5"
      by (rule insert_uint_header_spec [OF wf room]) auto
    then show ?thesis using that [of p'] b0 ok HInt
      by (simp add: addheader_encode_def hv_data_def hv_len_def hv_bq4_def hdr_size_ok_def
          length_enc_header b0')
  next
    case (HByte x)
    obtain p' where "insert_ubyte_header A b0 hi x = Some (2, p')" "buf_wf p'"
      "buf_bytes p' = buf_bytes b0 @ enc_header hi (HByte x)" "data_size p' = data_size b0 + 2"
      by (rule insert_ubyte_header_spec [OF wf room]) auto
    then show ?thesis using that [of p'] b0 ok HByte
      by (simp add: addheader_encode_def hv_data_def hv_len_def hv_bq1_def hdr_size_ok_def
          length_enc_header b0')
  next
    case (HBytes d)
    define n where "n = length d"
    have n: "n \<le> length d" "n + 3 < 2147483648" "take n d = d"
      using ok HBytes by (simp_all add: n_def hdr_size_ok_def)
    have r: "buf_room_end A b0 (n + 3)" by (rule room) (use n in simp)
    have s: "s32 (int n) = int n" "u32 (int n + 3) = n + 3" 
      using n(2) by (simp_all add: c_arith nat_add_distrib)
    obtain p1 where p1: "insert_byte_stream_header A b0 hi (Some d) (int n) = Some (int n + 3, p1)"
      "buf_wf p1" "buf_bytes p1 = buf_bytes b0 @ enc_header hi (HBytes (take n d))"
      "data_size p1 = data_size b0 + (n + 3)"
      by (rule insert_byte_stream_header_spec [OF wf n(1,2) r, of hi]) auto
    obtain p2 where p2: "insert_unicode_header A b0 hi (Some d) (int n) = Some (int n + 3, p2)"
      "buf_wf p2" "buf_bytes p2 = buf_bytes b0 @ enc_header hi (HBytes (take n d))"
      "data_size p2 = data_size b0 + (n + 3)"
      by (rule insert_unicode_header_spec [OF wf n(1,2) r, of hi]) auto
    have enc: "length (enc_header hi v) = n + 3" using HBytes by (simp add: length_enc_header n_def)
    have b: "buf_new A (n + 3) = Some b0" using b0 enc by simp
    have e: "addheader_encode A hi (BS (Some d)) n = Some (int (n + 3), Some p1, n + 3)"
      if "hi AND OBEX_HI_MASK = OBEX_BYTE_STREAM"
      using that b p1(1) s by (simp add: addheader_encode_def hv_bs_def add.commute)
    have e': "addheader_encode A hi (BS (Some d)) n = Some (int (n + 3), Some p2, n + 3)"
      if "hi AND OBEX_HI_MASK = OBEX_UNICODE"
      using that b p2(1) s by (simp add: addheader_encode_def hv_bs_def add.commute)
    have hv: "hv_data v = BS (Some d)" "hv_len v = n" "enc_header hi (HBytes (take n d)) = enc_header hi v"
      using HBytes n(3) by (simp_all add: hv_data_def hv_len_def n_def)
    from ok HBytes consider "hi AND OBEX_HI_MASK = OBEX_UNICODE" | "hi AND OBEX_HI_MASK = OBEX_BYTE_STREAM"
      by (auto simp: hdr_size_ok_def)
    then show ?thesis
      by cases (use that [of p1] that [of p2] e e' hv p1 p2 b0' enc in simp_all)
  qed
qed

definition add_limit :: "obex \<Rightarrow> obex_object \<Rightarrow> 32 word \<Rightarrow> nat" where
  "add_limit self ob flags = (if flags AND OBEX_FL_FIT_ONE_PACKET \<noteq> 0
     then u32 (int (unat (mtu_tx self)) - totallen ob - 3) else u32 (int (unat (mtu_tx self)) - 3))"

definition queued_element :: "byte \<Rightarrow> hdr_value \<Rightarrow> 32 word \<Rightarrow> databuffer \<Rightarrow> header_element" where
  "queued_element hi v flags b = \<lparr>h_buf = Some b, h_hi = hi, h_flags = flags,
     h_length = length (enc_header hi v), h_offset = 0, h_body_touched = False, h_stream = False\<rparr>"

definition plain_flags :: "32 word \<Rightarrow> bool" where
  "plain_flags flags \<longleftrightarrow> flags AND OBEX_FL_STREAM_DATAEND = 0 \<and> flags AND OBEX_FL_STREAM_DATA = 0
     \<and> flags AND OBEX_FL_STREAM_START = 0"

lemma length_enc_header_pos: "0 < length (enc_header hi v)"
  by (cases v) (simp_all add: length_enc_header)

lemma addheader_spec:
  assumes "generous (env_alloc E)" and "objs w a = Some ob" and "hdr_size_ok hi v"
    and "hi \<noteq> OBEX_HDR_EMPTY" and "plain_flags flags"
  shows "if (hi = OBEX_HDR_BODY \<and> flags AND OBEX_FL_FIT_ONE_PACKET = 0)
            \<or> length (enc_header hi v) \<le> add_limit (hnd w) ob flags
     then \<exists>b. obex_object_addheader E w a hi (hv_data v) (hv_len v) flags
            = Some (1, w\<lparr>objs := (objs w)(a := Some (ob\<lparr>
                tx_headerq := tx_headerq ob @ [(next_addr w, queued_element hi v flags b)],
                totallen := s32 (totallen ob + int (length (enc_header hi v)))\<rparr>)),
              next_addr := Suc (next_addr w)\<rparr>)
          \<and> buf_wf b \<and> buf_bytes b = enc_header hi v
     else obex_object_addheader E w a hi (hv_data v) (hv_len v) flags = Some (-1, w)"
proof -
  obtain b where enc: "addheader_encode (env_alloc E) hi (hv_data v) (hv_len v)
      = Some (int (length (enc_header hi v)), Some b, length (enc_header hi v))"
    and b: "buf_wf b" "buf_bytes b = enc_header hi v"
    by (rule addheader_encode_spec [OF assms(1,3)]) blast
  define maxlen where "maxlen = add_limit (hnd w) ob flags"
  have m: "malloc_ok (env_alloc E) 32" "malloc_ok (env_alloc E) 16"
    using assms(1) by simp_all
  have "obex_object_addheader E w a hi (hv_data v) (hv_len v) flags =
     (let ret = (if (hi \<noteq> OBEX_HDR_BODY \<or> flags AND OBEX_FL_FIT_ONE_PACKET \<noteq> 0)
         \<and> maxlen < length (enc_header hi v) then -1 else int (length (enc_header hi v)))
      in if ret > 0 then do { w \<leftarrow> add_tx_header E w a (queued_element hi v flags b) ret; Some (1, w) }
         else Some (ret, w))"
    using assms(2,4,5) m(1) enc
    by (simp add: obex_object_addheader_def plain_flags_def maxlen_def add_limit_def queued_element_def
        Let_def)
  moreover have "add_tx_header E w a (queued_element hi v flags b) (int (length (enc_header hi v)))
      = Some (w\<lparr>objs := (objs w)(a := Some (ob\<lparr>
                tx_headerq := tx_headerq ob @ [(next_addr w, queued_element hi v flags b)],
                totallen := s32 (totallen ob + int (length (enc_header hi v)))\<rparr>)),
              next_addr := Suc (next_addr w)\<rparr>)"
    using assms(2) m(2) by (simp add: add_tx_header_def)
  ultimately show ?thesis
    using b length_enc_header_pos [of hi v]
    by (auto simp: Let_def maxlen_def [symmetric] not_le intro: exI [of _ b])
qed



text \<open>
  The one-packet limit is computed without sign. Once the headers of an object
  (added without the flag) exceed the packet, the space left is negative, wraps to about four
  billion, and every further header passes the one-packet check.
\<close>

theorem addheader_accepts_overfull:
  assumes "generous (env_alloc E)" and "objs w a = Some ob" and "hdr_size_ok hi v"
    and "hi \<noteq> OBEX_HDR_EMPTY" and "plain_flags flags" and "flags AND OBEX_FL_FIT_ONE_PACKET \<noteq> 0"
    and "int (unat (mtu_tx (hnd w))) < totallen ob + 3" and "totallen ob < 65536"
  shows "\<exists>w'. obex_object_addheader E w a hi (hv_data v) (hv_len v) flags = Some (1, w')"
proof -
  define m where "m = int (unat (mtu_tx (hnd w)))"
  have m: "0 \<le> m" by (simp add: m_def)
  have "4294901757 \<le> add_limit (hnd w) ob flags"
    using assms(6-8) m unfolding add_limit_def m_def [symmetric] by (simp add: u32_neg)
  moreover have "length (enc_header hi v) < 2147483651"
    using assms(3) by (auto simp: hdr_size_ok_def length_enc_header split: hdr_value.splits)
  ultimately have "length (enc_header hi v) \<le> add_limit (hnd w) ob flags" by linarith
  with addheader_spec [OF assms(1-5)] show ?thesis by auto
qed

theorem addheader_accepts_overfull_witness:
  "\<exists>w'. obex_object_addheader ex_env (ex_world (obex_object_init\<lparr>totallen := 300\<rparr>)) 1 0x01
     (BS (Some [0, 65])) 2 1 = Some (1, w')"
proof -
  have "mtu_tx ex_handle = 255" by (simp add: ex_handle_def)
  moreover have "plain_flags 1" "hdr_size_ok 0x01 (HBytes [0, 65])"
    by (simp_all add: plain_flags_def hdr_size_ok_def)
  ultimately show ?thesis
    using addheader_accepts_overfull [of ex_env "ex_world (obex_object_init\<lparr>totallen := 300\<rparr>)" 1
        "obex_object_init\<lparr>totallen := 300\<rparr>" "0x01" "HBytes [0, 65]" 1]
    by (simp add: hv_data_def hv_len_def flip: numeral_2_eq_2)
qed

section \<open>Sending a stream\<close>

definition tx_insert_end :: "'e env \<Rightarrow> 'e world \<Rightarrow> byte list \<Rightarrow> nat \<Rightarrow> 'e world option" where
  "tx_insert_end E w src n = do {
     b \<leftarrow> buf_insert_end (env_alloc E) (tx_msg (hnd w)) src n; Some (set_tx w b) }"

text \<open>The source pointer \<open>s_buf + s_offset\<close>.\<close>

definition stream_ptr :: "obex_object \<Rightarrow> byte list" where
  "stream_ptr ob = drop (s_offset ob) (case s_buf ob of None \<Rightarrow> [] | Some m \<Rightarrow> m)"

datatype stream_ask = StreamMore | StreamBreak | StreamError

text \<open>The application is asked for data when there is none left.\<close>

definition stream_refill :: "'e env \<Rightarrow> addr \<Rightarrow> 'e world \<Rightarrow> (stream_ask \<times> 'e world) option" where
  "stream_refill E a w = do {
     ob \<leftarrow> objs w a;
     (if s_len ob \<noteq> 0 then Some (StreamMore, w)
      else do {
        w \<leftarrow> upd_obj w a (\<lambda>ob. ob\<lparr>s_offset := 0, s_buf := None\<rparr>);
        w \<leftarrow> obex_deliver_event E w OBEX_EV_STREAMEMPTY 0 0 False;
        ob \<leftarrow> objs w a;
        Some (if s_stop ob then StreamBreak
              else if suspend ob \<and> s_buf ob = None then StreamBreak
              else if s_buf ob = None then StreamError
              else StreamMore, w) }) }"

text \<open>
  The \<open>do ... while (tx_left > 0)\<close> loop; the result is \<open>None\<close> for the error return and the final
  \<open>actual\<close> otherwise. An application that keeps feeding empty chunks keeps the loop going.
\<close>

partial_function (option) send_stream_loop ::
    "'e env \<Rightarrow> addr \<Rightarrow> nat \<Rightarrow> int \<Rightarrow> 'e world \<Rightarrow> (int option \<times> 'e world) option" where
  "send_stream_loop E a tx_left actual w = do {
     (ask, w) \<leftarrow> stream_refill E a w;
     (case ask of
        StreamError \<Rightarrow> Some (None, w)
      | StreamBreak \<Rightarrow> Some (Some actual, w)
      | StreamMore \<Rightarrow> do {
          ob \<leftarrow> objs w a;
          (if tx_left < s_len ob
           then do {
             w \<leftarrow> tx_insert_end E w (stream_ptr ob) tx_left;
             w \<leftarrow> upd_obj w a (\<lambda>ob. ob\<lparr>s_len := s_len ob - tx_left,
                                        s_offset := u32 (int (s_offset ob) + int tx_left)\<rparr>);
             Some (Some (s32 (actual + int tx_left)), w) }
           else do {
             w \<leftarrow> tx_insert_end E w (stream_ptr ob) (s_len ob);
             w \<leftarrow> upd_obj w a (\<lambda>ob. ob\<lparr>s_offset := u32 (int (s_offset ob) + int (s_len ob)), s_len := 0\<rparr>);
             (let left = (if suspend ob then 0 else tx_left - s_len ob);
                  actual = s32 (actual + int (s_len ob))
              in if left > 0 then send_stream_loop E a left actual w
                 else Some (Some actual, w)) }) }) }"

text \<open>
  \<open>body_txh\<close> points into the transmit buffer and is written after the loop: if the buffer was
  reallocated meanwhile the pointer is dead.
\<close>

definition tx_store_at :: "'e world \<Rightarrow> nat \<times> nat option \<Rightarrow> nat \<Rightarrow> byte list \<Rightarrow> 'e world option" where
  "tx_store_at w p off d =
     (let b = tx_msg (hnd w) in
      if bf_gen b \<noteq> fst p then None
      else do { b \<leftarrow> buf_store b (map_option (\<lambda>x. x + off) (snd p)) d; Some (set_tx w b) })"

definition send_stream ::
    "'e env \<Rightarrow> addr \<Rightarrow> nat \<Rightarrow> 'e world \<Rightarrow> (int \<times> 'e world) option" where
  "send_stream E h tx_left w = do {
     a \<leftarrow> cur_object (hnd w);
     (hdr, b) \<leftarrow> buf_reserve_end (env_alloc E) (tx_msg (hnd w)) 3;
     (let body_txh = (bf_gen b, hdr); w = set_tx w b in do {
       (res, w) \<leftarrow> send_stream_loop E a (u32 (int tx_left - 3)) 3 w;
       (case res of
          None \<Rightarrow> Some (-1, w)
        | Some actual \<Rightarrow> do {
            w \<leftarrow> tx_store_at w body_txh 0 [OBEX_HDR_BODY];
            ob \<leftarrow> objs w a;
            w \<leftarrow> (if s_stop ob \<and> s_len ob = 0
                  then do {
                    w \<leftarrow> upd_obj w a (\<lambda>ob. ob\<lparr>tx_headerq := slist_remove (tx_headerq ob) h\<rparr>);
                    tx_store_at w body_txh 0 [OBEX_HDR_BODY_END] }
                  else Some w);
            w \<leftarrow> tx_store_at w body_txh 1 (be16 (u16 actual));
            Some (actual, w) }) }) }"

section \<open>Sending a body\<close>

text \<open>Writing through the element pointer \<open>h\<close>.\<close>

definition slist_set :: "'a slist \<Rightarrow> addr \<Rightarrow> 'a \<Rightarrow> 'a slist" where
  "slist_set q p x = map (\<lambda>(r, y). if r = p then (r, x) else (r, y)) q"

text \<open>
  In the last fragment the value returned is the body length without the three header bytes; the
  caller subtracts it from the space left.
\<close>

definition send_body ::
    "'e env \<Rightarrow> addr \<Rightarrow> addr \<Rightarrow> header_element \<Rightarrow> nat \<Rightarrow> 'e world \<Rightarrow> (nat \<times> 'e world) option" where
  "send_body E a p h tx_left w = do {
     (hdr, tx) \<leftarrow> buf_reserve_end (env_alloc E) (tx_msg (hnd w)) 3;
     hbuf \<leftarrow> h_buf h;
     (let hbuf = (if \<not> h_body_touched h then buf_remove_begin hbuf 3 else hbuf);
          h = h\<lparr>h_buf := Some hbuf, h_body_touched := True\<rparr>
      in if tx_left < data_size hbuf + 3
         then do {
           tx \<leftarrow> buf_store tx hdr ([OBEX_HDR_BODY] @ be16 (u16 (int tx_left)));
           tx \<leftarrow> buf_insert_end (env_alloc E) tx (buf_ptr hbuf) (u64 (int tx_left - 3));
           w \<leftarrow> upd_obj (set_tx w tx) a (\<lambda>ob. ob\<lparr>tx_headerq := slist_set (tx_headerq ob) p
                  (h\<lparr>h_buf := Some (buf_remove_begin hbuf (u64 (int tx_left - 3)))\<rparr>)\<rparr>);
           Some (tx_left, w) }
         else do {
           tx \<leftarrow> buf_store tx hdr ([OBEX_HDR_BODY_END] @ be16 (u16 (int (data_size hbuf) + 3)));
           tx \<leftarrow> buf_insert_end (env_alloc E) tx (buf_ptr hbuf) (data_size hbuf);
           w \<leftarrow> upd_obj (set_tx w tx) a (\<lambda>ob. ob\<lparr>tx_headerq := slist_remove (tx_headerq ob) p\<rparr>);
           Some (u32 (int (data_size hbuf)), w) }) }"

section \<open>Sending a packet\<close>

definition set_suspend :: "'e world \<Rightarrow> addr \<Rightarrow> header_element \<Rightarrow> 'e world option" where
  "set_suspend w a h =
     (if h_flags h AND OBEX_FL_SUSPEND \<noteq> 0 then upd_obj w a (\<lambda>ob. ob\<lparr>suspend := True\<rparr>) else Some w)"

text \<open>
  One turn of the packing loop for the first header of the queue. The result is \<open>None\<close> for an
  error, or the space left and whether to go on.
\<close>

definition send_header ::
    "'e env \<Rightarrow> addr \<Rightarrow> addr \<Rightarrow> header_element \<Rightarrow> nat \<Rightarrow> 'e world
     \<Rightarrow> ((nat \<times> bool) option \<times> 'e world) option" where
  "send_header E a p h tx_left w =
     (if h_stream h
      then do {
        w \<leftarrow> set_suspend w a h;
        (actual, w) \<leftarrow> send_stream E p tx_left w;
        Some (if actual < 0 then None else Some (u16 (int tx_left - actual), True), w) }
      else if h_hi h = OBEX_HDR_BODY
      then do {
        w \<leftarrow> set_suspend w a h;
        (actual, w) \<leftarrow> send_body E a p h tx_left w;
        Some (Some (u16 (int tx_left - int actual), True), w) }
      else if h_hi h = OBEX_HDR_EMPTY
      then do {
        w \<leftarrow> set_suspend w a h;
        w \<leftarrow> upd_obj w a (\<lambda>ob. ob\<lparr>tx_headerq := slist_remove (tx_headerq ob) p\<rparr>);
        Some (Some (tx_left, True), w) }
      else if h_length h \<le> tx_left
      then do {
        hbuf \<leftarrow> h_buf h;
        w \<leftarrow> tx_insert_end E w (buf_ptr hbuf) (h_length h);
        w \<leftarrow> set_suspend w a h;
        w \<leftarrow> upd_obj w a (\<lambda>ob. ob\<lparr>tx_headerq := slist_remove (tx_headerq ob) p\<rparr>);
        Some (Some (tx_left - h_length h, True), w) }
      else if h_length h > unat (mtu_tx (hnd w)) then Some (None, w)
      else Some (Some (tx_left, False), w))"

partial_function (option) send_headers ::
    "'e env \<Rightarrow> addr \<Rightarrow> nat \<Rightarrow> 'e world \<Rightarrow> (bool \<times> 'e world) option" where
  "send_headers E a tx_left w = do {
     ob \<leftarrow> objs w a;
     (case tx_headerq ob of
        [] \<Rightarrow> Some (True, w)
      | node # _ \<Rightarrow> do {
          (res, w) \<leftarrow> send_header E a (fst node) (snd node) tx_left w;
          (case res of
             None \<Rightarrow> Some (False, w)
           | Some (tx_left, addmore) \<Rightarrow> do {
               ob \<leftarrow> objs w a;
               (if addmore \<and> \<not> suspend ob \<and> tx_left \<noteq> 0 then send_headers E a tx_left w
                else Some (True, w)) }) }) }"

definition send_tx_left :: "obex \<Rightarrow> nat" where
  "send_tx_left self =
     (let tx_left = u16 (int (unat (mtu_tx self)) - 3) in
      case t_type (tport self) of
        OBEX_TRANS_IRDA \<Rightarrow>
          (if t_mtu (tport self) > 0 \<and> unat (mtu_tx self) > t_mtu (tport self)
           then u16 (int tx_left - int (unat (mtu_tx self) mod t_mtu (tport self)))
           else tx_left)
      | _ \<Rightarrow> tx_left)"

definition send_opcode :: "obex_object \<Rightarrow> bool \<Rightarrow> bool \<Rightarrow> byte \<times> int" where
  "send_opcode ob allowfinalcmd forcefinalbit =
     (if tx_headerq ob \<noteq> []
      then (if forcefinalbit then ob_opcode ob OR OBEX_FINAL else ob_opcode ob, 0)
      else if \<not> allowfinalcmd then (ob_opcode ob OR OBEX_FINAL, 0)
      else (ob_lastopcode ob OR OBEX_FINAL, 1))"

definition send_nonhdr :: "'e env \<Rightarrow> 'e world \<Rightarrow> addr \<Rightarrow> 'e world option" where
  "send_nonhdr E w a = do {
     ob \<leftarrow> objs w a;
     (case tx_nonhdr_data ob of
        None \<Rightarrow> Some w
      | Some d \<Rightarrow> do { w \<leftarrow> tx_insert_end E w (buf_ptr d) (data_size d);
                      upd_obj w a (\<lambda>ob. ob\<lparr>tx_nonhdr_data := None\<rparr>) }) }"

definition obex_object_send ::
    "'e env \<Rightarrow> 'e world \<Rightarrow> addr \<Rightarrow> bool \<Rightarrow> bool \<Rightarrow> (int \<times> 'e world) option" where
  "obex_object_send E w a allowfinalcmd forcefinalbit = do {
     ob \<leftarrow> objs w a;
     (if suspend ob then Some (0, w)
      else do {
        w \<leftarrow> send_nonhdr E (set_tx w (buf_reuse (tx_msg (hnd w)))) a;
        (ok, w) \<leftarrow> send_headers E a (send_tx_left (hnd w)) w;
        (if \<not> ok then Some (-1, w)
         else do {
           ob \<leftarrow> objs w a;
           (let (real_opcode, finished) = send_opcode ob allowfinalcmd forcefinalbit in do {
             (actual, w) \<leftarrow> obex_data_request E w real_opcode;
             Some (if actual < 0 then actual else finished, w) }) }) }) }"

end
