(* ===== verification/Obex_Receive.thy ===== *)
theory Obex_Receive
  imports Obex_Object
begin

text \<open>
  The receiving half of lib/obex_object.c: unpacking the headers of a packet into the receive
  queue, the special treatment of body headers, reading the queue, and the operations with which
  the application steers a transfer (stream, suspend, resume).
\<close>

section \<open>Reading headers\<close>

text \<open>
  \<open>obex_object_getnextheader\<close> returns the code 0 as \<open>None\<close> and the code 1 with the values stored
  through \<open>hi\<close>, \<open>hv\<close> and \<open>hv_size\<close>. The element moves to the list of headers already read.
\<close>

definition header_value :: "header_element \<Rightarrow> obex_headerdata option" where
  "header_value h = do {
     b \<leftarrow> h_buf h;
     (if h_hi h AND OBEX_HI_MASK = OBEX_BYTE_STREAM then Some (BS (Some (buf_ptr b)))
      else if h_hi h AND OBEX_HI_MASK = OBEX_UNICODE then Some (BS (Some (buf_ptr b)))
      else if h_hi h AND OBEX_HI_MASK = OBEX_INT
      then do { d \<leftarrow> mem_read (buf_ptr b) 0 4; Some (BQ4 (rd32 (d ! 0) (d ! 1) (d ! 2) (d ! 3))) }
      else do { d \<leftarrow> mem_read (buf_ptr b) 0 1; Some (BQ1 (d ! 0)) }) }"

definition obex_object_getnextheader ::
    "'e env \<Rightarrow> 'e world \<Rightarrow> addr \<Rightarrow> ((byte \<times> obex_headerdata \<times> nat) option \<times> 'e world) option" where
  "obex_object_getnextheader E w a = do {
     ob \<leftarrow> objs w a;
     (case rx_headerq ob of
        [] \<Rightarrow> Some (None, w)
      | (p, h) # _ \<Rightarrow> do {
          rm \<leftarrow> slist_append (env_alloc E) (rx_headerq_rm ob) (p, h);
          w \<leftarrow> upd_obj w a (\<lambda>ob. ob\<lparr>rx_headerq := slist_remove (rx_headerq ob) p, rx_headerq_rm := rm\<rparr>);
          hv \<leftarrow> header_value h;
          Some (Some (h_hi h, hv, h_length h), w) }) }"

definition obex_object_reparseheaders :: "'e world \<Rightarrow> addr \<Rightarrow> (int \<times> 'e world) option" where
  "obex_object_reparseheaders w a = do {
     ob \<leftarrow> objs w a;
     (if rx_headerq ob \<noteq> [] then Some (0, w)
      else do { w \<leftarrow> upd_obj w a (\<lambda>ob. ob\<lparr>rx_headerq := rx_headerq_rm ob, rx_headerq_rm := []\<rparr>);
                Some (1, w) }) }"

section \<open>Bodies\<close>

definition obex_object_receive_stream ::
    "'e env \<Rightarrow> 'e world \<Rightarrow> byte \<Rightarrow> byte list \<Rightarrow> nat \<Rightarrow> 'e world option" where
  "obex_object_receive_stream E w hi source len = do {
     a \<leftarrow> cur_object (hnd w);
     (if hi = OBEX_HDR_BODY \<and> len = 0 then Some w
      else do {
        w \<leftarrow> upd_obj w a (\<lambda>ob. ob\<lparr>s_buf := Some source, s_len := len\<rparr>);
        ob \<leftarrow> objs w a;
        (if abort_req ob then Some w
         else do {
           w \<leftarrow> obex_deliver_event E w OBEX_EV_STREAMAVAIL 0 0 False;
           (if hi = OBEX_HDR_BODY_END \<and> len \<noteq> 0
            then do {
              w \<leftarrow> upd_obj w a (\<lambda>ob. ob\<lparr>s_buf := Some source, s_len := 0\<rparr>);
              obex_deliver_event E w OBEX_EV_STREAMAVAIL 0 0 False }
            else Some w) }) }) }"

text \<open>The body buffer with room for \<open>len\<close> more bytes, or the error return (\<open>None\<close> inside).\<close>

definition receive_body_buffer ::
    "alloc \<Rightarrow> obex_object \<Rightarrow> nat \<Rightarrow> (bool \<times> obex_object) option" where
  "receive_body_buffer A ob len =
     (let (ok, ob) = (case rx_body ob of
            Some _ \<Rightarrow> (True, ob)
          | None \<Rightarrow>
              (let alloclen = (if hinted_body_len ob \<noteq> 0 then hinted_body_len ob
                               else s32 (OBEX_OBJECT_ALLOCATIONTRESHOLD + int len))
               in case buf_new A (u64 alloclen) of
                    None \<Rightarrow> (False, ob) | Some b \<Rightarrow> (True, ob\<lparr>rx_body := Some b\<rparr>)))
      in if \<not> ok then Some (False, ob)
         else do {
           b \<leftarrow> rx_body ob;
           (if data_avail b + tail_avail b < len
            then (let t = s32 (int (buf_total_size b));
                      wanted = u32 (t + OBEX_OBJECT_ALLOCATIONTRESHOLD + int len) in do {
              b \<leftarrow> buf_resize A b wanted;
              Some (buf_total_size b = wanted, ob\<lparr>rx_body := Some b\<rparr>) })
            else Some (True, ob)) })"

definition obex_object_receive_body ::
    "'e env \<Rightarrow> 'e world \<Rightarrow> addr \<Rightarrow> byte \<Rightarrow> byte list \<Rightarrow> nat \<Rightarrow> (int \<times> 'e world) option" where
  "obex_object_receive_body E w a hi source len =
     (let A = env_alloc E in
      if len > data_size (rx_msg (hnd w)) then Some (-1, w)
      else do {
        ob \<leftarrow> objs w a;
        (ok, ob) \<leftarrow> receive_body_buffer A ob len;
        (if \<not> ok then do { w \<leftarrow> upd_obj w a (\<lambda>_. ob); Some (-1, w) }
         else do {
           b \<leftarrow> rx_body ob;
           b \<leftarrow> buf_insert_end A b source len;
           (if hi = OBEX_HDR_BODY_END
            then do {
              q \<leftarrow> (if malloc_ok A 32
                    then slist_append A (rx_headerq ob) (next_addr w,
                      \<lparr>h_buf = Some b, h_hi = OBEX_HDR_BODY, h_flags = 0, h_length = u32 (int (data_size b)),
                       h_offset = 0, h_body_touched = False, h_stream = False\<rparr>)
                    else Some (rx_headerq ob));
              w \<leftarrow> upd_obj (w\<lparr>next_addr := Suc (next_addr w)\<rparr>) a
                     (\<lambda>_. ob\<lparr>rx_headerq := q, rx_body := None\<rparr>);
              Some (1, w) }
            else do {
              w \<leftarrow> upd_obj w a (\<lambda>_. ob\<lparr>rx_body := Some b\<rparr>);
              Some (1, w) }) }) })"

section \<open>Unpacking a packet\<close>

text \<open>
  A header element holding a copy of \<open>len\<close> bytes from \<open>source\<close>; \<open>None\<close> inside when an allocation
  is refused. An empty header gets a dummy buffer of one byte.
\<close>

definition receive_element ::
    "alloc \<Rightarrow> byte \<Rightarrow> byte list \<Rightarrow> nat \<Rightarrow> header_element option option" where
  "receive_element A hi source len =
     (if \<not> malloc_ok A 32 then Some None
      else do {
        buf \<leftarrow> (if len = 0 then Some (buf_new A 1)
                else case buf_new A len of
                  None \<Rightarrow> Some None
                | Some b \<Rightarrow> do { b \<leftarrow> buf_insert_end A b source len; Some (Some b) });
        Some (case buf of None \<Rightarrow> None
          | Some b \<Rightarrow> Some \<lparr>h_buf = Some b, h_hi = hi, h_flags = 0, h_length = len, h_offset = 0,
                           h_body_touched = False, h_stream = False\<rparr>) })"

text \<open>
  The \<open>switch\<close> on the header encoding: source pointer (NULL when the data has been dealt with),
  length of the value, length of the header, error flag. The length field of a truncated header is
  read all the same.
\<close>

definition receive_decode ::
    "'e env \<Rightarrow> 'e world \<Rightarrow> addr \<Rightarrow> byte
     \<Rightarrow> (byte list option \<times> nat \<times> nat \<times> bool \<times> 'e world) option" where
  "receive_decode E w a hi =
     (let data = buf_ptr (rx_msg (hnd w)) in
      if hi AND OBEX_HI_MASK = OBEX_UNICODE
      then do {
        hl \<leftarrow> mem_read data 1 2;
        (let hlen = rd16 (hl ! 0) (hl ! 1)
         in Some (Some (drop 3 data), u32 (int hlen - 3), hlen, False, w)) }
      else if hi AND OBEX_HI_MASK = OBEX_BYTE_STREAM
      then do {
        hl \<leftarrow> mem_read data 1 2;
        (let hlen = rd16 (hl ! 0) (hl ! 1); len = u32 (int hlen - 3); source = drop 3 data
         in if hi = OBEX_HDR_BODY \<or> hi = OBEX_HDR_BODY_END
            then do {
              ob \<leftarrow> objs w a;
              (if s_srv ob
               then do { w \<leftarrow> obex_object_receive_stream E w hi source len;
                         Some (None, len, hlen, False, w) }
               else do { (r, w) \<leftarrow> obex_object_receive_body E w a hi source len;
                         Some (None, len, hlen, r < 0, w) }) }
            else Some (Some source, len, hlen, False, w)) }
      else if hi AND OBEX_HI_MASK = OBEX_BYTE then Some (Some (drop 1 data), 1, 2, False, w)
      else if hi AND OBEX_HI_MASK = OBEX_INT then Some (Some (drop 1 data), 4, 5, False, w)
      else Some (None, 0, 0, True, w))"

text \<open>One turn of the loop: whether an error occurred, and the number of bytes to pull.\<close>

definition receive_header :: "'e env \<Rightarrow> addr \<Rightarrow> 'e world \<Rightarrow> (bool \<times> nat \<times> 'e world) option" where
  "receive_header E a w = do {
     h0 \<leftarrow> mem_read (buf_ptr (rx_msg (hnd w))) 0 1;
     (let hi = h0 ! 0 in do {
       (source, len, hlen, err, w) \<leftarrow> receive_decode E w a hi;
       (let (source, err) = (if len > data_size (rx_msg (hnd w)) then (None, True) else (source, err))
        in case source of
             None \<Rightarrow> Some (err, hlen, w)
           | Some src \<Rightarrow> do {
               w \<leftarrow> (if hi = OBEX_HDR_LENGTH
                     then do { d \<leftarrow> mem_read src 0 4;
                               upd_obj w a (\<lambda>ob. ob\<lparr>hinted_body_len :=
                                 s32 (int (unat (rd32 (d ! 0) (d ! 1) (d ! 2) (d ! 3))))\<rparr>) }
                     else Some w);
               el \<leftarrow> receive_element (env_alloc E) hi src len;
               (case el of
                  None \<Rightarrow> Some (True, hlen, w)
                | Some element \<Rightarrow> do {
                    ob \<leftarrow> objs w a;
                    q \<leftarrow> slist_append (env_alloc E) (rx_headerq ob) (next_addr w, element);
                    w \<leftarrow> upd_obj (w\<lparr>next_addr := Suc (next_addr w)\<rparr>) a (\<lambda>ob. ob\<lparr>rx_headerq := q\<rparr>);
                    Some (err, hlen, w) }) }) }) }"

text \<open>
  The loop ends when the message is used up. A callback may touch the receive buffer, so its end is
  not certain in general.
\<close>

partial_function (option) receive_headers ::
    "'e env \<Rightarrow> addr \<Rightarrow> 'e world \<Rightarrow> (int \<times> 'e world) option" where
  "receive_headers E a w =
     (if data_size (rx_msg (hnd w)) = 0 then Some (1, w)
      else do {
        (err, hlen, w) \<leftarrow> receive_header E a w;
        (if err then Some (-1, w)
         else receive_headers E a (set_rx w (buf_remove_begin (rx_msg (hnd w)) hlen))) })"

definition receive_nonhdr :: "'e env \<Rightarrow> addr \<Rightarrow> 'e world \<Rightarrow> (bool \<times> 'e world) option" where
  "receive_nonhdr E a w = do {
     ob \<leftarrow> objs w a;
     (if headeroffset ob = 0 then Some (True, w)
      else case buf_new (env_alloc E) (headeroffset ob) of
        None \<Rightarrow> do { w \<leftarrow> upd_obj w a (\<lambda>ob. ob\<lparr>rx_nonhdr_data := None\<rparr>); Some (False, w) }
      | Some b \<Rightarrow> do {
          b \<leftarrow> buf_insert_end (env_alloc E) b (buf_ptr (rx_msg (hnd w))) (headeroffset ob);
          w \<leftarrow> upd_obj w a (\<lambda>ob. ob\<lparr>rx_nonhdr_data := Some b, headeroffset := 0\<rparr>);
          Some (True, set_rx w (buf_remove_begin (rx_msg (hnd w)) (headeroffset ob))) }) }"

definition obex_object_receive :: "'e env \<Rightarrow> 'e world \<Rightarrow> (int \<times> 'e world) option" where
  "obex_object_receive E w = do {
     a \<leftarrow> cur_object (hnd w);
     (ok, w) \<leftarrow> receive_nonhdr E a (set_rx w (buf_remove_begin (rx_msg (hnd w)) 3));
     (if \<not> ok then Some (-1, w) else receive_headers E a w) }"

section \<open>Steering a transfer\<close>

text \<open>
  \<open>obex_object_readstream\<close> with a NULL \<open>buf\<close> enables streaming; otherwise it returns the pointer
  and the length.
\<close>

definition obex_object_readstream ::
    "'e world \<Rightarrow> addr \<Rightarrow> bool \<Rightarrow> (int \<times> byte list option \<times> 'e world) option" where
  "obex_object_readstream w a buf_null =
     (if buf_null
      then do { w \<leftarrow> upd_obj w a (\<lambda>ob. ob\<lparr>s_srv := True\<rparr>); Some (0, None, w) }
      else do { ob \<leftarrow> objs w a; Some (s32 (int (s_len ob)), s_buf ob, w) })"

definition obex_object_suspend :: "'e world \<Rightarrow> addr \<Rightarrow> (int \<times> 'e world) option" where
  "obex_object_suspend w a = do { w \<leftarrow> upd_obj w a (\<lambda>ob. ob\<lparr>suspend := True\<rparr>); Some (0, w) }"

text \<open>\<open>opcode & ~OBEX_FINAL\<close>.\<close>

abbreviation nofinal :: "byte \<Rightarrow> byte" where
  "nofinal c \<equiv> c AND NOT OBEX_FINAL"

definition obex_object_resume :: "'e env \<Rightarrow> 'e world \<Rightarrow> addr \<Rightarrow> (int \<times> 'e world) option" where
  "obex_object_resume E w a = do {
     ob \<leftarrow> objs w a;
     (if \<not> suspend ob then Some (0, w)
      else do {
        w \<leftarrow> upd_obj w a (\<lambda>ob. ob\<lparr>suspend := False\<rparr>);
        (if first_packet_sent ob \<and> \<not> continue_received ob then Some (0, w)
         else do {
           (ret, w) \<leftarrow> obex_object_send E w a True False;
           ob \<leftarrow> objs w a;
           (if ret < 0
            then do { w \<leftarrow> obex_deliver_event E w OBEX_EV_LINKERR (nofinal (ob_opcode ob)) 0 True;
                      Some (-1, w) }
            else if ret \<noteq> 0 \<and> fst (state (hnd w)) = MODE_SRV
            then do { w \<leftarrow> obex_deliver_event E w OBEX_EV_REQDONE (nofinal (ob_opcode ob)) 0 True;
                      Some (0, set_state w (MODE_SRV, STATE_IDLE)) }
            else do {
              w \<leftarrow> (if ret = 0
                    then do {
                      w \<leftarrow> obex_deliver_event E w OBEX_EV_PROGRESS (nofinal (ob_opcode ob)) 0 False;
                      upd_obj w a (\<lambda>ob. ob\<lparr>first_packet_sent := True, continue_received := False\<rparr>) }
                    else Some w);
              Some (0, set_state w (fst (state (hnd w)), STATE_REC)) }) }) }) }"

end
