(* ===== verification/Packing.thy ===== *)
theory Packing
  imports Obex_Object
begin

text \<open>
  The packing of headers into packets, specified without buffers: a queue is a list of items with
  their suspend flags, and \<open>pack\<close> says which bytes go into the packet and what stays queued. The
  packing loop of \<open>obex_object_send\<close> (for queues without streams, which are up to the application)
  implements this function; the properties of packets are properties of \<open>pack\<close>.
\<close>

section \<open>Specification\<close>

datatype tx_item = TX_Body "byte list" | TX_Empty | TX_Plain "byte list"

text \<open>What a packet carries: whole headers, and the fragments of bodies.\<close>

datatype wire = W_Plain "byte list" | W_Frag "byte list" | W_End "byte list"

definition wire_bytes :: "wire \<Rightarrow> byte list" where
  "wire_bytes x = (case x of W_Plain d \<Rightarrow> d
     | W_Frag d \<Rightarrow> enc_header OBEX_HDR_BODY (HBytes d)
     | W_End d \<Rightarrow> enc_header OBEX_HDR_BODY_END (HBytes d))"

definition wires_bytes :: "wire list \<Rightarrow> byte list" where
  "wires_bytes ws = concat (map wire_bytes ws)"

lemma wires_bytes_simps [simp]:
  "wires_bytes [] = []" "wires_bytes (x # ws) = wire_bytes x @ wires_bytes ws"
  "wires_bytes (ws @ ws') = wires_bytes ws @ wires_bytes ws'"
  by (simp_all add: wires_bytes_def)

definition cont_pack :: "wire list \<Rightarrow> (wire list \<times> 'q \<times> bool \<times> bool) option
    \<Rightarrow> (wire list \<times> 'q \<times> bool \<times> bool) option" where
  "cont_pack d r = do { (p, q, s, good) \<leftarrow> r; Some (d @ p, q, s, good) }"

text \<open>
  The result is the payload, the remaining queue, whether sending is suspended and whether it
  succeeded. A body that meets one or two bytes of space is outside the specification: the code
  computes the fragment length \<open>tx_left - 3\<close> without sign and copies from beyond the buffer.
\<close>

fun pack :: "nat \<Rightarrow> nat \<Rightarrow> (tx_item \<times> bool) list
    \<Rightarrow> (wire list \<times> (tx_item \<times> bool) list \<times> bool \<times> bool) option" where
  "pack mtu left [] = Some ([], [], False, True)"
| "pack mtu left ((TX_Body d, s) # q) =
     (if left < length d + 3
      then (if left < 3 then None
            else Some ([W_Frag (take (left - 3) d)], (TX_Body (drop (left - 3) d), s) # q, s, True))
      else if s then Some ([W_End d], q, True, True)
      else cont_pack [W_End d] (pack mtu (left - length d) q))"
| "pack mtu left ((TX_Empty, s) # q) =
     (if s \<or> left = 0 then Some ([], q, s, True) else pack mtu left q)"
| "pack mtu left ((TX_Plain d, s) # q) =
     (if length d \<le> left
      then (if s \<or> left = length d then Some ([W_Plain d], q, s, True)
            else cont_pack [W_Plain d] (pack mtu (left - length d) q))
      else Some ([], (TX_Plain d, s) # q, False, length d \<le> mtu))"

section \<open>The queue of an object as items\<close>

definition elem_item :: "header_element \<Rightarrow> tx_item" where
  "elem_item h =
     (let d = (case h_buf h of None \<Rightarrow> [] | Some b \<Rightarrow> buf_bytes b) in
      if h_hi h = OBEX_HDR_BODY then TX_Body (if h_body_touched h then d else drop 3 d)
      else if h_hi h = OBEX_HDR_EMPTY then TX_Empty else TX_Plain d)"

definition elem_susp :: "header_element \<Rightarrow> bool" where
  "elem_susp h \<longleftrightarrow> h_flags h AND OBEX_FL_SUSPEND \<noteq> 0"

definition item_of :: "addr \<times> header_element \<Rightarrow> tx_item \<times> bool" where
  "item_of n = (elem_item (snd n), elem_susp (snd n))"

definition elem_ok :: "header_element \<Rightarrow> bool" where
  "elem_ok h \<longleftrightarrow> \<not> h_stream h \<and> (h_hi h = OBEX_HDR_EMPTY \<or>
     (\<exists>b. h_buf h = Some b \<and> buf_wf b \<and> data_size b < 2147483648
        \<and> (h_hi h = OBEX_HDR_BODY \<longrightarrow> h_body_touched h \<or> 3 \<le> data_size b)
        \<and> (h_hi h \<noteq> OBEX_HDR_BODY \<longrightarrow> h_length h = data_size b)))"

definition queue_ok :: "header_element slist \<Rightarrow> bool" where
  "queue_ok q \<longleftrightarrow> distinct (map fst q) \<and> (\<forall>n \<in> set q. elem_ok (snd n))"

definition item_bytes :: "tx_item \<Rightarrow> nat" where
  "item_bytes t = (case t of TX_Body d \<Rightarrow> length d + 3 | TX_Empty \<Rightarrow> 0 | TX_Plain d \<Rightarrow> length d)"

definition items_bytes :: "(tx_item \<times> bool) list \<Rightarrow> nat" where
  "items_bytes q = sum_list (map (item_bytes \<circ> fst) q)"

lemma items_bytes_simps [simp]:
  "items_bytes [] = 0" "items_bytes ((t, s) # q) = item_bytes t + items_bytes q"
  by (simp_all add: items_bytes_def)

lemma queue_ok_Cons:
  "queue_ok ((p, h) # q) \<longleftrightarrow> elem_ok h \<and> p \<notin> fst ` set q \<and> queue_ok q"
  by (auto simp: queue_ok_def)

lemma queue_ok_remove [simp]: "queue_ok ((p, h) # q) \<Longrightarrow> slist_remove ((p, h) # q) p = q"
  by (simp add: queue_ok_Cons)

lemma slist_set_head:
  "p \<notin> fst ` set q \<Longrightarrow> slist_set ((p, h) # q) p h' = (p, h') # q"
  by (simp add: slist_set_def, rule map_idI) force

section \<open>The world around the packing loop\<close>

text \<open>The packing loop changes the transmit buffer and the object, nothing else.\<close>

definition put :: "'e world \<Rightarrow> addr \<Rightarrow> databuffer \<Rightarrow> obex_object \<Rightarrow> 'e world" where
  "put w a tx ob = w\<lparr>hnd := (hnd w)\<lparr>tx_msg := tx\<rparr>, objs := (objs w)(a := Some ob)\<rparr>"

lemma put_simps [simp]:
  "objs (put w a tx ob) a = Some ob" "tx_msg (hnd (put w a tx ob)) = tx"
  "mtu_tx (hnd (put w a tx ob)) = mtu_tx (hnd w)"
  "put (put w a tx ob) a tx' ob' = put w a tx' ob'"
  "upd_obj (put w a tx ob) a f = Some (put w a tx (f ob))"
  "(put w a tx ob)\<lparr>hnd := (hnd (put w a tx ob))\<lparr>tx_msg := tx'\<rparr>\<rparr> = put w a tx' ob"
  by (simp_all add: put_def)

lemma put_self: "objs w a = Some ob \<Longrightarrow> put w a (tx_msg (hnd w)) ob = w"
  by (simp add: put_def fun_upd_idem)

text \<open>
  A payload is appended: \<open>grown tx tx' d\<close> says that \<open>tx'\<close> is the buffer \<open>tx\<close> with \<open>d\<close> behind it.
\<close>

definition grown :: "databuffer \<Rightarrow> databuffer \<Rightarrow> byte list \<Rightarrow> bool" where
  "grown tx tx' d \<longleftrightarrow> buf_wf tx' \<and> buf_bytes tx' = buf_bytes tx @ d
     \<and> data_size tx' = data_size tx + length d \<and> head_avail tx' = head_avail tx
     \<and> buf_cap tx' \<le> max (buf_cap tx) (head_avail tx + data_size tx + length d)
     \<and> tail_avail tx' \<le> tail_avail tx"

lemma grown_refl: "buf_wf tx \<Longrightarrow> grown tx tx []"
  by (simp add: grown_def)

lemma grown_trans: "grown tx tx1 d \<Longrightarrow> grown tx1 tx2 e \<Longrightarrow> grown tx tx2 (d @ e)"
  by (auto simp: grown_def)

definition tx_room :: "databuffer \<Rightarrow> nat \<Rightarrow> bool" where
  "tx_room tx n \<longleftrightarrow> head_avail tx + data_size tx + n < 4611686018427387904"

lemma insert_grown:
  assumes A: "generous A" and wf: "buf_wf tx" and n: "n \<le> length src" and room: "tx_room tx n"
  obtains tx' where "buf_insert_end A tx src n = Some tx'" "grown tx tx' (take n src)"
proof -
  have "buf_room_end A tx n" using A room by (simp add: buf_room_end_def tx_room_def)
  from buf_insert_end_laws [OF wf n this] obtain tx' where "buf_insert_end A tx src n = Some tx'"
    "buf_wf tx'" "buf_bytes tx' = buf_bytes tx @ take n src" "data_size tx' = data_size tx + n"
    "head_avail tx' = head_avail tx" "buf_cap tx' = max (buf_cap tx) (head_avail tx + data_size tx + n)"
    by blast
  then show ?thesis using that n buf_insert_end_tail by (simp add: grown_def)
qed

lemma tx_insert_grown:
  assumes "generous (env_alloc E)" "buf_wf tx" "n \<le> length src" "tx_room tx n"
  obtains tx' where "tx_insert_end E (put w a tx ob) src n = Some (put w a tx' ob)"
    "grown tx tx' (take n src)"
  by (rule insert_grown [OF assms]) (use that in \<open>simp add: tx_insert_end_def\<close>)

lemma tx_room_less: "tx_room tx n \<Longrightarrow> m \<le> n \<Longrightarrow> tx_room tx m"
  by (simp add: tx_room_def)

lemma tx_room_grown: "tx_room tx (length d + n) \<Longrightarrow> grown tx tx' d \<Longrightarrow> tx_room tx' n"
  by (simp add: tx_room_def grown_def)

text \<open>A three-byte prefix is reserved and stored before the data is inserted.\<close>

lemma reserve3_insert:
  assumes A: "generous A" and wf: "buf_wf tx" and n: "n \<le> length src" and room: "tx_room tx (n + 3)"
    and pre: "length pre = 3"
  obtains hdr tx1 tx2 tx3 where "buf_reserve_end A tx 3 = Some (hdr, tx1)"
    "buf_store tx1 hdr pre = Some tx2" "buf_insert_end A tx2 src n = Some tx3"
    "grown tx tx3 (pre @ take n src)"
proof -
  have "buf_room_end A tx (length pre)"
    using A room pre by (simp add: buf_room_end_def tx_room_def)
  from buf_reserve_store_end [OF wf this] obtain off tx1 tx2 where
    1: "buf_reserve_end A tx (length pre) = Some (Some off, tx1)" "buf_store tx1 (Some off) pre = Some tx2"
    "buf_wf tx2" "buf_bytes tx2 = buf_bytes tx @ pre" "data_size tx2 = data_size tx + length pre"
    "head_avail tx2 = head_avail tx" "buf_cap tx2 = max (buf_cap tx) (head_avail tx + data_size tx + length pre)"
    by blast
  then have g: "grown tx tx2 pre" using buf_reserve_end_tail [OF 1(1)] buf_store_tail [OF 1(2)]
    by (simp add: grown_def)
  then have "tx_room tx2 n" using tx_room_grown [of tx pre n] room pre by (simp add: add.commute)
  from insert_grown [OF A 1(3) n this] obtain tx3 where
    "buf_insert_end A tx2 src n = Some tx3" "grown tx2 tx3 (take n src)" by blast
  then show ?thesis using that 1(1,2) pre grown_trans [OF g] by simp
qed

section \<open>One header\<close>

lemma buf_ptr_ge: "buf_wf b \<Longrightarrow> data_size b \<le> length (buf_ptr b)"
  by (simp add: buf_wf_def buf_ptr_def)

lemma take_buf_ptr: "buf_wf b \<Longrightarrow> n \<le> data_size b \<Longrightarrow> take n (buf_ptr b) = take n (buf_bytes b)"
  by (simp add: buf_bytes_def min_def)

lemma set_suspend_put:
  "set_suspend (put w a tx ob) a h = Some (put w a tx (ob\<lparr>suspend := suspend ob \<or> elem_susp h\<rparr>))"
  by (simp add: set_suspend_def elem_susp_def)

text \<open>The body bytes still to be sent.\<close>

lemma body_element:
  assumes ok: "elem_ok h" and hi: "h_hi h = OBEX_HDR_BODY"
  obtains b0 b d where "h_buf h = Some b0" "b = (if h_body_touched h then b0 else buf_remove_begin b0 3)"
    "buf_wf b" "buf_bytes b = d" "data_size b = length d" "elem_item h = TX_Body d" "length d < 2147483648"
    "\<not> h_stream h"
proof -
  from ok hi obtain b0 where b0: "h_buf h = Some b0" "buf_wf b0" "data_size b0 < 2147483648"
    by (auto simp: elem_ok_def)
  define b where "b = (if h_body_touched h then b0 else buf_remove_begin b0 3)"
  have wf: "buf_wf b" using b0 by (simp add: b_def buf_laws)
  have "elem_item h = TX_Body (buf_bytes b)"
    using hi b0 by (simp add: elem_item_def b_def buf_laws)
  moreover have "data_size b \<le> data_size b0" "\<not> h_stream h"
    using b0 ok by (auto simp: b_def buf_laws elem_ok_def)
  ultimately show ?thesis
    using that [of b0 b "buf_bytes b"] b0 wf b_def length_buf_bytes [OF wf] by simp
qed

lemma send_body_frag:
  assumes "h_buf h = Some b0" "b = (if h_body_touched h then b0 else buf_remove_begin b0 3)"
    "left < data_size b + 3"
  shows "send_body E a p h left w = do {
     (hdr, tx) \<leftarrow> buf_reserve_end (env_alloc E) (tx_msg (hnd w)) 3;
     tx \<leftarrow> buf_store tx hdr ([OBEX_HDR_BODY] @ be16 (u16 (int left)));
     tx \<leftarrow> buf_insert_end (env_alloc E) tx (buf_ptr b) (u64 (int left - 3));
     w \<leftarrow> upd_obj (set_tx w tx) a (\<lambda>ob. ob\<lparr>tx_headerq := slist_set (tx_headerq ob) p
            (h\<lparr>h_body_touched := True, h_buf := Some (buf_remove_begin b (u64 (int left - 3)))\<rparr>)\<rparr>);
     Some (left, w) }"
  by (cases "h_body_touched h") (use assms in \<open>simp_all add: send_body_def Let_def cong: if_cong\<close>)

lemma send_body_last:
  assumes "h_buf h = Some b0" "b = (if h_body_touched h then b0 else buf_remove_begin b0 3)"
    "\<not> left < data_size b + 3"
  shows "send_body E a p h left w = do {
     (hdr, tx) \<leftarrow> buf_reserve_end (env_alloc E) (tx_msg (hnd w)) 3;
     tx \<leftarrow> buf_store tx hdr ([OBEX_HDR_BODY_END] @ be16 (u16 (int (data_size b) + 3)));
     tx \<leftarrow> buf_insert_end (env_alloc E) tx (buf_ptr b) (data_size b);
     w \<leftarrow> upd_obj (set_tx w tx) a (\<lambda>ob. ob\<lparr>tx_headerq := slist_remove (tx_headerq ob) p\<rparr>);
     Some (u32 (int (data_size b)), w) }"
  by (cases "h_body_touched h") (use assms in \<open>simp_all add: send_body_def Let_def cong: if_cong\<close>)

lemma insert_end_over: "length src < n \<Longrightarrow> buf_insert_end A tx src n = None"
  by (cases "buf_reserve_end A tx n") (auto simp: buf_insert_end_def mem_read_def)

lemma buf_ptr_less: "buf_wf b \<Longrightarrow> length (buf_ptr b) < 9223372036854775808"
  by (simp add: buf_wf_def buf_ptr_def)

lemma send_header_body_crash:
  assumes "elem_ok h" "h_hi h = OBEX_HDR_BODY" "elem_item h = TX_Body d" "left < 3"
  shows "send_header E a p h left (put w a tx ob) = None"
proof -
  obtain b0 b d' where b: "h_buf h = Some b0" "b = (if h_body_touched h then b0 else buf_remove_begin b0 3)"
    "buf_wf b" "data_size b = length d'" "\<not> h_stream h" "elem_item h = TX_Body d'"
    by (rule body_element [OF assms(1,2)]) blast
  have u: "u64 (int left - 3) = left + 18446744073709551613"
  proof -
    have "(int left - 3) mod 18446744073709551616 = int left - 3 + 18446744073709551616"
      using assms(4) by (intro int_mod_pos_eq [where q = "-1"]) auto
    then show ?thesis by (simp add: u64_def)
  qed
  have "buf_insert_end A t (buf_ptr b) (u64 (int left - 3)) = None" for A t
    using buf_ptr_less [OF b(3)] by (intro insert_end_over) (simp add: u)
  note crash = this
  have "send_body E a p h left w' = None" for w'
    unfolding send_body_frag [OF b(1,2) trans_less_add2 [OF assms(4)]] crash
    by (cases "buf_reserve_end (env_alloc E) (tx_msg (hnd w')) 3") (auto split: Option.bind_splits)
  then show ?thesis using assms(2) b(5) by (simp add: send_header_def set_suspend_put)
qed


lemma send_header_body_frag:
  assumes A: "generous (env_alloc E)" and wf: "buf_wf tx" and ok: "elem_ok h"
    and hi: "h_hi h = OBEX_HDR_BODY" and it: "elem_item h = TX_Body d"
    and left: "left < length d + 3" "3 \<le> left" "left < 65536" and room: "tx_room tx (length d + 3)"
    and q: "tx_headerq ob = (p, h) # q" "p \<notin> fst ` set q"
  obtains h' tx' where "send_header E a p h left (put w a tx ob) = Some (Some (0, True),
       put w a tx' (ob\<lparr>suspend := suspend ob \<or> elem_susp h, tx_headerq := (p, h') # q\<rparr>))"
    "grown tx tx' (wires_bytes [W_Frag (take (left - 3) d)])" "elem_ok h'"
    "item_of (p, h') = (TX_Body (drop (left - 3) d), elem_susp h)"
proof -
  obtain b0 b where b: "h_buf h = Some b0" "b = (if h_body_touched h then b0 else buf_remove_begin b0 3)"
    "buf_wf b" "buf_bytes b = d" "data_size b = length d" "length d < 2147483648" "\<not> h_stream h"
    by (rule body_element [OF ok hi]) (use it in auto)
  define n where "n = left - 3"
  have n: "n \<le> length d" "u64 (int left - 3) = n" "left = n + 3"
    using left by (simp_all add: n_def c_arith)
  have "n \<le> length (buf_ptr b)" using n b buf_ptr_ge [OF b(3)] by simp
  moreover have "tx_room tx (n + 3)" using room n by (intro tx_room_less [OF room]) simp
  moreover have "length ([OBEX_HDR_BODY] @ be16 left) = 3" by simp
  ultimately obtain hdr tx1 tx2 tx3 where
    r: "buf_reserve_end (env_alloc E) tx 3 = Some (hdr, tx1)"
    "buf_store tx1 hdr ([OBEX_HDR_BODY] @ be16 left) = Some tx2"
    "buf_insert_end (env_alloc E) tx2 (buf_ptr b) n = Some tx3"
    "grown tx tx3 (([OBEX_HDR_BODY] @ be16 left) @ take n (buf_ptr b))"
    by (rule reserve3_insert [OF A wf])
  define h' where "h' = h\<lparr>h_body_touched := True, h_buf := Some (buf_remove_begin b n)\<rparr>"
  define ob1 where "ob1 = ob\<lparr>suspend := suspend ob \<or> elem_susp h\<rparr>"
  have "slist_set (tx_headerq ob1) p h' = (p, h') # q"
    using q slist_set_head by (simp add: ob1_def)
  moreover have "left < data_size b + 3" using left(1) b(5) by simp
  ultimately have body: "send_body E a p h left (put w a tx ob1)
      = Some (left, put w a tx3 (ob1\<lparr>tx_headerq := (p, h') # q\<rparr>))"
    using r n(2) by (simp add: send_body_frag [OF b(1,2)] h'_def)
  have "send_header E a p h left (put w a tx ob)
      = Some (Some (0, True), put w a tx3 (ob1\<lparr>tx_headerq := (p, h') # q\<rparr>))"
    using hi b(7) body by (simp add: send_header_def set_suspend_put u16_def flip: ob1_def)
  moreover have "elem_ok h'" "item_of (p, h') = (TX_Body (drop n d), elem_susp h)"
    using hi b ok by (simp_all add: h'_def elem_ok_def buf_laws item_of_def elem_item_def elem_susp_def)
  moreover have "take n (buf_ptr b) = take n d" using take_buf_ptr [OF b(3)] n b by simp
  moreover have "min (length d) n = n" using n(1) by simp
  ultimately show ?thesis using that r(4) n(3)
    by (simp add: ob1_def n_def [symmetric] wire_bytes_def enc_header_def)
qed

lemma send_header_body_last:
  assumes A: "generous (env_alloc E)" and wf: "buf_wf tx" and ok: "elem_ok h"
    and hi: "h_hi h = OBEX_HDR_BODY" and it: "elem_item h = TX_Body d"
    and left: "length d + 3 \<le> left" "left < 65536" and room: "tx_room tx (length d + 3)"
    and q: "tx_headerq ob = (p, h) # q" "p \<notin> fst ` set q"
  obtains tx' where "send_header E a p h left (put w a tx ob) = Some (Some (left - length d, True),
       put w a tx' (ob\<lparr>suspend := suspend ob \<or> elem_susp h, tx_headerq := q\<rparr>))"
    "grown tx tx' (wires_bytes [W_End d])"
proof -
  obtain b0 b where b: "h_buf h = Some b0" "b = (if h_body_touched h then b0 else buf_remove_begin b0 3)"
    "buf_wf b" "buf_bytes b = d" "data_size b = length d" "length d < 2147483648" "\<not> h_stream h"
    by (rule body_element [OF ok hi]) (use it in auto)
  define n where "n = length d"
  have "n \<le> length (buf_ptr b)" using b buf_ptr_ge [OF b(3)] by (simp add: n_def)
  moreover have "tx_room tx (n + 3)" using room by (simp add: n_def)
  moreover have "length ([OBEX_HDR_BODY_END] @ be16 (n + 3)) = 3" by simp
  ultimately obtain hdr tx1 tx2 tx3 where
    r: "buf_reserve_end (env_alloc E) tx 3 = Some (hdr, tx1)"
    "buf_store tx1 hdr ([OBEX_HDR_BODY_END] @ be16 (n + 3)) = Some tx2"
    "buf_insert_end (env_alloc E) tx2 (buf_ptr b) n = Some tx3"
    "grown tx tx3 (([OBEX_HDR_BODY_END] @ be16 (n + 3)) @ take n (buf_ptr b))"
    by (rule reserve3_insert [OF A wf])
  define ob1 where "ob1 = ob\<lparr>suspend := suspend ob \<or> elem_susp h\<rparr>"
  have "slist_remove (tx_headerq ob1) p = q" using q by (simp add: ob1_def)
  moreover have "\<not> left < data_size b + 3" using left(1) b(5) by simp
  moreover have "u32 (int n) = n" "be16 (u16 (int n + 3)) = be16 (n + 3)"
    using b(6) be16_u16 [of "n + 3"] by (simp_all add: c_arith n_def add.commute)
  ultimately have body: "send_body E a p h left (put w a tx ob1)
      = Some (n, put w a tx3 (ob1\<lparr>tx_headerq := q\<rparr>))"
    using r b(5) by (simp add: send_body_last [OF b(1,2)] n_def)
  have "u16 (int left - int n) = left - n" using left by (simp add: c_arith n_def)
  then have "send_header E a p h left (put w a tx ob)
      = Some (Some (left - n, True), put w a tx3 (ob1\<lparr>tx_headerq := q\<rparr>))"
    using hi b(7) body by (simp add: send_header_def set_suspend_put flip: ob1_def)
  moreover have "take n (buf_ptr b) = d" using take_buf_ptr [OF b(3)] b by (simp add: n_def)
  ultimately show ?thesis using that r(4) by (simp add: ob1_def n_def wire_bytes_def enc_header_def)
qed

lemma send_header_empty:
  assumes "elem_ok h" "h_hi h = OBEX_HDR_EMPTY" "tx_headerq ob = (p, h) # q" "p \<notin> fst ` set q"
  shows "send_header E a p h left (put w a tx ob) = Some (Some (left, True),
       put w a tx (ob\<lparr>suspend := suspend ob \<or> elem_susp h, tx_headerq := q\<rparr>))"
  using assms by (simp add: send_header_def set_suspend_put elem_ok_def)

lemma send_header_plain:
  assumes A: "generous (env_alloc E)" and wf: "buf_wf tx" and ok: "elem_ok h"
    and it: "elem_item h = TX_Plain d" and room: "tx_room tx (length d)"
    and q: "tx_headerq ob = (p, h) # q" "p \<notin> fst ` set q"
  obtains tx' where "send_header E a p h left (put w a tx ob) =
      (if length d \<le> left
       then Some (Some (left - length d, True),
              put w a tx' (ob\<lparr>suspend := suspend ob \<or> elem_susp h, tx_headerq := q\<rparr>))
       else Some (if unat (mtu_tx (hnd w)) < length d then None else Some (left, False), put w a tx ob))"
    "grown tx tx' d"
proof -
  have hi: "h_hi h \<noteq> OBEX_HDR_BODY" "h_hi h \<noteq> OBEX_HDR_EMPTY" using it by (auto simp: elem_item_def Let_def)
  with ok obtain b where b: "h_buf h = Some b" "buf_wf b" "h_length h = data_size b" "\<not> h_stream h"
    by (auto simp: elem_ok_def)
  have d: "buf_bytes b = d" "data_size b = length d"
    using it hi b length_buf_bytes [OF b(2)] by (auto simp: elem_item_def)
  have "length d \<le> length (buf_ptr b)" using d buf_ptr_ge [OF b(2)] by simp
  then obtain tx' where tx': "tx_insert_end E (put w a tx ob) (buf_ptr b) (length d) = Some (put w a tx' ob)"
    "grown tx tx' (take (length d) (buf_ptr b))"
    by (rule tx_insert_grown [OF A wf _ room])
  have t: "take (length d) (buf_ptr b) = d" using take_buf_ptr [OF b(2)] d by simp
  show ?thesis
    by (rule that [of tx']) (use tx' t hi b d q in \<open>simp_all add: send_header_def set_suspend_put\<close>)
qed


section \<open>The packing loop implements the specification\<close>

lemma send_headers_step:
  assumes "tx_headerq ob = (p, h) # q" "send_header E a p h left (put w a tx ob) = Some (res, w')"
  shows "send_headers E a left (put w a tx ob) = (case res of
       None \<Rightarrow> Some (False, w')
     | Some (left', addmore) \<Rightarrow> do {
         ob \<leftarrow> objs w' a;
         (if addmore \<and> \<not> suspend ob \<and> left' \<noteq> 0 then send_headers E a left' w' else Some (True, w')) })"
  using assms by (subst send_headers.simps) simp

lemma send_headers_crash:
  assumes "tx_headerq ob = (p, h) # q" "send_header E a p h left (put w a tx ob) = None"
  shows "send_headers E a left (put w a tx ob) = None"
  using assms by (subst send_headers.simps) simp

definition packs_to ::
    "'e env \<Rightarrow> addr \<Rightarrow> nat \<Rightarrow> 'e world \<Rightarrow> databuffer \<Rightarrow> obex_object
     \<Rightarrow> (wire list \<times> (tx_item \<times> bool) list \<times> bool \<times> bool) option \<Rightarrow> bool" where
  "packs_to E a left w tx ob r \<longleftrightarrow> (case r of
       None \<Rightarrow> send_headers E a left (put w a tx ob) = None
     | Some (payload, items, s, good) \<Rightarrow> \<exists>q' tx'.
         send_headers E a left (put w a tx ob)
           = Some (good, put w a tx' (ob\<lparr>suspend := s, tx_headerq := q'\<rparr>))
         \<and> grown tx tx' (wires_bytes payload) \<and> queue_ok q' \<and> map item_of q' = items)"

lemma packs_to_cont:
  assumes "send_headers E a left (put w a tx ob) = send_headers E a left' (put w a tx1 ob1)"
    and "grown tx tx1 (wires_bytes d)" and "ob1 = ob\<lparr>tx_headerq := q\<rparr>" and "packs_to E a left' w tx1 ob1 r"
  shows "packs_to E a left w tx ob (cont_pack d r)"
  using assms grown_trans [OF assms(2)]
  by (cases r) (fastforce simp: packs_to_def cont_pack_def)+


lemma cont_pack_Nil [simp]: "cont_pack [] r = r"
  by (cases r) (auto simp: cont_pack_def)

lemma item_of_Pair: "item_of (p, h) = (elem_item h, elem_susp h)"
  by (simp add: item_of_def)

lemma elem_item_cases:
  obtains (body) d where "elem_item h = TX_Body d" "h_hi h = OBEX_HDR_BODY"
    | (empty) "elem_item h = TX_Empty" "h_hi h = OBEX_HDR_EMPTY"
    | (plain) d where "elem_item h = TX_Plain d"
proof (cases "h_hi h = OBEX_HDR_BODY")
  case True
  then show ?thesis by (intro body) (auto simp: elem_item_def Let_def)
next
  case False
  then show ?thesis using empty plain by (cases "h_hi h = OBEX_HDR_EMPTY") (auto simp: elem_item_def Let_def)
qed

lemma send_headers_refines:
  assumes A: "generous (env_alloc E)"
  shows "queue_ok q \<Longrightarrow> tx_headerq ob = q \<Longrightarrow> \<not> suspend ob \<Longrightarrow> buf_wf tx \<Longrightarrow> left < 65536 \<Longrightarrow>
    tx_room tx (items_bytes (map item_of q)) \<Longrightarrow>
    packs_to E a left w tx ob (pack (unat (mtu_tx (hnd w))) left (map item_of q))"
proof (induction q arbitrary: left tx ob)
  case Nil
  have eq: "ob\<lparr>suspend := False, tx_headerq := []\<rparr> = ob" using Nil by (cases ob) simp
  have "send_headers E a left (put w a tx ob) = Some (True, put w a tx (ob\<lparr>suspend := False, tx_headerq := []\<rparr>))"
    unfolding eq using Nil by (subst send_headers.simps) simp
  then show ?case using Nil grown_refl [of tx] unfolding packs_to_def
    by (auto simp: queue_ok_def intro!: exI [of _ "[]"] exI [of _ tx])
next
  case (Cons n q)
  obtain p h where n: "n = (p, h)" by fastforce
  have ok: "elem_ok h" and pq: "p \<notin> fst ` set q" and qok: "queue_ok q"
    using Cons.prems(1) by (simp_all add: n queue_ok_Cons)
  have q: "tx_headerq ob = (p, h) # q" and ns: "\<not> suspend ob" using Cons.prems(2,3) n by auto
  define s where "s = elem_susp h"
  define mtu where "mtu = unat (mtu_tx (hnd w))"
  define ob1 where "ob1 = ob\<lparr>suspend := s, tx_headerq := q\<rparr>"
  have ob1_susp: "ob\<lparr>suspend := suspend ob \<or> elem_susp h, tx_headerq := q\<rparr> = ob1"
    using ns by (simp add: ob1_def s_def)
  have ob1: "tx_headerq ob1 = q" "suspend ob1 = s" by (simp_all add: ob1_def)
  have ob1_eq: "ob1 = ob\<lparr>tx_headerq := q\<rparr>" if "\<not> s"
    using that ns by (cases ob) (simp add: ob1_def)
  have room: "tx_room tx (item_bytes (elem_item h) + items_bytes (map item_of q))"
    using Cons.prems(6) by (simp add: n item_of_Pair)
  have rest: "packs_to E a left' w tx1 ob1 (pack mtu left' (map item_of q))"
    if "\<not> s" "grown tx tx1 d" "left' \<le> left" "length d \<le> item_bytes (elem_item h)" for left' tx1 d
    unfolding mtu_def
  proof (rule Cons.IH [OF qok ob1(1)])
    show "buf_wf tx1" using that by (simp add: grown_def)
    have "tx_room tx (length d + items_bytes (map item_of q))"
      by (rule tx_room_less [OF room]) (use that in simp)
    then show "tx_room tx1 (items_bytes (map item_of q))" using tx_room_grown that(2) by blast
  qed (use that ob1 Cons.prems(5) in simp_all)
  have stop: "packs_to E a left w tx ob (Some (d, map item_of q, s, True))"
    if "send_headers E a left (put w a tx ob) = Some (True, put w a tx1 ob1)" "grown tx tx1 (wires_bytes d)" for tx1 d
    using that qok unfolding packs_to_def ob1_def by auto
  have item: "map item_of (n # q) = (elem_item h, s) # map item_of q"
    by (simp add: n item_of_Pair s_def)
  show ?case
  proof (cases rule: elem_item_cases [of h])
    case (body d)
    have roomd: "tx_room tx (length d + 3)"
      by (rule tx_room_less [OF room]) (simp add: body item_bytes_def)
    consider "left < 3" | "left < length d + 3" "3 \<le> left" | "length d + 3 \<le> left" by linarith
    then show ?thesis
    proof cases
      case 1
      then have "send_headers E a left (put w a tx ob) = None"
        by (intro send_headers_crash [OF q] send_header_body_crash [OF ok body(2,1)])
      then show ?thesis using 1 unfolding item body(1) by (simp add: packs_to_def)
    next
      case 2
      obtain h' tx' where r: "send_header E a p h left (put w a tx ob) = Some (Some (0, True),
          put w a tx' (ob\<lparr>suspend := suspend ob \<or> elem_susp h, tx_headerq := (p, h') # q\<rparr>))"
        "grown tx tx' (wires_bytes [W_Frag (take (left - 3) d)])" "elem_ok h'"
        "item_of (p, h') = (TX_Body (drop (left - 3) d), elem_susp h)"
        by (rule send_header_body_frag [OF A Cons.prems(4) ok body(2,1) 2 Cons.prems(5) roomd q pq])
      have "send_headers E a left (put w a tx ob)
          = Some (True, put w a tx' (ob\<lparr>suspend := s, tx_headerq := (p, h') # q\<rparr>))"
        using send_headers_step [OF q r(1)] ns by (simp add: s_def)
      moreover have "queue_ok ((p, h') # q)" using r(3) pq qok by (simp add: queue_ok_Cons)
      ultimately show ?thesis using 2 r unfolding item body(1)
        by (auto simp: packs_to_def s_def intro!: exI [of _ "(p, h') # q"])
    next
      case 3
      obtain tx' where r: "send_header E a p h left (put w a tx ob)
          = Some (Some (left - length d, True), put w a tx' ob1)"
        "grown tx tx' (wires_bytes [W_End d])"
        by (rule send_header_body_last [OF A Cons.prems(4) ok body(2,1) 3 Cons.prems(5) roomd q pq])
          (use ns in \<open>auto simp: ob1_def s_def\<close>)
      have step: "send_headers E a left (put w a tx ob) = (if s then Some (True, put w a tx' ob1)
          else send_headers E a (left - length d) (put w a tx' ob1))"
        using send_headers_step [OF q r(1)] ob1 3 by simp
      show ?thesis
      proof (cases s)
        case True
        then show ?thesis using stop [OF _ r(2)] step 3 unfolding item body(1) by simp
      next
        case False
        have "packs_to E a (left - length d) w tx' ob1 (pack mtu (left - length d) (map item_of q))"
          by (rule rest [OF False r(2)]) (simp_all add: body item_bytes_def wire_bytes_def enc_header_def)
        then have "packs_to E a left w tx ob (cont_pack [W_End d]
            (pack mtu (left - length d) (map item_of q)))"
          by (rule packs_to_cont [rotated 3]) (use False step r ob1 ob1_eq in simp_all)
        then show ?thesis using False 3 unfolding item body(1) mtu_def by simp
      qed
    qed
  next
    case empty
    have r: "send_header E a p h left (put w a tx ob) = Some (Some (left, True), put w a tx ob1)"
      using send_header_empty [OF ok empty(2) q pq] ns by (simp add: ob1_def s_def)
    have step: "send_headers E a left (put w a tx ob) = (if s \<or> left = 0 then Some (True, put w a tx ob1)
          else send_headers E a left (put w a tx ob1))"
      using send_headers_step [OF q r] ob1 by simp
    show ?thesis
    proof (cases "s \<or> left = 0")
      case True
      then show ?thesis using stop [of _ "[]"] grown_refl [OF Cons.prems(4)] step unfolding item empty(1) by simp
    next
      case False
      have "packs_to E a left w tx ob1 (pack mtu left (map item_of q))"
        by (rule rest [OF _ grown_refl [OF Cons.prems(4)]]) (use False in simp_all)
      then have "packs_to E a left w tx ob (cont_pack [] (pack mtu left (map item_of q)))"
        by (rule packs_to_cont [rotated 3])
          (use False step ob1 ob1_eq grown_refl [OF Cons.prems(4)] in simp_all)
      then show ?thesis using False unfolding item empty(1) mtu_def by simp
    qed
  next
    case (plain d)
    have roomd: "tx_room tx (length d)"
      by (rule tx_room_less [OF room]) (simp add: plain item_bytes_def)
    obtain tx' where r: "send_header E a p h left (put w a tx ob) =
        (if length d \<le> left then Some (Some (left - length d, True), put w a tx' ob1)
         else Some (if unat (mtu_tx (hnd w)) < length d then None else Some (left, False), put w a tx ob))"
      "grown tx tx' d"
      by (rule send_header_plain [OF A Cons.prems(4) ok plain roomd q pq, of a left w, unfolded ob1_susp]) blast
    have g: "grown tx tx' (wires_bytes [W_Plain d])" using r(2) by (simp add: wire_bytes_def)
    show ?thesis
    proof (cases "length d \<le> left")
      case False
      then have r': "send_header E a p h left (put w a tx ob)
          = Some (if mtu < length d then None else Some (left, False), put w a tx ob)"
        using r(1) by (simp add: mtu_def)
      have "ob\<lparr>suspend := False, tx_headerq := (p, h) # q\<rparr> = ob" using ns q by (cases ob) simp
      then have "send_headers E a left (put w a tx ob) = Some (length d \<le> mtu,
          put w a tx (ob\<lparr>suspend := False, tx_headerq := (p, h) # q\<rparr>))"
        using send_headers_step [OF q r'] by (simp add: not_le)
      then show ?thesis using False Cons.prems(1) grown_refl [OF Cons.prems(4)] unfolding item plain
        by (auto simp: packs_to_def mtu_def n item_of_Pair plain s_def intro!: exI [of _ "(p, h) # q"])
    next
      case True
      then have r': "send_header E a p h left (put w a tx ob)
          = Some (Some (left - length d, True), put w a tx' ob1)" using r(1) by simp
      have step: "send_headers E a left (put w a tx ob) = (if s \<or> left = length d then Some (True, put w a tx' ob1)
          else send_headers E a (left - length d) (put w a tx' ob1))"
        using send_headers_step [OF q r'] ob1 True by auto
      show ?thesis
      proof (cases "s \<or> left = length d")
        case T: True
        then show ?thesis using stop [OF _ g] step True unfolding item plain by simp
      next
        case False
        have "packs_to E a (left - length d) w tx' ob1 (pack mtu (left - length d) (map item_of q))"
          by (rule rest [OF _ r(2)]) (use False in \<open>simp_all add: plain item_bytes_def\<close>)
        then have "packs_to E a left w tx ob (cont_pack [W_Plain d] (pack mtu (left - length d) (map item_of q)))"
          by (rule packs_to_cont [rotated 3]) (use False step g ob1 ob1_eq in simp_all)
        then show ?thesis using False True unfolding item plain mtu_def by simp
      qed
    qed
  qed
qed

section \<open>Sending an object\<close>

definition nonhdr_bytes :: "obex_object \<Rightarrow> byte list" where
  "nonhdr_bytes ob = (case tx_nonhdr_data ob of None \<Rightarrow> [] | Some b \<Rightarrow> buf_bytes b)"

definition sendable :: "'e env \<Rightarrow> 'e world \<Rightarrow> addr \<Rightarrow> obex_object \<Rightarrow> bool" where
  "sendable E w a ob \<longleftrightarrow> generous (env_alloc E) \<and> objs w a = Some ob \<and> \<not> suspend ob
     \<and> queue_ok (tx_headerq ob) \<and> buf_wf (tx_msg (hnd w))
     \<and> buf_cap (tx_msg (hnd w)) < 4611686018427387904
     \<and> (\<forall>b. tx_nonhdr_data ob = Some b \<longrightarrow> buf_wf b)
     \<and> length (nonhdr_bytes ob) + items_bytes (map item_of (tx_headerq ob)) + 3 < 4611686018427387904"

definition packet :: "byte \<Rightarrow> byte list \<Rightarrow> byte list" where
  "packet opc d = opc # be16 (length d + 3) @ d"

lemma send_nonhdr_put:
  assumes A: "generous (env_alloc E)" and wf: "buf_wf tx" and room: "tx_room tx (length (nonhdr_bytes ob))"
    and nh: "\<forall>b. tx_nonhdr_data ob = Some b \<longrightarrow> buf_wf b"
  obtains tx' where "send_nonhdr E (put w a tx ob) a = Some (put w a tx' (ob\<lparr>tx_nonhdr_data := None\<rparr>))"
    "grown tx tx' (nonhdr_bytes ob)"
proof (cases "tx_nonhdr_data ob")
  case None
  then have eq: "ob\<lparr>tx_nonhdr_data := None\<rparr> = ob" by (cases ob) simp
  show ?thesis
    by (rule that [of tx], unfold eq)
      (use None grown_refl [OF wf] in \<open>simp_all add: send_nonhdr_def nonhdr_bytes_def\<close>)
next
  case (Some b)
  have b: "buf_wf b" "length (nonhdr_bytes ob) = data_size b"
    using nh Some by (simp_all add: nonhdr_bytes_def buf_laws)
  have "data_size b \<le> length (buf_ptr b)" by (rule buf_ptr_ge [OF b(1)])
  moreover have "tx_room tx (data_size b)" using room b by simp
  ultimately obtain tx' where "tx_insert_end E (put w a tx ob) (buf_ptr b) (data_size b) = Some (put w a tx' ob)"
    "grown tx tx' (take (data_size b) (buf_ptr b))"
    by (rule tx_insert_grown [OF A wf])
  then show ?thesis using that [of tx'] Some b by (simp add: send_nonhdr_def nonhdr_bytes_def buf_bytes_def)
qed

lemma put_objs_other: "put w a tx ob = set_tx (put w a tx' ob) tx"
  by (simp add: put_def)

lemma send_tx_left_less: "send_tx_left self < 65536"
  by (simp add: send_tx_left_def Let_def u16_less split: trans_type.splits)

lemma send_tx_left_put [simp]: "send_tx_left (hnd (put w a tx ob)) = send_tx_left (hnd w)"
  by (simp add: put_def send_tx_left_def Let_def cong: trans_type.case_cong)

lemma request_packet:
  assumes A: "generous (env_alloc E)" and wf: "buf_wf tx" and small: "buf_cap tx < 4611686018427387904"
  obtains msg where "obex_data_request E (put w a tx ob) opc = obex_transport_write E (put w a msg ob)"
    "buf_wf msg" "buf_bytes msg = packet opc (buf_bytes tx)"
    "buf_cap msg = max (buf_cap tx) (tail_avail tx + data_size tx + 3)"
proof -
  have "buf_room_begin (env_alloc E) (tx_msg (hnd (put w a tx ob))) 3"
    using A small wf by (simp add: buf_room_begin_def buf_cap_def buf_wf_def)
  from obex_data_request_packet [OF _ this, of opc] wf obtain msg where
    "obex_data_request E (put w a tx ob) opc = obex_transport_write E (set_tx (put w a tx ob) msg)"
    "buf_wf msg" "buf_bytes msg = opc # be16 (data_size tx + 3) @ buf_bytes tx"
    "buf_cap msg = max (buf_cap tx) (tail_avail tx + data_size tx + 3)" by auto
  then show ?thesis using that wf by (simp add: packet_def length_buf_bytes)
qed


lemma pack_length: "pack mtu left q = Some (p, q', s, good) \<Longrightarrow> length (wires_bytes p) \<le> items_bytes q"
  by (induction mtu left q arbitrary: p q' s good rule: pack.induct)
    (fastforce simp: cont_pack_def item_bytes_def wire_bytes_def length_enc_header split: if_splits Option.bind_splits)+

lemma obex_object_send_suspended:
  "objs w a = Some ob \<Longrightarrow> suspend ob \<Longrightarrow> obex_object_send E w a allow force = Some (0, w)"
  by (simp add: obex_object_send_def)

lemma obex_object_send_packs:
  assumes ok: "sendable E w a ob"
    and r: "pack (unat (mtu_tx (hnd w))) (send_tx_left (hnd w)) (map item_of (tx_headerq ob))
            = Some (payload, items, s, good)"
  obtains q' tx' msg ob' where
    "obex_object_send E w a allow force = (if \<not> good then Some (-1, put w a tx' ob')
       else do { (actual, w) \<leftarrow> obex_transport_write E (put w a msg ob');
                 Some (if actual < 0 then actual else snd (send_opcode ob' allow force), w) })"
    "ob' = ob\<lparr>tx_nonhdr_data := None, suspend := s, tx_headerq := q'\<rparr>"
    "queue_ok q'" "map item_of q' = items" "buf_wf msg"
    "buf_bytes msg = packet (fst (send_opcode ob' allow force)) (nonhdr_bytes ob @ wires_bytes payload)"
    "buf_cap msg < 4611686018427387904"
proof -
  have A: "generous (env_alloc E)" and ob: "objs w a = Some ob" and ns: "\<not> suspend ob"
    and qok: "queue_ok (tx_headerq ob)" and wf: "buf_wf (tx_msg (hnd w))"
    and cap: "buf_cap (tx_msg (hnd w)) < 4611686018427387904"
    and nh: "\<forall>b. tx_nonhdr_data ob = Some b \<longrightarrow> buf_wf b"
    and sz: "length (nonhdr_bytes ob) + items_bytes (map item_of (tx_headerq ob)) + 3 < 4611686018427387904"
    using ok by (simp_all add: sendable_def)
  define tx0 where "tx0 = buf_reuse (tx_msg (hnd w))"
  have tx0: "buf_wf tx0" "buf_bytes tx0 = []" "head_avail tx0 = 0" "data_size tx0 = 0"
    "buf_cap tx0 = buf_cap (tx_msg (hnd w))" "tail_avail tx0 = 0"
    using buf_reuse_laws [OF wf] by (simp_all add: tx0_def buf_cap_def)
  have w0: "set_tx w tx0 = put w a tx0 ob" using ob by (simp add: put_def fun_upd_idem)
  have room0: "tx_room tx0 (length (nonhdr_bytes ob) + items_bytes (map item_of (tx_headerq ob)))"
    using sz tx0 by (simp add: tx_room_def)
  define ob1 where "ob1 = ob\<lparr>tx_nonhdr_data := None\<rparr>"
  obtain tx1 where n: "send_nonhdr E (put w a tx0 ob) a = Some (put w a tx1 ob1)"
    and g1: "grown tx0 tx1 (nonhdr_bytes ob)"
    by (rule send_nonhdr_put [OF A tx0(1) tx_room_less [OF room0] nh, of w a]) (simp_all add: ob1_def)
  have room1: "tx_room tx1 (items_bytes (map item_of (tx_headerq ob)))"
    by (rule tx_room_grown [OF room0 g1])
  have "packs_to E a (send_tx_left (hnd w)) w tx1 ob1
      (pack (unat (mtu_tx (hnd w))) (send_tx_left (hnd w)) (map item_of (tx_headerq ob)))"
    by (rule send_headers_refines [OF A qok]) (use ns g1 room1 send_tx_left_less in \<open>simp_all add: ob1_def grown_def\<close>)
  then obtain q' tx2 where
    h: "send_headers E a (send_tx_left (hnd w)) (put w a tx1 ob1)
      = Some (good, put w a tx2 (ob1\<lparr>suspend := s, tx_headerq := q'\<rparr>))"
    and g2: "grown tx1 tx2 (wires_bytes payload)" and q': "queue_ok q'" "map item_of q' = items"
    unfolding r packs_to_def by auto
  define ob' where "ob' = ob1\<lparr>suspend := s, tx_headerq := q'\<rparr>"
  have g: "grown tx0 tx2 (nonhdr_bytes ob @ wires_bytes payload)" by (rule grown_trans [OF g1 g2])
  have pay: "length (wires_bytes payload) \<le> items_bytes (map item_of (tx_headerq ob))"
    by (rule pack_length [OF r])
  have "buf_wf tx2" "buf_cap tx2 < 4611686018427387904"
    using g tx0 sz pay cap by (auto simp: grown_def le_max_iff_disj)
  then obtain msg where m: "obex_data_request E (put w a tx2 ob') (fst (send_opcode ob' allow force))
      = obex_transport_write E (put w a msg ob')" "buf_wf msg"
    "buf_bytes msg = packet (fst (send_opcode ob' allow force)) (buf_bytes tx2)"
    "buf_cap msg = max (buf_cap tx2) (tail_avail tx2 + data_size tx2 + 3)"
    by (rule request_packet [OF A])
  have "obex_object_send E w a allow force = (if \<not> good then Some (-1, put w a tx2 ob')
       else do { (actual, w) \<leftarrow> obex_transport_write E (put w a msg ob');
                 Some (if actual < 0 then actual else snd (send_opcode ob' allow force), w) })"
    using ob ns n h m(1) unfolding obex_object_send_def
    by (simp add: w0 split_beta flip: tx0_def ob'_def)
  moreover have "buf_cap msg < 4611686018427387904"
    using m(4) g tx0 sz pay cap by (auto simp: grown_def le_max_iff_disj)
  moreover have "ob' = ob\<lparr>tx_nonhdr_data := None, suspend := s, tx_headerq := q'\<rparr>"
    by (simp add: ob'_def ob1_def)
  moreover have "buf_bytes tx2 = nonhdr_bytes ob @ wires_bytes payload" using g tx0 by (simp add: grown_def)
  ultimately show ?thesis using that q' m by simp
qed

section \<open>Properties of the packing\<close>

text \<open>
  A receiver puts the fragments of a body together: \<open>absorb\<close> is its step on one wire item, with the
  body so far and the headers delivered.
\<close>

datatype content = C_Header "byte list" | C_Body "byte list"

fun absorb :: "byte list \<times> content list \<Rightarrow> wire \<Rightarrow> byte list \<times> content list" where
  "absorb (acc, out) (W_Plain d) = (acc, out @ [C_Header d])"
| "absorb (acc, out) (W_Frag d) = (acc @ d, out)"
| "absorb (acc, out) (W_End d) = ([], out @ [C_Body (acc @ d)])"

text \<open>What is still to be delivered of a queue, when \<open>acc\<close> of its first body is already there.\<close>

fun contents :: "byte list \<Rightarrow> (tx_item \<times> bool) list \<Rightarrow> content list" where
  "contents acc [] = []"
| "contents acc ((TX_Body d, s) # q) = C_Body (acc @ d) # contents [] q"
| "contents acc ((TX_Empty, s) # q) = contents acc q"
| "contents acc ((TX_Plain d, s) # q) = C_Header d # contents acc q"

lemma pack_conserves:
  "pack mtu left q = Some (ws, q', s, good) \<Longrightarrow> foldl absorb (acc, out) ws = (acc', out') \<Longrightarrow>
   out' @ contents acc' q' = out @ contents acc q"
proof (induction mtu left q arbitrary: ws q' s good acc out acc' out' rule: pack.induct)
  case (2 mtu left d s' q)
  show ?case
  proof (cases "left < length d + 3 \<or> s'")
    case True
    then show ?thesis using 2 by (auto split: if_splits)
  next
    case False
    then obtain ws1 where "pack mtu (left - length d) q = Some (ws1, q', s, good)" "ws = W_End d # ws1"
      using 2(2) by (auto simp: cont_pack_def split: Option.bind_splits)
    then show ?thesis using 2(1) [of ws1 q' s good "[]" "out @ [C_Body (acc @ d)]" acc' out'] False 2(3) by simp
  qed
next
  case (4 mtu left d s' q)
  show ?case
  proof (cases "length d \<le> left \<and> \<not> (s' \<or> left = length d)")
    case True
    then obtain ws1 where "pack mtu (left - length d) q = Some (ws1, q', s, good)" "ws = W_Plain d # ws1"
      using 4(2) by (auto simp: cont_pack_def split: Option.bind_splits)
    then show ?thesis using 4(1) [of ws1 q' s good acc "out @ [C_Header d]" acc' out'] True 4(3) by simp
  next
    case False
    then show ?thesis using 4 by (auto split: if_splits)
  qed
qed (auto split: if_splits)

definition no_body :: "(tx_item \<times> bool) list \<Rightarrow> bool" where
  "no_body q \<longleftrightarrow> (\<forall>(t, s) \<in> set q. \<forall>d. t \<noteq> TX_Body d)"

lemma no_body_simps [simp]:
  "no_body []" "no_body ((TX_Body d, s) # q) = False"
  "no_body ((TX_Plain d, s) # q) = no_body q" "no_body ((TX_Empty, s) # q) = no_body q"
  by (auto simp: no_body_def)

text \<open>
  One body at most, and three bytes of room for it behind the headers in front of it: then packing
  never meets a body with too little space.
\<close>

fun safe_queue :: "nat \<Rightarrow> (tx_item \<times> bool) list \<Rightarrow> bool" where
  "safe_queue left [] = True"
| "safe_queue left ((TX_Body d, s) # q) = (3 \<le> left \<and> no_body q)"
| "safe_queue left ((TX_Empty, s) # q) = safe_queue left q"
| "safe_queue left ((TX_Plain d, s) # q) =
     (no_body q \<or> length d \<le> left \<and> safe_queue (left - length d) q)"

lemma safe_queue_mono: "safe_queue l q \<Longrightarrow> l \<le> l' \<Longrightarrow> safe_queue l' q"
  by (induction l q arbitrary: l' rule: safe_queue.induct) (auto simp: diff_le_mono)

lemma no_body_safe: "no_body q \<Longrightarrow> safe_queue l q"
  by (induction l q rule: safe_queue.induct) auto

definition plains_le :: "nat \<Rightarrow> (tx_item \<times> bool) list \<Rightarrow> bool" where
  "plains_le n q \<longleftrightarrow> (\<forall>(t, s) \<in> set q. \<forall>d. t = TX_Plain d \<longrightarrow> length d \<le> n)"

definition unsuspended :: "(tx_item \<times> bool) list \<Rightarrow> bool" where
  "unsuspended q \<longleftrightarrow> (\<forall>(t, s) \<in> set q. \<not> s)"

lemma plains_le_simps [simp]:
  "plains_le n []" "plains_le n ((TX_Body d, s) # q) = plains_le n q"
  "plains_le n ((TX_Plain d, s) # q) = (length d \<le> n \<and> plains_le n q)"
  "plains_le n ((TX_Empty, s) # q) = plains_le n q"
  by (auto simp: plains_le_def)

lemma unsuspended_simps [simp]:
  "unsuspended []" "unsuspended ((t, s) # q) = (\<not> s \<and> unsuspended q)"
  by (auto simp: unsuspended_def)

lemma safe_pack:
  "safe_queue left q \<Longrightarrow> plains_le n q \<Longrightarrow> n \<le> mtu \<Longrightarrow> unsuspended q \<Longrightarrow> left \<le> l0 \<Longrightarrow> 3 \<le> l0 \<Longrightarrow>
   \<exists>ws q'. pack mtu left q = Some (ws, q', False, True) \<and> safe_queue l0 q' \<and> plains_le n q' \<and> unsuspended q'"
proof (induction mtu left q rule: pack.induct)
  case (2 mtu left d s q)
  show ?case
  proof (cases "left < length d + 3")
    case False
    then have "\<exists>ws q'. pack mtu (left - length d) q = Some (ws, q', False, True) \<and> safe_queue l0 q'
        \<and> plains_le n q' \<and> unsuspended q'"
      by (intro 2(1)) (use 2 no_body_safe in auto)
    then show ?thesis using False 2 by (auto simp: cont_pack_def)
  qed (use 2 no_body_safe in auto)
next
  case (4 mtu left d s q)
  have safe: "safe_queue (left - length d) q" if "length d \<le> left" using 4(2) that no_body_safe by auto
  show ?case
  proof (cases "length d \<le> left \<and> left \<noteq> length d")
    case True
    then have "\<exists>ws q'. pack mtu (left - length d) q = Some (ws, q', False, True) \<and> safe_queue l0 q'
        \<and> plains_le n q' \<and> unsuspended q'"
      by (intro 4(1)) (use 4 safe in auto)
    then show ?thesis using True 4 by (auto simp: cont_pack_def)
  next
    case False
    have "safe_queue l0 q" if "left = length d" using safe_queue_mono [OF safe, of l0] that by simp
    moreover have "safe_queue l0 ((TX_Plain d, s) # q)" by (rule safe_queue_mono [OF 4(2,6)])
    ultimately show ?thesis using False 4 by auto
  qed
next
  case (3 mtu left s q)
  then show ?case using safe_queue_mono [of left q l0] by auto
qed auto

text \<open>With one body at most, the payload exceeds the space by three bytes at most.\<close>

lemma pack_no_body_fits:
  "pack mtu left q = Some (ws, q', s, good) \<Longrightarrow> no_body q \<Longrightarrow> length (wires_bytes ws) \<le> left"
proof (induction mtu left q arbitrary: ws q' s good rule: pack.induct)
  case (4 mtu left d s' q)
  show ?case
  proof (cases "length d \<le> left \<and> \<not> (s' \<or> left = length d)")
    case True
    then obtain ws1 where "pack mtu (left - length d) q = Some (ws1, q', s, good)" "ws = W_Plain d # ws1"
      using 4(2) by (auto simp: cont_pack_def split: Option.bind_splits)
    then show ?thesis using 4(1) [of ws1 q' s good] True 4(3) by (auto simp: wire_bytes_def)
  next
    case False
    then show ?thesis using 4 by (auto simp: wire_bytes_def split: if_splits)
  qed
qed (auto split: if_splits)

lemma pack_safe_fits:
  "pack mtu left q = Some (ws, q', s, good) \<Longrightarrow> safe_queue left q \<Longrightarrow> length (wires_bytes ws) \<le> left + 3"
proof (induction mtu left q arbitrary: ws q' s good rule: pack.induct)
  case (2 mtu left d s' q)
  show ?case
  proof (cases "left < length d + 3 \<or> s'")
    case True
    then show ?thesis using 2 by (auto simp: wire_bytes_def length_enc_header split: if_splits)
  next
    case False
    then obtain ws1 where "pack mtu (left - length d) q = Some (ws1, q', s, good)" "ws = W_End d # ws1"
      using 2(2) by (auto simp: cont_pack_def split: Option.bind_splits)
    then show ?thesis using pack_no_body_fits [of mtu "left - length d" q ws1 q' s good] False 2(3)
      by (auto simp: wire_bytes_def length_enc_header)
  qed
next
  case (4 mtu left d s' q)
  show ?case
  proof (cases "length d \<le> left \<and> \<not> (s' \<or> left = length d)")
    case True
    then obtain ws1 where ws: "pack mtu (left - length d) q = Some (ws1, q', s, good)" "ws = W_Plain d # ws1"
      using 4(2) by (auto simp: cont_pack_def split: Option.bind_splits)
    have "safe_queue (left - length d) q" using 4(3) True no_body_safe by auto
    then show ?thesis using 4(1) [of ws1 q' s good] ws True by (auto simp: wire_bytes_def)
  next
    case False
    then show ?thesis using 4 by (auto simp: wire_bytes_def split: if_splits)
  qed
qed (auto split: if_splits)

text \<open>What is on the wire comes from the queue.\<close>

definition wire_ok :: "(byte list \<Rightarrow> bool) \<Rightarrow> nat \<Rightarrow> wire \<Rightarrow> bool" where
  "wire_ok G left x = (case x of W_Plain d \<Rightarrow> G d | W_Frag d \<Rightarrow> length d + 3 \<le> left
     | W_End d \<Rightarrow> length d + 3 \<le> left)"

definition plains_ok :: "(byte list \<Rightarrow> bool) \<Rightarrow> (tx_item \<times> bool) list \<Rightarrow> bool" where
  "plains_ok G q \<longleftrightarrow> (\<forall>(t, s) \<in> set q. \<forall>d. t = TX_Plain d \<longrightarrow> G d)"

lemma plains_ok_simps [simp]:
  "plains_ok G []" "plains_ok G ((TX_Body d, s) # q) = plains_ok G q"
  "plains_ok G ((TX_Plain d, s) # q) = (G d \<and> plains_ok G q)"
  "plains_ok G ((TX_Empty, s) # q) = plains_ok G q"
  by (auto simp: plains_ok_def)

lemma wire_ok_mono: "wire_ok G l x \<Longrightarrow> l \<le> l' \<Longrightarrow> wire_ok G l' x"
  by (auto simp: wire_ok_def split: wire.splits)

lemma pack_wires_ok:
  "pack mtu left q = Some (ws, q', s, good) \<Longrightarrow> plains_ok G q \<Longrightarrow>
   (\<forall>x \<in> set ws. wire_ok G left x) \<and> plains_ok G q'"
proof (induction mtu left q arbitrary: ws q' s good rule: pack.induct)
  case (2 mtu left d s' q)
  show ?case
  proof (cases "left < length d + 3 \<or> s'")
    case True
    then show ?thesis using 2 by (auto simp: wire_ok_def split: if_splits)
  next
    case False
    then obtain ws1 where "pack mtu (left - length d) q = Some (ws1, q', s, good)" "ws = W_End d # ws1"
      using 2(2) by (auto simp: cont_pack_def split: Option.bind_splits)
    then show ?thesis using 2(1) [of ws1 q' s good] False 2(3) wire_ok_mono [of G "left - length d" _ left]
      by (auto simp: wire_ok_def [of G left "W_End d"])
  qed
next
  case (4 mtu left d s' q)
  show ?case
  proof (cases "length d \<le> left \<and> \<not> (s' \<or> left = length d)")
    case True
    then obtain ws1 where "pack mtu (left - length d) q = Some (ws1, q', s, good)" "ws = W_Plain d # ws1"
      using 4(2) by (auto simp: cont_pack_def split: Option.bind_splits)
    then show ?thesis using 4(1) [of ws1 q' s good] True 4(3) wire_ok_mono [of G "left - length d" _ left]
      by (auto simp: wire_ok_def [of G left "W_Plain d"])
  next
    case False
    then show ?thesis using 4 by (auto simp: wire_ok_def split: if_splits)
  qed
qed (auto split: if_splits)

text \<open>A measure of what is left to send.\<close>

definition to_send :: "(tx_item \<times> bool) list \<Rightarrow> nat" where
  "to_send q = items_bytes q + length q"

lemma pack_to_send_le: "pack mtu left q = Some (ws, q', s, good) \<Longrightarrow> to_send q' \<le> to_send q"
proof (induction mtu left q arbitrary: ws q' s good rule: pack.induct)
  case (2 mtu left d s' q)
  then show ?case
    by (fastforce simp: to_send_def item_bytes_def cont_pack_def split: if_splits Option.bind_splits)
next
  case (4 mtu left d s' q)
  then show ?case
    by (fastforce simp: to_send_def item_bytes_def cont_pack_def split: if_splits Option.bind_splits)
qed (fastforce simp: to_send_def item_bytes_def split: if_splits)+

lemma pack_items_le: "pack mtu left q = Some (ws, q', s, good) \<Longrightarrow> items_bytes q' \<le> items_bytes q"
proof (induction mtu left q arbitrary: ws q' s good rule: pack.induct)
  case (2 mtu left d s' q)
  then show ?case by (fastforce simp: item_bytes_def cont_pack_def split: if_splits Option.bind_splits)
next
  case (4 mtu left d s' q)
  then show ?case by (fastforce simp: item_bytes_def cont_pack_def split: if_splits Option.bind_splits)
qed (fastforce simp: item_bytes_def split: if_splits)+

lemma pack_wires_length:
  "pack mtu left q = Some (ws, q', s, good) \<Longrightarrow> length (wires_bytes ws) + items_bytes q' \<le> items_bytes q + 3"
proof (induction mtu left q arbitrary: ws q' s good rule: pack.induct)
  case (2 mtu left d s' q)
  then show ?case
    by (fastforce simp: item_bytes_def wire_bytes_def length_enc_header cont_pack_def
        split: if_splits Option.bind_splits)
next
  case (4 mtu left d s' q)
  then show ?case
    by (fastforce simp: item_bytes_def wire_bytes_def cont_pack_def split: if_splits Option.bind_splits)
qed (fastforce simp: item_bytes_def split: if_splits)+

lemma pack_progress:
  assumes "pack mtu left q = Some (ws, q', s, good)" "q \<noteq> []" "4 \<le> left" "plains_le left q"
  shows "to_send q' < to_send q"
proof -
  obtain t u r where q: "q = (t, u) # r" using assms(2) by (cases q) auto
  have le: "to_send q' \<le> to_send r" if "pack mtu l r = Some (ws', q', s, good)" for l ws'
    using pack_to_send_le [OF that] .
  show ?thesis
    using assms le unfolding q
    by (cases t) (fastforce simp: to_send_def item_bytes_def cont_pack_def split: if_splits Option.bind_splits)+
qed

section \<open>Transfers\<close>

text \<open>A custom transport that takes every packet and logs it.\<close>

definition logs_packets :: "byte list list env \<Rightarrow> byte list list world \<Rightarrow> bool" where
  "logs_packets E w \<longleftrightarrow>
     (\<forall>f w c d. env_ct_write E f w c d = Some (int (length d), w\<lparr>ext := ext w @ [d]\<rparr>))
     \<and> t_type (tport (hnd w)) = OBEX_TRANS_CUSTOM \<and> ct_write (ctrans (hnd w)) \<noteq> 0"

lemma transport_write_logged:
  assumes "logs_packets E w" "buf_wf (tx_msg (hnd w))"
  shows "obex_transport_write E w = Some (int (data_size (tx_msg (hnd w))),
     w\<lparr>ext := ext w @ [buf_bytes (tx_msg (hnd w))]\<rparr>)"
proof -
  have "mem_read (buf_ptr (tx_msg (hnd w))) 0 (data_size (tx_msg (hnd w))) = Some (buf_bytes (tx_msg (hnd w)))"
    using buf_ptr_ge [OF assms(2)] by (simp add: mem_simps buf_bytes_def)
  then show ?thesis
    using assms length_buf_bytes [OF assms(2)]
    by (simp add: obex_transport_write_def logs_packets_def Let_def)
qed

text \<open>Sending packets until the object is done, at most \<open>n\<close> of them.\<close>

fun send_run :: "'e env \<Rightarrow> addr \<Rightarrow> bool \<Rightarrow> bool \<Rightarrow> nat \<Rightarrow> 'e world \<Rightarrow> (int \<times> 'e world) option" where
  "send_run E a allow force 0 w = Some (0, w)"
| "send_run E a allow force (Suc n) w = do {
     (r, w) \<leftarrow> obex_object_send E w a allow force;
     (if r = 0 then send_run E a allow force n w else Some (r, w)) }"

definition sent_world :: "byte list list world \<Rightarrow> addr \<Rightarrow> databuffer \<Rightarrow> obex_object \<Rightarrow> byte list \<Rightarrow> byte list list world" where
  "sent_world w a msg ob d = (put w a msg ob)\<lparr>ext := ext w @ [d]\<rparr>"

lemma sent_world_simps [simp]:
  "objs (sent_world w a msg ob d) a = Some ob" "tx_msg (hnd (sent_world w a msg ob d)) = msg"
  "mtu_tx (hnd (sent_world w a msg ob d)) = mtu_tx (hnd w)" "ext (sent_world w a msg ob d) = ext w @ [d]"
  "logs_packets E (sent_world w a msg ob d) = logs_packets E w"
  "send_tx_left (hnd (sent_world w a msg ob d)) = send_tx_left (hnd w)"
  by (simp_all add: sent_world_def logs_packets_def put_def send_tx_left_def Let_def cong: trans_type.case_cong)

lemma send_step:
  assumes ok: "sendable E w a ob" and logs: "logs_packets E w"
    and r: "pack (unat (mtu_tx (hnd w))) (send_tx_left (hnd w)) (map item_of (tx_headerq ob))
            = Some (ws, items, False, True)"
  obtains msg ob' where
    "obex_object_send E w a allow force = Some (snd (send_opcode ob' allow force),
       sent_world w a msg ob' (packet (fst (send_opcode ob' allow force)) (nonhdr_bytes ob @ wires_bytes ws)))"
    "ob' = ob\<lparr>tx_nonhdr_data := None, suspend := False, tx_headerq := tx_headerq ob'\<rparr>"
    "map item_of (tx_headerq ob') = items"
    "sendable E (sent_world w a msg ob' (packet (fst (send_opcode ob' allow force)) (nonhdr_bytes ob @ wires_bytes ws))) a ob'"
proof -
  obtain q' tx' msg ob' where s:
    "obex_object_send E w a allow force = (if \<not> True then Some (-1, put w a tx' ob')
       else do { (actual, w) \<leftarrow> obex_transport_write E (put w a msg ob');
                 Some (if actual < 0 then actual else snd (send_opcode ob' allow force), w) })"
    "ob' = ob\<lparr>tx_nonhdr_data := None, suspend := False, tx_headerq := q'\<rparr>"
    "queue_ok q'" "map item_of q' = items" "buf_wf msg"
    "buf_bytes msg = packet (fst (send_opcode ob' allow force)) (nonhdr_bytes ob @ wires_bytes ws)"
    "buf_cap msg < 4611686018427387904"
    by (rule obex_object_send_packs [OF ok r]) blast
  have "logs_packets E (put w a msg ob')" using logs by (simp add: logs_packets_def put_def)
  then have t: "obex_transport_write E (put w a msg ob') = Some (int (data_size msg),
      sent_world w a msg ob' (buf_bytes msg))"
    using transport_write_logged [of E "put w a msg ob'"] s(5) by (simp add: sent_world_def put_def)
  have len: "items_bytes items \<le> items_bytes (map item_of (tx_headerq ob))"
    by (rule pack_items_le [OF r])
  have "sendable E (sent_world w a msg ob' d) a ob'" for d
    using ok s len by (simp add: sendable_def nonhdr_bytes_def)
  then show ?thesis using that [of ob' msg] s t by simp
qed


definition more_opcode :: "obex_object \<Rightarrow> bool \<Rightarrow> byte" where
  "more_opcode ob force = (if force then ob_opcode ob OR OBEX_FINAL else ob_opcode ob)"

text \<open>The packets of a transfer: every one but the last has the opcode \<open>c\<close>, the last one \<open>l\<close>.\<close>

fun packets :: "byte \<Rightarrow> byte \<Rightarrow> byte list \<Rightarrow> byte list list \<Rightarrow> byte list list" where
  "packets c l d [] = [packet l d]"
| "packets c l d (e # es) = packet c d # packets c l e es"

lemma send_run_complete:
  assumes "sendable E w a ob" "logs_packets E w" "map item_of (tx_headerq ob) = items"
    "4 \<le> send_tx_left (hnd w)" "safe_queue (send_tx_left (hnd w)) items"
    "plains_le (send_tx_left (hnd w)) items" "send_tx_left (hnd w) \<le> unat (mtu_tx (hnd w))" "unsuspended items"
    "plains_ok G items"
  shows "\<exists>ws wss w'. send_run E a True force (Suc (length wss)) w = Some (1, w')
     \<and> ext w' = ext w @ packets (more_opcode ob force) (ob_lastopcode ob OR OBEX_FINAL)
                    (nonhdr_bytes ob @ wires_bytes ws) (map wires_bytes wss)
     \<and> snd (foldl absorb (acc, out) (ws @ concat wss)) = out @ contents acc items
     \<and> (\<forall>u \<in> set (ws # wss). length (wires_bytes u) \<le> send_tx_left (hnd w) + 3
          \<and> (\<forall>x \<in> set u. wire_ok G (send_tx_left (hnd w)) x))
     \<and> sum_list (map (\<lambda>u. length (wires_bytes u) + 3) (ws # wss)) \<le> items_bytes items + 6 * (to_send items + 1)"
  using assms
proof (induction "to_send items" arbitrary: items w ob acc out rule: less_induct)
  case less
  define left where "left = send_tx_left (hnd w)"
  define mtu where "mtu = unat (mtu_tx (hnd w))"
  obtain ws items' where p: "pack mtu left items = Some (ws, items', False, True)"
    and q': "safe_queue left items'" "plains_le left items'" "unsuspended items'"
    using safe_pack [of left items left mtu left] less.prems by (auto simp: left_def mtu_def)
  have here: "length (wires_bytes ws) \<le> left + 3" "\<forall>x \<in> set ws. wire_ok G left x" "plains_ok G items'"
    using pack_safe_fits [OF p] pack_wires_ok [OF p, of G] less.prems(5,9) by (simp_all add: left_def)
  have sum: "length (wires_bytes ws) + items_bytes items' \<le> items_bytes items + 3"
    by (rule pack_wires_length [OF p])
  obtain msg ob' where st:
    "obex_object_send E w a True force = Some (snd (send_opcode ob' True force),
       sent_world w a msg ob' (packet (fst (send_opcode ob' True force)) (nonhdr_bytes ob @ wires_bytes ws)))"
    "ob' = ob\<lparr>tx_nonhdr_data := None, suspend := False, tx_headerq := tx_headerq ob'\<rparr>"
    "map item_of (tx_headerq ob') = items'"
    "sendable E (sent_world w a msg ob' (packet (fst (send_opcode ob' True force)) (nonhdr_bytes ob @ wires_bytes ws))) a ob'"
    by (rule send_step [OF less.prems(1,2), of ws items'])
      (use p less.prems(3) in \<open>auto simp: left_def mtu_def\<close>)
  obtain acc1 out1 where f: "foldl absorb (acc, out) ws = (acc1, out1)" by fastforce
  have cons: "out1 @ contents acc1 items' = out @ contents acc items" by (rule pack_conserves [OF p f])
  have op: "ob_opcode ob' = ob_opcode ob" "ob_lastopcode ob' = ob_lastopcode ob" "nonhdr_bytes ob' = []"
    using arg_cong [OF st(2), of ob_opcode] arg_cong [OF st(2), of ob_lastopcode]
      arg_cong [OF st(2), of tx_nonhdr_data] by (simp_all add: nonhdr_bytes_def)
  show ?case
  proof (cases "items' = []")
    case True
    then have "send_opcode ob' True force = (ob_lastopcode ob OR OBEX_FINAL, 1)"
      using st(3) op by (simp add: send_opcode_def)
    then show ?thesis using st(1) cons f True here sum
      by (intro exI [of _ ws] exI [of _ "[]"]) (simp add: Let_def left_def)
  next
    case False
    then have so: "send_opcode ob' True force = (more_opcode ob force, 0)"
      using st(3) op by (auto simp: send_opcode_def more_opcode_def)
    define w1 where "w1 = sent_world w a msg ob' (packet (more_opcode ob force) (nonhdr_bytes ob @ wires_bytes ws))"
    have ne: "items \<noteq> []" using p False by auto
    have prog: "to_send items' < to_send items"
      by (rule pack_progress [OF p ne]) (use less.prems in \<open>simp_all add: left_def\<close>)
    from less.hyps [OF prog, of w1 ob' acc1 out1] obtain ws1 wss w' where ih:
      "send_run E a True force (Suc (length wss)) w1 = Some (1, w')"
      "ext w' = ext w1 @ packets (more_opcode ob' force) (ob_lastopcode ob' OR OBEX_FINAL)
                    (nonhdr_bytes ob' @ wires_bytes ws1) (map wires_bytes wss)"
      "snd (foldl absorb (acc1, out1) (ws1 @ concat wss)) = out1 @ contents acc1 items'"
      "\<forall>u \<in> set (ws1 # wss). length (wires_bytes u) \<le> left + 3 \<and> (\<forall>x \<in> set u. wire_ok G left x)"
      "sum_list (map (\<lambda>u. length (wires_bytes u) + 3) (ws1 # wss)) \<le> items_bytes items' + 6 * (to_send items' + 1)"
      using st(3,4) q' less.prems so here unfolding w1_def left_def by fastforce
    have "send_run E a True force (Suc (length (ws1 # wss))) w = Some (1, w')"
      using st(1) so ih(1) by (simp add: w1_def)
    moreover have "more_opcode ob' force = more_opcode ob force" using op by (simp add: more_opcode_def)
    ultimately show ?thesis using ih cons f op here sum prog
      by (intro exI [of _ ws] exI [of _ "ws1 # wss"] exI [of _ w']) (simp add: w1_def left_def)
  qed
qed

section \<open>Size of a packet\<close>

fun body_last :: "(tx_item \<times> bool) list \<Rightarrow> bool" where
  "body_last [] = True"
| "body_last ((t, s) # q) = (body_last q \<and> ((\<exists>d. t = TX_Body d) \<longrightarrow> q = []))"

lemma pack_fits:
  "pack mtu left q = Some (ws, q', s, good) \<Longrightarrow> body_last q \<Longrightarrow> length (wires_bytes ws) \<le> left"
proof (induction mtu left q arbitrary: ws q' s good rule: pack.induct)
  case (2 mtu left d s' q)
  then show ?case
    by (auto simp: wire_bytes_def length_enc_header cont_pack_def split: if_splits)
next
  case (4 mtu left d s' q)
  show ?case
  proof (cases "length d \<le> left \<and> \<not> (s' \<or> left = length d)")
    case True
    then obtain ws1 where "pack mtu (left - length d) q = Some (ws1, q', s, good)" "ws = W_Plain d # ws1"
      using 4(2) by (auto simp: cont_pack_def split: Option.bind_splits)
    then show ?thesis using 4(1) [of ws1 q' s good] True 4(3) by (auto simp: wire_bytes_def)
  next
    case False
    then show ?thesis using 4 by (auto simp: wire_bytes_def split: if_splits)
  qed
qed (auto split: if_splits)

lemma send_tx_left_plain:
  "t_type (tport self) \<noteq> OBEX_TRANS_IRDA \<Longrightarrow> 3 \<le> unat (mtu_tx self) \<Longrightarrow>
   send_tx_left self = unat (mtu_tx self) - 3"
proof -
  assume a: "t_type (tport self) \<noteq> OBEX_TRANS_IRDA" "3 \<le> unat (mtu_tx self)"
  define m where "m = unat (mtu_tx self)"
  have "m < 65536" "3 \<le> m" using a by (simp_all add: m_def)
  then have "u16 (int m - 3) = m - 3" by (simp add: c_arith)
  then show ?thesis using a(1)
    by (simp add: send_tx_left_def Let_def m_def split: trans_type.splits)
qed

lemma length_packet [simp]: "length (packet c d) = length d + 3"
  by (simp add: packet_def)

lemma obex_object_send_crash:
  assumes ok: "sendable E w a ob"
    and r: "pack (unat (mtu_tx (hnd w))) (send_tx_left (hnd w)) (map item_of (tx_headerq ob)) = None"
  shows "obex_object_send E w a allow force = None"
proof -
  have A: "generous (env_alloc E)" and ob: "objs w a = Some ob" and ns: "\<not> suspend ob"
    and qok: "queue_ok (tx_headerq ob)" and wf: "buf_wf (tx_msg (hnd w))"
    and nh: "\<forall>b. tx_nonhdr_data ob = Some b \<longrightarrow> buf_wf b"
    and sz: "length (nonhdr_bytes ob) + items_bytes (map item_of (tx_headerq ob)) + 3 < 4611686018427387904"
    using ok by (simp_all add: sendable_def)
  define tx0 where "tx0 = buf_reuse (tx_msg (hnd w))"
  have tx0: "buf_wf tx0" "head_avail tx0 = 0" "data_size tx0 = 0"
    using buf_reuse_laws [OF wf] by (simp_all add: tx0_def)
  have w0: "set_tx w tx0 = put w a tx0 ob" using ob by (simp add: put_def fun_upd_idem)
  have room0: "tx_room tx0 (length (nonhdr_bytes ob) + items_bytes (map item_of (tx_headerq ob)))"
    using sz tx0 by (simp add: tx_room_def)
  obtain tx1 where n: "send_nonhdr E (put w a tx0 ob) a = Some (put w a tx1 (ob\<lparr>tx_nonhdr_data := None\<rparr>))"
    and g1: "grown tx0 tx1 (nonhdr_bytes ob)"
    by (rule send_nonhdr_put [OF A tx0(1) tx_room_less [OF room0] nh, of w a]) simp_all
  have "packs_to E a (send_tx_left (hnd w)) w tx1 (ob\<lparr>tx_nonhdr_data := None\<rparr>)
      (pack (unat (mtu_tx (hnd w))) (send_tx_left (hnd w)) (map item_of (tx_headerq ob)))"
    by (rule send_headers_refines [OF A qok])
      (use ns g1 tx_room_grown [OF room0 g1] send_tx_left_less in \<open>simp_all add: grown_def\<close>)
  then show ?thesis using ob ns n r unfolding obex_object_send_def packs_to_def
    by (simp add: w0 flip: tx0_def)
qed

text \<open>An object for examples.\<close>

lemma ex_elem_item:
  "item_of (p, ex_elem hi d) = (if hi = OBEX_HDR_BODY then TX_Body (drop 3 d)
     else if hi = OBEX_HDR_EMPTY then TX_Empty else TX_Plain d, False)"
  by (simp add: item_of_Pair elem_item_def elem_susp_def ex_elem_def)

lemma ex_elem_ok:
  "length d < 2147483648 \<Longrightarrow> (hi = OBEX_HDR_BODY \<longrightarrow> 3 \<le> length d) \<Longrightarrow> elem_ok (ex_elem hi d)"
  by (auto simp: elem_ok_def ex_elem_def intro: buf_wf_holding)

lemma ex_sendable:
  assumes "queue_ok q" "items_bytes (map item_of q) < 4611686018427387000"
  shows "sendable ex_env (ex_world (ex_object q)) 1 (ex_object q)"
  using assms by (simp add: sendable_def nonhdr_bytes_def buf_cap_def buf_wf_holding)

lemma ex_logs: "logs_packets ex_env (ex_world ob)"
  by (simp add: logs_packets_def)


section \<open>Properties\<close>

text \<open>
  C4: sending one packet. \<open>obex_object_send\<close> implements the packing specification: the
  packet handed to the transport is the common header with the right opcode and the true length,
  then the non-header data, then exactly the headers the specification packs, and the queue keeps
  exactly what the specification leaves; it fails when the specification fails, and is undefined
  when a body meets one or two bytes of space.
\<close>

theorem send_implements_packing:
  assumes "sendable E w a ob"
  shows "case pack (unat (mtu_tx (hnd w))) (send_tx_left (hnd w)) (map item_of (tx_headerq ob)) of
       None \<Rightarrow> obex_object_send E w a allow force = None
     | Some (ws, items, s, good) \<Rightarrow> \<exists>msg ob' tx'.
         ob' = ob\<lparr>tx_nonhdr_data := None, suspend := s, tx_headerq := tx_headerq ob'\<rparr>
         \<and> map item_of (tx_headerq ob') = items
         \<and> obex_object_send E w a allow force =
             (if \<not> good then Some (-1, put w a tx' ob')
              else do { (actual, w) \<leftarrow> obex_transport_write E (put w a msg ob');
                        Some (if actual < 0 then actual else snd (send_opcode ob' allow force), w) })
         \<and> buf_bytes msg = packet (fst (send_opcode ob' allow force)) (nonhdr_bytes ob @ wires_bytes ws)"
proof (cases "pack (unat (mtu_tx (hnd w))) (send_tx_left (hnd w)) (map item_of (tx_headerq ob))")
  case None
  then show ?thesis using obex_object_send_crash [OF assms None] by simp
next
  case (Some r)
  obtain ws items s good where r: "r = (ws, items, s, good)" by (cases r) auto
  obtain q' tx' msg ob' where sp:
    "obex_object_send E w a allow force = (if \<not> good then Some (-1, put w a tx' ob')
       else do { (actual, w) \<leftarrow> obex_transport_write E (put w a msg ob');
                 Some (if actual < 0 then actual else snd (send_opcode ob' allow force), w) })"
    "ob' = ob\<lparr>tx_nonhdr_data := None, suspend := s, tx_headerq := q'\<rparr>" "map item_of q' = items"
    "buf_bytes msg = packet (fst (send_opcode ob' allow force)) (nonhdr_bytes ob @ wires_bytes ws)"
    by (rule obex_object_send_packs [OF assms Some [unfolded r]]) blast
  have q': "tx_headerq ob' = q'" using arg_cong [OF sp(2), of tx_headerq] by simp
  show ?thesis unfolding Some r option.case prod.case
    by (intro exI [of _ msg] exI [of _ ob'] exI [of _ tx'] conjI) (unfold q', fact+)
qed

theorem send_implements_packing_witness:
  "\<exists>msg ob'. obex_object_send ex_env (ex_world (ex_object [(5, ex_elem 0x01 [1, 0, 5, 0, 65])])) 1 True False
     = (do { (actual, w) \<leftarrow> obex_transport_write ex_env
                (put (ex_world (ex_object [(5, ex_elem 0x01 [1, 0, 5, 0, 65])])) 1 msg ob');
             Some (if actual < 0 then actual else 1, w) })
     \<and> buf_bytes msg = [0x82, 0, 8, 1, 0, 5, 0, 65] \<and> tx_headerq ob' = []"
proof -
  let ?q = "[(5, ex_elem 0x01 [1, 0, 5, 0, 65])]"
  have ok: "sendable ex_env (ex_world (ex_object ?q)) 1 (ex_object ?q)"
    by (rule ex_sendable) (simp_all add: queue_ok_Cons ex_elem_ok queue_ok_def [of "[]"] ex_elem_item item_bytes_def)
  have left: "send_tx_left ex_handle = 252" by (simp add: send_tx_left_plain)
  have pk: "pack (unat (mtu_tx (hnd (ex_world (ex_object ?q))))) (send_tx_left (hnd (ex_world (ex_object ?q))))
      (map item_of (tx_headerq (ex_object ?q))) = Some ([W_Plain [1, 0, 5, 0, 65]], [], False, True)"
    by (simp add: left ex_elem_item cont_pack_def)
  obtain msg ob' tx' where o:
    "ob' = (ex_object ?q)\<lparr>tx_nonhdr_data := None, suspend := False, tx_headerq := tx_headerq ob'\<rparr>"
    and q: "tx_headerq ob' = []"
    and s: "obex_object_send ex_env (ex_world (ex_object ?q)) 1 True False
      = (do { (actual, w) \<leftarrow> obex_transport_write ex_env (put (ex_world (ex_object ?q)) 1 msg ob');
              Some (if actual < 0 then actual else snd (send_opcode ob' True False), w) })"
    and m: "buf_bytes msg = packet (fst (send_opcode ob' True False)) [1, 0, 5, 0, 65]"
    using send_implements_packing [OF ok, of True False] unfolding pk option.case prod.case
    by (auto simp: nonhdr_bytes_def wire_bytes_def)
  have "ob_lastopcode ob' = 2" using arg_cong [OF o, of ob_lastopcode] by simp
  then have op: "send_opcode ob' True False = (0x82, 1)" using q by (simp add: send_opcode_def)
  show ?thesis using s m q unfolding op snd_conv fst_conv
    by (intro exI [of _ msg] exI [of _ ob']) (simp add: packet_def be16_def)
qed






text \<open>
  The last fragment of a body is charged to the packet without its three header
  bytes, so a header queued behind the body can make the packet up to three bytes longer than
  the peer's MTU.
\<close>

theorem body_end_overflows_mtu:
  assumes "sendable E w a ob" and "map item_of (tx_headerq ob) = [(TX_Body d, False), (TX_Plain e, False)]"
    and "length d + 6 \<le> unat (mtu_tx (hnd w))" and "t_type (tport (hnd w)) \<noteq> OBEX_TRANS_IRDA"
    and "length e + length d + 3 \<le> unat (mtu_tx (hnd w))"
    and "unat (mtu_tx (hnd w)) < length e + length d + 6"
  shows "\<exists>msg ob'. unat (mtu_tx (hnd w)) < length (buf_bytes msg)
     \<and> obex_object_send E w a allow force =
         (do { (actual, w) \<leftarrow> obex_transport_write E (put w a msg ob');
               Some (if actual < 0 then actual else snd (send_opcode ob' allow force), w) })"
proof -
  have left: "send_tx_left (hnd w) = unat (mtu_tx (hnd w)) - 3"
    using assms(3,4) by (intro send_tx_left_plain) simp_all
  have "pack (unat (mtu_tx (hnd w))) (send_tx_left (hnd w)) (map item_of (tx_headerq ob))
      = Some ([W_End d, W_Plain e], [], False, True)"
    using assms(3,5) unfolding left assms(2) by (auto simp: cont_pack_def)
  from obex_object_send_packs [OF assms(1) this, of allow force] obtain msg ob' tx' q' where
    "obex_object_send E w a allow force = (if \<not> True then Some (-1, put w a tx' ob')
       else do { (actual, w) \<leftarrow> obex_transport_write E (put w a msg ob');
                 Some (if actual < 0 then actual else snd (send_opcode ob' allow force), w) })"
    "buf_bytes msg = packet (fst (send_opcode ob' allow force))
        (nonhdr_bytes ob @ wires_bytes [W_End d, W_Plain e])" by blast
  then show ?thesis using assms(6)
    by (intro exI [of _ msg] exI [of _ ob']) (simp add: wire_bytes_def length_enc_header)
qed

theorem body_end_overflows_mtu_witness:
  "\<exists>msg ob'. 255 < length (buf_bytes msg)
     \<and> obex_object_send ex_env (ex_world (ex_object
          [(5, ex_elem 0x48 (replicate 203 9)), (6, ex_elem 0x01 (replicate 50 1))])) 1 True False =
         (do { (actual, w) \<leftarrow> obex_transport_write ex_env (put (ex_world (ex_object
                 [(5, ex_elem 0x48 (replicate 203 9)), (6, ex_elem 0x01 (replicate 50 1))])) 1 msg ob');
               Some (if actual < 0 then actual else snd (send_opcode ob' True False), w) })"
proof -
  let ?q = "[(5, ex_elem 0x48 (replicate 203 9)), (6, ex_elem 0x01 (replicate 50 1))]"
  have ok: "sendable ex_env (ex_world (ex_object ?q)) 1 (ex_object ?q)"
    by (rule ex_sendable) (simp_all add: queue_ok_Cons ex_elem_ok queue_ok_def [of "[]"] ex_elem_item item_bytes_def)
  show ?thesis
    using body_end_overflows_mtu [OF ok, of "replicate 200 9" "replicate 50 1" True False]
    by (simp add: ex_elem_item)
qed

text \<open>
  A body that meets one or two bytes of space in a packet is undefined
  behaviour: the length of the fragment, \<open>tx_left - 3\<close>, wraps and the copy reads far beyond the
  body.
\<close>

theorem body_in_tiny_space_undefined:
  assumes "sendable E w a ob"
    and "map item_of (tx_headerq ob) = (TX_Plain e, False) # (TX_Body d, s) # q"
    and "3 \<le> unat (mtu_tx (hnd w))" and "t_type (tport (hnd w)) \<noteq> OBEX_TRANS_IRDA"
    and "length e + 3 < unat (mtu_tx (hnd w))" and "unat (mtu_tx (hnd w)) < length e + 6"
  shows "obex_object_send E w a allow force = None"
proof (rule obex_object_send_crash [OF assms(1)])
  have left: "send_tx_left (hnd w) = unat (mtu_tx (hnd w)) - 3"
    using assms(3,4) by (intro send_tx_left_plain) simp_all
  show "pack (unat (mtu_tx (hnd w))) (send_tx_left (hnd w)) (map item_of (tx_headerq ob)) = None"
    using assms(3,5,6) unfolding left assms(2) by (auto simp: cont_pack_def)
qed

theorem body_in_tiny_space_undefined_witness:
  "obex_object_send ex_env (ex_world (ex_object
      [(5, ex_elem 0x01 (replicate 250 1)), (6, ex_elem 0x48 (replicate 20 9))])) 1 True False = None"
proof -
  let ?q = "[(5, ex_elem 0x01 (replicate 250 1)), (6, ex_elem 0x48 (replicate 20 9))]"
  have ok: "sendable ex_env (ex_world (ex_object ?q)) 1 (ex_object ?q)"
    by (rule ex_sendable) (simp_all add: queue_ok_Cons ex_elem_ok queue_ok_def [of "[]"] ex_elem_item item_bytes_def)
  show ?thesis
    by (rule body_in_tiny_space_undefined [OF ok, where e = "replicate 250 1" and d = "replicate 17 9"
        and s = False and q = "[]"]) (simp_all add: ex_elem_item)
qed

text \<open>
  A header longer than the space of an empty packet but not longer than the MTU
  (accepted by \<open>obex_object_addheader\<close> on an IrDA link, whose packets are rounded down to the link
  MTU) is never sent: each packet goes out without it, the queue stays as it is, and the result
  says that progress was made.
\<close>

theorem oversized_header_never_sent:
  assumes "sendable E w a ob" and "map item_of (tx_headerq ob) = (TX_Plain e, s) # q"
    and "send_tx_left (hnd w) < length e" and "length e \<le> unat (mtu_tx (hnd w))"
  shows "\<exists>msg ob'. buf_bytes msg = packet (more_opcode ob force) (nonhdr_bytes ob)
     \<and> map item_of (tx_headerq ob') = map item_of (tx_headerq ob)
     \<and> obex_object_send E w a True force =
         (do { (actual, w) \<leftarrow> obex_transport_write E (put w a msg ob');
               Some (if actual < 0 then actual else 0, w) })"
proof -
  have pk: "pack (unat (mtu_tx (hnd w))) (send_tx_left (hnd w)) (map item_of (tx_headerq ob))
      = Some ([], map item_of (tx_headerq ob), False, True)"
    using assms(3,4) unfolding assms(2) by simp
  obtain msg ob' tx' q' where sp:
    "obex_object_send E w a True force = (if \<not> True then Some (-1, put w a tx' ob')
       else do { (actual, w) \<leftarrow> obex_transport_write E (put w a msg ob');
                 Some (if actual < 0 then actual else snd (send_opcode ob' True force), w) })"
    "ob' = ob\<lparr>tx_nonhdr_data := None, suspend := False, tx_headerq := q'\<rparr>"
    "map item_of q' = map item_of (tx_headerq ob)"
    "buf_bytes msg = packet (fst (send_opcode ob' True force)) (nonhdr_bytes ob @ wires_bytes [])"
    by (rule obex_object_send_packs [OF assms(1) pk, of True force]) (rule that)
  have "q' \<noteq> []" using sp(3) assms(2) by auto
  then have op: "send_opcode ob' True force = (more_opcode ob force, 0)"
    by (simp add: sp(2) send_opcode_def more_opcode_def)
  have q': "tx_headerq ob' = q'" by (simp add: sp(2))
  show ?thesis
  proof (intro exI conjI)
    show "buf_bytes msg = packet (more_opcode ob force) (nonhdr_bytes ob)" by (simp add: sp(4) op)
    show "map item_of (tx_headerq ob') = map item_of (tx_headerq ob)" unfolding q' by (rule sp(3))
    show "obex_object_send E w a True force = (do { (actual, w) \<leftarrow> obex_transport_write E (put w a msg ob');
               Some (if actual < 0 then actual else 0, w) })" using sp(1) unfolding op snd_conv by simp
  qed
qed

theorem oversized_header_never_sent_witness:
  "\<exists>msg ob'. buf_bytes msg = packet 2 []
     \<and> map item_of (tx_headerq ob') = [(TX_Plain (replicate 254 1), False)]
     \<and> obex_object_send ex_env (ex_world (ex_object [(5, ex_elem 0x01 (replicate 254 1))])) 1 True False =
         (do { (actual, w) \<leftarrow> obex_transport_write ex_env
                 (put (ex_world (ex_object [(5, ex_elem 0x01 (replicate 254 1))])) 1 msg ob');
               Some (if actual < 0 then actual else 0, w) })"
proof -
  let ?q = "[(5, ex_elem 0x01 (replicate 254 1))]"
  have ok: "sendable ex_env (ex_world (ex_object ?q)) 1 (ex_object ?q)"
    by (rule ex_sendable) (simp_all add: queue_ok_Cons ex_elem_ok queue_ok_def [of "[]"] ex_elem_item item_bytes_def)
  show ?thesis
    using oversized_header_never_sent [OF ok, of "replicate 254 1" False "[]" False]
    by (simp add: ex_elem_item send_tx_left_plain nonhdr_bytes_def more_opcode_def)
qed

end
