(* ===== verification/Unpacking.thy ===== *)
theory Unpacking
  imports Obex_Receive Packing
begin

text \<open>
  The unpacking of received packets, specified without buffers: a packet is a list of headers, and
  a receiver is the body received so far with the list of complete headers. The receive loop of
  \<open>obex_object_receive\<close> (without streaming, which is up to the application) implements the step
  function \<open>rx_step\<close> on well-formed packets.
\<close>

section \<open>Specification\<close>

definition value_bytes :: "hdr_value \<Rightarrow> byte list" where
  "value_bytes v = (case v of HInt x \<Rightarrow> be32 x | HByte b \<Rightarrow> [b] | HBytes d \<Rightarrow> d)"

type_synonym rx_state = "byte list \<times> (byte \<times> byte list) list"

fun rx_step :: "rx_state \<Rightarrow> byte \<times> hdr_value \<Rightarrow> rx_state" where
  "rx_step (acc, out) (hi, v) =
     (if hi = OBEX_HDR_BODY then (acc @ value_bytes v, out)
      else if hi = OBEX_HDR_BODY_END then ([], out @ [(OBEX_HDR_BODY, acc @ value_bytes v)])
      else (acc, out @ [(hi, value_bytes v)]))"

definition enc_headers :: "(byte \<times> hdr_value) list \<Rightarrow> byte list" where
  "enc_headers hs = concat (map (\<lambda>(hi, v). enc_header hi v) hs)"

lemma enc_headers_simps [simp]:
  "enc_headers [] = []" "enc_headers ((hi, v) # hs) = enc_header hi v @ enc_headers hs"
  "enc_headers (xs @ ys) = enc_headers xs @ enc_headers ys"
  by (simp_all add: enc_headers_def)

section \<open>The receiving object\<close>

definition rx_elem :: "addr \<times> header_element \<Rightarrow> byte \<times> byte list" where
  "rx_elem n = (h_hi (snd n), case h_buf (snd n) of None \<Rightarrow> [] | Some b \<Rightarrow> buf_bytes b)"

definition rx_state :: "obex_object \<Rightarrow> rx_state" where
  "rx_state ob = ((case rx_body ob of None \<Rightarrow> [] | Some b \<Rightarrow> buf_bytes b), map rx_elem (rx_headerq ob))"

definition rx_elem_ok :: "addr \<times> header_element \<Rightarrow> bool" where
  "rx_elem_ok n \<longleftrightarrow> (\<exists>b. h_buf (snd n) = Some b \<and> buf_wf b \<and> data_size b = h_length (snd n)
     \<and> (h_hi (snd n) AND OBEX_HI_MASK = OBEX_INT \<longrightarrow> data_size b = 4)
     \<and> (h_hi (snd n) AND OBEX_HI_MASK = OBEX_BYTE \<longrightarrow> data_size b = 1))"

text \<open>
  The bounds: the hint for the body length stays below 1.17 GB and the body, with the bytes \<open>n\<close>
  still to come, below 1.3 GB, so that no size computed in 32 bits wraps.
\<close>

definition rx_ready :: "obex_object \<Rightarrow> nat \<Rightarrow> bool" where
  "rx_ready ob n \<longleftrightarrow> \<not> s_srv ob \<and> 0 \<le> hinted_body_len ob \<and> hinted_body_len ob < 1170000000
     \<and> n < 1300000000
     \<and> (\<forall>b. rx_body ob = Some b \<longrightarrow> buf_wf b \<and> head_avail b = 0 \<and> data_size b + n < 1300000000
          \<and> buf_cap b \<le> max 1170000000 (data_size b + 80000))
     \<and> (\<forall>m \<in> set (rx_headerq ob). rx_elem_ok m)"

definition hdr_ok :: "byte \<times> hdr_value \<Rightarrow> bool" where
  "hdr_ok x \<longleftrightarrow> hdr_kind_ok (fst x) (snd x)
     \<and> (\<forall>l. x = (OBEX_HDR_LENGTH, HInt l) \<longrightarrow> unat l < 1170000000)"

section \<open>The world around the receive loop\<close>

definition rput :: "'e world \<Rightarrow> addr \<Rightarrow> databuffer \<Rightarrow> obex_object \<Rightarrow> addr \<Rightarrow> 'e world" where
  "rput w a rx ob na =
     w\<lparr>hnd := (hnd w)\<lparr>rx_msg := rx\<rparr>, objs := (objs w)(a := Some ob), next_addr := na\<rparr>"

lemma rput_simps [simp]:
  "objs (rput w a rx ob na) a = Some ob" "rx_msg (hnd (rput w a rx ob na)) = rx"
  "next_addr (rput w a rx ob na) = na"
  "upd_obj (rput w a rx ob na) a f = Some (rput w a rx (f ob) na)"
  "(rput w a rx ob na)\<lparr>hnd := (hnd (rput w a rx ob na))\<lparr>rx_msg := rx'\<rparr>\<rparr> = rput w a rx' ob na"
  "(rput w a rx ob na)\<lparr>next_addr := na'\<rparr> = rput w a rx ob na'"
  "cur_object (hnd (rput w a rx ob na)) = cur_object (hnd w)"
  by (simp_all add: rput_def)

lemma rput_self: "objs w a = Some ob \<Longrightarrow> rput w a (rx_msg (hnd w)) ob (next_addr w) = w"
  by (simp add: rput_def fun_upd_idem)

lemma buf_ptr_split: "buf_wf b \<Longrightarrow> buf_ptr b = buf_bytes b @ drop (data_size b) (buf_ptr b)"
  by (simp add: buf_bytes_def)

section \<open>One header\<close>

lemma receive_element_spec:
  assumes A: "generous A" and n: "n \<le> length src" "n < 65536"
  obtains el where "receive_element A hi src n = Some (Some el)"
    "h_hi el = hi" "h_length el = n" "rx_elem (p, el) = (hi, take n src)"
    "\<exists>b. h_buf el = Some b \<and> buf_wf b \<and> data_size b = n"
proof (cases "n = 0")
  case True
  obtain b where b: "buf_new A 1 = Some b" using buf_new_generous [OF A, of 1] by auto
  then show ?thesis using that True A buf_new_cases [OF b]
    by (simp add: receive_element_def rx_elem_def)
next
  case False
  obtain b where b: "buf_new A n = Some b" using buf_new_generous [OF A, of n] n by auto
  have wf: "buf_wf b" and b0: "buf_bytes b = []" "data_size b = 0" "head_avail b = 0"
    using buf_new_cases [OF b] by simp_all
  have "buf_room_end A b n" using A n b0 by (simp add: buf_room_end_def)
  from buf_insert_end_laws [OF wf n(1) this] obtain b' where "buf_insert_end A b src n = Some b'"
    "buf_wf b'" "buf_bytes b' = buf_bytes b @ take n src" "data_size b' = data_size b + n" by blast
  then show ?thesis using that False A b b0
    by (simp add: receive_element_def rx_elem_def)
qed

lemma receive_body_buffer_spec:
  assumes A: "generous A" and ready: "rx_ready ob (n + m)" and n: "n < 65536"
  obtains b where "receive_body_buffer A ob n = Some (True, ob\<lparr>rx_body := Some b\<rparr>)" "buf_wf b"
    "buf_bytes b = fst (rx_state ob)" "n \<le> buf_free_end b" "head_avail b = 0"
    "data_size b + (n + m) < 1300000000" "buf_cap b \<le> max 1170000000 (data_size b + n + 80000)"
proof -
  define ob1 where "ob1 = (case rx_body ob of Some _ \<Rightarrow> ob
     | None \<Rightarrow> ob\<lparr>rx_body := buf_new A (nat (if hinted_body_len ob \<noteq> 0 then hinted_body_len ob
                                     else 10240 + int n))\<rparr>)"
  define len where "len = nat (if hinted_body_len ob \<noteq> 0 then hinted_body_len ob else 10240 + int n)"
  have h: "0 \<le> hinted_body_len ob" "hinted_body_len ob < 1170000000" "n + m < 1300000000"
    using ready by (simp_all add: rx_ready_def)
  have len: "len < 1170000000" using h n by (auto simp: len_def)
  have u: "u64 (if hinted_body_len ob \<noteq> 0 then hinted_body_len ob else s32 (10240 + int n)) = len"
    using h n by (auto simp: len_def c_arith)
  obtain nb where nb: "buf_new A len = Some nb" using buf_new_generous [OF A, of len] len by auto
  obtain b0 where b0: "rx_body ob1 = Some b0" "ob1 = ob\<lparr>rx_body := Some b0\<rparr>" "buf_wf b0"
      "buf_bytes b0 = fst (rx_state ob)" "head_avail b0 = 0" "data_size b0 + (n + m) < 1300000000"
      "buf_cap b0 \<le> max 1170000000 (data_size b0 + 80000)"
    "receive_body_buffer A ob n = (if data_avail b0 + tail_avail b0 < n
       then (let t = s32 (int (buf_total_size b0)); wanted = u32 (t + 10240 + int n) in do {
          b \<leftarrow> buf_resize A b0 wanted; Some (buf_total_size b = wanted, ob1\<lparr>rx_body := Some b\<rparr>) })
       else Some (True, ob1))"
  proof (cases "rx_body ob")
    case None
    show ?thesis
      by (rule that [of nb]) (use None nb buf_new_cases [OF nb] u h len in
        \<open>auto simp: ob1_def rx_state_def receive_body_buffer_def len_def [symmetric]\<close>)
  next
    case (Some b)
    then have "ob\<lparr>rx_body := Some b\<rparr> = ob" by (cases ob) simp
    then show ?thesis
      by (intro that [of b]) (use Some ready in
        \<open>auto simp: ob1_def rx_state_def receive_body_buffer_def rx_ready_def\<close>)
  qed
  show ?thesis
  proof (cases "data_avail b0 + tail_avail b0 < n")
    case False
    have "buf_cap b0 \<le> max 1170000000 (data_size b0 + n + 80000)" using b0(7) by linarith
    then show ?thesis using that [of b0] b0 False by (simp add: buf_free_end_def)
  next
    case True
    define k where "k = buf_cap b0 + 10240 + n"
    have tot: "buf_total_size b0 = buf_cap b0" using buf_wf_total [OF b0(3)] by (simp add: buf_cap_def)
    have cap0: "buf_cap b0 < 1400000000" using b0(6,7) by linarith
    have s: "s32 (int (buf_total_size b0)) = int (buf_cap b0)" using cap0 by (simp add: tot c_arith)
    have w: "u32 (int (buf_cap b0) + 10240 + int n) = k" using cap0 n by (simp add: c_arith k_def)
    have ok: "malloc_ok A k" using A cap0 n by (simp add: k_def)
    have grow: "length (buf_mem b0) < k" by (simp add: k_def buf_cap_def)
    obtain b where b: "buf_resize A b0 k = Some b" "buf_wf b" "buf_cap b = k"
        "buf_bytes b = take k (buf_bytes b0)"
      by (rule buf_resize_laws [OF b0(3), of k A]) (use ok in auto)
    have bytes: "buf_bytes b = buf_bytes b0"
      using b(4) length_buf_bytes [OF b0(3)] b0(3) by (simp add: k_def buf_cap_def buf_wf_def)
    have free: "n \<le> buf_free_end b \<and> head_avail b = 0 \<and> data_size b = data_size b0"
      by (rule buf_grow_laws [OF b0(3) grow ok])
        (use b(1) b0(5) in \<open>auto simp: buf_free_end_def k_def buf_cap_def\<close>)
    have "buf_total_size b = k" using buf_wf_total [OF b(2)] b(3) by (simp add: buf_cap_def)
    then have "receive_body_buffer A ob n = Some (True, ob\<lparr>rx_body := Some b\<rparr>)"
      using b0(2,8) True b(1) s w by simp
    moreover have "k \<le> data_size b0 + n + 80000"
      using True n b0(3,5) by (simp add: k_def buf_cap_def buf_wf_def)
    ultimately show ?thesis using that [of b] b(2,3) bytes b0(4,6) free by simp
  qed
qed

text \<open>What a step may change of the object.\<close>

definition rx_same :: "obex_object \<Rightarrow> obex_object \<Rightarrow> bool" where
  "rx_same ob ob' \<longleftrightarrow> ob' = ob\<lparr>rx_body := rx_body ob', rx_headerq := rx_headerq ob',
     hinted_body_len := hinted_body_len ob'\<rparr>"

lemma rx_same_refl: "rx_same ob ob"
  by (cases ob) (simp add: rx_same_def)

lemma rx_same_trans: "rx_same x y \<Longrightarrow> rx_same y z \<Longrightarrow> rx_same x z"
  unfolding rx_same_def by (cases x, cases y, cases z) simp

lemma rx_ready_less: "rx_ready ob n \<Longrightarrow> m \<le> n \<Longrightarrow> rx_ready ob m"
  by (fastforce simp: rx_ready_def)

lemma receive_body_spec:
  assumes A: "generous (env_alloc E)" and ready: "rx_ready ob (n + m)"
    and n: "n \<le> length src" "n \<le> data_size rx" "n < 65536" and hi: "hi = OBEX_HDR_BODY \<or> hi = OBEX_HDR_BODY_END"
  obtains ob' na' where "obex_object_receive_body E (rput w a rx ob na) a hi src n = Some (1, rput w a rx ob' na')"
    "rx_state ob' = rx_step (rx_state ob) (hi, HBytes (take n src))" "rx_ready ob' m" "rx_same ob ob'"
proof -
  obtain b where b: "receive_body_buffer (env_alloc E) ob n = Some (True, ob\<lparr>rx_body := Some b\<rparr>)" "buf_wf b"
    "buf_bytes b = fst (rx_state ob)" "n \<le> buf_free_end b" "head_avail b = 0"
    "data_size b + (n + m) < 1300000000" "buf_cap b \<le> max 1170000000 (data_size b + n + 80000)"
    by (rule receive_body_buffer_spec [OF A ready n(3)])
  have d: "buf_bytes b = (case rx_body ob of None \<Rightarrow> [] | Some b \<Rightarrow> buf_bytes b)"
    using b(3) by (simp add: rx_state_def)
  obtain b' where b': "buf_insert_end (env_alloc E) b src n = Some b'" "buf_wf b'"
    "buf_bytes b' = buf_bytes b @ take n src" "data_size b' = data_size b + n" "head_avail b' = head_avail b"
    "buf_cap b' = max (buf_cap b) (head_avail b + data_size b + n)"
    by (rule buf_insert_end_laws [OF b(2) n(1) buf_room_fits [OF b(2,4)]])
  have cap: "buf_cap b' = buf_cap b"
    using b'(6) b(2,4) by (simp add: buf_cap_def buf_wf_def buf_free_end_def)
  have small: "data_size b' < 1400000000" using b'(4) b(6) by simp
  show ?thesis
  proof (cases "hi = OBEX_HDR_BODY_END")
    case False
    define ob' where "ob' = ob\<lparr>rx_body := Some b'\<rparr>"
    have "obex_object_receive_body E (rput w a rx ob na) a hi src n = Some (1, rput w a rx ob' na)"
      using b(1) b'(1) n(2) False by (simp add: obex_object_receive_body_def ob'_def)
    moreover have "rx_state ob' = rx_step (rx_state ob) (hi, HBytes (take n src))"
      using False hi b'(3) d by (simp add: ob'_def rx_state_def value_bytes_def)
    moreover have "rx_ready ob' m" using ready b'(2,4,5) cap b(5-7) by (simp add: rx_ready_def ob'_def add.assoc)
    moreover have "rx_same ob ob'" by (cases ob) (simp add: rx_same_def ob'_def)
    ultimately show ?thesis using that by blast
  next
    case True
    define el where "el = \<lparr>h_buf = Some b', h_hi = OBEX_HDR_BODY, h_flags = 0,
      h_length = u32 (int (data_size b')), h_offset = 0, h_body_touched = False, h_stream = False\<rparr>"
    define ob' where "ob' = ob\<lparr>rx_headerq := rx_headerq ob @ [(na, el)], rx_body := None\<rparr>"
    have "obex_object_receive_body E (rput w a rx ob na) a hi src n = Some (1, rput w a rx ob' (Suc na))"
      using b(1) b'(1) n(2) True A by (simp add: obex_object_receive_body_def ob'_def el_def)
    moreover have "rx_state ob' = rx_step (rx_state ob) (hi, HBytes (take n src))"
      using True b'(3) d by (simp add: ob'_def rx_state_def value_bytes_def el_def rx_elem_def)
    moreover have "rx_ready ob' m"
      using ready b'(2) small by (simp add: rx_ready_def ob'_def el_def rx_elem_ok_def c_arith)
    moreover have "rx_same ob ob'" by (cases ob) (simp add: rx_same_def ob'_def)
    ultimately show ?thesis using that by blast
  qed
qed

lemma queue_header_spec:
  assumes A: "generous (env_alloc E)" and n: "n \<le> length src" "n < 65536" and ready: "rx_ready ob m"
    and hi: "hi \<noteq> OBEX_HDR_BODY" "hi \<noteq> OBEX_HDR_BODY_END" and v: "value_bytes v = take n src"
    and kind: "hi AND OBEX_HI_MASK = OBEX_INT \<longrightarrow> n = 4" "hi AND OBEX_HI_MASK = OBEX_BYTE \<longrightarrow> n = 1"
  obtains el where "receive_element (env_alloc E) hi src n = Some (Some el)"
    "rx_state (ob\<lparr>rx_headerq := rx_headerq ob @ [(na, el)]\<rparr>) = rx_step (rx_state ob) (hi, v)"
    "rx_ready (ob\<lparr>rx_headerq := rx_headerq ob @ [(na, el)]\<rparr>) m"
    "rx_same ob (ob\<lparr>rx_headerq := rx_headerq ob @ [(na, el)]\<rparr>)"
proof -
  obtain el where el: "receive_element (env_alloc E) hi src n = Some (Some el)"
    "h_hi el = hi" "h_length el = n" "rx_elem (na, el) = (hi, take n src)"
    "\<exists>b. h_buf el = Some b \<and> buf_wf b \<and> data_size b = n"
    by (rule receive_element_spec [OF A n, where hi = hi and p = na])
  have "rx_elem_ok (na, el)" using el(2,3,5) kind by (auto simp: rx_elem_ok_def)
  moreover have "rx_state (ob\<lparr>rx_headerq := rx_headerq ob @ [(na, el)]\<rparr>) = rx_step (rx_state ob) (hi, v)"
    using el(4) hi v by (simp add: rx_state_def)
  moreover have "rx_same ob (ob\<lparr>rx_headerq := rx_headerq ob @ [(na, el)]\<rparr>)"
    by (cases ob) (simp add: rx_same_def)
  ultimately show ?thesis using that el(1) ready by (simp add: rx_ready_def)
qed


lemma rd16_enc: "n < 65536 \<Longrightarrow> rd16 (be16 n ! 0) (be16 n ! 1) = n"
  using rd16_be16 [of n] by (simp add: be16_def)

lemma be16_split: "\<exists>x y. be16 n = [x, y]"
  by (simp add: be16_def)

text \<open>The decoding of a header in front of the receive buffer.\<close>

lemma receive_decode_int:
  assumes "buf_ptr (rx_msg (hnd w)) = enc_header hi (HInt l) @ tl'" "hi AND OBEX_HI_MASK = OBEX_INT"
  shows "receive_decode E w a hi = Some (Some (be32 l @ tl'), 4, 5, False, w)"
  using assms by (simp add: receive_decode_def enc_header_def)

lemma receive_decode_byte:
  assumes "buf_ptr (rx_msg (hnd w)) = enc_header hi (HByte b) @ tl'" "hi AND OBEX_HI_MASK = OBEX_BYTE"
  shows "receive_decode E w a hi = Some (Some (b # tl'), 1, 2, False, w)"
  using assms by (simp add: receive_decode_def enc_header_def)

lemma receive_decode_bytes:
  assumes "buf_ptr (rx_msg (hnd w)) = enc_header hi (HBytes d) @ tl'" "length d + 3 < 65536"
    and "hi AND OBEX_HI_MASK = OBEX_UNICODE \<or> hi AND OBEX_HI_MASK = OBEX_BYTE_STREAM"
    and "hi \<noteq> OBEX_HDR_BODY" "hi \<noteq> OBEX_HDR_BODY_END"
  shows "receive_decode E w a hi = Some (Some (d @ tl'), length d, length d + 3, False, w)"
proof -
  obtain x y where xy: "be16 (length d + 3) = [x, y]" using be16_split by blast
  have "rd16 x y = length d + 3" using rd16_enc [OF assms(2)] by (simp add: xy)
  moreover have "u32 (int (length d)) = length d" using assms(2) by (simp add: c_arith)
  ultimately show ?thesis using assms
    by (auto simp: receive_decode_def enc_header_def xy mem_read_def)
qed

lemma receive_decode_body:
  assumes "buf_ptr (rx_msg (hnd w)) = enc_header hi (HBytes d) @ tl'" "length d + 3 < 65536"
    and "hi = OBEX_HDR_BODY \<or> hi = OBEX_HDR_BODY_END" "objs w a = Some ob" "\<not> s_srv ob"
    and "obex_object_receive_body E w a hi (d @ tl') (length d) = Some (1, w')"
  shows "receive_decode E w a hi = Some (None, length d, length d + 3, False, w')"
proof -
  obtain x y where xy: "be16 (length d + 3) = [x, y]" using be16_split by blast
  have "rd16 x y = length d + 3" using rd16_enc [OF assms(2)] by (simp add: xy)
  moreover have "u32 (int (length d)) = length d" using assms(2) by (simp add: c_arith)
  moreover have "hi AND OBEX_HI_MASK = OBEX_BYTE_STREAM" using assms(3) by auto
  ultimately show ?thesis using assms
    by (auto simp: receive_decode_def enc_header_def xy mem_read_def Let_def)
qed

lemma receive_header_queue:
  assumes A: "generous (env_alloc E)" and hd: "\<exists>r. buf_ptr rx = hi # r"
    and dec: "receive_decode E (rput w a rx ob na) a hi = Some (Some src, n, hl, False, rput w a rx ob na)"
    and size: "n \<le> data_size rx" and n: "n \<le> length src" "n < 65536" and ready: "rx_ready ob m"
    and hi: "hi \<noteq> OBEX_HDR_BODY" "hi \<noteq> OBEX_HDR_BODY_END" and v: "value_bytes v = take n src"
    and kind: "hi AND OBEX_HI_MASK = OBEX_INT \<longrightarrow> n = 4" "hi AND OBEX_HI_MASK = OBEX_BYTE \<longrightarrow> n = 1"
    and len: "hi = OBEX_HDR_LENGTH \<longrightarrow> (\<exists>l r. src = be32 l @ r \<and> unat l < 1170000000)"
  obtains ob' na' where "receive_header E a (rput w a rx ob na) = Some (False, hl, rput w a rx ob' na')"
    "rx_state ob' = rx_step (rx_state ob) (hi, v)" "rx_ready ob' m" "rx_same ob ob'"
proof -
  define h' where "h' = (if hi = OBEX_HDR_LENGTH
      then s32 (int (unat (rd32 (src ! 0) (src ! 1) (src ! 2) (src ! 3)))) else hinted_body_len ob)"
  define ob1 where "ob1 = ob\<lparr>hinted_body_len := h'\<rparr>"
  have h': "0 \<le> h' \<and> h' < 1170000000"
  proof (cases "hi = OBEX_HDR_LENGTH")
    case True
    then obtain l r where l: "src = be32 l @ r" "unat l < 1170000000" using len by blast
    have "rd32 (src ! 0) (src ! 1) (src ! 2) (src ! 3) = l"
      using rd32_be32 [of l] by (simp add: l(1) be32_def Let_def)
    moreover define k where "k = unat l"
    ultimately show ?thesis using True l(2) by (simp add: h'_def c_arith flip: k_def)
  next
    case False
    then show ?thesis using ready by (simp add: h'_def rx_ready_def)
  qed
  have ready1: "rx_ready ob1 m" using ready h' by (simp add: ob1_def rx_ready_def)
  have st1: "rx_state ob1 = rx_state ob" "rx_same ob ob1"
    by (cases ob; simp add: ob1_def rx_state_def rx_same_def)+
  obtain el where el: "receive_element (env_alloc E) hi src n = Some (Some el)"
    "rx_state (ob1\<lparr>rx_headerq := rx_headerq ob1 @ [(na, el)]\<rparr>) = rx_step (rx_state ob1) (hi, v)"
    "rx_ready (ob1\<lparr>rx_headerq := rx_headerq ob1 @ [(na, el)]\<rparr>) m"
    "rx_same ob1 (ob1\<lparr>rx_headerq := rx_headerq ob1 @ [(na, el)]\<rparr>)"
    by (rule queue_header_spec [OF A n ready1 hi v kind, where na = na])
  have hint: "(if hi = OBEX_HDR_LENGTH
       then do { d \<leftarrow> mem_read src 0 4;
                 upd_obj (rput w a rx ob na) a (\<lambda>ob. ob\<lparr>hinted_body_len :=
                   s32 (int (unat (rd32 (d ! 0) (d ! 1) (d ! 2) (d ! 3))))\<rparr>) }
       else Some (rput w a rx ob na)) = Some (rput w a rx ob1 na)"
  proof (cases "hi = OBEX_HDR_LENGTH")
    case True
    then have "4 \<le> length src" using kind(1) n(1) by auto
    then show ?thesis using True by (simp add: mem_simps ob1_def h'_def)
  next
    case False
    then have "ob1 = ob" by (cases ob) (simp add: ob1_def h'_def)
    then show ?thesis using False by simp
  qed
  obtain r where r: "buf_ptr rx = hi # r" using hd by blast
  have "receive_header E a (rput w a rx ob na)
     = Some (False, hl, rput w a rx (ob1\<lparr>rx_headerq := rx_headerq ob1 @ [(na, el)]\<rparr>) (Suc na))"
    unfolding receive_header_def using r dec size hint el(1) A by (simp add: mem_read_def)
  then show ?thesis using that el st1 rx_same_trans [OF st1(2) el(4)] by simp
qed


lemma receive_header_spec:
  assumes A: "generous (env_alloc E)" and wf: "buf_wf rx" and data: "buf_bytes rx = enc_header hi v @ rest"
    and ok: "hdr_ok (hi, v)" and size: "data_size rx < 65536" and ready: "rx_ready ob (data_size rx + k)"
  obtains ob' na' where
    "receive_header E a (rput w a rx ob na) = Some (False, length (enc_header hi v), rput w a rx ob' na')"
    "rx_state ob' = rx_step (rx_state ob) (hi, v)" "rx_ready ob' (length rest + k)" "rx_same ob ob'"
proof -
  define tl' where "tl' = rest @ drop (data_size rx) (buf_ptr rx)"
  have ptr: "buf_ptr rx = enc_header hi v @ tl'"
    using buf_ptr_split [OF wf] by (simp add: data tl'_def)
  have sz: "data_size rx = length (enc_header hi v) + length rest"
    using length_buf_bytes [OF wf] data by simp
  have ready': "rx_ready ob (length rest + k)" by (rule rx_ready_less [OF ready]) (simp add: sz)
  have kind: "hdr_kind_ok hi v" using ok by (simp add: hdr_ok_def)
  define w1 where "w1 = rput w a rx ob na"
  have ptr1: "buf_ptr (rx_msg (hnd w1)) = enc_header hi v @ tl'" by (simp add: w1_def ptr)
  have hd: "\<exists>r. buf_ptr rx = hi # r" unfolding ptr by (cases v) (simp_all add: enc_header_def)
  show ?thesis
  proof (cases v)
    case (HInt l)
    have m: "hi AND OBEX_HI_MASK = OBEX_INT" using kind HInt by (simp add: hdr_kind_ok_def)
    have dec: "receive_decode E (rput w a rx ob na) a hi
        = Some (Some (be32 l @ tl'), 4, 5, False, rput w a rx ob na)"
      using receive_decode_int [OF ptr1 [unfolded HInt] m] by (simp add: w1_def)
    show ?thesis
      by (rule receive_header_queue [OF A hd dec _ _ _ ready', where v = v])
        (use sz HInt m ok that in \<open>auto simp: length_enc_header value_bytes_def hdr_ok_def\<close>)
  next
    case (HByte b)
    have m: "hi AND OBEX_HI_MASK = OBEX_BYTE" using kind HByte by (simp add: hdr_kind_ok_def)
    have dec: "receive_decode E (rput w a rx ob na) a hi
        = Some (Some (b # tl'), 1, 2, False, rput w a rx ob na)"
      using receive_decode_byte [OF ptr1 [unfolded HByte] m] by (simp add: w1_def)
    show ?thesis
      by (rule receive_header_queue [OF A hd dec _ _ _ ready', where v = v])
        (use sz HByte m that in \<open>auto simp: length_enc_header value_bytes_def\<close>)
  next
    case (HBytes d)
    have m: "hi AND OBEX_HI_MASK = OBEX_UNICODE \<or> hi AND OBEX_HI_MASK = OBEX_BYTE_STREAM"
      "length d + 3 < 65536" using kind HBytes by (simp_all add: hdr_kind_ok_def)
    have szd: "data_size rx = length d + 3 + length rest" using sz HBytes by (simp add: length_enc_header)
    show ?thesis
    proof (cases "hi = OBEX_HDR_BODY \<or> hi = OBEX_HDR_BODY_END")
      case True
      obtain ob' na' where b: "obex_object_receive_body E (rput w a rx ob na) a hi (d @ tl') (length d)
            = Some (1, rput w a rx ob' na')"
        "rx_state ob' = rx_step (rx_state ob) (hi, HBytes (take (length d) (d @ tl')))"
        "rx_ready ob' (length rest + k)" "rx_same ob ob'"
        by (rule receive_body_spec [OF A rx_ready_less [OF ready, of "length d + (length rest + k)"] _ _ _ True,
            where src = "d @ tl'" and rx = rx and w = w and a = a and na = na])
          (use szd size in auto)
      have "receive_decode E (rput w a rx ob na) a hi
          = Some (None, length d, length d + 3, False, rput w a rx ob' na')"
        by (rule receive_decode_body [OF _ m(2) True _ _ b(1)])
          (use ptr HBytes ready in \<open>auto simp: rx_ready_def\<close>)
      then have "receive_header E a (rput w a rx ob na) = Some (False, length d + 3, rput w a rx ob' na')"
        using hd szd by (auto simp: receive_header_def mem_read_def)
      then show ?thesis using that b HBytes by (simp add: length_enc_header)
    next
      case False
      have dec: "receive_decode E (rput w a rx ob na) a hi
          = Some (Some (d @ tl'), length d, length d + 3, False, rput w a rx ob na)"
        using receive_decode_bytes [OF ptr1 [unfolded HBytes] m(2,1)] False by (simp add: w1_def)
      show ?thesis
        by (rule receive_header_queue [OF A hd dec _ _ _ ready', where v = v])
          (use szd m HBytes False that in \<open>auto simp: length_enc_header value_bytes_def\<close>)
    qed
  qed
qed

section \<open>The receive loop\<close>

lemma receive_headers_spec:
  assumes A: "generous (env_alloc E)"
  shows "buf_wf rx \<Longrightarrow> buf_bytes rx = enc_headers hs \<Longrightarrow> list_all hdr_ok hs \<Longrightarrow> data_size rx < 65536
    \<Longrightarrow> rx_ready ob (data_size rx + k) \<Longrightarrow>
    \<exists>rx' ob' na'. receive_headers E a (rput w a rx ob na) = Some (1, rput w a rx' ob' na')
      \<and> buf_wf rx' \<and> buf_bytes rx' = [] \<and> rx_state ob' = foldl rx_step (rx_state ob) hs
      \<and> rx_ready ob' k \<and> rx_same ob ob'"
proof (induction hs arbitrary: rx ob na)
  case Nil
  then have "data_size rx = 0" using length_buf_bytes [of rx] by simp
  then have "receive_headers E a (rput w a rx ob na) = Some (1, rput w a rx ob na)"
    by (simp add: receive_headers.simps)
  then show ?case using Nil rx_same_refl rx_ready_less [of ob "data_size rx + k" k] by fastforce
next
  case (Cons h hs)
  obtain hi v where h: "h = (hi, v)" by fastforce
  have data: "buf_bytes rx = enc_header hi v @ enc_headers hs" using Cons.prems(2) h by simp
  obtain ob1 na1 where s:
    "receive_header E a (rput w a rx ob na) = Some (False, length (enc_header hi v), rput w a rx ob1 na1)"
    "rx_state ob1 = rx_step (rx_state ob) (hi, v)" "rx_ready ob1 (length (enc_headers hs) + k)" "rx_same ob ob1"
    by (rule receive_header_spec [OF A Cons.prems(1) data _ Cons.prems(4,5), where a = a and w = w and na = na])
      (use Cons.prems(3) h in auto)
  define rx1 where "rx1 = buf_remove_begin rx (length (enc_header hi v))"
  have rx1: "buf_wf rx1" "buf_bytes rx1 = enc_headers hs" "data_size rx1 = length (enc_headers hs)"
    using buf_remove_begin_laws [OF Cons.prems(1)] data length_buf_bytes [OF Cons.prems(1)]
    by (simp_all add: rx1_def)
  have "data_size rx \<noteq> 0" using data length_enc_header_pos [of hi v] length_buf_bytes [OF Cons.prems(1)]
    by (cases "enc_header hi v") auto
  then have step: "receive_headers E a (rput w a rx ob na) = receive_headers E a (rput w a rx1 ob1 na1)"
    using s(1) by (subst receive_headers.simps) (simp add: rx1_def)
  have "\<exists>rx' ob' na'. receive_headers E a (rput w a rx1 ob1 na1) = Some (1, rput w a rx' ob' na')
      \<and> buf_wf rx' \<and> buf_bytes rx' = [] \<and> rx_state ob' = foldl rx_step (rx_state ob1) hs
      \<and> rx_ready ob' k \<and> rx_same ob1 ob'"
    by (rule Cons.IH) (use rx1 s(3) Cons.prems(3,4) data length_buf_bytes [OF Cons.prems(1)] in auto)
  then show ?case unfolding step using s(2) rx_same_trans [OF s(4)] h by fastforce
qed

text \<open>Data in front of the headers, announced by \<open>headeroffset\<close>, is put aside.\<close>

definition rx_nonhdr :: "obex_object \<Rightarrow> byte list" where
  "rx_nonhdr ob = (case rx_nonhdr_data ob of None \<Rightarrow> [] | Some b \<Rightarrow> buf_bytes b)"

lemma receive_nonhdr_spec:
  assumes A: "generous (env_alloc E)" and wf: "buf_wf rx" and data: "buf_bytes rx = nb @ rest"
    and off: "headeroffset ob = length nb" and size: "data_size rx < 65536"
  obtains rx' nd where "receive_nonhdr E a (rput w a rx ob na)
      = Some (True, rput w a rx' (ob\<lparr>rx_nonhdr_data := nd, headeroffset := 0\<rparr>) na)"
    "buf_wf rx'" "buf_bytes rx' = rest" "data_size rx' = length rest"
    "nb \<noteq> [] \<longrightarrow> rx_nonhdr (ob\<lparr>rx_nonhdr_data := nd\<rparr>) = nb" "nb = [] \<longrightarrow> nd = rx_nonhdr_data ob"
proof (cases "nb = []")
  case True
  then have eq: "ob\<lparr>rx_nonhdr_data := rx_nonhdr_data ob, headeroffset := 0\<rparr> = ob" using off by (cases ob) simp
  show ?thesis
    by (rule that [of rx "rx_nonhdr_data ob"], unfold eq)
      (use True off wf data length_buf_bytes [OF wf] in \<open>simp_all add: receive_nonhdr_def\<close>)
next
  case False
  define n where "n = length nb"
  have le: "n \<le> data_size rx" using length_buf_bytes [OF wf] data by (simp add: n_def)
  have n: "n \<le> length (buf_ptr rx)" "take n (buf_ptr rx) = nb" "n < 65536" "n \<noteq> 0"
    using le buf_ptr_ge [OF wf] take_buf_ptr [OF wf le] data size False by (simp_all add: n_def)
  obtain b where b: "buf_new (env_alloc E) n = Some b" using buf_new_generous [OF A, of n] n by auto
  have b0: "buf_wf b" "buf_bytes b = []" "data_size b = 0" "head_avail b = 0"
    using buf_new_cases [OF b] by simp_all
  have "buf_room_end (env_alloc E) b n" using A n b0 by (simp add: buf_room_end_def)
  from buf_insert_end_laws [OF b0(1) n(1) this] obtain b' where b':
    "buf_insert_end (env_alloc E) b (buf_ptr rx) n = Some b'" "buf_bytes b' = buf_bytes b @ take n (buf_ptr rx)"
    by blast
  have rx: "buf_wf (buf_remove_begin rx n)" "buf_bytes (buf_remove_begin rx n) = rest"
    "data_size (buf_remove_begin rx n) = length rest"
    using buf_remove_begin_laws [OF wf] data length_buf_bytes [OF wf] by (simp_all add: n_def)
  show ?thesis
    by (rule that [of "buf_remove_begin rx n" "Some b'"])
      (use off False b b' b0 rx n in \<open>simp_all add: receive_nonhdr_def rx_nonhdr_def n_def\<close>)
qed

lemma obex_object_receive_spec:
  assumes A: "generous (env_alloc E)" and cur: "cur_object (hnd w) = Some a" and ob: "objs w a = Some ob"
    and off: "headeroffset ob = length nb" and wf: "buf_wf (rx_msg (hnd w))"
    and data: "buf_bytes (rx_msg (hnd w)) = [c0, c1, c2] @ nb @ enc_headers hs"
    and hs: "list_all hdr_ok hs" and size: "data_size (rx_msg (hnd w)) < 65536"
    and ready: "rx_ready ob (length (enc_headers hs) + k)"
  obtains rx' nd ob' na' where "obex_object_receive E w = Some (1, rput w a rx' ob' na')"
    "buf_wf rx'" "buf_bytes rx' = []" "rx_state ob' = foldl rx_step (rx_state ob) hs"
    "rx_ready ob' k" "rx_same (ob\<lparr>rx_nonhdr_data := nd, headeroffset := 0\<rparr>) ob'"
    "nb \<noteq> [] \<longrightarrow> rx_nonhdr ob' = nb" "nb = [] \<longrightarrow> nd = rx_nonhdr_data ob"
proof -
  define rx0 where "rx0 = buf_remove_begin (rx_msg (hnd w)) 3"
  have rx0: "buf_wf rx0" "buf_bytes rx0 = nb @ enc_headers hs" "data_size rx0 = data_size (rx_msg (hnd w)) - 3"
    using buf_remove_begin_laws [OF wf] data by (simp_all add: rx0_def)
  have w0: "set_rx w rx0 = rput w a rx0 ob (next_addr w)" using ob by (simp add: rput_def fun_upd_idem)
  have size0: "data_size rx0 < 65536" using rx0(3) size by simp
  obtain rx1 nd where n: "receive_nonhdr E a (rput w a rx0 ob (next_addr w))
      = Some (True, rput w a rx1 (ob\<lparr>rx_nonhdr_data := nd, headeroffset := 0\<rparr>) (next_addr w))"
    "buf_wf rx1" "buf_bytes rx1 = enc_headers hs" "data_size rx1 = length (enc_headers hs)"
    "nb \<noteq> [] \<longrightarrow> rx_nonhdr (ob\<lparr>rx_nonhdr_data := nd\<rparr>) = nb" "nb = [] \<longrightarrow> nd = rx_nonhdr_data ob"
    by (rule receive_nonhdr_spec [OF A rx0(1,2) off size0])
  define ob1 where "ob1 = ob\<lparr>rx_nonhdr_data := nd, headeroffset := 0\<rparr>"
  have ob1: "rx_state ob1 = rx_state ob" "rx_ready ob1 (length (enc_headers hs) + k)"
    using ready by (simp_all add: ob1_def rx_state_def rx_ready_def)
  have "length (enc_headers hs) < 65536" using size data length_buf_bytes [OF wf] by simp
  then have "\<exists>rx' ob' na'. receive_headers E a (rput w a rx1 ob1 (next_addr w)) = Some (1, rput w a rx' ob' na')
      \<and> buf_wf rx' \<and> buf_bytes rx' = [] \<and> rx_state ob' = foldl rx_step (rx_state ob1) hs
      \<and> rx_ready ob' k \<and> rx_same ob1 ob'"
    by (intro receive_headers_spec [OF A n(2,3) hs]) (use n(4) ob1 in auto)
  then obtain rx' ob' na' where r: "receive_headers E a (rput w a rx1 ob1 (next_addr w)) = Some (1, rput w a rx' ob' na')"
    "buf_wf rx'" "buf_bytes rx' = []" "rx_state ob' = foldl rx_step (rx_state ob1) hs"
    "rx_ready ob' k" "rx_same ob1 ob'" by blast
  have "rx_nonhdr ob' = rx_nonhdr ob1"
    using arg_cong [OF r(6) [unfolded rx_same_def], of rx_nonhdr_data] by (simp add: rx_nonhdr_def)
  then have "nb \<noteq> [] \<longrightarrow> rx_nonhdr ob' = nb" using n(5) by (simp add: ob1_def rx_nonhdr_def)
  moreover have "obex_object_receive E w = Some (1, rput w a rx' ob' na')"
    using cur n(1) r(1) by (simp add: obex_object_receive_def w0 flip: rx0_def ob1_def)
  ultimately show ?thesis using that r n(6) ob1 by (simp add: ob1_def)
qed

section \<open>Reading the received headers\<close>

text \<open>What the application gets for a header: code and value bytes.\<close>

definition hv_content :: "obex_headerdata \<Rightarrow> nat \<Rightarrow> byte list" where
  "hv_content hv n = (case hv of BQ4 x \<Rightarrow> be32 x | BQ1 b \<Rightarrow> [b]
     | BS p \<Rightarrow> take n (case p of None \<Rightarrow> [] | Some m \<Rightarrow> m))"

text \<open>\<open>OBEX_ObjectGetNextHeader\<close> called until it returns 0, at most \<open>n\<close> times.\<close>

fun read_headers :: "'e env \<Rightarrow> addr \<Rightarrow> nat \<Rightarrow> 'e world \<Rightarrow> ((byte \<times> byte list) list \<times> 'e world) option" where
  "read_headers E a 0 w = Some ([], w)"
| "read_headers E a (Suc n) w = do {
     (r, w) \<leftarrow> obex_object_getnextheader E w a;
     (case r of None \<Rightarrow> Some ([], w)
      | Some (hi, hv, k) \<Rightarrow> do { (hs, w) \<leftarrow> read_headers E a n w; Some ((hi, hv_content hv k) # hs, w) }) }"

lemma be16_rd16: "be16 (rd16 x y) = [x, y]"
proof -
  have "unat y < 256" "unat x < 256" by simp_all
  then have "rd16 x y div 256 mod 256 = unat x" "rd16 x y mod 256 = unat y" by (simp_all add: rd16_def)
  then have "unat (word_of_nat (rd16 x y div 256) :: byte) = unat x"
    "unat (word_of_nat (rd16 x y) :: byte) = unat y"
    by (simp_all only: unat_byte_of_nat)
  then show ?thesis by (simp add: be16_def word_unat_eq_iff)
qed

lemma rd32_inv: "be32 (rd32 a b c d) = [a, b, c, d]"
proof -
  have bounds: "unat a < 256" "unat b < 256" "unat c < 256" "unat d < 256" by simp_all
  define n where "n = unat a * 16777216 + unat b * 65536 + unat c * 256 + unat d"
  have n: "n < 4294967296" using bounds unfolding n_def by linarith
  have u: "unat (rd32 a b c d) = n"
    using n by (simp add: rd32_def n_def [symmetric] unsigned_of_nat take_bit_eq_mod)
  define m2 where "m2 = unat a * 256 + unat b"
  define m1 where "m1 = m2 * 256 + unat c"
  have "n = m1 * 256 + unat d" by (simp add: n_def m1_def m2_def)
  then have 1: "n mod 256 = unat d" "n div 256 = m1" using bounds by simp_all
  have 2: "m1 mod 256 = unat c" "m1 div 256 = m2" using bounds by (simp_all add: m1_def)
  have 3: "m2 mod 256 = unat b" "m2 div 256 = unat a" using bounds by (simp_all add: m2_def)
  have "n div 65536 = m2" "n div 16777216 = unat a"
    using 1 2 3 div_mult2_eq [of n 256 256] div_mult2_eq [of n 65536 256] by simp_all
  with 1 2 3 have "n mod 256 = unat d" "n div 256 mod 256 = unat c" "n div 65536 mod 256 = unat b"
    "n div 16777216 mod 256 = unat a" by simp_all
  then have "unat (word_of_nat n :: byte) = unat d" "unat (word_of_nat (n div 256) :: byte) = unat c"
    "unat (word_of_nat (n div 65536) :: byte) = unat b" "unat (word_of_nat (n div 16777216) :: byte) = unat a"
    by (simp_all only: unat_byte_of_nat)
  then show ?thesis unfolding be32_def u Let_def by (simp add: word_unat_eq_iff)
qed

text \<open>
  The value has the member of the union the header code announces, and its length; a text or byte
  sequence is a pointer to that many bytes at least.
\<close>

definition hv_typed :: "byte \<Rightarrow> obex_headerdata \<Rightarrow> nat \<Rightarrow> bool" where
  "hv_typed hi hv n = (case hv of
       BQ4 _ \<Rightarrow> hi AND OBEX_HI_MASK = OBEX_INT \<and> n = 4
     | BQ1 _ \<Rightarrow> hi AND OBEX_HI_MASK = OBEX_BYTE \<and> n = 1
     | BS p \<Rightarrow> (hi AND OBEX_HI_MASK = OBEX_UNICODE \<or> hi AND OBEX_HI_MASK = OBEX_BYTE_STREAM)
         \<and> (case p of None \<Rightarrow> False | Some m \<Rightarrow> n \<le> length m))"

lemma header_value_content:
  assumes "rx_elem_ok (p, h)"
  obtains hv where "header_value h = Some hv" "(h_hi h, hv_content hv (h_length h)) = rx_elem (p, h)"
    "hv_typed (h_hi h) hv (h_length h)"
proof -
  obtain b where b: "h_buf h = Some b" "buf_wf b" "data_size b = h_length h"
    "h_hi h AND OBEX_HI_MASK = OBEX_INT \<longrightarrow> data_size b = 4"
    "h_hi h AND OBEX_HI_MASK = OBEX_BYTE \<longrightarrow> data_size b = 1"
    using assms by (auto simp: rx_elem_ok_def)
  have ge: "data_size b \<le> length (buf_ptr b)" by (rule buf_ptr_ge [OF b(2)])
  have rd: "mem_read (buf_ptr b) 0 (data_size b) = Some (buf_bytes b)" "length (buf_bytes b) = data_size b"
    using ge length_buf_bytes [OF b(2)] by (simp_all add: mem_simps buf_bytes_def)
  show ?thesis
  proof (cases rule: hi_mask_cases [of "h_hi h"])
    case 1
    show ?thesis by (rule that [of "BS (Some (buf_ptr b))"])
        (use 1 b ge in \<open>auto simp: header_value_def hv_content_def rx_elem_def buf_bytes_def hv_typed_def\<close>)
  next
    case 2
    show ?thesis by (rule that [of "BS (Some (buf_ptr b))"])
        (use 2 b ge in \<open>auto simp: header_value_def hv_content_def rx_elem_def buf_bytes_def hv_typed_def\<close>)
  next
    case 3
    then have "length (buf_bytes b) = 1" using rd b by simp
    then obtain x where x: "buf_bytes b = [x]" by (auto simp: length_Suc_conv)
    have "mem_read (buf_ptr b) 0 1 = Some [x]" "h_length h = 1" using rd 3 b(3,5) x by simp_all
    then show ?thesis by (intro that [of "BQ1 x"])
        (simp_all add: header_value_def hv_content_def rx_elem_def b(1) 3 x hv_typed_def)
  next
    case 4
    then have "length (buf_bytes b) = 4" using rd b by simp
    then obtain x y z u where x: "buf_bytes b = [x, y, z, u]"
      by (auto simp: length_Suc_conv numeral_eq_Suc)
    have "mem_read (buf_ptr b) 0 4 = Some [x, y, z, u]" using rd(1) 4 b(4) x by simp
    moreover have "h_length h = 4" using 4 b(3,4) by simp
    ultimately show ?thesis by (intro that [of "BQ4 (rd32 x y z u)"])
        (simp_all add: header_value_def hv_content_def rx_elem_def b(1) 4 x rd32_inv hv_typed_def)
  qed
qed

lemma getnextheader_Cons:
  assumes "generous (env_alloc E)" and "objs w a = Some ob" and "rx_headerq ob = (p, h) # q"
    and "p \<notin> fst ` set q" and "rx_elem_ok (p, h)"
  obtains hv where "header_value h = Some hv" "(h_hi h, hv_content hv (h_length h)) = rx_elem (p, h)"
    "hv_typed (h_hi h) hv (h_length h)"
    "obex_object_getnextheader E w a = Some (Some (h_hi h, hv, h_length h),
       w\<lparr>objs := (objs w)(a := Some (ob\<lparr>rx_headerq := q, rx_headerq_rm := rx_headerq_rm ob @ [(p, h)]\<rparr>))\<rparr>)"
proof -
  obtain hv where hv: "header_value h = Some hv" "(h_hi h, hv_content hv (h_length h)) = rx_elem (p, h)"
    "hv_typed (h_hi h) hv (h_length h)"
    by (rule header_value_content [OF assms(5)])
  have "slist_remove (rx_headerq ob) p = q"
    using assms(3,4) by (force simp: slist_remove_filter filter_id_conv)
  then show ?thesis
    by (intro that [OF hv]) (use assms hv in \<open>simp add: obex_object_getnextheader_def\<close>)
qed

lemma read_headers_spec:
  assumes A: "generous (env_alloc E)"
  shows "objs w a = Some ob \<Longrightarrow> rx_headerq ob = q \<Longrightarrow> distinct (map fst q) \<Longrightarrow> \<forall>m \<in> set q. rx_elem_ok m \<Longrightarrow>
    length q \<le> n \<Longrightarrow>
    read_headers E a n w = Some (map rx_elem q,
      w\<lparr>objs := (objs w)(a := Some (ob\<lparr>rx_headerq := [], rx_headerq_rm := rx_headerq_rm ob @ q\<rparr>))\<rparr>)"
proof (induction n arbitrary: w ob q)
  case 0
  then have "ob\<lparr>rx_headerq := [], rx_headerq_rm := rx_headerq_rm ob @ q\<rparr> = ob" by (cases ob) simp
  then have eq: "w\<lparr>objs := (objs w)(a := Some (ob\<lparr>rx_headerq := [], rx_headerq_rm := rx_headerq_rm ob @ q\<rparr>))\<rparr> = w"
    using 0(1) by (simp add: fun_upd_idem)
  show ?case unfolding eq using 0 by simp
next
  case (Suc n)
  show ?case
  proof (cases q)
    case Nil
    then have "ob\<lparr>rx_headerq := [], rx_headerq_rm := rx_headerq_rm ob @ q\<rparr> = ob"
      using Suc.prems by (cases ob) simp
    then have eq: "w\<lparr>objs := (objs w)(a := Some (ob\<lparr>rx_headerq := [], rx_headerq_rm := rx_headerq_rm ob @ q\<rparr>))\<rparr> = w"
      using Suc.prems(1) by (simp add: fun_upd_idem)
    have "read_headers E a (Suc n) w = Some ([], w)"
      using Suc.prems Nil by (simp add: obex_object_getnextheader_def)
    then show ?thesis unfolding eq by (simp only: Nil list.map)
  next
    case (Cons m q')
    obtain p h where m: "m = (p, h)" by fastforce
    define ob1 where "ob1 = ob\<lparr>rx_headerq := q', rx_headerq_rm := rx_headerq_rm ob @ [(p, h)]\<rparr>"
    define w1 where "w1 = w\<lparr>objs := (objs w)(a := Some ob1)\<rparr>"
    obtain hv where hv: "(h_hi h, hv_content hv (h_length h)) = rx_elem (p, h)"
      and g: "obex_object_getnextheader E w a = Some (Some (h_hi h, hv, h_length h), w1)"
      unfolding w1_def ob1_def
      by (rule getnextheader_Cons [OF A Suc.prems(1), of p h q']) (use Suc.prems(2-4) Cons m in auto)
    have "read_headers E a n w1 = Some (map rx_elem q',
      w1\<lparr>objs := (objs w1)(a := Some (ob1\<lparr>rx_headerq := [], rx_headerq_rm := rx_headerq_rm ob1 @ q'\<rparr>))\<rparr>)"
      by (rule Suc.IH) (use Suc.prems Cons in \<open>auto simp: w1_def ob1_def\<close>)
    moreover have "w1\<lparr>objs := (objs w1)(a := X)\<rparr> = w\<lparr>objs := (objs w)(a := X)\<rparr>" for X
      by (simp add: w1_def)
    moreover have "ob1\<lparr>rx_headerq := [], rx_headerq_rm := rx_headerq_rm ob1 @ q'\<rparr>
        = ob\<lparr>rx_headerq := [], rx_headerq_rm := rx_headerq_rm ob @ q\<rparr>"
      by (simp add: ob1_def Cons m)
    ultimately have "read_headers E a n w1 = Some (map rx_elem q',
        w\<lparr>objs := (objs w)(a := Some (ob\<lparr>rx_headerq := [], rx_headerq_rm := rx_headerq_rm ob @ q\<rparr>))\<rparr>)"
      by (simp only:)
    then have "read_headers E a (Suc n) w = Some (rx_elem (p, h) # map rx_elem q',
        w\<lparr>objs := (objs w)(a := Some (ob\<lparr>rx_headerq := [], rx_headerq_rm := rx_headerq_rm ob @ q\<rparr>))\<rparr>)"
      using hv by (simp add: g)
    then show ?thesis by (simp only: Cons m list.map)
  qed
qed


section \<open>Properties\<close>

text \<open>
  C13: receiving a well-formed packet: the data in front of the headers is put aside,
  the body fragments are joined to the body received so far, a complete body and every other header
  is queued with its exact value, in order, and the receive buffer is used up.
\<close>

theorem receive_unpacks_packet:
  assumes "generous (env_alloc E)" and "cur_object (hnd w) = Some a" and "objs w a = Some ob"
    and "headeroffset ob = length nb" and "buf_wf (rx_msg (hnd w))"
    and "buf_bytes (rx_msg (hnd w)) = [c0, c1, c2] @ nb @ enc_headers hs"
    and "list_all hdr_ok hs" and "data_size (rx_msg (hnd w)) < 65536"
    and "rx_ready ob (length (enc_headers hs) + k)"
  shows "\<exists>rx' ob' na'. obex_object_receive E w = Some (1, rput w a rx' ob' na') \<and> buf_bytes rx' = []
     \<and> rx_state ob' = foldl rx_step (rx_state ob) hs \<and> rx_ready ob' k
     \<and> (nb \<noteq> [] \<longrightarrow> rx_nonhdr ob' = nb) \<and> headeroffset ob' = 0"
proof -
  obtain rx' nd ob' na' where r: "obex_object_receive E w = Some (1, rput w a rx' ob' na')"
    "buf_bytes rx' = []" "rx_state ob' = foldl rx_step (rx_state ob) hs"
    "rx_ready ob' k" "rx_same (ob\<lparr>rx_nonhdr_data := nd, headeroffset := 0\<rparr>) ob'"
    "nb \<noteq> [] \<longrightarrow> rx_nonhdr ob' = nb"
    by (rule obex_object_receive_spec [OF assms])
  have "headeroffset ob' = 0" using arg_cong [OF r(5) [unfolded rx_same_def], of headeroffset] by simp
  then show ?thesis using r by blast
qed

definition ex_rx_world :: "byte list \<Rightarrow> byte list list world" where
  "ex_rx_world d = (let w = ex_world obex_object_init in set_rx w (buf_holding d 8))"

lemma ex_rx_world_simps [simp]:
  "rx_msg (hnd (ex_rx_world d)) = buf_holding d 8" "cur_object (hnd (ex_rx_world d)) = Some 1"
  "objs (ex_rx_world d) 1 = Some obex_object_init" "objs (ex_rx_world d) (Suc 0) = Some obex_object_init"
  by (simp_all add: ex_rx_world_def ex_world_def Let_def)

lemma obex_object_init_simps [simp]:
  "headeroffset obex_object_init = 0" "rx_state obex_object_init = ([], [])"
  "rx_headerq obex_object_init = []" "rx_headerq_rm obex_object_init = []" "\<not> s_srv obex_object_init"
  "rx_ready obex_object_init n = (n < 1300000000)"
  by (simp_all add: obex_object_init_def obex_object_setrsp_def obex_object_zero_def rx_state_def rx_ready_def)

theorem receive_unpacks_packet_witness:
  "\<exists>rx' ob' na'. obex_object_receive ex_env
       (ex_rx_world [0x82, 0, 15, 0x97, 7, 0x48, 0, 5, 1, 2, 0x49, 0, 4, 3])
     = Some (1, rput (ex_rx_world [0x82, 0, 15, 0x97, 7, 0x48, 0, 5, 1, 2, 0x49, 0, 4, 3]) 1 rx' ob' na')
     \<and> rx_state ob' = ([], [(0x97, [7]), (0x48, [1, 2, 3])])"
proof -
  let ?hs = "[(0x97, HByte 7), (0x48, HBytes [1, 2]), (0x49, HBytes [3])]"
  have enc: "[0x97, 7, 0x48, 0, 5, 1, 2, 0x49, 0, 4, 3] = enc_headers ?hs"
    by (simp add: enc_headers_def enc_header_def be16_def)
  have ok: "list_all hdr_ok ?hs" by (simp add: hdr_ok_def hdr_kind_ok_def)
  have len: "length (enc_headers ?hs) = 11" unfolding enc [symmetric] by simp
  have wf: "buf_wf (buf_holding ([0x82, 0, 15] @ enc_headers ?hs) 8)"
    by (intro buf_wf_holding) (simp add: len del: enc_headers_simps)
  let ?w = "ex_rx_world ([0x82, 0, 15] @ enc_headers ?hs)"
  have "\<exists>rx' ob' na'. obex_object_receive ex_env ?w = Some (1, rput ?w 1 rx' ob' na')
     \<and> buf_bytes rx' = [] \<and> rx_state ob' = foldl rx_step (rx_state obex_object_init) ?hs \<and> rx_ready ob' 0
     \<and> (([] :: byte list) \<noteq> [] \<longrightarrow> rx_nonhdr ob' = []) \<and> headeroffset ob' = 0"
    by (rule receive_unpacks_packet [where nb = "[]" and ?c0.0 = "0x82" and ?c1.0 = 0 and ?c2.0 = 15])
      (use ok wf len in \<open>simp_all del: enc_headers_simps\<close>)
  then show ?thesis unfolding enc [symmetric] by (auto simp: value_bytes_def)
qed

text \<open>
  C28: the application reads the received headers in the order they arrived, with
  their codes and values; after the last one it is told that there are none; asking to read again
  gives all of them once more, those read earlier first.
\<close>

theorem headers_read_in_order:
  assumes "generous (env_alloc E)" and "objs w a = Some ob" and "rx_headerq ob \<noteq> []"
    and "distinct (map fst (rx_headerq_rm ob @ rx_headerq ob))"
    and "\<forall>m \<in> set (rx_headerq_rm ob @ rx_headerq ob). rx_elem_ok m"
  shows "\<exists>w1 w2 w3. read_headers E a (length (rx_headerq ob)) w = Some (map rx_elem (rx_headerq ob), w1)
     \<and> obex_object_getnextheader E w1 a = Some (None, w1)
     \<and> obex_object_reparseheaders w1 a = Some (1, w2)
     \<and> read_headers E a (length (rx_headerq_rm ob @ rx_headerq ob)) w2
         = Some (map rx_elem (rx_headerq_rm ob @ rx_headerq ob), w3)"
proof -
  define q where "q = rx_headerq ob"
  define r where "r = rx_headerq_rm ob"
  define w1 where "w1 = w\<lparr>objs := (objs w)(a := Some (ob\<lparr>rx_headerq := [], rx_headerq_rm := r @ q\<rparr>))\<rparr>"
  define ob2 where "ob2 = ob\<lparr>rx_headerq := r @ q, rx_headerq_rm := []\<rparr>"
  define w2 where "w2 = w\<lparr>objs := (objs w)(a := Some ob2)\<rparr>"
  have d: "distinct (map fst q)" "distinct (map fst (r @ q))" "\<forall>m \<in> set q. rx_elem_ok m"
    "\<forall>m \<in> set (r @ q). rx_elem_ok m"
    using assms(4,5) by (simp_all add: q_def r_def)
  have "read_headers E a (length q) w = Some (map rx_elem q, w1)"
    unfolding w1_def r_def by (rule read_headers_spec [OF assms(1,2) q_def [symmetric] d(1,3)]) simp
  moreover have "obex_object_getnextheader E w1 a = Some (None, w1)"
    by (simp add: obex_object_getnextheader_def w1_def)
  moreover have "obex_object_reparseheaders w1 a = Some (1, w2)"
    by (simp add: obex_object_reparseheaders_def w1_def w2_def ob2_def)
  moreover have "\<exists>w3. read_headers E a (length (r @ q)) w2 = Some (map rx_elem (r @ q), w3)"
    using read_headers_spec [OF assms(1), of w2 a ob2 "r @ q" "length (r @ q)"] d
    by (simp add: w2_def ob2_def)
  ultimately show ?thesis unfolding q_def r_def by blast
qed

theorem headers_read_in_order_witness:
  "\<exists>w1 w2. read_headers ex_env 1 2 (ex_world (obex_object_init\<lparr>rx_headerq :=
        [(5, ex_elem 0x42 [116, 0]), (6, ex_elem 0x97 [7])]\<rparr>))
       = Some ([(0x42, [116, 0]), (0x97, [7])], w1) \<and> obex_object_reparseheaders w1 1 = Some (1, w2)"
proof -
  let ?q = "[(5, ex_elem 0x42 [116, 0]), (6, ex_elem 0x97 [7])]"
  have wf: "buf_wf (buf_holding [116, 0] 0)" "buf_wf (buf_holding [7] 0)" by (simp_all add: buf_wf_holding)
  have "\<forall>m \<in> set ?q. rx_elem_ok m" using wf by (simp add: rx_elem_ok_def ex_elem_def)
  then show ?thesis
    using headers_read_in_order [of ex_env "ex_world (obex_object_init\<lparr>rx_headerq := ?q\<rparr>)" 1
        "obex_object_init\<lparr>rx_headerq := ?q\<rparr>"]
    by (auto simp: rx_elem_def ex_elem_def simp flip: numeral_2_eq_2)
qed

text \<open>
  C29: the application gets every received header as the member of the value union that its code
  announces: a 32-bit number, a byte, or a pointer to at least as many bytes as the length says. The
  other headers are left for the next calls.
\<close>

theorem next_header_typed:
  assumes "generous (env_alloc E)" and "objs w a = Some ob" and "rx_headerq ob = (p, h) # q"
    and "distinct (map fst (rx_headerq ob))" and "\<forall>m \<in> set (rx_headerq ob). rx_elem_ok m"
  shows "\<exists>hv w' ob'. obex_object_getnextheader E w a = Some (Some (h_hi h, hv, h_length h), w')
     \<and> hv_typed (h_hi h) hv (h_length h) \<and> objs w' a = Some ob' \<and> rx_headerq ob' = q"
proof -
  obtain hv where "hv_typed (h_hi h) hv (h_length h)" "obex_object_getnextheader E w a = Some (Some (h_hi h, hv, h_length h),
      w\<lparr>objs := (objs w)(a := Some (ob\<lparr>rx_headerq := q, rx_headerq_rm := rx_headerq_rm ob @ [(p, h)]\<rparr>))\<rparr>)"
    by (rule getnextheader_Cons [OF assms(1-3)]) (use assms(3-5) in auto)
  then show ?thesis by auto
qed

theorem next_header_typed_witness:
  "\<exists>hv w'. obex_object_getnextheader ex_env (ex_world (obex_object_init\<lparr>rx_headerq :=
        [(5, ex_elem 0xC3 [0, 0, 1, 0]), (6, ex_elem 0x97 [7])]\<rparr>)) 1 = Some (Some (0xC3, hv, 4), w')
     \<and> hv_typed 0xC3 hv 4"
proof -
  let ?q = "[(5, ex_elem 0xC3 [0, 0, 1, 0]), (6, ex_elem 0x97 [7])]"
  have wf: "buf_wf (buf_holding [0, 0, 1, 0] 0)" "buf_wf (buf_holding [7] 0)" by (simp_all add: buf_wf_holding)
  have "\<forall>m \<in> set ?q. rx_elem_ok m" using wf by (simp add: rx_elem_ok_def ex_elem_def)
  moreover have e: "h_hi (ex_elem 0xC3 [0, 0, 1, 0]) = 0xC3" "h_length (ex_elem 0xC3 [0, 0, 1, 0]) = 4"
    by (simp_all add: ex_elem_def)
  ultimately show ?thesis
    using next_header_typed [of ex_env "ex_world (obex_object_init\<lparr>rx_headerq := ?q\<rparr>)" 1
        "obex_object_init\<lparr>rx_headerq := ?q\<rparr>" 5 "ex_elem 0xC3 [0, 0, 1, 0]" "[(6, ex_elem 0x97 [7])]", unfolded e]
    by auto
qed

text \<open>A packet with one length-prefixed header, as the receive loop meets it.\<close>

lemma receive_one_header:
  assumes ob: "objs w a = Some ob" and cur: "cur_object (hnd w) = Some a" and off: "headeroffset ob = 0"
    and wf: "buf_wf (rx_msg (hnd w))"
    and data: "buf_bytes (rx_msg (hnd w)) = [c0, c1, c2] @ [hi, x, y] @ d"
  obtains rx where "obex_object_receive E w = receive_headers E a (rput w a rx ob (next_addr w))"
    "buf_wf rx" "data_size rx = length d + 3"
    "buf_ptr rx = [hi, x, y] @ d @ drop (length d + 6) (buf_ptr (rx_msg (hnd w)))"
proof -
  define rx where "rx = buf_remove_begin (rx_msg (hnd w)) 3"
  have rx: "buf_wf rx" "data_size rx = length d + 3"
    using buf_remove_begin_laws [OF wf] data length_buf_bytes [OF wf] by (simp_all add: rx_def)
  have sz: "data_size (rx_msg (hnd w)) = length d + 6" using data length_buf_bytes [OF wf] by simp
  have "buf_ptr rx = drop 3 (buf_ptr (rx_msg (hnd w)))"
    using wf sz by (simp add: rx_def buf_ptr_def buf_remove_begin_def buf_wf_def Let_def add.commute)
  also have "buf_ptr (rx_msg (hnd w)) = [c0, c1, c2] @ [hi, x, y] @ d @ drop (length d + 6) (buf_ptr (rx_msg (hnd w)))"
    using buf_ptr_split [OF wf] unfolding data sz by simp
  finally have "buf_ptr rx = [hi, x, y] @ d @ drop (length d + 6) (buf_ptr (rx_msg (hnd w)))" by simp
  moreover have "set_rx w rx = rput w a rx ob (next_addr w)" using ob by (simp add: rput_def fun_upd_idem)
  moreover have "\<not> headeroffset ob > 0" using off by simp
  ultimately show ?thesis using that [of rx] rx cur ob off
    by (simp add: obex_object_receive_def receive_nonhdr_def flip: rx_def)
qed


text \<open>
  A length-prefixed header that claims more bytes than the message has left (beyond
  its own three), or fewer than its own three, is rejected: the result is -1 and no header is queued.
\<close>

theorem receive_rejects_bad_length:
  assumes "objs w a = Some ob" and "cur_object (hnd w) = Some a" and "headeroffset ob = 0"
    and "buf_wf (rx_msg (hnd w))"
    and "buf_bytes (rx_msg (hnd w)) = [c0, c1, c2] @ [hi, x, y] @ d" and "length d < 65536"
    and "hi AND OBEX_HI_MASK = OBEX_UNICODE \<or> hi AND OBEX_HI_MASK = OBEX_BYTE_STREAM"
    and "hi \<noteq> OBEX_HDR_BODY" and "hi \<noteq> OBEX_HDR_BODY_END"
    and "rd16 x y < 3 \<or> length d + 6 < rd16 x y"
  shows "\<exists>rx. obex_object_receive E w = Some (-1, rput w a rx ob (next_addr w))"
proof -
  obtain rx where rx: "obex_object_receive E w = receive_headers E a (rput w a rx ob (next_addr w))"
    "data_size rx = length d + 3"
    "buf_ptr rx = [hi, x, y] @ d @ drop (length d + 6) (buf_ptr (rx_msg (hnd w)))"
    by (rule receive_one_header [OF assms(1-5)])
  have big: "length d + 3 < u32 (int (rd16 x y) - 3)"
  proof (cases "rd16 x y < 3")
    case True
    then have "u32 (int (rd16 x y) - 3) = nat (int (rd16 x y) - 3 + 4294967296)" by (intro u32_neg) auto
    then show ?thesis using assms(6) by linarith
  next
    case False
    then have "u32 (int (rd16 x y) - 3) = rd16 x y - 3" using rd16_less [of x y] by (simp add: c_arith)
    then show ?thesis using assms(10) False by linarith
  qed
  define l where "l = rd16 x y"
  have dec: "receive_decode E (rput w a rx ob (next_addr w)) a hi
      = Some (Some (d @ drop (length d + 6) (buf_ptr (rx_msg (hnd w)))), u32 (int l - 3), l, False,
              rput w a rx ob (next_addr w))"
    using assms(7-9) by (auto simp: receive_decode_def rx(3) mem_read_def l_def Let_def)
  have "receive_header E a (rput w a rx ob (next_addr w)) = Some (True, l, rput w a rx ob (next_addr w))"
    using rx(2,3) dec big by (simp add: receive_header_def mem_read_def l_def [symmetric])
  then show ?thesis using rx(1,2) by (subst (asm) receive_headers.simps) auto
qed

theorem receive_rejects_bad_length_witness:
  "\<exists>rx. obex_object_receive ex_env (ex_rx_world [0x82, 0, 8, 0x42, 0, 9, 65, 66])
     = Some (-1, rput (ex_rx_world [0x82, 0, 8, 0x42, 0, 9, 65, 66]) 1 rx obex_object_init
         (next_addr (ex_rx_world [0x82, 0, 8, 0x42, 0, 9, 65, 66])))"
  using receive_rejects_bad_length [of "ex_rx_world [0x82, 0, 8, 0x42, 0, 9, 65, 66]" 1 obex_object_init
      "0x82" 0 8 "0x42" 0 9 "[65, 66]" ex_env] buf_wf_holding [of "[0x82, 0, 8, 0x42, 0, 9, 65, 66]" 8]
  by (simp add: rd16_def)

text \<open>
  The check against the message counts the header without its three bytes: a header
  that claims up to three bytes more than the message has left is accepted, and its value ends
  with bytes that lie behind the message in the receive buffer.
\<close>

theorem receive_reads_beyond_message:
  assumes "generous (env_alloc E)" and "objs w a = Some ob" and "cur_object (hnd w) = Some a"
    and "headeroffset ob = 0" and "buf_wf (rx_msg (hnd w))"
    and "buf_bytes (rx_msg (hnd w)) = [c0, c1, c2] @ [hi, x, y] @ d"
    and "drop (length d + 6) (buf_ptr (rx_msg (hnd w))) = extra @ beyond"
    and "length extra = k" and "1 \<le> k" and "k \<le> 3"
    and "hi AND OBEX_HI_MASK = OBEX_UNICODE \<or> hi AND OBEX_HI_MASK = OBEX_BYTE_STREAM"
    and "hi \<noteq> OBEX_HDR_BODY" and "hi \<noteq> OBEX_HDR_BODY_END"
    and "rd16 x y = length d + 3 + k" and "rx_ready ob 0"
  shows "\<exists>rx' ob' na'. obex_object_receive E w = Some (1, rput w a rx' ob' na')
     \<and> rx_state ob' = (fst (rx_state ob), snd (rx_state ob) @ [(hi, d @ extra)])"
proof -
  obtain rx where rx: "obex_object_receive E w = receive_headers E a (rput w a rx ob (next_addr w))"
    "buf_wf rx" "data_size rx = length d + 3"
    "buf_ptr rx = [hi, x, y] @ d @ drop (length d + 6) (buf_ptr (rx_msg (hnd w)))"
    by (rule receive_one_header [OF assms(2-6)])
  have n: "length d + k < 65536" using rd16_less [of x y] assms(14) by simp
  have ptr: "buf_ptr rx = enc_header hi (HBytes (d @ extra)) @ beyond"
  proof -
    have "be16 (length (d @ extra) + 3) = [x, y]"
      using assms(8,14) rd16_less [of x y] by (simp add: be16_rd16 [symmetric] add.commute add.left_commute)
    then show ?thesis using rx(4) assms(7) by (simp add: enc_header_def)
  qed
  have dec: "receive_decode E (rput w a rx ob (next_addr w)) a hi
      = Some (Some ((d @ extra) @ beyond), length (d @ extra), length (d @ extra) + 3, False,
              rput w a rx ob (next_addr w))"
    by (rule receive_decode_bytes) (use ptr n assms(8,11-13,14) rd16_less [of x y] in auto)
  have kind: "hi AND OBEX_HI_MASK = OBEX_INT \<longrightarrow> length (d @ extra) = 4"
      "hi AND OBEX_HI_MASK = OBEX_BYTE \<longrightarrow> length (d @ extra) = 1" "hi \<noteq> OBEX_HDR_LENGTH"
    using assms(11) by auto
  obtain ob' na' where s: "receive_header E a (rput w a rx ob (next_addr w))
      = Some (False, length (d @ extra) + 3, rput w a rx ob' na')"
    "rx_state ob' = rx_step (rx_state ob) (hi, HBytes (d @ extra))"
    by (rule receive_header_queue [OF assms(1) _ dec _ _ _ assms(15,12,13), where v = "HBytes (d @ extra)"])
      (use rx ptr n assms(8,10) kind in \<open>auto simp: value_bytes_def\<close>)
  define rx' where "rx' = buf_remove_begin rx (length (d @ extra) + 3)"
  have "data_size rx' = 0" using buf_remove_begin_laws [OF rx(2)] rx(3) by (simp add: rx'_def)
  then have "receive_headers E a (rput w a rx' ob' na') = Some (1, rput w a rx' ob' na')"
    by (subst receive_headers.simps) simp
  moreover have "receive_headers E a (rput w a rx ob (next_addr w)) = receive_headers E a (rput w a rx' ob' na')"
    using rx(3) s(1) by (subst receive_headers.simps) (simp add: rx'_def)
  ultimately show ?thesis using rx(1) s(2) assms(12,13)
    by (cases "rx_state ob") (auto simp: value_bytes_def)
qed

theorem receive_reads_beyond_message_witness:
  "\<exists>rx' ob' na'. obex_object_receive ex_env (ex_rx_world [0x82, 0, 8, 0x42, 0, 7, 65, 66])
     = Some (1, rput (ex_rx_world [0x82, 0, 8, 0x42, 0, 7, 65, 66]) 1 rx' ob' na')
     \<and> rx_state ob' = ([], [(0x42, [65, 66, 0, 0])])"
proof -
  let ?w = "ex_rx_world [0x82, 0, 8, 0x42, 0, 7, 65, 66]"
  have wf: "buf_wf (rx_msg (hnd ?w))"
    using buf_wf_holding [of "[0x82, 0, 8, 0x42, 0, 7, 65, 66]" 8] by simp
  have r8: "replicate 8 (0::byte) = [0, 0] @ replicate 6 0" by (simp add: numeral_eq_Suc)
  have "\<exists>rx' ob' na'. obex_object_receive ex_env ?w = Some (1, rput ?w 1 rx' ob' na')
     \<and> rx_state ob' = (fst (rx_state obex_object_init), snd (rx_state obex_object_init) @ [(0x42, [65, 66] @ [0, 0])])"
    by (rule receive_reads_beyond_message [where d = "[65, 66]" and extra = "[0, 0]" and k = 2
          and beyond = "replicate 6 0" and ?c0.0 = "0x82" and ?c1.0 = 0 and ?c2.0 = 8 and x = 0 and y = 7, OF _ _ _ _ wf])
      (simp_all add: rd16_def r8)
  then show ?thesis by simp
qed

end
