(* ===== verification/Roundtrip.thy ===== *)
theory Roundtrip
  imports Unpacking
begin

text \<open>
  Sender and receiver together: the packets that \<open>obex_object_send\<close> hands to the transport for a
  queue of headers, given one after the other to \<open>obex_object_receive\<close>, deliver the same headers.
\<close>

section \<open>Wire items are headers\<close>

definition plain_hdr :: "byte \<times> hdr_value \<Rightarrow> bool" where
  "plain_hdr x \<longleftrightarrow> hdr_ok x \<and> fst x \<noteq> OBEX_HDR_BODY \<and> fst x \<noteq> OBEX_HDR_BODY_END"

definition wire_hdr :: "wire \<Rightarrow> byte \<times> hdr_value \<Rightarrow> bool" where
  "wire_hdr u x \<longleftrightarrow> hdr_ok x \<and> wire_bytes u = enc_header (fst x) (snd x) \<and> (case u of
       W_Plain d \<Rightarrow> fst x \<noteq> OBEX_HDR_BODY \<and> fst x \<noteq> OBEX_HDR_BODY_END
     | W_Frag d \<Rightarrow> x = (OBEX_HDR_BODY, HBytes d)
     | W_End d \<Rightarrow> x = (OBEX_HDR_BODY_END, HBytes d))"

definition is_plain_enc :: "byte list \<Rightarrow> bool" where
  "is_plain_enc d \<longleftrightarrow> (\<exists>x. plain_hdr x \<and> d = enc_header (fst x) (snd x))"

lemma is_plain_encI: "plain_hdr (hi, v) \<Longrightarrow> is_plain_enc (enc_header hi v)"
  unfolding is_plain_enc_def by force

lemma wire_hdr_exists:
  "wire_ok is_plain_enc left u \<Longrightarrow> left < 65536 \<Longrightarrow> \<exists>x. wire_hdr u x"
  by (cases u) (auto simp: wire_ok_def is_plain_enc_def wire_hdr_def plain_hdr_def wire_bytes_def
      hdr_ok_def hdr_kind_ok_def)

lemma wire_hdrs_exist:
  "\<forall>u \<in> set ws. wire_ok is_plain_enc left u \<Longrightarrow> left < 65536 \<Longrightarrow> \<exists>hs. list_all2 wire_hdr ws hs"
proof (induction ws)
  case (Cons u ws)
  then obtain x hs where "wire_hdr u x" "list_all2 wire_hdr ws hs" using wire_hdr_exists by fastforce
  then show ?case by (intro exI [of _ "x # hs"]) simp
qed (simp add: exI [of _ "[]"])

lemma wire_hdrs_bytes: "list_all2 wire_hdr ws hs \<Longrightarrow> wires_bytes ws = enc_headers hs \<and> list_all hdr_ok hs"
  by (induction rule: list_all2_induct) (auto simp: wire_hdr_def enc_headers_def)

text \<open>A header as the application reads it, from its encoding.\<close>

definition content_hdr :: "content \<Rightarrow> byte \<times> byte list" where
  "content_hdr c = (case c of C_Body d \<Rightarrow> (OBEX_HDR_BODY, d)
     | C_Header d \<Rightarrow> (hd d, if hd d AND OBEX_HI_MASK = OBEX_INT \<or> hd d AND OBEX_HI_MASK = OBEX_BYTE
                            then tl d else drop 3 d))"

lemma content_hdr_enc:
  "hdr_kind_ok hi v \<Longrightarrow> content_hdr (C_Header (enc_header hi v)) = (hi, value_bytes v)"
  by (cases v) (auto simp: content_hdr_def enc_header_def value_bytes_def hdr_kind_ok_def)

lemma absorb_rx_step:
  assumes "wire_hdr u x"
  shows "rx_step (acc, map content_hdr out) x =
     (fst (absorb (acc, out) u), map content_hdr (snd (absorb (acc, out) u)))"
proof (cases u)
  case (W_Plain d)
  obtain hi v where x: "x = (hi, v)" by fastforce
  have "d = enc_header hi v" "hdr_kind_ok hi v" "hi \<noteq> OBEX_HDR_BODY" "hi \<noteq> OBEX_HDR_BODY_END"
    using assms W_Plain x by (simp_all add: wire_hdr_def wire_bytes_def hdr_ok_def)
  then show ?thesis using W_Plain x content_hdr_enc [of hi v] by simp
qed (use assms in \<open>auto simp: wire_hdr_def value_bytes_def content_hdr_def\<close>)

lemma absorb_rx_steps:
  "list_all2 wire_hdr ws hs \<Longrightarrow> foldl rx_step (acc, map content_hdr out) hs =
     (fst (foldl absorb (acc, out) ws), map content_hdr (snd (foldl absorb (acc, out) ws)))"
proof (induction arbitrary: acc out rule: list_all2_induct)
  case (Cons u ws x hs)
  obtain acc' out' where a: "absorb (acc, out) u = (acc', out')" by fastforce
  show ?case using absorb_rx_step [OF Cons.hyps(1), of acc out] Cons.IH [of acc' out'] a by simp
qed simp

section \<open>Receiving a sequence of packets\<close>

fun receive_run :: "'e env \<Rightarrow> byte list list \<Rightarrow> 'e world \<Rightarrow> 'e world option" where
  "receive_run E [] w = Some w"
| "receive_run E (p # ps) w = do {
     (r, w) \<leftarrow> obex_object_receive E (set_rx w (buf_holding p 0));
     (if r < 0 then None else receive_run E ps w) }"

lemma receive_run_spec:
  assumes A: "generous (env_alloc E)"
  shows "list_all2 (\<lambda>p hs. \<exists>c. p = packet c (enc_headers hs) \<and> list_all hdr_ok hs \<and> length (enc_headers hs) < 65533)
      ps hss \<Longrightarrow> cur_object (hnd w) = Some a \<Longrightarrow> objs w a = Some ob \<Longrightarrow> headeroffset ob = 0 \<Longrightarrow>
    rx_ready ob (sum_list (map length ps)) \<Longrightarrow>
    \<exists>w' ob'. receive_run E ps w = Some w' \<and> objs w' a = Some ob'
      \<and> rx_state ob' = foldl rx_step (rx_state ob) (concat hss)"
proof (induction arbitrary: w ob rule: list_all2_induct)
  case (Cons p ps hs hss)
  obtain c where p: "p = packet c (enc_headers hs)" "list_all hdr_ok hs" "length (enc_headers hs) < 65533"
    using Cons.hyps(1) by blast
  define w0 where "w0 = set_rx w (buf_holding p 0)"
  obtain x y where xy: "be16 (length (enc_headers hs) + 3) = [x, y]" using be16_split by blast
  have len: "length p = length (enc_headers hs) + 3" by (simp add: p)
  have w0: "cur_object (hnd w0) = Some a" "objs w0 a = Some ob" "buf_wf (rx_msg (hnd w0))"
    "buf_bytes (rx_msg (hnd w0)) = [c, x, y] @ [] @ enc_headers hs" "data_size (rx_msg (hnd w0)) < 65536"
    using Cons.prems p(3) xy len by (simp_all add: w0_def buf_wf_holding) (simp add: p(1) packet_def)
  have ready: "rx_ready ob (length (enc_headers hs) + sum_list (map length ps))"
    by (rule rx_ready_less [OF Cons.prems(4)]) (simp add: len)
  have off: "headeroffset ob = length ([] :: byte list)" using Cons.prems(3) by simp
  obtain rx' nd ob' na' where r: "obex_object_receive E w0 = Some (1, rput w0 a rx' ob' na')"
    "rx_state ob' = foldl rx_step (rx_state ob) hs" "rx_ready ob' (sum_list (map length ps))"
    "rx_same (ob\<lparr>rx_nonhdr_data := nd, headeroffset := 0\<rparr>) ob'"
    by (rule obex_object_receive_spec [OF A w0(1,2) off w0(3,4) p(2) w0(5) ready])
  have "headeroffset ob' = 0" using arg_cong [OF r(4) [unfolded rx_same_def], of headeroffset] by simp
  then have "\<exists>w' ob2. receive_run E ps (rput w0 a rx' ob' na') = Some w' \<and> objs w' a = Some ob2
      \<and> rx_state ob2 = foldl rx_step (rx_state ob') (concat hss)"
    by (intro Cons.IH) (use r(3) w0(1) in simp_all)
  then show ?case using r by (simp add: w0_def)
qed simp

lemma packets_list_all2:
  "list_all2 (\<lambda>p d. \<exists>c. p = packet c d) (packets c l d ds) (d # ds)"
  by (induction c l d ds rule: packets.induct) auto

section \<open>Round trip\<close>

lemma list_all2_choice: "\<forall>x \<in> set xs. \<exists>y. P x y \<Longrightarrow> \<exists>ys. list_all2 P xs ys"
  by (induction xs) (auto simp: list_all2_Cons1)

lemma list_all2_map_eq: "list_all2 P xs ys \<Longrightarrow> (\<And>x y. P x y \<Longrightarrow> f x = g y) \<Longrightarrow> map f xs = map g ys"
  by (induction rule: list_all2_induct) auto

lemma list_all2_concat: "list_all2 (list_all2 P) xs ys \<Longrightarrow> list_all2 P (concat xs) (concat ys)"
  by (induction rule: list_all2_induct) (auto intro: list_all2_appendI)

text \<open>The queue that adding a list of headers builds.\<close>

definition hdr_item :: "byte \<times> hdr_value \<Rightarrow> tx_item \<times> bool" where
  "hdr_item x = ((if fst x = OBEX_HDR_BODY then TX_Body (value_bytes (snd x))
                  else TX_Plain (enc_header (fst x) (snd x))), False)"

lemma contents_hdr_items:
  "list_all (\<lambda>x. fst x = OBEX_HDR_BODY \<or> plain_hdr x) xs \<Longrightarrow>
   map content_hdr (contents [] (map hdr_item xs)) = map (\<lambda>x. (fst x, value_bytes (snd x))) xs"
proof (induction xs)
  case (Cons x xs)
  then show ?case
  proof (cases "fst x = OBEX_HDR_BODY")
    case True
    then show ?thesis using Cons by (simp add: hdr_item_def content_hdr_def)
  next
    case False
    then have "hdr_kind_ok (fst x) (snd x)" using Cons.prems by (simp add: plain_hdr_def hdr_ok_def)
    then show ?thesis using Cons False content_hdr_enc [of "fst x" "snd x"] by (simp add: hdr_item_def)
  qed
qed simp




end
