(* ===== verification/Streaming.thy ===== *)
theory Streaming
  imports Packing
begin

text \<open>
  Streamed bodies: the packing loop asks the application for data when it has none. What the loop
  relies on is an interface, the locale \<open>stream_source\<close>; under it a fragment holds the next bytes of
  what the application has to send, and it is marked as the last one when there is no more.
\<close>

section \<open>Appending without moving the buffer\<close>

definition appended :: "databuffer \<Rightarrow> databuffer \<Rightarrow> byte list \<Rightarrow> bool" where
  "appended tx tx' d \<longleftrightarrow> buf_wf tx' \<and> buf_bytes tx' = buf_bytes tx @ d \<and> data_size tx' = data_size tx + length d
     \<and> head_avail tx' = head_avail tx \<and> bf_gen tx' = bf_gen tx \<and> buf_free_end tx' = buf_free_end tx - length d"

lemma appended_refl: "buf_wf tx \<Longrightarrow> appended tx tx []"
  by (simp add: appended_def)

lemma appended_trans: "appended tx tx1 d \<Longrightarrow> appended tx1 tx2 e \<Longrightarrow> appended tx tx2 (d @ e)"
  by (auto simp: appended_def)

lemma insert_appended:
  assumes "buf_wf tx" and "n \<le> length src" and "n \<le> buf_free_end tx"
  obtains tx' where "buf_insert_end A tx src n = Some tx'" "appended tx tx' (take n src)"
proof -
  obtain tx' where "buf_insert_end A tx src n = Some tx'" "buf_wf tx'"
    "buf_bytes tx' = buf_bytes tx @ take n src" "data_size tx' = data_size tx + n"
    "head_avail tx' = head_avail tx" "bf_gen tx' = bf_gen tx \<and> buf_free_end tx' = buf_free_end tx - n"
    by (rule buf_insert_end_laws [OF assms(1,2) buf_room_fits [OF assms(1,3)]]) (use assms(3) in blast)
  then show ?thesis using that assms(2) by (simp add: appended_def)
qed

section \<open>Where the data comes from\<close>

text \<open>
  The application, seen from the library: \<open>pending e\<close> is what it still has to send. Asked for data it
  hands over a buffer whose first bytes are the next ones, or says that there is no more. \<open>serves h\<close> is what
  it needs of the handle: the object \<open>a\<close> is the current one, and sending does not disturb it.
\<close>

definition given :: "'e world \<Rightarrow> addr \<Rightarrow> obex_object \<Rightarrow> 'e \<Rightarrow> 'e world" where
  "given w a ob e = w\<lparr>objs := (objs w)(a := Some ob), ext := e\<rparr>"

locale stream_source =
  fixes E :: "'e env" and a :: addr and serves :: "obex \<Rightarrow> bool" and good :: "'e \<Rightarrow> bool" and pending :: "'e \<Rightarrow> byte list"
  assumes serves_cur: "serves h \<Longrightarrow> cur_object h = Some a"
    and serves_tx: "serves h \<Longrightarrow> serves (h\<lparr>tx_msg := tx\<rparr>)"
    and more: "good (ext w) \<Longrightarrow> pending (ext w) \<noteq> [] \<Longrightarrow> serves (hnd w) \<Longrightarrow> objs w a = Some ob \<Longrightarrow>
      \<exists>d r e. d \<noteq> [] \<and> length d < 65536 \<and> pending (ext w) = d @ pending e \<and> good e
        \<and> obex_deliver_event E w OBEX_EV_STREAMEMPTY 0 0 False
            = Some (given w a (ob\<lparr>s_buf := Some (d @ r), s_len := length d\<rparr>) e)"
    and no_more: "good (ext w) \<Longrightarrow> pending (ext w) = [] \<Longrightarrow> serves (hnd w) \<Longrightarrow> objs w a = Some ob \<Longrightarrow>
      \<exists>bs e. pending e = [] \<and> obex_deliver_event E w OBEX_EV_STREAMEMPTY 0 0 False
            = Some (given w a (ob\<lparr>s_stop := True, s_buf := bs, s_len := 0\<rparr>) e)"

text \<open>What an object still has to send: the rest of the buffer it was given, then what is pending.\<close>

definition unsent :: "('e \<Rightarrow> byte list) \<Rightarrow> obex_object \<Rightarrow> 'e \<Rightarrow> byte list" where
  "unsent pending ob e = take (s_len ob) (stream_ptr ob) @ pending e"

definition stream_ok :: "obex_object \<Rightarrow> bool" where
  "stream_ok ob \<longleftrightarrow> \<not> s_stop ob \<and> \<not> suspend ob \<and> s_len ob \<le> length (stream_ptr ob)
     \<and> s_offset ob + s_len ob < 65536"

text \<open>The objects differ in the state of the stream only.\<close>

definition same_but_stream :: "obex_object \<Rightarrow> obex_object \<Rightarrow> bool" where
  "same_but_stream ob ob' \<longleftrightarrow>
     ob' = ob\<lparr>s_stop := s_stop ob', s_buf := s_buf ob', s_len := s_len ob', s_offset := s_offset ob'\<rparr>"

lemma same_but_stream_queue: "same_but_stream ob ob' \<Longrightarrow> tx_headerq ob' = tx_headerq ob"
  unfolding same_but_stream_def by (drule arg_cong [where f = tx_headerq]) simp

lemma same_but_stream_trans:
  "same_but_stream ob ob1 \<Longrightarrow> same_but_stream ob1 ob2 \<Longrightarrow> same_but_stream ob ob2"
  unfolding same_but_stream_def by (cases ob; cases ob1; cases ob2) simp

definition sput :: "'e world \<Rightarrow> addr \<Rightarrow> databuffer \<Rightarrow> obex_object \<Rightarrow> 'e \<Rightarrow> 'e world" where
  "sput w a tx ob e = w\<lparr>hnd := (hnd w)\<lparr>tx_msg := tx\<rparr>, objs := (objs w)(a := Some ob), ext := e\<rparr>"

lemma sput_simps [simp]:
  "tx_msg (hnd (sput w a tx ob e)) = tx" "cur_object (hnd (sput w a tx ob e)) = cur_object (hnd w)"
  "objs (sput w a tx ob e) a = Some ob" "ext (sput w a tx ob e) = e"
  "sput (sput w a tx ob e) a tx' ob' e' = sput w a tx' ob' e'"
  "given (sput w a tx ob e) a ob' e' = sput w a tx ob' e'"
  "set_tx (sput w a tx ob e) tx' = sput w a tx' ob e"
  "upd_obj (sput w a tx ob e) a f = Some (sput w a tx (f ob) e)"
  by (simp_all add: sput_def given_def upd_obj_def)

text \<open>Writing through the pointer that was taken before the loop.\<close>

definition same_shape :: "databuffer \<Rightarrow> databuffer \<Rightarrow> bool" where
  "same_shape b b' \<longleftrightarrow> buf_wf b' \<and> head_avail b' = head_avail b \<and> data_size b' = data_size b
     \<and> bf_gen b' = bf_gen b \<and> buf_free_end b' = buf_free_end b"

lemma tx_store_in_place:
  assumes "buf_wf b" and "buf_bytes b = xs @ ys @ zs" and "length d = length ys"
    and "off + j = head_avail b + length xs"
  obtains b' where "\<And>w ob e. tx_store_at (sput w a b ob e) (bf_gen b, Some off) j d = Some (sput w a b' ob e)"
    "buf_bytes b' = xs @ d @ zs" "same_shape b b'"
proof -
  have len: "data_size b = length xs + length ys + length zs"
    using assms(2) length_buf_bytes [OF assms(1)] by simp
  obtain b' where b': "buf_store b (Some (head_avail b + length xs)) d = Some b'" "buf_wf b'"
    "head_avail b' = head_avail b" "data_size b' = data_size b" "tail_avail b' = tail_avail b"
    "data_avail b' = data_avail b" "bf_gen b' = bf_gen b"
    "buf_bytes b' = take (head_avail b + length xs - head_avail b) (buf_bytes b) @ d
        @ drop (head_avail b + length xs - head_avail b + length d) (buf_bytes b)"
    by (rule buf_store_laws [OF assms(1), of "head_avail b + length xs" d]) (use len assms(3) in auto)
  have "buf_bytes b' = xs @ d @ zs" unfolding b'(8) assms(2) by (simp add: assms(3))
  then show ?thesis using that b' assms(4)
    by (simp add: tx_store_at_def same_shape_def buf_free_end_def add.commute)
qed

lemma reserve_in_place:
  assumes wf: "buf_wf p" and room: "n \<le> buf_free_end p"
  obtains p' zs where "buf_reserve_end A p n = Some (Some (head_avail p + data_size p), p')" "buf_wf p'"
    "buf_bytes p' = buf_bytes p @ zs" "length zs = n" "head_avail p' = head_avail p" "data_size p' = data_size p + n"
    "bf_gen p' = bf_gen p" "buf_free_end p' = buf_free_end p - n"
proof -
  obtain p' where p': "buf_reserve_end A p n = Some (Some (head_avail p + data_size p), p')" "buf_wf p'"
    "head_avail p' = head_avail p" "data_size p' = data_size p + n" "take (data_size p) (buf_bytes p') = buf_bytes p"
    "buf_cap p' = max (buf_cap p) (head_avail p + data_size p + n)" "bf_gen p' = bf_gen p"
    by (rule buf_reserve_end_laws [OF wf buf_room_fits [OF wf room]]) (use room in \<open>auto simp: buf_free_end_def\<close>)
  have "buf_bytes p' = buf_bytes p @ drop (data_size p) (buf_bytes p')"
    using p'(5) append_take_drop_id by metis
  moreover have "length (drop (data_size p) (buf_bytes p')) = n" using length_buf_bytes [OF p'(2)] p'(4) by simp
  moreover have "buf_free_end p' = buf_free_end p - n"
    using p'(2-4,6) wf room by (simp add: buf_wf_def buf_free_end_def buf_cap_def max_def split: if_splits)
  ultimately show ?thesis using that p' by blast
qed

section \<open>A stream in several packets\<close>

text \<open>
  The specification: the data in pieces of \<open>m\<close> bytes, a last piece of less than that (possibly none)
  with the code for the end.
\<close>

function body_frames :: "nat \<Rightarrow> byte list \<Rightarrow> (byte \<times> byte list) list" where
  "body_frames m U = (if m = 0 \<or> length U < m then [(OBEX_HDR_BODY_END, U)]
     else (OBEX_HDR_BODY, take m U) # body_frames m (drop m U))"
  by pat_completeness auto
termination by (relation "measure (\<lambda>(m, U). length U)") auto

declare body_frames.simps [simp del]

definition frame_bytes :: "byte \<times> byte list \<Rightarrow> byte list" where
  "frame_bytes f = fst f # be16 (length (snd f) + 3) @ snd f"

lemma body_frames_whole: "concat (map snd (body_frames m U)) = U"
  by (induction m U rule: body_frames.induct) (subst body_frames.simps, auto)

text \<open>
  Sending the stream at the head of the queue, each fragment into an emptied transmit buffer, until
  the application has signalled the end; at most \<open>k\<close> times.
\<close>

fun stream_packets ::
    "'e env \<Rightarrow> addr \<Rightarrow> addr \<Rightarrow> nat \<Rightarrow> databuffer \<Rightarrow> nat \<Rightarrow> 'e world \<Rightarrow> (byte list list \<times> 'e world) option" where
  "stream_packets E a p n tx 0 w = Some ([], w)"
| "stream_packets E a p n tx (Suc k) w = do {
     (r, w) \<leftarrow> send_stream E p n (set_tx w tx);
     (let d = buf_bytes (tx_msg (hnd w)) in do {
        ob \<leftarrow> objs w a;
        (if s_stop ob then Some ([d], w)
         else do { (ds, w) \<leftarrow> stream_packets E a p n tx k w; Some (d # ds, w) }) }) }"

context stream_source
begin

lemma serves_sput: "serves (hnd w) \<Longrightarrow> serves (hnd (sput w a tx ob e))"
  by (simp add: sput_def serves_tx)

text \<open>Refilling: there is data to send, or the stream has ended.\<close>

lemma refill:
  assumes cur: "serves (hnd w)" and ok: "stream_ok ob" and good: "good e"
  obtains (data) ob' e' where "stream_refill E a (sput w a tx ob e) = Some (StreamMore, sput w a tx ob' e')"
      "stream_ok ob'" "good e'" "0 < s_len ob'" "unsent pending ob' e' = unsent pending ob e" "same_but_stream ob ob'"
  | (ended) ob' e' where "stream_refill E a (sput w a tx ob e) = Some (StreamBreak, sput w a tx ob' e')"
      "unsent pending ob e = []" "unsent pending ob' e' = []" "s_stop ob'" "s_len ob' = 0" "same_but_stream ob ob'"
proof (cases "s_len ob = 0")
  case False
  then show ?thesis using ok good
    by (intro data [of ob e]) (auto simp: stream_refill_def same_but_stream_def)
next
  case True
  define ob1 where "ob1 = ob\<lparr>s_offset := 0, s_buf := None\<rparr>"
  define w1 where "w1 = sput w a tx ob1 e"
  have w1: "serves (hnd w1)" "objs w1 a = Some ob1" "ext w1 = e" using serves_sput [OF cur] by (simp_all add: w1_def)
  have ns: "\<not> s_stop ob1" "\<not> suspend ob1" using ok by (simp_all add: ob1_def stream_ok_def)
  show ?thesis
  proof (cases "pending e = []")
    case False
    then obtain d r e' where d: "d \<noteq> []" "length d < 65536" "pending e = d @ pending e'" "good e'"
      "obex_deliver_event E w1 OBEX_EV_STREAMEMPTY 0 0 False = Some (given w1 a (ob1\<lparr>s_buf := Some (d @ r), s_len := length d\<rparr>) e')"
      using more [of w1 ob1] good w1 by auto
    show ?thesis
      by (rule data [of "ob1\<lparr>s_buf := Some (d @ r), s_len := length d\<rparr>" e'])
         (use d ns True in \<open>auto simp: stream_refill_def w1_def ob1_def stream_ok_def stream_ptr_def unsent_def
            same_but_stream_def\<close>)
  next
    case True
    then obtain bs e' where d: "pending e' = []"
      "obex_deliver_event E w1 OBEX_EV_STREAMEMPTY 0 0 False = Some (given w1 a (ob1\<lparr>s_stop := True, s_buf := bs, s_len := 0\<rparr>) e')"
      using no_more [of w1 ob1] good w1 by auto
    show ?thesis
      by (rule ended [of "ob1\<lparr>s_stop := True, s_buf := bs, s_len := 0\<rparr>" e'])
         (use d ns True \<open>s_len ob = 0\<close> in \<open>auto simp: stream_refill_def w1_def ob1_def unsent_def same_but_stream_def\<close>)
  qed
qed

text \<open>One fragment: as much as fits of what is to be sent, and the end of the stream when less than that is left.\<close>

lemma send_stream_loop_delivers:
  assumes A: "generous (env_alloc E)" and cur: "serves (hnd w)"
  shows "stream_ok ob \<Longrightarrow> good e \<Longrightarrow> buf_wf tx \<Longrightarrow> 0 < n \<Longrightarrow> n \<le> buf_free_end tx \<Longrightarrow> n < 65536 \<Longrightarrow>
    0 \<le> actual \<Longrightarrow> actual + int n < 2147483648 \<Longrightarrow>
    \<exists>tx' ob' e'. send_stream_loop E a n actual (sput w a tx ob e)
        = Some (Some (actual + int (min n (length (unsent pending ob e)))), sput w a tx' ob' e')
      \<and> appended tx tx' (take n (unsent pending ob e))
      \<and> unsent pending ob' e' = drop n (unsent pending ob e)
      \<and> same_but_stream ob ob'
      \<and> (if length (unsent pending ob e) < n then s_stop ob' \<and> s_len ob' = 0 else stream_ok ob' \<and> good e')"
proof (induction n arbitrary: ob e tx actual rule: less_induct)
  case (less n)
  show ?case
  proof (rule refill [OF cur less.prems(1,2), of tx], goal_cases data ended)
    case (ended ob' e')
    then show ?thesis using less.prems
      by (subst send_stream_loop.simps) (auto intro!: exI [of _ tx] appended_refl)
  next
    case (data ob1 e1)
    let ?U = "unsent pending ob e"
    have U: "?U = take (s_len ob1) (stream_ptr ob1) @ pending e1" using data(5) by (simp add: unsent_def)
    have ok1: "s_len ob1 \<le> length (stream_ptr ob1)" "\<not> suspend ob1" "\<not> s_stop ob1" "s_offset ob1 + s_len ob1 < 65536"
      using data(2) by (simp_all add: stream_ok_def)
    have ptr: "stream_ptr (ob1\<lparr>s_offset := s_offset ob1 + k, s_len := l\<rparr>) = drop k (stream_ptr ob1)"
      "stream_ptr (ob1\<lparr>s_len := l, s_offset := s_offset ob1 + k\<rparr>) = drop k (stream_ptr ob1)" for k l
      by (simp_all add: stream_ptr_def add.commute split: option.splits)
    show ?thesis
    proof (cases "n < s_len ob1")
      case True
      obtain tx1 where tx1: "buf_insert_end (env_alloc E) tx (stream_ptr ob1) n = Some tx1"
        "appended tx tx1 (take n (stream_ptr ob1))"
        by (rule insert_appended [OF less.prems(3) _ less.prems(5)]) (use True ok1 in auto)
      define ob2 where "ob2 = ob1\<lparr>s_len := s_len ob1 - n, s_offset := s_offset ob1 + n\<rparr>"
      have U2: "unsent pending ob2 e1 = drop n ?U" "take n ?U = take n (stream_ptr ob1)" "n \<le> length ?U"
        using True ok1(1) unfolding U by (simp_all add: unsent_def ob2_def ptr drop_take)
      have "stream_ok ob2" using data(2) True by (simp add: stream_ok_def ob2_def ptr diff_le_mono)
      moreover have "same_but_stream ob ob2"
        using data(6) by (rule same_but_stream_trans) (simp add: same_but_stream_def ob2_def)
      moreover have "send_stream_loop E a n actual (sput w a tx ob e) = Some (Some (actual + int n), sput w a tx1 ob2 e1)"
        using True data(1) tx1(1) ok1(4) less.prems(6,7,8)
        by (subst send_stream_loop.simps) (simp add: tx_insert_end_def u32_id s32_id ob2_def nat_int_add)
      ultimately show ?thesis using tx1(2) U2 data(3)
        by (intro exI [of _ tx1] exI [of _ ob2] exI [of _ e1]) (simp add: min_def)
    next
      case False
      define k where "k = s_len ob1"
      obtain tx1 where tx1: "buf_insert_end (env_alloc E) tx (stream_ptr ob1) k = Some tx1"
        "appended tx tx1 (take k (stream_ptr ob1))"
        by (rule insert_appended [OF less.prems(3), of k]) (use False ok1 less.prems(5) in \<open>auto simp: k_def\<close>)
      define ob2 where "ob2 = ob1\<lparr>s_offset := s_offset ob1 + k, s_len := 0\<rparr>"
      have U2: "?U = take k (stream_ptr ob1) @ unsent pending ob2 e1" "length (take k (stream_ptr ob1)) = k"
        using ok1(1) unfolding U by (simp_all add: unsent_def ob2_def k_def)
      have ok2: "stream_ok ob2" using data(2) by (simp add: stream_ok_def ob2_def ptr k_def)
      have same: "same_but_stream ob ob2"
        using data(6) by (rule same_but_stream_trans) (simp add: same_but_stream_def ob2_def)
      have step: "send_stream_loop E a n actual (sput w a tx ob e) =
          (if 0 < n - k then send_stream_loop E a (n - k) (actual + int k) (sput w a tx1 ob2 e1)
           else Some (Some (actual + int k), sput w a tx1 ob2 e1))"
        using False data(1) tx1(1) ok1 less.prems(6,7,8)
        by (subst send_stream_loop.simps) (simp add: tx_insert_end_def u32_id s32_id ob2_def k_def nat_int_add)
      show ?thesis
      proof (cases "n = k")
        case True
        then show ?thesis using step tx1(2) U2 ok2 same data(3)
          by (intro exI [of _ tx1] exI [of _ ob2] exI [of _ e1]) simp
      next
        case ne: False
        have k: "0 < k" "k < n" using data(4) False ne by (simp_all add: k_def)
        have app1: "buf_wf tx1" "n - k \<le> buf_free_end tx1"
          using tx1(2) U2(2) less.prems(5) by (simp_all add: appended_def)
        obtain tx' ob' e' where ih: "send_stream_loop E a (n - k) (actual + int k) (sput w a tx1 ob2 e1)
            = Some (Some (actual + int k + int (min (n - k) (length (unsent pending ob2 e1)))), sput w a tx' ob' e')"
          "appended tx1 tx' (take (n - k) (unsent pending ob2 e1))"
          "unsent pending ob' e' = drop (n - k) (unsent pending ob2 e1)" "same_but_stream ob2 ob'"
          "if length (unsent pending ob2 e1) < n - k then s_stop ob' \<and> s_len ob' = 0 else stream_ok ob' \<and> good e'"
        proof -
          have "n - k < n" "0 < n - k" "n - k < 65536" "0 \<le> actual + int k" "actual + int k + int (n - k) < 2147483648"
            using k less.prems(6,7,8) by (simp_all add: of_nat_diff)
          from less.IH [OF this(1) ok2 data(3) app1(1) this(2) app1(2) this(3-5)] show ?thesis
            using that by blast
        qed
        have "appended tx tx' (take n ?U)"
          using appended_trans [OF tx1(2) ih(2)] U2 k by (simp add: take_append)
        moreover have "unsent pending ob' e' = drop n ?U" using ih(3) U2 k by simp
        moreover have "actual + int k + int (min (n - k) (length (unsent pending ob2 e1))) = actual + int (min n (length ?U))"
        proof -
          have "k + min (n - k) (length (unsent pending ob2 e1)) = min n (length ?U)"
            unfolding U2(1) length_append U2(2) using k by arith
          then show ?thesis by (simp flip: of_nat_add add.assoc)
        qed
        moreover have "(length ?U < n) = (length (unsent pending ob2 e1) < n - k)" using U2 k by auto
        ultimately show ?thesis using step ih(1,5) k same_but_stream_trans [OF same ih(4)]
          by (intro exI [of _ tx'] exI [of _ ob'] exI [of _ e']) simp
      qed
    qed
  qed
qed

text \<open>The fragment as a header of its own in the packet.\<close>

lemma send_stream_delivers:
  assumes A: "generous (env_alloc E)" and cur: "serves (hnd w)" and tx: "tx_msg (hnd w) = tx"
    and ob: "objs w a = Some ob" and ok: "stream_ok ob" "good (ext w)" and wf: "buf_wf tx"
    and n: "3 < n" "n \<le> buf_free_end tx" "n < 65536"
  shows "\<exists>tx' ob' e'. let U = unsent pending ob (ext w); last = length U < n - 3 in
      send_stream E p n w = Some (int (min n (length U + 3)), sput w a tx' ob' e')
      \<and> buf_wf tx' \<and> buf_bytes tx' = buf_bytes tx
          @ [if last then OBEX_HDR_BODY_END else OBEX_HDR_BODY] @ be16 (min n (length U + 3)) @ take (n - 3) U
      \<and> unsent pending ob' e' = drop (n - 3) U
      \<and> tx_headerq ob' = (if last then slist_remove (tx_headerq ob) p else tx_headerq ob)
      \<and> (if last then s_stop ob' \<and> s_len ob' = 0 else stream_ok ob' \<and> good e')
      \<and> bf_gen tx' = bf_gen tx \<and> buf_free_end tx' = buf_free_end tx - min n (length U + 3)"
proof -
  define U where "U = unsent pending ob (ext w)"
  define last where "last \<longleftrightarrow> length U < n - 3"
  note at_a = serves_cur [OF cur]
  define off where "off = head_avail tx + data_size tx"
  have w: "w = sput w a tx ob (ext w)" using tx ob by (cases w) (auto simp: sput_def)
  obtain tx1 zs where r: "buf_reserve_end (env_alloc E) tx 3 = Some (Some off, tx1)" "buf_wf tx1"
    "buf_bytes tx1 = buf_bytes tx @ zs" "length zs = 3" "head_avail tx1 = head_avail tx" "data_size tx1 = data_size tx + 3"
    "bf_gen tx1 = bf_gen tx" "buf_free_end tx1 = buf_free_end tx - 3"
    unfolding off_def by (rule reserve_in_place [OF wf, of 3]) (use n in auto)
  have "0 < n - 3" "n - 3 \<le> buf_free_end tx1" "n - 3 < 65536" "(0 :: int) \<le> 3" "3 + int (n - 3) < 2147483648"
    using n r(8) by auto
  from send_stream_loop_delivers [OF A cur ok r(2) this] obtain tx2 ob2 e2 where l:
    "send_stream_loop E a (n - 3) 3 (sput w a tx1 ob (ext w)) = Some (Some (3 + int (min (n - 3) (length U))), sput w a tx2 ob2 e2)"
    "appended tx1 tx2 (take (n - 3) U)" "unsent pending ob2 e2 = drop (n - 3) U" "same_but_stream ob ob2"
    "if last then s_stop ob2 \<and> s_len ob2 = 0 else stream_ok ob2 \<and> good e2"
    unfolding U_def [symmetric] last_def [symmetric] by blast
  define k where "k = min n (length U + 3)"
  have k: "3 + int (min (n - 3) (length U)) = int k"
  proof -
    have "k = 3 + min (n - 3) (length U)" using n(1) unfolding k_def by arith
    then show ?thesis by simp
  qed
  have q: "tx_headerq ob2 = tx_headerq ob" by (rule same_but_stream_queue [OF l(4)])
  have len: "length (take (n - 3) U) = k - 3" using n(1) by (simp add: k_def)
  have b2: "buf_wf tx2" "buf_bytes tx2 = buf_bytes tx @ zs @ take (n - 3) U" "head_avail tx2 = head_avail tx"
    "bf_gen tx2 = bf_gen tx" "buf_free_end tx2 = buf_free_end tx - k" "off = head_avail tx2 + length (buf_bytes tx)"
    "bf_gen tx2 = bf_gen tx1"
    using l(2) r len n(1) length_buf_bytes [OF wf] by (auto simp: appended_def off_def k_def)
  obtain z1 z2 where zs: "zs = z1 @ z2" "length z1 = 1" "length z2 = 2"
    using r(4) by (intro that [of "take 1 zs" "drop 1 zs"]) auto
  have store: "\<exists>b'. (\<forall>(w :: 'e world) ob e. tx_store_at (sput w a b ob e) (bf_gen tx1, Some off) j d = Some (sput w a b' ob e))
      \<and> buf_bytes b' = (buf_bytes tx @ xs) @ d @ ys' \<and> same_shape tx2 b'"
    if "same_shape tx2 b" "buf_bytes b = (buf_bytes tx @ xs) @ ys @ ys'" "length d = length ys" "j = length xs" for b d j xs ys ys'
  proof -
    have "buf_wf b" "off + j = head_avail b + length (buf_bytes tx @ xs)" "bf_gen tx1 = bf_gen b"
      using that(1,4) b2 by (simp_all add: same_shape_def)
    note b = this and h = that
    obtain b' where b': "\<And>(w :: 'e world) ob e. tx_store_at (sput w a b ob e) (bf_gen b, Some off) j d = Some (sput w a b' ob e)"
      "buf_bytes b' = (buf_bytes tx @ xs) @ d @ ys'" "same_shape b b'"
      by (rule tx_store_in_place [OF b(1) h(2,3) b(2), of a]) blast
    then show ?thesis using h(1) by (intro exI [of _ b']) (simp add: b(3) same_shape_def)
  qed
  have sh: "same_shape tx2 tx2" using b2(1) by (simp add: same_shape_def)
  obtain tx3 where s3: "\<And>(w :: 'e world) ob e. tx_store_at (sput w a tx2 ob e) (bf_gen tx1, Some off) 0 [OBEX_HDR_BODY] = Some (sput w a tx3 ob e)"
    "buf_bytes tx3 = buf_bytes tx @ [OBEX_HDR_BODY] @ z2 @ take (n - 3) U" "same_shape tx2 tx3"
    using store [OF sh, of "[]" z1 "z2 @ take (n - 3) U" "[OBEX_HDR_BODY]" 0] b2(2) zs by auto
  obtain tx4 where s4: "\<And>(w :: 'e world) ob e. tx_store_at (sput w a tx3 ob e) (bf_gen tx1, Some off) 0 [OBEX_HDR_BODY_END] = Some (sput w a tx4 ob e)"
    "buf_bytes tx4 = buf_bytes tx @ [OBEX_HDR_BODY_END] @ z2 @ take (n - 3) U" "same_shape tx2 tx4"
    using store [OF s3(3), of "[]" "[OBEX_HDR_BODY]" "z2 @ take (n - 3) U" "[OBEX_HDR_BODY_END]" 0] s3(2) by auto
  define hi where "hi = (if last then OBEX_HDR_BODY_END else OBEX_HDR_BODY)"
  define tx5 where "tx5 = (if last then tx4 else tx3)"
  have s5: "buf_bytes tx5 = (buf_bytes tx @ [hi]) @ z2 @ take (n - 3) U" "same_shape tx2 tx5"
    using s3(2,3) s4(2,3) by (simp_all add: tx5_def hi_def)
  obtain tx6 where s6: "\<And>(w :: 'e world) ob e. tx_store_at (sput w a tx5 ob e) (bf_gen tx1, Some off) 1 (be16 k) = Some (sput w a tx6 ob e)"
    "buf_bytes tx6 = buf_bytes tx @ [hi] @ be16 k @ take (n - 3) U" "same_shape tx2 tx6"
    using store [OF s5(2), of "[hi]" z2 "take (n - 3) U" "be16 k" 1] s5(1) zs(3) by auto
  define ob3 where "ob3 = (if last then ob2\<lparr>tx_headerq := slist_remove (tx_headerq ob2) p\<rparr> else ob2)"
  have un: "u32 (int n - 3) = n - 3" using n by (subst u32_id) auto
  have "send_stream E p n w = send_stream E p n (sput w a tx ob (ext w))" by (rule arg_cong [OF w])
  also have "\<dots> = Some (int k, sput w a tx6 ob3 e2)"
  proof (cases last)
    case True
    then show ?thesis using at_a r(1) l(1,5) s3(1) s4(1) s6(1) k
      by (simp add: send_stream_def Let_def un ob3_def tx5_def)
  next
    case False
    then have "\<not> s_stop ob2" using l(5) by (simp add: stream_ok_def)
    then show ?thesis using False at_a r(1) l(1) s3(1) s6(1) k
      by (simp add: send_stream_def Let_def un ob3_def tx5_def)
  qed
  finally have run: "send_stream E p n w = Some (int k, sput w a tx6 ob3 e2)" .
  have "unsent pending ob3 e2 = drop (n - 3) U" using l(3) by (simp add: ob3_def unsent_def stream_ptr_def)
  moreover have "if last then s_stop ob3 \<and> s_len ob3 = 0 else stream_ok ob3 \<and> good e2"
    "tx_headerq ob3 = (if last then slist_remove (tx_headerq ob) p else tx_headerq ob)"
    using l(5) q by (simp_all add: ob3_def)
  ultimately show ?thesis using run s6(2,3) b2(4,5)
    by (intro exI [of _ tx6] exI [of _ ob3] exI [of _ e2])
       (simp add: Let_def same_shape_def hi_def k_def flip: U_def last_def)
qed

lemma stream_packets_deliver:
  assumes A: "generous (env_alloc E)" and tx: "buf_wf tx" "buf_bytes tx = []" "n \<le> buf_free_end tx" and n: "3 < n" "n < 65536"
  shows "serves (hnd w) \<Longrightarrow> objs w a = Some ob \<Longrightarrow> stream_ok ob \<Longrightarrow> good (ext w) \<Longrightarrow>
    length (unsent pending ob (ext w)) < (n - 3) * k \<Longrightarrow>
    \<exists>w'. stream_packets E a p n tx k w = Some (map frame_bytes (body_frames (n - 3) (unsent pending ob (ext w))), w')"
proof (induction k arbitrary: w ob)
  case (Suc k)
  define U where "U = unsent pending ob (ext w)"
  define last where "last \<longleftrightarrow> length U < n - 3"
  have pre: "serves (hnd (set_tx w tx))" "tx_msg (hnd (set_tx w tx)) = tx"
    "objs (set_tx w tx) a = Some ob" "good (ext (set_tx w tx))" using Suc.prems serves_tx [OF Suc.prems(1)] by simp_all
  obtain tx' ob' e' where s: "send_stream E p n (set_tx w tx) = Some (int (min n (length U + 3)), sput (set_tx w tx) a tx' ob' e')"
    "buf_bytes tx' = [if last then OBEX_HDR_BODY_END else OBEX_HDR_BODY] @ be16 (min n (length U + 3)) @ take (n - 3) U"
    "unsent pending ob' e' = drop (n - 3) U"
    "if last then s_stop ob' \<and> s_len ob' = 0 else stream_ok ob' \<and> good e'"
    using send_stream_delivers [OF A pre(1-3) Suc.prems(3) pre(4) tx(1) n(1) tx(3) n(2), of p]
    by (auto simp: Let_def U_def last_def tx(2))
  show ?case
  proof (cases last)
    case True
    then show ?thesis using s n(1)
      by (auto simp: Let_def body_frames.simps [of "n - 3"] frame_bytes_def last_def min_def U_def [symmetric])
  next
    case False
    define w1 where "w1 = sput (set_tx w tx) a tx' ob' e'"
    have w1: "serves (hnd w1)" "objs w1 a = Some ob'" "ext w1 = e'" "stream_ok ob'" "good (ext w1)"
      using s(4) False serves_sput [OF pre(1)] by (simp_all add: w1_def)
    have "length (unsent pending ob' (ext w1)) < (n - 3) * k"
      using Suc.prems(5) False n(1) unfolding w1(3) s(3) last_def by (simp flip: U_def add: less_diff_conv)
    from Suc.IH [OF w1(1,2,4,5) this] obtain w' where
      "stream_packets E a p n tx k w1 = Some (map frame_bytes (body_frames (n - 3) (drop (n - 3) U)), w')"
      unfolding w1(3) s(3) by blast
    then show ?thesis using s(1,2) False w1(2,4) n(1)
      by (auto simp: Let_def body_frames.simps [of "n - 3" U] frame_bytes_def last_def min_def stream_ok_def
            w1_def U_def [symmetric])
  qed
qed simp

end

end
