(* ===== verification/Obex_Server.thy ===== *)
theory Obex_Server
  imports Obex_Receive
begin

text \<open>
  lib/obex_connect.c (the data of a CONNECT packet) and lib/obex_server.c (the server's state
  machine). The message is always \<open>self->rx_msg\<close>. \<open>obex_server\<close> is a \<open>switch\<close> whose cases fall
  through from STATE_IDLE to STATE_REC to STATE_SEND; each case is a function here.
\<close>

section \<open>CONNECT\<close>

definition obex_insert_connectframe :: "'e env \<Rightarrow> 'e world \<Rightarrow> addr \<Rightarrow> (int \<times> 'e world) option" where
  "obex_insert_connectframe E w a =
     (case buf_new (env_alloc E) 4 of
        None \<Rightarrow> do { w \<leftarrow> upd_obj w a (\<lambda>ob. ob\<lparr>tx_nonhdr_data := None\<rparr>); Some (-1, w) }
      | Some b \<Rightarrow> do {
          (conn_hdr, b) \<leftarrow> buf_reserve_end (env_alloc E) b 4;
          b \<leftarrow> buf_store b conn_hdr ([0x10, 0x00] @ be16 (unat (mtu_rx (hnd w))));
          w \<leftarrow> upd_obj w a (\<lambda>ob. ob\<lparr>tx_nonhdr_data := Some b\<rparr>);
          Some (0, w) })"

definition obex_parse_connect_header :: "'e world \<Rightarrow> (int \<times> 'e world) option" where
  "obex_parse_connect_header w =
     (let self = hnd w; msg = rx_msg self in do {
       common \<leftarrow> mem_read (buf_ptr msg) 0 3;
       (if common ! 0 \<noteq> OBEX_RSP_SUCCESS OR OBEX_FINAL \<and> common ! 0 \<noteq> OBEX_CMD_CONNECT OR OBEX_FINAL
        then Some (1, w)
        else if data_size msg \<ge> 7
        then do {
          conn \<leftarrow> mem_read (buf_ptr msg) 3 4;
          (let mtu = (word_of_nat (rd16 (conn ! 2) (conn ! 3)) :: 16 word)
           in Some (1, upd_hnd w (mtu_tx_update (\<lambda>_. if mtu < mtu_tx_max self then mtu else mtu_tx_max self)))) }
        else Some (-1, w)) })"

section \<open>The server\<close>

text \<open>\<open>self->object->opcode\<close>, as the argument of an event.\<close>

definition cur_opcode :: "'e world \<Rightarrow> byte option" where
  "cur_opcode w = map_option ob_opcode (cur_obj w)"

text \<open>
  STATE_IDLE: a new request. \<open>Some ret\<close> inside is a return, \<open>None\<close> the fall through to STATE_REC.
\<close>

definition server_idle :: "'e env \<Rightarrow> 'e world \<Rightarrow> byte \<Rightarrow> (int option \<times> 'e world) option" where
  "server_idle E w c =
     (if cur_object (hnd w) \<noteq> None
      then do { w \<leftarrow> obex_response_request E w OBEX_RSP_INTERNAL_SERVER_ERROR; Some (Some (-1), w) }
      else
        (let (new, w) = obex_object_new E w; w = upd_hnd w (cur_object_update (\<lambda>_. new)) in
         if new = None
         then do { w \<leftarrow> obex_response_request E w OBEX_RSP_INTERNAL_SERVER_ERROR; Some (Some (-1), w) }
         else do {
           w \<leftarrow> upd_cur w (\<lambda>ob. ob\<lparr>ob_cmd := c\<rparr>);
           w \<leftarrow> obex_deliver_event E w OBEX_EV_REQHINT c 0 False;
           (ret, w) \<leftarrow>
             (if c = OBEX_CMD_CONNECT
              then do {
                (r, w) \<leftarrow> obex_parse_connect_header w;
                (if r < 0
                 then do {
                   w \<leftarrow> obex_response_request E w OBEX_RSP_BAD_REQUEST;
                   opc \<leftarrow> cur_opcode w;
                   w \<leftarrow> obex_deliver_event E w OBEX_EV_PARSEERR opc 0 True;
                   Some (Some (-1), w) }
                 else do { w \<leftarrow> upd_cur w (\<lambda>ob. ob\<lparr>headeroffset := 4\<rparr>); Some (None, w) }) }
              else if c = OBEX_CMD_SETPATH
              then do { w \<leftarrow> upd_cur w (\<lambda>ob. ob\<lparr>headeroffset := 2\<rparr>); Some (None, w) }
              else Some (None, w));
           (case ret of Some r \<Rightarrow> Some (Some r, w)
            | None \<Rightarrow> Some (None, set_state w (MODE_SRV, STATE_REC))) }))"

text \<open>An ABORT from the peer, in STATE_REC and in STATE_SEND.\<close>

definition server_abort :: "'e env \<Rightarrow> 'e world \<Rightarrow> byte \<Rightarrow> (int \<times> 'e world) option" where
  "server_abort E w c = do {
     w \<leftarrow> obex_response_request E w OBEX_RSP_SUCCESS;
     (let w = set_state w (MODE_SRV, STATE_IDLE) in do {
       opc \<leftarrow> cur_opcode w;
       w \<leftarrow> obex_deliver_event E w OBEX_EV_ABORT opc c True;
       Some (0, w) }) }"

text \<open>The answer to a request that cannot be parsed.\<close>

definition server_bad_request :: "'e env \<Rightarrow> 'e world \<Rightarrow> byte \<Rightarrow> (int \<times> 'e world) option" where
  "server_bad_request E w rsp = do {
     w \<leftarrow> obex_response_request E w OBEX_RSP_BAD_REQUEST;
     (let w = set_state w (MODE_SRV, STATE_IDLE) in do {
       opc \<leftarrow> cur_opcode w;
       w \<leftarrow> obex_deliver_event E w OBEX_EV_PARSEERR opc rsp True;
       Some (-1, w) }) }"

text \<open>STATE_SEND: sending the response, one packet for each packet of the peer.\<close>

definition server_send :: "'e env \<Rightarrow> 'e world \<Rightarrow> byte \<Rightarrow> nat \<Rightarrow> (int \<times> 'e world) option" where
  "server_send E w c len =
     (if c = OBEX_CMD_ABORT then server_abort E w c
      else do {
        (ok, w) \<leftarrow>
          (if len > 3
           then do {
             (r, w) \<leftarrow> (if c = OBEX_CMD_CONNECT then Some (-1, w) else obex_object_receive E w);
             (if r < 0 then Some (False, w)
              else do {
                opc \<leftarrow> cur_opcode w;
                w \<leftarrow> obex_deliver_event E w OBEX_EV_UNEXPECTED opc 0 False;
                Some (True, w) }) }
           else Some (True, w));
        (if \<not> ok then server_bad_request E w 0
         else do {
           w \<leftarrow> upd_cur w (\<lambda>ob. ob\<lparr>continue_received := True\<rparr>);
           ob \<leftarrow> cur_obj w;
           (if suspend ob then Some (0, w)
            else do {
              a \<leftarrow> cur_object (hnd w);
              (ret, w) \<leftarrow> obex_object_send E w a True True;
              (if ret = 0
               then do {
                 w \<leftarrow> obex_deliver_event E w OBEX_EV_PROGRESS c 0 False;
                 w \<leftarrow> upd_cur w (\<lambda>ob. ob\<lparr>first_packet_sent := True, continue_received := False\<rparr>);
                 Some (0, w) }
               else if ret < 0
               then do { w \<leftarrow> obex_deliver_event E w OBEX_EV_LINKERR c 0 True; Some (-1, w) }
               else (let w = (if c = OBEX_CMD_DISCONNECT
                              then upd_hnd w (mtu_tx_update (\<lambda>_. OBEX_MINIMUM_MTU)) else w);
                         w = set_state w (MODE_SRV, STATE_IDLE)
                     in do { w \<leftarrow> obex_deliver_event E w OBEX_EV_REQDONE c 0 True; Some (0, w) })) }) }) })"

text \<open>
  The check of a first packet: the application may deny a request of several packets by a
  response outside 0x1X and 0x2X. The result is \<open>final\<close> and \<open>deny\<close>.
\<close>

definition server_check ::
    "'e env \<Rightarrow> 'e world \<Rightarrow> byte \<Rightarrow> bool \<Rightarrow> (bool \<times> bool \<times> 'e world) option" where
  "server_check E w c final =
     (if final then Some (True, False, w)
      else do {
        ob \<leftarrow> cur_obj w;
        w \<leftarrow> (if \<not> checked ob
              then do {
                w \<leftarrow> obex_deliver_event E w OBEX_EV_REQCHECK c 0 False;
                upd_cur w (\<lambda>ob. ob\<lparr>checked := True\<rparr>) }
              else Some w);
        opc \<leftarrow> cur_opcode w;
        (let kind = (opc AND NOT OBEX_FINAL) AND 0xF0
         in if kind = 0x10 \<or> kind = 0x20 then Some (False, False, w) else Some (True, True, w)) })"

text \<open>STATE_REC: receiving a request, which is answered when it is final (or denied).\<close>

definition server_rec :: "'e env \<Rightarrow> 'e world \<Rightarrow> byte \<Rightarrow> nat \<Rightarrow> bool \<Rightarrow> (int \<times> 'e world) option" where
  "server_rec E w c len final =
     (if c = OBEX_CMD_ABORT then server_abort E w c
      else do {
        ob \<leftarrow> cur_obj w;
        (if c \<noteq> ob_cmd ob then server_bad_request E w c
         else do {
           (r, w) \<leftarrow> obex_object_receive E w;
           (if r < 0 then server_bad_request E w 0
            else do {
              (final, deny, w) \<leftarrow> server_check E w c final;
              (if \<not> final
               then do {
                 a \<leftarrow> cur_object (hnd w);
                 (ret, w) \<leftarrow> obex_object_send E w a False True;
                 (if ret < 0
                  then do { w \<leftarrow> obex_deliver_event E w OBEX_EV_LINKERR c 0 True; Some (-1, w) }
                  else do { w \<leftarrow> obex_deliver_event E w OBEX_EV_PROGRESS c 0 False; Some (0, w) }) }
               else do {
                 ob \<leftarrow> cur_obj w;
                 (if \<not> first_packet_sent ob
                  then do {
                    w \<leftarrow> (if c = OBEX_CMD_CONNECT
                          then do { a \<leftarrow> cur_object (hnd w);
                                    (_, w) \<leftarrow> obex_insert_connectframe E w a; Some w }
                          else Some w);
                    w \<leftarrow> (if \<not> deny then obex_deliver_event E w OBEX_EV_REQ c 0 False else Some w);
                    server_send E (set_state w (MODE_SRV, STATE_SEND)) c 3 }
                  else server_send E w c len) }) }) }) })"

definition obex_server :: "'e env \<Rightarrow> 'e world \<Rightarrow> bool \<Rightarrow> (int \<times> 'e world) option" where
  "obex_server E w final = do {
     request \<leftarrow> mem_read (buf_ptr (rx_msg (hnd w))) 0 3;
     (let c = request ! 0 AND NOT OBEX_FINAL; len = rd16 (request ! 1) (request ! 2) in
      case snd (state (hnd w)) of
        STATE_IDLE \<Rightarrow> do {
          (ret, w) \<leftarrow> server_idle E w c;
          (case ret of Some r \<Rightarrow> Some (r, w) | None \<Rightarrow> server_rec E w c len final) }
      | STATE_REC \<Rightarrow> server_rec E w c len final
      | STATE_SEND \<Rightarrow> server_send E w c len
      | STATE_START \<Rightarrow> do {
          w \<leftarrow> obex_response_request E w OBEX_RSP_BAD_REQUEST;
          w \<leftarrow> obex_deliver_event E w OBEX_EV_PARSEERR c 0 True;
          Some (-1, w) }) }"

end
