(* ===== verification/Obex_Client.thy ===== *)
theory Obex_Client
  imports Obex_Server
begin

text \<open>
  lib/obex_client.c: the client's state machine. \<open>obex_client\<close> runs without a message to start a
  request (\<open>has_msg\<close> false) and with \<open>self->rx_msg\<close> to handle a response. STATE_SEND falls through
  to STATE_START.
\<close>

text \<open>The response cannot be parsed.\<close>

definition client_parse_error :: "'e env \<Rightarrow> 'e world \<Rightarrow> (int \<times> 'e world) option" where
  "client_parse_error E w =
     (let w = set_state w (MODE_SRV, STATE_IDLE) in do {
       opc \<leftarrow> cur_opcode w;
       w \<leftarrow> obex_deliver_event E w OBEX_EV_PARSEERR opc 0 True;
       Some (-1, w) })"

definition client_start :: "'e env \<Rightarrow> 'e world \<Rightarrow> byte \<Rightarrow> (int \<times> 'e world) option" where
  "client_start E w rsp =
     (case cur_object (hnd w) of
        None \<Rightarrow> do { w \<leftarrow> obex_deliver_event E w OBEX_EV_PARSEERR rsp 0 True; Some (-1, w) }
      | Some a \<Rightarrow> do {
          (ret, w) \<leftarrow> obex_object_send E w a True False;
          (if ret < 0
           then (let w = set_state w (MODE_CLI, STATE_IDLE) in do {
             opc \<leftarrow> cur_opcode w;
             w \<leftarrow> obex_deliver_event E w OBEX_EV_LINKERR opc 0 True;
             Some (0, w) })
           else do {
             w \<leftarrow> upd_cur w (\<lambda>ob. ob\<lparr>first_packet_sent := True\<rparr>);
             opc \<leftarrow> cur_opcode w;
             w \<leftarrow> obex_deliver_event E w OBEX_EV_PROGRESS opc 0 False;
             Some (0, set_state w (MODE_CLI, STATE_REC)) }) })"

text \<open>\<open>len\<close> is the length field of the response; \<open>None\<close> when there is no message.\<close>

definition client_send :: "'e env \<Rightarrow> 'e world \<Rightarrow> byte \<Rightarrow> nat option \<Rightarrow> (int \<times> 'e world) option" where
  "client_send E w rsp len =
     (if rsp \<noteq> OBEX_RSP_SUCCESS \<and> rsp \<noteq> OBEX_RSP_CONTINUE
      then do {
        opc \<leftarrow> cur_opcode w;
        w \<leftarrow> obex_deliver_event E w OBEX_EV_REQDONE opc rsp True;
        Some (0, w) }
      else do {
        n \<leftarrow> len;
        (if n > 3
         then do {
           opc \<leftarrow> cur_opcode w;
           (r, w) \<leftarrow> (if opc = OBEX_CMD_CONNECT then Some (-1, w) else obex_object_receive E w);
           (if r < 0 then client_parse_error E w
            else do {
              opc \<leftarrow> cur_opcode w;
              w \<leftarrow> obex_deliver_event E w OBEX_EV_UNEXPECTED opc 0 False;
              client_start E w rsp }) }
         else client_start E w rsp) })"

text \<open>The end of STATE_REC: a CONTINUE, or the final response.\<close>

definition client_continue :: "'e env \<Rightarrow> 'e world \<Rightarrow> (int \<times> 'e world) option" where
  "client_continue E w = do {
     w \<leftarrow> upd_cur w (\<lambda>ob. ob\<lparr>continue_received := True\<rparr>);
     ob \<leftarrow> cur_obj w;
     (if abort_req ob then Some (0, w)
      else if suspend ob then Some (0, w)
      else do {
        a \<leftarrow> cur_object (hnd w);
        (ret, w) \<leftarrow> obex_object_send E w a True False;
        opc \<leftarrow> cur_opcode w;
        w \<leftarrow> (if ret < 0 then obex_deliver_event E w OBEX_EV_LINKERR opc 0 True
              else obex_deliver_event E w OBEX_EV_PROGRESS opc 0 False);
        w \<leftarrow> (if cur_object (hnd w) \<noteq> None
              then upd_cur w (\<lambda>ob. ob\<lparr>continue_received := False\<rparr>) else Some w);
        Some (0, w) }) }"

definition client_done :: "'e env \<Rightarrow> 'e world \<Rightarrow> byte \<Rightarrow> (int \<times> 'e world) option" where
  "client_done E w rsp =
     (let w = set_state w (MODE_SRV, STATE_IDLE) in do {
       ob \<leftarrow> cur_obj w;
       w \<leftarrow> (if abort_req ob
             then (if rsp = OBEX_RSP_SUCCESS
                   then obex_deliver_event E w OBEX_EV_ABORT (ob_opcode ob) rsp True
                   else obex_deliver_event E w OBEX_EV_LINKERR (ob_opcode ob) rsp True)
             else obex_deliver_event E w OBEX_EV_REQDONE (ob_opcode ob) rsp True);
       Some (0, w) })"

definition client_rec :: "'e env \<Rightarrow> 'e world \<Rightarrow> byte \<Rightarrow> (int \<times> 'e world) option" where
  "client_rec E w rsp = do {
     opc \<leftarrow> cur_opcode w;
     (ok, w) \<leftarrow>
       (if opc = OBEX_CMD_CONNECT
        then do {
          (r, w) \<leftarrow> obex_parse_connect_header w;
          (if r < 0 then Some (False, w)
           else do { w \<leftarrow> upd_cur w (\<lambda>ob. ob\<lparr>headeroffset := 4\<rparr>); Some (True, w) }) }
        else Some (True, w));
     (if \<not> ok then client_parse_error E w
      else
        (let w = (if opc = OBEX_CMD_DISCONNECT
                  then upd_hnd w (mtu_tx_update (\<lambda>_. OBEX_MINIMUM_MTU)) else w) in do {
          (r, w) \<leftarrow> obex_object_receive E w;
          (if r < 0 then client_parse_error E w
           else if rsp = OBEX_RSP_CONTINUE then client_continue E w
           else client_done E w rsp) })) }"

definition obex_client :: "'e env \<Rightarrow> 'e world \<Rightarrow> bool \<Rightarrow> (int \<times> 'e world) option" where
  "obex_client E w has_msg = do {
     (rsp, len) \<leftarrow>
       (if has_msg
        then do { response \<leftarrow> mem_read (buf_ptr (rx_msg (hnd w))) 0 3;
                  Some (response ! 0 AND NOT OBEX_FINAL, Some (rd16 (response ! 1) (response ! 2))) }
        else Some (OBEX_RSP_BAD_REQUEST, None));
     (case state (hnd w) of
        (MODE_CLI, STATE_SEND) \<Rightarrow> client_send E w rsp len
      | (MODE_CLI, STATE_START) \<Rightarrow> client_start E w rsp
      | (MODE_CLI, STATE_REC) \<Rightarrow> (if has_msg then client_rec E w rsp else None)
      | _ \<Rightarrow> do { w \<leftarrow> obex_deliver_event E w OBEX_EV_PARSEERR rsp 0 True; Some (-1, w) }) }"

end
