(* ===== verification/Obex_Main.thy ===== *)
theory Obex_Main
  imports Obex_Client
begin

text \<open>
  The rest of lib/obex_main.c: reassembly of packets from what the transport delivers, dispatch to
  server or client, and cancelling a request.
\<close>

text \<open>The link is gone: the application is told and the current object is deleted.\<close>

definition indicate_linkerr :: "'e env \<Rightarrow> 'e world \<Rightarrow> int \<Rightarrow> (int \<times> 'e world) option" where
  "indicate_linkerr E w actual = do {
     w \<leftarrow> obex_deliver_event E w OBEX_EV_LINKERR 0 0 True; Some (actual, w) }"

text \<open>A whole packet is in the buffer.\<close>

definition indicate_dispatch :: "'e env \<Rightarrow> 'e world \<Rightarrow> byte \<Rightarrow> (int \<times> 'e world) option" where
  "indicate_dispatch E w opc =
     (let actual = s32 (int (data_size (rx_msg (hnd w)))); final = (opc AND OBEX_FINAL \<noteq> 0) in do {
       (ret, w) \<leftarrow> (if fst (state (hnd w)) = MODE_SRV then obex_server E w final
                    else obex_client E w True);
       (let w = set_rx w (buf_reuse (rx_msg (hnd w))) in
        Some (if ret < 0 then ret else actual, w)) })"

text \<open>
  The second half of \<open>obex_data_indication\<close>, for a buffer that holds the three bytes of the common
  header. \<open>hdr\<close> points into the receive buffer and is dereferenced after the read: when the read
  reallocates the buffer the pointer is dead (\<open>None\<close>).
\<close>

definition indicate_packet ::
    "'e env \<Rightarrow> 'e world \<Rightarrow> byte list option \<Rightarrow> int \<Rightarrow> (int \<times> 'e world) option" where
  "indicate_packet E w buf buflen =
     (let msg = rx_msg (hnd w); gen = bf_gen msg in do {
       hdr \<leftarrow> mem_read (buf_ptr msg) 0 3;
       (let size = rd16 (hdr ! 1) (hdr ! 2) in do {
         (actual, w) \<leftarrow>
           (if data_size msg < size
            then obex_transport_read E w (int size - int (data_size msg)) buf buflen
            else Some (0, w));
         (if data_size msg < size \<and> buf = None \<and> buflen = 0 \<and> actual \<le> 0
          then indicate_linkerr E w actual
          else if size > data_size (rx_msg (hnd w)) then Some (int (data_size (rx_msg (hnd w))), w)
          else if bf_gen (rx_msg (hnd w)) \<noteq> gen then None
          else do {
            h \<leftarrow> mem_read (buf_ptr (rx_msg (hnd w))) 0 1;
            indicate_dispatch E w (h ! 0) }) }) })"

definition obex_data_indication ::
    "'e env \<Rightarrow> 'e world \<Rightarrow> byte list option \<Rightarrow> int \<Rightarrow> (int \<times> 'e world) option" where
  "obex_data_indication E w buf buflen =
     (if data_size (rx_msg (hnd w)) < 3
      then do {
        (actual, w) \<leftarrow> obex_transport_read E w (3 - int (data_size (rx_msg (hnd w)))) buf buflen;
        (if buf = None \<and> buflen = 0 \<and> actual \<le> 0 then indicate_linkerr E w actual
         else
           (let buf = map_option (drop (nat actual)) buf; buflen = buflen - actual in
            if data_size (rx_msg (hnd w)) \<ge> 3 then indicate_packet E w buf buflen
            else Some (actual, w))) }
      else indicate_packet E w buf buflen)"

text \<open>\<open>nice\<close> sends an ABORT command and waits for the answer; otherwise the request is dropped.\<close>

definition obex_cancelrequest :: "'e env \<Rightarrow> 'e world \<Rightarrow> bool \<Rightarrow> (int \<times> 'e world) option" where
  "obex_cancelrequest E w nice =
     (if cur_object (hnd w) = None then Some (0, w)
      else if \<not> nice
      then do {
        w \<leftarrow> obex_deliver_event E w OBEX_EV_ABORT 0 0 True;
        (let w = set_tx w (buf_reuse (tx_msg (hnd w)));
             w = set_rx w (buf_reuse (rx_msg (hnd w))) in do {
          w \<leftarrow> obex_deliver_event E w OBEX_EV_LINKERR 0 0 False;
          Some (1, w) }) }
      else
        (let (new, w) = obex_object_new E w in
         case new of
           None \<Rightarrow> Some (-1, w)
         | Some a \<Rightarrow> do {
             w \<leftarrow> upd_obj w a (\<lambda>ob. obex_object_setcmd ob OBEX_CMD_ABORT OBEX_CMD_ABORT);
             (ret, w) \<leftarrow> obex_object_send E w a True True;
             (_, w) \<leftarrow> obex_object_delete w (Some a);
             (if ret < 0 then Some (-1, w)
              else do {
                w \<leftarrow> upd_cur w (\<lambda>ob. ob\<lparr>abort_req := True\<rparr>);
                Some (0, set_state w (MODE_CLI, STATE_REC)) }) }))"

end
