(* ===== verification/Frame.thy ===== *)
theory Frame
  imports Obex_Main
begin

text \<open>
  What a call into the library leaves alone, as a calculus of postconditions. \<open>okres P r\<close> says that
  \<open>P\<close> holds of the result if the call returns. The protocol is seen through \<open>view\<close>: the state of
  the handle, its current object, and whether that object is alive. The locale \<open>observer\<close> adds a
  second observation that does not depend on buffers, objects and protocol state; with it the
  same rules count the packets that are sent. The rules, one per operation, are collected in \<open>wp\<close>.
\<close>

section \<open>Postconditions\<close>

definition okres :: "('a \<Rightarrow> bool) \<Rightarrow> 'a option \<Rightarrow> bool" where
  "okres P r \<longleftrightarrow> (case r of None \<Rightarrow> True | Some x \<Rightarrow> P x)"

lemma okres_simps [simp]:
  "okres P None" "okres P (Some x) = P x" "okres P (r \<bind> f) = okres (\<lambda>x. okres P (f x)) r"
  by (cases r; simp add: okres_def)+

lemma okres_weaken: "okres Q r \<Longrightarrow> (\<And>x. Q x \<Longrightarrow> P x) \<Longrightarrow> okres P r"
  by (simp add: okres_def split: option.splits)

lemma okresD: "okres P r \<Longrightarrow> r = Some x \<Longrightarrow> P x"
  by (simp add: okres_def)

lemma okresI: "(\<And>x. r = Some x \<Longrightarrow> P x) \<Longrightarrow> okres P r"
  by (simp add: okres_def split: option.splits)

named_theorems wp "what the operations keep"

text \<open>Computations that do not touch the world.\<close>

lemmas wp_pure [wp] = okresI [where r = "objs w a" for w a] okresI [where r = "cur_object (hnd w)" for w]
  okresI [where r = "cur_obj w" for w] okresI [where r = "cur_opcode w" for w]
  okresI [where r = "mem_read m i n" for m i n] okresI [where r = "h_buf h" for h]
  okresI [where r = "buf_reserve_end A b n" for A b n] okresI [where r = "buf_store b p d" for b p d]
  okresI [where r = "buf_insert_end A b s n" for A b s n] okresI [where r = "buf_reserve_begin A b n" for A b n]
  okresI [where r = "slist_append A q x" for A q x] okresI [where r = "rx_body ob" for ob]
  okresI [where r = "buf_resize A b n" for A b n] okresI [where r = "receive_element A h s n" for A h s n]
  okresI [where r = "receive_body_buffer A ob n" for A ob n]

section \<open>The view of the protocol\<close>

definition view :: "'e world \<Rightarrow> (obex_mode \<times> obex_state) \<times> addr option \<times> bool option" where
  "view w = (state (hnd w), cur_object (hnd w), map_option (\<lambda>a. objs w a \<noteq> None) (cur_object (hnd w)))"

lemma view_updates [simp]:
  "view (set_tx w b) = view w" "view (set_rx w b) = view w" "view (set_ext w e) = view w"
  "view (w\<lparr>next_addr := n\<rparr>) = view w" "view (w\<lparr>hnd := (hnd w)\<lparr>mtu_tx := m\<rparr>\<rparr>) = view w"
  "view (w\<lparr>hnd := mtu_tx_update f (hnd w)\<rparr>) = view w"
  "view (set_state w s) = (s, snd (view w))"
  "view (w\<lparr>hnd := (hnd w)\<lparr>mtu_tx := m, state := s\<rparr>\<rparr>) = (s, snd (view w))"
  by (simp_all add: view_def)

lemma view_upd_objs [simp]:
  "objs w a = Some ob \<Longrightarrow> view (w\<lparr>objs := (objs w)(a \<mapsto> ob')\<rparr>) = view w"
  "objs w a = Some ob \<Longrightarrow> view (w\<lparr>next_addr := n, objs := (objs w)(a \<mapsto> ob')\<rparr>) = view w"
  by (cases "cur_object (hnd w)"; auto simp: view_def)+

text \<open>
  The second observation \<open>cnt\<close>. An environment is polite towards it, when the application does not
  change view and observation in its callbacks, and a write to the transport keeps the view and
  changes the observation as \<open>sends\<close> says.
\<close>

locale observer =
  fixes cnt :: "'e world \<Rightarrow> 'x" and sends :: "'x \<Rightarrow> 'x \<Rightarrow> bool"
  assumes cnt_objs [simp]: "cnt (w\<lparr>objs := f\<rparr>) = cnt w"
    and cnt_next [simp]: "cnt (w\<lparr>next_addr := n\<rparr>) = cnt w"
    and cnt_hnd: "tport h = tport (hnd w) \<Longrightarrow> ctrans h = ctrans (hnd w) \<Longrightarrow> cnt (w\<lparr>hnd := h\<rparr>) = cnt w"

definition polite :: "('e world \<Rightarrow> 'x) \<Rightarrow> ('x \<Rightarrow> 'x \<Rightarrow> bool) \<Rightarrow> 'e env \<Rightarrow> bool" where
  "polite cnt sends E \<longleftrightarrow>
     (\<forall>cb w ob r ev c rsp w'. env_event E cb w ob r ev c rsp = Some w' \<longrightarrow> view w' = view w \<and> cnt w' = cnt w)
     \<and> (\<forall>w r w'. obex_transport_write E w = Some (r, w') \<longrightarrow> view w' = view w \<and> sends (cnt w) (cnt w'))"

context observer
begin

lemma cnt_updates [simp]:
  "cnt (set_tx w b) = cnt w" "cnt (set_rx w b) = cnt w" "cnt (set_state w s) = cnt w"
  "cnt (w\<lparr>hnd := (hnd w)\<lparr>mtu_tx := m\<rparr>\<rparr>) = cnt w" "cnt (w\<lparr>hnd := (hnd w)\<lparr>cur_object := ob\<rparr>\<rparr>) = cnt w"
  "cnt (w\<lparr>hnd := mtu_tx_update f (hnd w)\<rparr>) = cnt w"
  "cnt (w\<lparr>hnd := (hnd w)\<lparr>mtu_tx := m, state := s\<rparr>\<rparr>) = cnt w"
  "cnt (w\<lparr>next_addr := n, objs := g\<rparr>) = cnt w"
  by (simp_all add: cnt_hnd)

text \<open>Each rule: if \<open>P\<close> follows from what the operation keeps, it holds of the result.\<close>

lemma wp_upd_obj [wp]:
  "(\<And>w'. view w' = view w \<Longrightarrow> cnt w' = cnt w \<Longrightarrow> P w') \<Longrightarrow> okres P (upd_obj w a f)"
  by (auto simp: okres_def upd_obj_def split: option.splits)

lemma wp_upd_cur [wp]:
  "(\<And>w'. view w' = view w \<Longrightarrow> cnt w' = cnt w \<Longrightarrow> P w') \<Longrightarrow> okres P (upd_cur w f)"
  unfolding upd_cur_def by (auto intro!: wp)

lemma wp_event [wp]:
  "polite cnt sends E \<Longrightarrow> (\<And>w'. view w' = view w \<Longrightarrow> cnt w' = cnt w \<Longrightarrow> P w')
   \<Longrightarrow> okres P (obex_deliver_event E w ev c rsp False)"
  unfolding obex_deliver_event_def Let_def polite_def
  by (auto simp: okres_def split: option.splits)

lemma wp_transport_write [wp]:
  "polite cnt sends E \<Longrightarrow> (\<And>r w'. view w' = view w \<Longrightarrow> sends (cnt w) (cnt w') \<Longrightarrow> P (r, w'))
   \<Longrightarrow> okres P (obex_transport_write E w)"
  unfolding polite_def by (auto intro!: okresI)

lemma wp_data_request [wp]:
  "polite cnt sends E \<Longrightarrow> (\<And>r w'. view w' = view w \<Longrightarrow> sends (cnt w) (cnt w') \<Longrightarrow> P (r, w'))
   \<Longrightarrow> okres P (obex_data_request E w opc)"
  unfolding obex_data_request_def by (auto intro!: wp)

lemma wp_response_request [wp]:
  "polite cnt sends E \<Longrightarrow> (\<And>w'. view w' = view w \<Longrightarrow> sends (cnt w) (cnt w') \<Longrightarrow> P w')
   \<Longrightarrow> okres P (obex_response_request E w opc)"
  unfolding obex_response_request_def by (auto intro!: wp)

lemma wp_tx_insert_end [wp]:
  "(\<And>w'. view w' = view w \<Longrightarrow> cnt w' = cnt w \<Longrightarrow> P w') \<Longrightarrow> okres P (tx_insert_end E w s n)"
  unfolding tx_insert_end_def by (auto intro!: wp)

lemma wp_tx_store_at [wp]:
  "(\<And>w'. view w' = view w \<Longrightarrow> cnt w' = cnt w \<Longrightarrow> P w') \<Longrightarrow> okres P (tx_store_at w p off d)"
  unfolding tx_store_at_def Let_def by (auto intro!: wp)

lemma wp_stream_refill [wp]:
  "polite cnt sends E \<Longrightarrow> (\<And>r w'. view w' = view w \<Longrightarrow> cnt w' = cnt w \<Longrightarrow> P (r, w'))
   \<Longrightarrow> okres P (stream_refill E a w)"
  unfolding stream_refill_def by (auto intro!: wp)

lemma send_stream_loop_keeps:
  "send_stream_loop E a n k w = Some y \<Longrightarrow> polite cnt sends E \<Longrightarrow> view (snd y) = view w \<and> cnt (snd y) = cnt w"
proof (induction E a n k w y rule: send_stream_loop.raw_induct [rotated, consumes 1, case_names step])
  case (step loop E a n k w y)
  have ih: "okres P (loop E a n' k' w')"
    if "\<And>r w''. view w'' = view w' \<Longrightarrow> cnt w'' = cnt w' \<Longrightarrow> P (r, w'')" for P a n' k' w'
  proof (rule okresI)
    fix x assume "loop E a n' k' w' = Some x"
    from step.IH [OF this step.prems] show "P x" by (cases x) (simp add: that)
  qed
  show ?case
    using step.prems
    by (intro okresD [where P = "\<lambda>y. view (snd y) = view w \<and> cnt (snd y) = cnt w", OF _ step.hyps])
      (auto intro!: wp ih simp: Let_def split: stream_ask.splits)
qed

lemma wp_send_stream_loop [wp]:
  "polite cnt sends E \<Longrightarrow> (\<And>r w'. view w' = view w \<Longrightarrow> cnt w' = cnt w \<Longrightarrow> P (r, w'))
   \<Longrightarrow> okres P (send_stream_loop E a n k w)"
  by (auto intro!: okresI dest: send_stream_loop_keeps)

lemma wp_send_stream [wp]:
  "polite cnt sends E \<Longrightarrow> (\<And>r w'. view w' = view w \<Longrightarrow> cnt w' = cnt w \<Longrightarrow> P (r, w'))
   \<Longrightarrow> okres P (send_stream E p n w)"
  unfolding send_stream_def by (auto intro!: wp simp: Let_def split: option.splits)

lemma wp_set_suspend [wp]:
  "(\<And>w'. view w' = view w \<Longrightarrow> cnt w' = cnt w \<Longrightarrow> P w')
   \<Longrightarrow> okres P (set_suspend w a h)"
  unfolding set_suspend_def by (auto intro!: wp)

lemma wp_send_body [wp]:
  "(\<And>r w'. view w' = view w \<Longrightarrow> cnt w' = cnt w \<Longrightarrow> P (r, w'))
   \<Longrightarrow> okres P (send_body E a p h n w)"
  unfolding send_body_def Let_def by (auto intro!: wp)

lemma wp_send_header [wp]:
  "polite cnt sends E \<Longrightarrow> (\<And>r w'. view w' = view w \<Longrightarrow> cnt w' = cnt w \<Longrightarrow> P (r, w'))
   \<Longrightarrow> okres P (send_header E a p h n w)"
  unfolding send_header_def by (auto intro!: wp)

lemma send_headers_keeps:
  "send_headers E a n w = Some y \<Longrightarrow> polite cnt sends E \<Longrightarrow> view (snd y) = view w \<and> cnt (snd y) = cnt w"
proof (induction E a n w y rule: send_headers.raw_induct [rotated, consumes 1, case_names step])
  case (step loop E a n w y)
  have ih: "okres P (loop E a n' w')"
    if "\<And>r w''. view w'' = view w' \<Longrightarrow> cnt w'' = cnt w' \<Longrightarrow> P (r, w'')" for P a n' w'
  proof (rule okresI)
    fix x assume "loop E a n' w' = Some x"
    from step.IH [OF this step.prems] show "P x" by (cases x) (simp add: that)
  qed
  show ?case
    using step.prems
    by (intro okresD [where P = "\<lambda>y. view (snd y) = view w \<and> cnt (snd y) = cnt w", OF _ step.hyps])
      (auto intro!: wp ih simp: Let_def split: list.splits option.splits)
qed

lemma wp_send_headers [wp]:
  "polite cnt sends E \<Longrightarrow> (\<And>r w'. view w' = view w \<Longrightarrow> cnt w' = cnt w \<Longrightarrow> P (r, w'))
   \<Longrightarrow> okres P (send_headers E a n w)"
  by (auto intro!: okresI dest: send_headers_keeps)

lemma wp_send_nonhdr [wp]:
  "(\<And>w'. view w' = view w \<Longrightarrow> cnt w' = cnt w \<Longrightarrow> P w')
   \<Longrightarrow> okres P (send_nonhdr E w a)"
  unfolding send_nonhdr_def by (auto intro!: wp split: option.splits)

lemma wp_object_send [wp]:
  "polite cnt sends E \<Longrightarrow> (\<And>r w'. view w' = view w \<Longrightarrow> cnt w' = cnt w \<Longrightarrow> r \<le> 0 \<Longrightarrow> P (r, w'))
   \<Longrightarrow> (\<And>r w'. view w' = view w \<Longrightarrow> sends (cnt w) (cnt w') \<Longrightarrow> P (r, w'))
   \<Longrightarrow> okres P (obex_object_send E w a fin force)"
  unfolding obex_object_send_def by (auto intro!: wp split: prod.splits)

lemma wp_receive_stream [wp]:
  "polite cnt sends E \<Longrightarrow> (\<And>w'. view w' = view w \<Longrightarrow> cnt w' = cnt w \<Longrightarrow> P w')
   \<Longrightarrow> okres P (obex_object_receive_stream E w hi s n)"
  unfolding obex_object_receive_stream_def by (auto intro!: wp)

lemma wp_receive_body [wp]:
  "(\<And>r w'. view w' = view w \<Longrightarrow> cnt w' = cnt w \<Longrightarrow> P (r, w'))
   \<Longrightarrow> okres P (obex_object_receive_body E w a hi s n)"
  unfolding obex_object_receive_body_def Let_def by (auto intro!: wp split: option.splits)

lemma wp_receive_decode [wp]:
  "polite cnt sends E \<Longrightarrow> (\<And>s n h e w'. view w' = view w \<Longrightarrow> cnt w' = cnt w \<Longrightarrow> P (s, n, h, e, w'))
   \<Longrightarrow> okres P (receive_decode E w a hi)"
  unfolding receive_decode_def Let_def by (auto intro!: wp)

lemma wp_receive_header [wp]:
  "polite cnt sends E \<Longrightarrow> (\<And>e n w'. view w' = view w \<Longrightarrow> cnt w' = cnt w \<Longrightarrow> P (e, n, w'))
   \<Longrightarrow> okres P (receive_header E a w)"
  unfolding receive_header_def Let_def by (auto intro!: wp split: prod.splits option.splits)

lemma receive_headers_keeps:
  "receive_headers E a w = Some y \<Longrightarrow> polite cnt sends E \<Longrightarrow> view (snd y) = view w \<and> cnt (snd y) = cnt w"
proof (induction E a w y rule: receive_headers.raw_induct [rotated, consumes 1, case_names step])
  case (step loop E a w y)
  have ih: "okres P (loop E a w')"
    if "\<And>r w''. view w'' = view w' \<Longrightarrow> cnt w'' = cnt w' \<Longrightarrow> P (r, w'')" for P w'
  proof (rule okresI)
    fix x assume "loop E a w' = Some x"
    from step.IH [OF this step.prems] show "P x" by (cases x) (simp add: that)
  qed
  show ?case
    using step.prems
    by (intro okresD [where P = "\<lambda>y. view (snd y) = view w \<and> cnt (snd y) = cnt w", OF _ step.hyps])
      (auto intro!: wp ih simp: Let_def split: if_splits)
qed

lemma wp_receive_headers [wp]:
  "polite cnt sends E \<Longrightarrow> (\<And>r w'. view w' = view w \<Longrightarrow> cnt w' = cnt w \<Longrightarrow> P (r, w'))
   \<Longrightarrow> okres P (receive_headers E a w)"
  by (auto intro!: okresI dest: receive_headers_keeps)

lemma wp_receive_nonhdr [wp]:
  "(\<And>r w'. view w' = view w \<Longrightarrow> cnt w' = cnt w \<Longrightarrow> P (r, w'))
   \<Longrightarrow> okres P (receive_nonhdr E a w)"
  unfolding receive_nonhdr_def by (auto intro!: wp split: option.splits)

lemma wp_object_receive [wp]:
  "polite cnt sends E \<Longrightarrow> (\<And>r w'. view w' = view w \<Longrightarrow> cnt w' = cnt w \<Longrightarrow> P (r, w'))
   \<Longrightarrow> okres P (obex_object_receive E w)"
  unfolding obex_object_receive_def by (auto intro!: wp)

lemma wp_insert_connectframe [wp]:
  "(\<And>r w'. view w' = view w \<Longrightarrow> cnt w' = cnt w \<Longrightarrow> P (r, w'))
   \<Longrightarrow> okres P (obex_insert_connectframe E w a)"
  unfolding obex_insert_connectframe_def by (auto intro!: wp split: option.splits)

lemma wp_parse_connect [wp]:
  "(\<And>r w'. view w' = view w \<Longrightarrow> cnt w' = cnt w \<Longrightarrow> P (r, w'))
   \<Longrightarrow> okres P (obex_parse_connect_header w)"
  unfolding obex_parse_connect_header_def Let_def by (auto intro!: wp)

lemma wp_check [wp]:
  "polite cnt sends E \<Longrightarrow> (\<And>f d w'. view w' = view w \<Longrightarrow> cnt w' = cnt w \<Longrightarrow> P (f, d, w'))
   \<Longrightarrow> okres P (server_check E w c final)"
  unfolding server_check_def Let_def by (auto intro!: wp)

text \<open>A final event forgets the current object and frees it, whatever the application does.\<close>

lemma wp_event_final [wp]:
  assumes pol: "polite cnt sends E" and P: "\<And>w'. view w' = (state (hnd w), None, None) \<Longrightarrow> cnt w' = cnt w \<Longrightarrow>
    (\<And>a. cur_object (hnd w) = Some a \<Longrightarrow> objs w' a = None) \<Longrightarrow> P w'"
  shows "okres P (obex_deliver_event E w ev c rsp True)"
proof (rule okresI)
  fix x assume ok: "obex_deliver_event E w ev c rsp True = Some x"
  define w0 where "w0 = upd_hnd w (cur_object_update (\<lambda>_. None))"
  obtain cb ro w1 r where ev: "env_event E cb w0 (cur_object (hnd w)) ro ev c rsp = Some w1"
    and del: "obex_object_delete w1 (cur_object (hnd w)) = Some (r, x)"
    using ok by (auto simp: obex_deliver_event_def Let_def w0_def bind_eq_Some_conv)
  have "view w1 = view w0" "cnt w1 = cnt w0" using pol ev unfolding polite_def by blast+
  then have v: "view w1 = (state (hnd w), None, None)" "cnt w1 = cnt w"
    by (simp_all add: w0_def view_def cnt_hnd)
  show "P x"
  proof (cases "cur_object (hnd w)")
    case None
    with del v show ?thesis by (auto intro!: P)
  next
    case (Some a)
    with del have "x = w1\<lparr>objs := (objs w1)(a := None)\<rparr>"
      by (auto simp: obex_object_delete_def upd_obj_def bind_eq_Some_conv split: option.splits)
    with v Some show ?thesis by (auto intro!: P simp: view_def)
  qed
qed

end

end
