(* ===== verification/Sockets.thy ===== *)
theory Sockets
  imports Obex_Main Frame
begin

text \<open>
  Sockets: creation and deletion (lib/obex_main.c) and the transports that use them, TCP/IP
  (lib/inobex.c), Bluetooth RFCOMM (lib/btobex.c) and IrDA (lib/irobex.c), on a POSIX system. The
  address structures are members of one union; a zeroed union is a zeroed structure of any of its
  types, and reading a member over another one that was stored is not modelled (\<open>None\<close>).
\<close>

section \<open>Sockets\<close>

abbreviation "AF_INET \<equiv> (2 :: nat)"
abbreviation "AF_INET6 \<equiv> (10 :: nat)"
abbreviation "AF_IRDA \<equiv> (23 :: nat)"
abbreviation "AF_BLUETOOTH \<equiv> (31 :: nat)"
abbreviation "BTPROTO_RFCOMM \<equiv> (3 :: nat)"
abbreviation "OBEX_PORT \<equiv> (650 :: nat)"

abbreviation (input) set_trans :: "'e world \<Rightarrow> (transport \<Rightarrow> transport) \<Rightarrow> 'e world" where
  "set_trans w f \<equiv> w\<lparr>hnd := (hnd w)\<lparr>tport := f (tport (hnd w))\<rparr>\<rparr>"

abbreviation (input) set_fd :: "'e world \<Rightarrow> int \<Rightarrow> 'e world" where
  "set_fd w s \<equiv> w\<lparr>hnd := (hnd w)\<lparr>fd := s\<rparr>\<rparr>"

abbreviation (input) set_serverfd :: "'e world \<Rightarrow> int \<Rightarrow> 'e world" where
  "set_serverfd w s \<equiv> w\<lparr>hnd := (hnd w)\<lparr>serverfd := s\<rparr>\<rparr>"

definition sys :: "('e \<Rightarrow> 'a \<times> 'e) \<Rightarrow> 'e world \<Rightarrow> 'a \<times> 'e world" where
  "sys call w = (let (r, e) = call (ext w) in (r, w\<lparr>ext := e\<rparr>))"

definition obex_create_socket :: "'e env \<Rightarrow> 'e world \<Rightarrow> nat \<Rightarrow> int \<times> 'e world" where
  "obex_create_socket E w domain =
     (let proto = (if domain = AF_BLUETOOTH then BTPROTO_RFCOMM else 0) in sys (env_socket E domain proto) w)"

definition obex_delete_socket :: "'e env \<Rightarrow> 'e world \<Rightarrow> int \<Rightarrow> int \<times> 'e world" where
  "obex_delete_socket E w s = (if s = INVALID_SOCKET then (s, w) else sys (env_close E s) w)"

section \<open>TCP/IP\<close>

definition sin6_zero :: sockaddr_in6 where
  "sin6_zero = \<lparr>sin6_family = 0, sin6_port = 0, sin6_flowinfo = 0, sin6_addr = replicate 16 0\<rparr>"

definition sin6_of :: "saddr \<Rightarrow> sockaddr_in6 option" where
  "sin6_of a = (case a of SA_NONE \<Rightarrow> Some sin6_zero | SA_INET6 x \<Rightarrow> Some x | _ \<Rightarrow> None)"

text \<open>The bytes of the IPv4 address are taken from the number \<open>s_addr\<close>, lowest first.\<close>

definition map_ip4to6 :: "nat \<Rightarrow> 32 word \<Rightarrow> sockaddr_in6" where
  "map_ip4to6 port s_addr =
     \<lparr>sin6_family = AF_INET6, sin6_port = (if port = 0 then OBEX_PORT else port), sin6_flowinfo = 0,
      sin6_addr = (if s_addr = 0 then replicate 16 0
        else replicate 10 0 @ [0xFF, 0xFF, ucast (s_addr AND 0xFF), ucast (drop_bit 8 s_addr AND 0xFF),
                               ucast (drop_bit 16 s_addr AND 0xFF), ucast (drop_bit 24 s_addr AND 0xFF)])\<rparr>"

text \<open>\<open>dflt\<close> is the loopback or the any address.\<close>

definition inobex_address :: "byte list \<Rightarrow> saddr option \<Rightarrow> sockaddr_in6" where
  "inobex_address dflt saddr =
     (let addr = \<lparr>sin6_family = AF_INET6, sin6_port = OBEX_PORT, sin6_flowinfo = 0, sin6_addr = dflt\<rparr>
      in case saddr of Some (SA_INET6 x) \<Rightarrow> x | Some (SA_INET port a) \<Rightarrow> map_ip4to6 port a | _ \<Rightarrow> addr)"

definition inobex_prepare_connect :: "'e world \<Rightarrow> saddr option \<Rightarrow> 'e world" where
  "inobex_prepare_connect w saddr =
     set_trans w (t_peer_update (\<lambda>_. SA_INET6 (inobex_address (replicate 15 0 @ [1]) saddr)))"

definition inobex_prepare_listen :: "'e world \<Rightarrow> saddr option \<Rightarrow> 'e world" where
  "inobex_prepare_listen w saddr =
     set_trans w (t_self_update (\<lambda>_. SA_INET6 (inobex_address (replicate 16 0) saddr)))"

definition inobex_listen :: "'e env \<Rightarrow> 'e world \<Rightarrow> int \<times> 'e world" where
  "inobex_listen E w =
     (let (s, w) = obex_create_socket E w AF_INET6; w = set_serverfd w s in
      if s = INVALID_SOCKET then (-1, w)
      else let (_, w) = sys (env_v6only E s) w;
               (r, w) = sys (env_bind E s (t_self (tport (hnd w)))) w in
      if r \<noteq> 0 then (-1, w)
      else let (r, w) = sys (env_listen E s 2) w in
      if r \<noteq> 0 then (-1, w) else (1, w))"

definition inobex_accept :: "'e env \<Rightarrow> 'e world \<Rightarrow> int \<times> 'e world" where
  "inobex_accept E w =
     (let ((s, peer), w) = sys (env_accept E (serverfd (hnd w))) w; w = set_fd w s in
      if s = INVALID_SOCKET then (-1, w)
      else (1, set_trans w (\<lambda>t. t\<lparr>t_peer := peer, t_mtu := OBEX_DEFAULT_MTU\<rparr>)))"

definition inobex_connect_request :: "'e env \<Rightarrow> 'e world \<Rightarrow> (int \<times> 'e world) option" where
  "inobex_connect_request E w =
     (let (s, w) = obex_create_socket E w AF_INET6; w = set_fd w s in
      if s = INVALID_SOCKET then Some (-1, w)
      else do {
        peer \<leftarrow> sin6_of (t_peer (tport (hnd w)));
        (let peer = (if sin6_port peer = 0 then peer\<lparr>sin6_port := OBEX_PORT\<rparr> else peer);
             w = set_trans w (t_peer_update (\<lambda>_. SA_INET6 peer)) in
         if \<not> env_inet_ntop E (sin6_addr peer)
         then (let (_, w) = obex_delete_socket E w s in Some (-1, set_fd w INVALID_SOCKET))
         else let (ret, w) = sys (env_connect E s (SA_INET6 peer)) w in
         if ret = -1
         then (let (_, w) = obex_delete_socket E w s in Some (ret, set_fd w INVALID_SOCKET))
         else Some (ret, set_trans w (t_mtu_update (\<lambda>_. OBEX_DEFAULT_MTU)))) })"

definition inobex_disconnect_request :: "'e env \<Rightarrow> 'e world \<Rightarrow> int \<times> 'e world" where
  "inobex_disconnect_request E w =
     (let (ret, w) = obex_delete_socket E w (fd (hnd w)) in
      if ret < 0 then (ret, w) else (ret, set_fd w INVALID_SOCKET))"

definition inobex_disconnect_server :: "'e env \<Rightarrow> 'e world \<Rightarrow> int \<times> 'e world" where
  "inobex_disconnect_server E w =
     (let (ret, w) = obex_delete_socket E w (serverfd (hnd w)) in (ret, set_serverfd w INVALID_SOCKET))"

section \<open>Bluetooth\<close>

abbreviation "BDADDR_ANY \<equiv> (replicate 6 0 :: byte list)"

definition btobex_prepare_connect :: "'e world \<Rightarrow> byte list \<Rightarrow> byte list \<Rightarrow> byte \<Rightarrow> 'e world" where
  "btobex_prepare_connect w src dst channel =
     set_trans w (\<lambda>t. t\<lparr>t_self := SA_RFCOMM src 0, t_peer := SA_RFCOMM dst channel\<rparr>)"

definition btobex_prepare_listen :: "'e world \<Rightarrow> byte list \<Rightarrow> byte \<Rightarrow> 'e world" where
  "btobex_prepare_listen w src channel = set_trans w (t_self_update (\<lambda>_. SA_RFCOMM src channel))"

text \<open>\<open>out_freesock\<close> of a listening socket and of a connecting one.\<close>

definition free_serversock :: "'e env \<Rightarrow> 'e world \<Rightarrow> int \<times> 'e world" where
  "free_serversock E w =
     (let (_, w) = obex_delete_socket E w (serverfd (hnd w)) in (-1, set_serverfd w INVALID_SOCKET))"

definition free_sock :: "'e env \<Rightarrow> 'e world \<Rightarrow> int \<Rightarrow> int \<times> 'e world" where
  "free_sock E w ret =
     (let (_, w) = obex_delete_socket E w (fd (hnd w)) in (ret, set_fd w INVALID_SOCKET))"

definition btobex_listen :: "'e env \<Rightarrow> 'e world \<Rightarrow> int \<times> 'e world" where
  "btobex_listen E w =
     (let (s, w) = obex_create_socket E w AF_BLUETOOTH; w = set_serverfd w s in
      if s = INVALID_SOCKET then (-1, w)
      else let (r, w) = sys (env_bind E s (t_self (tport (hnd w)))) w in
      if r \<noteq> 0 then free_serversock E w
      else let (r, w) = sys (env_listen E s 1) w in
      if r \<noteq> 0 then free_serversock E w else (1, w))"

definition btobex_accept :: "'e env \<Rightarrow> 'e world \<Rightarrow> int \<times> 'e world" where
  "btobex_accept E w =
     (let ((s, peer), w) = sys (env_accept E (serverfd (hnd w))) w; w = set_fd w s in
      if s = INVALID_SOCKET then (-1, w)
      else (0, set_trans w (\<lambda>t. t\<lparr>t_peer := peer, t_mtu := OBEX_DEFAULT_MTU\<rparr>)))"

text \<open>The socket the handle already has, or a new one.\<close>

definition need_socket :: "'e env \<Rightarrow> 'e world \<Rightarrow> nat \<Rightarrow> 'e world" where
  "need_socket E w domain =
     (if fd (hnd w) = INVALID_SOCKET
      then (let (s, w) = obex_create_socket E w domain in set_fd w s) else w)"

definition btobex_connect_request :: "'e env \<Rightarrow> 'e world \<Rightarrow> int \<times> 'e world" where
  "btobex_connect_request E w =
     (let w = need_socket E w AF_BLUETOOTH; s = fd (hnd w) in
      if s = INVALID_SOCKET then (-1, w)
      else let (ret, w) = sys (env_bind E s (t_self (tport (hnd w)))) w in
      if ret < 0 then free_sock E w ret
      else let (ret, w) = sys (env_connect E s (t_peer (tport (hnd w)))) w in
      if ret = -1 then free_sock E w ret
      else (1, set_trans w (t_mtu_update (\<lambda>_. OBEX_DEFAULT_MTU))))"

definition btobex_disconnect_request :: "'e env \<Rightarrow> 'e world \<Rightarrow> int \<times> 'e world" where
  "btobex_disconnect_request E w =
     (let (ret, w) = obex_delete_socket E w (fd (hnd w)) in
      if ret < 0 then (ret, w) else (ret, set_fd w INVALID_SOCKET))"

definition btobex_disconnect_server :: "'e env \<Rightarrow> 'e world \<Rightarrow> int \<times> 'e world" where
  "btobex_disconnect_server E w =
     (let (ret, w) = obex_delete_socket E w (serverfd (hnd w)) in (ret, set_serverfd w INVALID_SOCKET))"

section \<open>IrDA\<close>

definition irda_of :: "saddr \<Rightarrow> sockaddr_irda option" where
  "irda_of a = (case a of SA_NONE \<Rightarrow> Some \<lparr>sir_addr = 0, sir_name = replicate 25 0\<rparr>
     | SA_IRDA x \<Rightarrow> Some x | _ \<Rightarrow> None)"

definition irobex_no_addr :: "sockaddr_irda \<Rightarrow> bool" where
  "irobex_no_addr addr \<longleftrightarrow> sir_addr addr = 0 \<or> sir_addr addr = 0xFFFFFFFF"

text \<open>\<open>strncpy\<close> of at most 25 characters pads with zeros and may leave out the terminator.\<close>

definition strncpy25 :: "byte list \<Rightarrow> byte list" where
  "strncpy25 s = take 25 (s @ replicate 25 0)"

abbreviation "IR_OBEX \<equiv> ([79, 66, 69, 88] :: byte list)"

definition irobex_prepare_connect :: "'e world \<Rightarrow> byte list option \<Rightarrow> 'e world option" where
  "irobex_prepare_connect w service = do {
     peer \<leftarrow> irda_of (t_peer (tport (hnd w)));
     (let name = (case service of Some s \<Rightarrow> strncpy25 s | None \<Rightarrow> IR_OBEX @ [0] @ drop 5 (sir_name peer))
      in Some (set_trans w (t_peer_update (\<lambda>_. SA_IRDA (peer\<lparr>sir_name := name\<rparr>))))) }"

definition irobex_prepare_listen :: "'e world \<Rightarrow> byte list option \<Rightarrow> 'e world option" where
  "irobex_prepare_listen w service = do {
     self \<leftarrow> irda_of (t_self (tport (hnd w)));
     (let name = (case service of Some s \<Rightarrow> strncpy25 s | None \<Rightarrow> strncpy25 IR_OBEX)
      in Some (set_trans w (t_self_update (\<lambda>_. SA_IRDA (self\<lparr>sir_name := name\<rparr>))))) }"

text \<open>The hint bits: extension and OBEX; the other two bytes are not initialised.\<close>

abbreviation "OBEX_HINTS \<equiv> ([0x80, 0x20] :: byte list)"

definition irobex_listen :: "'e env \<Rightarrow> 'e world \<Rightarrow> int \<times> 'e world" where
  "irobex_listen E w =
     (let (s, w) = obex_create_socket E w AF_IRDA; w = set_serverfd w s in
      if s = INVALID_SOCKET then (-1, w)
      else let (r, w) = sys (env_bind E s (t_self (tport (hnd w)))) w in
      if r \<noteq> 0 then free_serversock E w
      else let (_, w) = sys (ir_set_hints (env_irda E) s OBEX_HINTS) w;
               (r, w) = sys (env_listen E s 1) w in
      if r \<noteq> 0 then free_serversock E w else (1, w))"

definition irobex_accept :: "'e env \<Rightarrow> 'e world \<Rightarrow> int \<times> 'e world" where
  "irobex_accept E w =
     (let ((s, peer), w) = sys (env_accept E (serverfd (hnd w))) w; w = set_fd w s in
      if s = INVALID_SOCKET then (-1, w)
      else let w = set_trans w (t_peer_update (\<lambda>_. peer));
               ((r, mtu), w) = sys (ir_max_sdu (env_irda E) s) w in
      if r \<noteq> 0 then (-1, w) else (1, set_trans w (t_mtu_update (\<lambda>_. mtu))))"

text \<open>
  The walk over the discovered devices, with the local and the remote address of each. \<open>strcpy\<close> of the
  service name needs its terminator.
\<close>

fun irobex_pick :: "'e env \<Rightarrow> (32 word \<times> 32 word) list \<Rightarrow> int \<Rightarrow> 'e world \<Rightarrow> (int \<times> 'e world) option" where
  "irobex_pick E [] ret w = Some (ret, w)"
| "irobex_pick E ((saddr, daddr) # devs) ret w = do {
     peer \<leftarrow> irda_of (t_peer (tport (hnd w)));
     self \<leftarrow> irda_of (t_self (tport (hnd w)));
     (err, w) \<leftarrow>
       (if filterias (hnd w)
        then (if 0 \<notin> set (sir_name peer) then None
              else Some (sys (ir_ias_query (env_irda E) (fd (hnd w)) daddr (takeWhile (\<lambda>c. c \<noteq> 0) (sir_name peer))) w))
        else Some (0, w));
     (if err \<noteq> 0 then irobex_pick E devs ret w
      else irobex_pick E devs 0 (set_trans w (\<lambda>t. t\<lparr>t_peer := SA_IRDA (peer\<lparr>sir_addr := daddr\<rparr>),
                                                   t_self := SA_IRDA (self\<lparr>sir_addr := saddr\<rparr>)\<rparr>))) }"

definition irobex_discover_devices :: "'e env \<Rightarrow> 'e world \<Rightarrow> (int \<times> 'e world) option" where
  "irobex_discover_devices E w =
     (let (r, w) = (if filterhint (hnd w) then sys (ir_set_hint_mask (env_irda E) (fd (hnd w)) OBEX_HINTS) w
                    else (0, w)) in
      if r \<noteq> 0 then Some (-1, w)
      else let ((r, devs), w) = sys (ir_devices (env_irda E) (fd (hnd w))) w in
      if r \<noteq> 0 then Some (-1, w)
      else if devs = [] then Some (-1, w)
      else irobex_pick E devs (-1) w)"

definition irobex_connect_request :: "'e env \<Rightarrow> 'e world \<Rightarrow> (int \<times> 'e world) option" where
  "irobex_connect_request E w =
     (let w = need_socket E w AF_IRDA; s = fd (hnd w) in
      if s = INVALID_SOCKET then Some (-1, w)
      else do {
        peer \<leftarrow> irda_of (t_peer (tport (hnd w)));
        (ret, w) \<leftarrow> (if irobex_no_addr peer then irobex_discover_devices E w else Some (0, w));
        (if ret < 0 then Some (free_sock E w ret)
         else let (ret, w) = sys (env_connect E s (t_peer (tport (hnd w)))) w in
         if ret < 0 then Some (free_sock E w ret)
         else let ((ret, mtu), w) = sys (ir_max_sdu (env_irda E) s) w in
         if ret < 0 then Some (free_sock E w ret)
         else Some (1, set_trans w (t_mtu_update (\<lambda>_. mtu)))) })"

definition irobex_disconnect_request :: "'e env \<Rightarrow> 'e world \<Rightarrow> int \<times> 'e world" where
  "irobex_disconnect_request E w =
     (let (ret, w) = obex_delete_socket E w (fd (hnd w)) in
      if ret < 0 then (ret, w) else (ret, set_fd w INVALID_SOCKET))"

definition irobex_disconnect_server :: "'e env \<Rightarrow> 'e world \<Rightarrow> int \<times> 'e world" where
  "irobex_disconnect_server E w =
     (let (ret, w) = obex_delete_socket E w (serverfd (hnd w)) in (ret, set_serverfd w INVALID_SOCKET))"

section \<open>Properties\<close>

text \<open>
  What POSIX promises of descriptors: \<open>opened\<close> is the set of the open ones. A new socket is not yet
  open, \<open>close\<close> closes what it is given, the other calls keep the set, and \<open>connect\<close> returns 0 or -1.
\<close>

definition socket_contract :: "('e \<Rightarrow> int set) \<Rightarrow> 'e env \<Rightarrow> bool" where
  "socket_contract opened E \<longleftrightarrow>
     (\<forall>d p e. if fst (env_socket E d p e) = -1 then opened (snd (env_socket E d p e)) = opened e
        else fst (env_socket E d p e) \<notin> opened e
          \<and> opened (snd (env_socket E d p e)) = insert (fst (env_socket E d p e)) (opened e))
     \<and> (\<forall>s e. opened (snd (env_close E s e)) = opened e - {s})
     \<and> (\<forall>s e. opened (snd (env_v6only E s e)) = opened e) \<and> (\<forall>s a e. opened (snd (env_bind E s a e)) = opened e)
     \<and> (\<forall>s n e. opened (snd (env_listen E s n e)) = opened e) \<and> (\<forall>s a e. opened (snd (env_connect E s a e)) = opened e)
     \<and> (\<forall>s a e. fst (env_connect E s a e) \<in> {0, -1})
     \<and> (\<forall>s h e. opened (snd (ir_set_hints (env_irda E) s h e)) = opened e)
     \<and> (\<forall>s h e. opened (snd (ir_set_hint_mask (env_irda E) s h e)) = opened e)
     \<and> (\<forall>s e. opened (snd (ir_max_sdu (env_irda E) s e)) = opened e)
     \<and> (\<forall>s e. opened (snd (ir_devices (env_irda E) s e)) = opened e)
     \<and> (\<forall>s a n e. opened (snd (ir_ias_query (env_irda E) s a n e)) = opened e)"

lemma sys_fst_snd: "sys call w = (fst (call (ext w)), w\<lparr>ext := snd (call (ext w))\<rparr>)"
  by (simp add: sys_def split_def Let_def)

lemma contract_simps:
  assumes "socket_contract opened E"
  shows "opened (snd (env_close E s e)) = opened e - {s}"
    "opened (snd (env_v6only E s e)) = opened e" "opened (snd (env_bind E s a e)) = opened e"
    "opened (snd (env_listen E s n e)) = opened e" "opened (snd (env_connect E s a e)) = opened e"
    "opened (snd (ir_set_hints (env_irda E) s h e)) = opened e"
    "opened (snd (ir_set_hint_mask (env_irda E) s h e)) = opened e"
    "opened (snd (ir_max_sdu (env_irda E) s e)) = opened e"
    "opened (snd (ir_devices (env_irda E) s e)) = opened e"
    "opened (snd (ir_ias_query (env_irda E) s b h e)) = opened e"
    "fst (env_socket E d p e) = -1 \<Longrightarrow> opened (snd (env_socket E d p e)) = opened e"
    "fst (env_socket E d p e) \<noteq> -1 \<Longrightarrow> fst (env_socket E d p e) \<notin> opened e"
    "fst (env_socket E d p e) \<noteq> -1 \<Longrightarrow>
      opened (snd (env_socket E d p e)) = insert (fst (env_socket E d p e)) (opened e)"
  using assms unfolding socket_contract_def by metis+

lemma keeps_sys:
  assumes "socket_contract opened E"
  shows "sys (env_v6only E s) w = (r, w') \<Longrightarrow> opened (ext w') = opened (ext w) \<and> hnd w' = hnd w"
    "sys (env_bind E s a) w = (r, w') \<Longrightarrow> opened (ext w') = opened (ext w) \<and> hnd w' = hnd w"
    "sys (env_listen E s n) w = (r, w') \<Longrightarrow> opened (ext w') = opened (ext w) \<and> hnd w' = hnd w"
    "sys (env_connect E s a) w = (r, w') \<Longrightarrow> opened (ext w') = opened (ext w) \<and> hnd w' = hnd w \<and> (r = 0 \<or> r = -1)"
    "sys (ir_max_sdu (env_irda E) s) w = (p, w') \<Longrightarrow> opened (ext w') = opened (ext w) \<and> hnd w' = hnd w"
  using contract_simps [OF assms] assms by (auto simp: sys_fst_snd) (simp add: socket_contract_def, fastforce)

lemmas socket_defs = obex_create_socket_def obex_delete_socket_def free_serversock_def free_sock_def need_socket_def
  sys_fst_snd split_def Let_def

text \<open>
  C18: listening on Bluetooth and on IrDA is all or nothing. When it succeeds one socket more is open,
  the server socket of the handle; when it fails at whatever step, the open sockets are those from
  before and the handle has no server socket.
\<close>

theorem listen_all_or_nothing:
  assumes "socket_contract opened E" and "(r, w') \<in> {btobex_listen E w, irobex_listen E w}"
  shows "if r = 1 then serverfd (hnd w') \<notin> opened (ext w) \<and> opened (ext w') = insert (serverfd (hnd w')) (opened (ext w))
     else r = -1 \<and> serverfd (hnd w') = -1 \<and> opened (ext w') = opened (ext w)"
proof -
  note simps = contract_simps [OF assms(1)]
  have "if fst p = 1 then serverfd (hnd (snd p)) \<notin> opened (ext w)
        \<and> opened (ext (snd p)) = insert (serverfd (hnd (snd p))) (opened (ext w))
     else fst p = -1 \<and> serverfd (hnd (snd p)) = -1 \<and> opened (ext (snd p)) = opened (ext w)"
    if "p = btobex_listen E w \<or> p = irobex_listen E w" for p
    using that
    by (elim disjE) (simp add: btobex_listen_def irobex_listen_def socket_defs simps)+
  moreover have "(r, w') = btobex_listen E w \<or> (r, w') = irobex_listen E w" using assms(2) by simp
  ultimately have "if fst (r, w') = 1 then serverfd (hnd (snd (r, w'))) \<notin> opened (ext w)
        \<and> opened (ext (snd (r, w'))) = insert (serverfd (hnd (snd (r, w')))) (opened (ext w))
     else fst (r, w') = -1 \<and> serverfd (hnd (snd (r, w'))) = -1 \<and> opened (ext (snd (r, w'))) = opened (ext w)"
    by blast
  then show ?thesis by (simp only: fst_conv snd_conv)
qed

text \<open>The outcome of opening a connection on a handle \<open>w\<close> without a socket.\<close>

definition conn_ok :: "('e \<Rightarrow> int set) \<Rightarrow> 'e world \<Rightarrow> int \<times> 'e world \<Rightarrow> bool" where
  "conn_ok opened w = (\<lambda>(r, w'). if r \<ge> 0
     then fd (hnd w') \<noteq> -1 \<and> fd (hnd w') \<notin> opened (ext w) \<and> opened (ext w') = insert (fd (hnd w')) (opened (ext w))
     else fd (hnd w') = -1 \<and> opened (ext w') = opened (ext w))"

text \<open>Discovery touches neither the sockets nor the descriptors of the handle.\<close>

lemma irobex_pick_keeps:
  assumes "socket_contract opened E"
  shows "okres (\<lambda>(r, w'). opened (ext w') = opened (ext w) \<and> fd (hnd w') = fd (hnd w)) (irobex_pick E devs ret w)"
proof (induction devs arbitrary: ret w)
  case (Cons d devs)
  note simps = contract_simps [OF assms]
  show ?case
  proof (cases d)
    case (Pair saddr daddr)
    have ih: "okres (\<lambda>(r, w'). opened (ext w') = opened (ext w) \<and> fd (hnd w') = fd (hnd w)) (irobex_pick E devs ret w1)"
      if "opened (ext w1) = opened (ext w)" "fd (hnd w1) = fd (hnd w)" for w1 ret
      using Cons.IH [of w1 ret] that by (simp add: split_def)
    show ?thesis unfolding Pair irobex_pick.simps
      by (auto intro!: okresI [where r = "irda_of a" for a] ih simp: sys_fst_snd simps)
  qed
qed simp

lemma irobex_discover_keeps:
  assumes "socket_contract opened E"
  shows "okres (\<lambda>(r, w'). opened (ext w') = opened (ext w) \<and> fd (hnd w') = fd (hnd w)) (irobex_discover_devices E w)"
proof -
  note simps = contract_simps [OF assms]
  have "okres (\<lambda>(r, w'). opened (ext w') = opened (ext w) \<and> fd (hnd w') = fd (hnd w)) (irobex_pick E devs ret w1)"
      if "opened (ext w1) = opened (ext w)" "fd (hnd w1) = fd (hnd w)" for w1 ret devs
      using irobex_pick_keeps [OF assms, of w1 devs ret] that by (simp add: split_def)
  then show ?thesis unfolding irobex_discover_devices_def Let_def sys_fst_snd split_def
    by (auto simp: simps split_def)
qed

lemma conn_ok_success:
  "0 \<le> r \<Longrightarrow> fd (hnd w') = s \<Longrightarrow> s \<noteq> -1 \<Longrightarrow> s \<notin> opened (ext w) \<Longrightarrow> opened (ext w') = insert s (opened (ext w))
   \<Longrightarrow> conn_ok opened w (r, w')"
  by (simp add: conn_ok_def)

lemma conn_ok_failure:
  "r < 0 \<Longrightarrow> fd (hnd w') = -1 \<Longrightarrow> opened (ext w') = opened (ext w) \<Longrightarrow> conn_ok opened w (r, w')"
  by (simp add: conn_ok_def)

lemma conn_ok_free:
  assumes "socket_contract opened E" and "r < 0" and "fd (hnd w') = s" and "s \<noteq> -1"
    and "s \<notin> opened (ext w)" and "opened (ext w') = insert s (opened (ext w))"
  shows "conn_ok opened w (free_sock E w' r)"
  using assms by (simp add: conn_ok_def free_sock_def obex_delete_socket_def sys_fst_snd split_def contract_simps Let_def)

text \<open>A new socket for the handle.\<close>

lemma create_socket_cases:
  assumes "socket_contract opened E" and "obex_create_socket E w d = (s, w1)"
  obtains "s = -1" "opened (ext w1) = opened (ext w)" "hnd w1 = hnd w"
    | "s \<noteq> -1" "s \<notin> opened (ext w)" "opened (ext w1) = insert s (opened (ext w))" "hnd w1 = hnd w"
  using assms(2) contract_simps(11-13) [OF assms(1)]
  by (cases "s = -1") (auto simp: obex_create_socket_def sys_fst_snd Let_def)

lemma inobex_connect_ok:
  assumes ct: "socket_contract opened E" and "fd (hnd w) = -1"
  shows "okres (conn_ok opened w) (inobex_connect_request E w)"
proof -
  obtain s w1 where c: "obex_create_socket E w AF_INET6 = (s, w1)" by fastforce
  from ct c show ?thesis
  proof (cases rule: create_socket_cases)
    case 1
    then show ?thesis by (simp add: inobex_connect_request_def c conn_ok_def)
  next
    case 2
    have free: "conn_ok opened w (r, set_fd w3 (-1))"
      if "obex_delete_socket E w2 s = (x, w3)" "opened (ext w2) = opened (ext w1)" "r = -1" for w2 w3 r x
      using that 2 by (auto simp: conn_ok_def obex_delete_socket_def sys_fst_snd contract_simps [OF ct])
    show ?thesis using 2
      unfolding inobex_connect_request_def c Let_def
      by (auto intro!: okresI [where r = "sin6_of a" for a] conn_ok_success [where s = s] free split: prod.splits dest!: keeps_sys [OF ct])
  qed
qed

lemma need_socket_cases:
  assumes "socket_contract opened E" and "fd (hnd w) = -1"
  obtains "fd (hnd (need_socket E w d)) = -1" "opened (ext (need_socket E w d)) = opened (ext w)"
    | s where "s \<noteq> -1" "fd (hnd (need_socket E w d)) = s" "s \<notin> opened (ext w)"
      "opened (ext (need_socket E w d)) = insert s (opened (ext w))"
proof -
  obtain s w1 where c: "obex_create_socket E w d = (s, w1)" by fastforce
  from assms(1) c show ?thesis
    by (cases rule: create_socket_cases) (use that assms(2) c in \<open>simp_all add: need_socket_def\<close>)
qed

lemma btobex_connect_ok:
  assumes ct: "socket_contract opened E" and "fd (hnd w) = -1"
  shows "conn_ok opened w (btobex_connect_request E w)"
proof -
  define w1 where "w1 = need_socket E w AF_BLUETOOTH"
  from assms show ?thesis
  proof (cases rule: need_socket_cases [where d = AF_BLUETOOTH])
    case 1
    then show ?thesis by (simp add: btobex_connect_request_def conn_ok_def)
  next
    case (2 s)
    then show ?thesis
      unfolding btobex_connect_request_def Let_def
      by (auto intro!: conn_ok_success [where s = s] conn_ok_free [OF ct, where s = s] split: prod.splits dest!: keeps_sys [OF ct])
  qed
qed

lemma irobex_connect_ok:
  fixes E :: "'e env"
  assumes ct: "socket_contract opened E" and "fd (hnd w) = -1"
  shows "okres (conn_ok opened w) (irobex_connect_request E w)"
proof -
  define w1 where "w1 = need_socket E w AF_IRDA"
  from assms show ?thesis
  proof (cases rule: need_socket_cases [where d = AF_IRDA])
    case 1
    then show ?thesis by (simp add: irobex_connect_request_def conn_ok_def)
  next
    case (2 s)
    note s = 2 [folded w1_def]
    have disc: "okres (\<lambda>(r, w'). opened (ext w') = insert s (opened (ext w)) \<and> fd (hnd w') = s)
        (if irobex_no_addr peer then irobex_discover_devices E w1 else Some (0, w1))" for peer
      using irobex_discover_keeps [OF ct, of w1] s by simp
    have tail: "okres (conn_ok opened w)
         (if ret < 0 then Some (free_sock E w2 ret)
          else let (ret, w) = sys (env_connect E s (t_peer (tport (hnd w2)))) w2 in
          if ret < 0 then Some (free_sock E w ret)
          else let ((ret, mtu), w) = sys (ir_max_sdu (env_irda E) s) w in
          if ret < 0 then Some (free_sock E w ret)
          else Some (1, set_trans w (t_mtu_update (\<lambda>_. mtu))))"
      if "opened (ext w2) = insert s (opened (ext w))" "fd (hnd w2) = s" for ret w2
      using that s unfolding Let_def
      by (auto intro!: conn_ok_success [where s = s] conn_ok_free [OF ct, where s = s] split: prod.splits dest!: keeps_sys [OF ct])
    have "okres (conn_ok opened w) (do {
        peer \<leftarrow> irda_of (t_peer (tport (hnd w1)));
        (ret, w) \<leftarrow> (if irobex_no_addr peer then irobex_discover_devices E w1 else Some (0, w1));
        (if ret < 0 then Some (free_sock E w ret)
         else let (ret, w) = sys (env_connect E s (t_peer (tport (hnd w)))) w in
         if ret < 0 then Some (free_sock E w ret)
         else let ((ret, mtu), w) = sys (ir_max_sdu (env_irda E) s) w in
         if ret < 0 then Some (free_sock E w ret)
         else Some (1, set_trans w (t_mtu_update (\<lambda>_. mtu)))) })"
      unfolding okres_simps
    proof (rule okresI, rule okres_weaken [OF disc])
      fix x :: "int \<times> 'e world"
      assume "case x of (r, w') \<Rightarrow> opened (ext w') = insert s (opened (ext w)) \<and> fd (hnd w') = s"
      then show "okres (conn_ok opened w) (case x of (ret, w) \<Rightarrow>
         if ret < 0 then Some (free_sock E w ret)
         else let (ret, w) = sys (env_connect E s (t_peer (tport (hnd w)))) w in
         if ret < 0 then Some (free_sock E w ret)
         else let ((ret, mtu), w) = sys (ir_max_sdu (env_irda E) s) w in
         if ret < 0 then Some (free_sock E w ret)
         else Some (1, set_trans w (t_mtu_update (\<lambda>_. mtu))))"
        using tail by (cases x) (simp only: prod.case)
    qed
    then show ?thesis
      unfolding irobex_connect_request_def w1_def [symmetric] Let_def s(2) if_not_P [OF s(1)] .
  qed
qed

text \<open>
  C17: connecting over TCP/IP, Bluetooth or IrDA from a handle without a socket is all or nothing in the
  same way, with the connection's socket of the handle.
\<close>

theorem connect_all_or_nothing:
  assumes "socket_contract opened E" and "fd (hnd w) = -1"
    and "Some (r, w') \<in> {inobex_connect_request E w, Some (btobex_connect_request E w), irobex_connect_request E w}"
  shows "if r \<ge> 0 then fd (hnd w') \<notin> opened (ext w) \<and> opened (ext w') = insert (fd (hnd w')) (opened (ext w))
     else fd (hnd w') = -1 \<and> opened (ext w') = opened (ext w)"
proof -
  from assms(3) have "conn_ok opened w (r, w')"
    using okresD [OF inobex_connect_ok [OF assms(1,2)], of "(r, w')"] btobex_connect_ok [OF assms(1,2)]
      okresD [OF irobex_connect_ok [OF assms(1,2)], of "(r, w')"] by (metis insertE option.inject singletonD)
  then show ?thesis by (simp add: conn_ok_def split: if_splits)
qed

text \<open>
  An outside in which every call works and does nothing, and one over it whose state is the list of
  open descriptors and whose \<open>bind\<close> returns \<open>r\<close>.
\<close>

definition calm_env :: "'e env" where
  "calm_env = \<lparr>env_alloc = zero_alloc, env_event = (\<lambda>cb w ob r ev c rsp. Some w),
     env_send = (\<lambda>s d e. (int (length d), e)), env_write = (\<lambda>s d e. (int (length d), e)),
     env_recv = (\<lambda>s n e. ((0, []), e)), env_read = (\<lambda>s n e. ((0, []), e)),
     env_bulk_write = (\<lambda>a d e. ((0, int (length d)), e)), env_bulk_read = (\<lambda>a n e. (((0, 0), []), e)),
     env_ct_connect = (\<lambda>f w c. Some (1, w)), env_ct_disconnect = (\<lambda>f w c. Some (1, w)),
     env_ct_listen = (\<lambda>f w c. Some (1, w)), env_ct_write = (\<lambda>f w c d. Some (int (length d), w)),
     env_ct_handleinput = (\<lambda>f w c t. Some (1, w)), env_select = (\<lambda>fds t e. ((0, []), e)),
     env_socket = (\<lambda>d p e. (3, e)), env_v6only = (\<lambda>s e. (0, e)),
     env_bind = (\<lambda>s a e. (0, e)), env_listen = (\<lambda>s n e. (0, e)),
     env_accept = (\<lambda>s e. ((4, SA_NONE), e)), env_connect = (\<lambda>s a e. (0, e)),
     env_close = (\<lambda>s e. (0, e)), env_inet_ntop = (\<lambda>_. True),
     env_irda = \<lparr>ir_set_hints = (\<lambda>s h e. (0, e)), ir_set_hint_mask = (\<lambda>s h e. (0, e)),
       ir_max_sdu = (\<lambda>s e. ((0, 2048), e)), ir_devices = (\<lambda>s e. ((0, []), e)),
       ir_ias_query = (\<lambda>s a n e. (0, e))\<rparr>,
     env_usb = \<lparr>lu_init = (\<lambda>e. (0, e)), lu_exit = id, lu_devices = (\<lambda>e. (Some [], e)),
       lu_config = (\<lambda>d e. (None, e)), lu_descriptor = (\<lambda>d e. (None, e)), lu_bus = (\<lambda>_. 0),
       lu_address = (\<lambda>_. 0), lu_string = (\<lambda>d i e. ([], e)), lu_open = (\<lambda>d e. ((0, 1), e)),
       lu_call = (\<lambda>c d e. (0, e))\<rparr>\<rparr>"

definition calm_world :: "'e \<Rightarrow> 'e world" where
  "calm_world e = \<lparr>hnd = ex_handle, objs = (\<lambda>_. None), next_addr = 1, ext = e, libusb_ctx = CTX_NULL\<rparr>"

definition socket_env :: "int \<Rightarrow> int list env" where
  "socket_env r = calm_env\<lparr>env_socket := (\<lambda>d p e. (1 + foldr max e 2, (1 + foldr max e 2) # e)),
     env_bind := (\<lambda>s a e. (r, e)), env_close := (\<lambda>s e. (0, removeAll s e))\<rparr>"

definition socket_world :: "int list world" where
  "socket_world = calm_world [3]"

lemma socket_world_ext [simp]: "ext socket_world = [3]"
  by (simp add: socket_world_def calm_world_def)

lemma foldr_max_ge: "x \<in> set e \<Longrightarrow> (x :: int) \<le> foldr max e 2" "2 \<le> foldr max e (2 :: int)"
  by (induction e) auto

lemma foldr_max_less: "x \<in> set e \<Longrightarrow> x < 1 + foldr max e (2 :: int)"
  using foldr_max_ge(1) [of x e] by simp

lemma foldr_max_fresh: "1 + foldr max e (2 :: int) \<notin> set e" "1 + foldr max e (2 :: int) \<noteq> -1"
  using foldr_max_less [of "1 + foldr max e 2" e] foldr_max_ge(2) [of e] by auto

lemma socket_env_contract: "socket_contract set (socket_env r)"
  unfolding socket_contract_def using foldr_max_fresh by (simp add: socket_env_def calm_env_def set_removeAll)

lemma socket_env_run:
  "hnd (snd (btobex_listen (socket_env r) socket_world)) = ex_handle\<lparr>serverfd := (if r = 0 then 4 else -1)\<rparr>"
  "fst (btobex_listen (socket_env r) socket_world) = (if r = 0 then 1 else -1)"
  "ext (snd (btobex_listen (socket_env r) socket_world)) = (if r = 0 then [4, 3] else [3])"
  "hnd (snd (inobex_listen (socket_env r) socket_world)) = ex_handle\<lparr>serverfd := 4\<rparr>"
  "fst (inobex_listen (socket_env r) socket_world) = (if r = 0 then 1 else -1)"
  "ext (snd (inobex_listen (socket_env r) socket_world)) = [4, 3]"
  by (simp_all add: btobex_listen_def inobex_listen_def socket_defs socket_env_def calm_env_def socket_world_def calm_world_def ex_handle_def)

theorem listen_all_or_nothing_witness:
  "\<exists>w'. btobex_listen (socket_env (-1)) socket_world = (-1, w') \<and> serverfd (hnd w') = -1 \<and> set (ext w') = {3}"
proof -
  let ?p = "btobex_listen (socket_env (-1)) socket_world"
  have "if fst ?p = 1 then serverfd (hnd (snd ?p)) \<notin> set (ext socket_world)
        \<and> set (ext (snd ?p)) = insert (serverfd (hnd (snd ?p))) (set (ext socket_world))
     else fst ?p = -1 \<and> serverfd (hnd (snd ?p)) = -1 \<and> set (ext (snd ?p)) = set (ext socket_world)"
    by (rule listen_all_or_nothing [OF socket_env_contract [of "-1"]]) simp
  then show ?thesis by (intro exI [of _ "snd ?p"]) (simp add: socket_env_run prod_eq_iff)
qed

theorem connect_all_or_nothing_witness:
  "\<exists>w'. btobex_connect_request (socket_env (-1)) socket_world = (-1, w') \<and> fd (hnd w') = -1 \<and> set (ext w') = {3}"
proof -
  let ?p = "btobex_connect_request (socket_env (-1)) socket_world"
  have "if fst ?p \<ge> 0 then fd (hnd (snd ?p)) \<notin> set (ext socket_world)
        \<and> set (ext (snd ?p)) = insert (fd (hnd (snd ?p))) (set (ext socket_world))
     else fd (hnd (snd ?p)) = -1 \<and> set (ext (snd ?p)) = set (ext socket_world)"
    by (rule connect_all_or_nothing [OF socket_env_contract [of "-1"]]) (simp_all add: socket_world_def calm_world_def ex_handle_def)
  moreover have "fst ?p = -1"
    by (simp add: btobex_connect_request_def socket_defs socket_env_def calm_env_def socket_world_def calm_world_def ex_handle_def)
  ultimately show ?thesis by (intro exI [of _ "snd ?p"]) (simp add: prod_eq_iff)
qed

text \<open>
  Listening on TCP/IP is not all or nothing: when \<open>bind\<close> or \<open>listen\<close> fails the call returns -1, but the new socket
  stays open and stays the server socket of the handle, on which later calls wait.
\<close>

theorem inobex_listen_leaks:
  assumes "socket_contract opened E" and "inobex_listen E w = (-1, w')" and "serverfd (hnd w') \<noteq> -1"
  shows "serverfd (hnd w') \<notin> opened (ext w) \<and> opened (ext w') = insert (serverfd (hnd w')) (opened (ext w))"
  using assms(2,3) contract_simps [OF assms(1)]
  by (auto simp: inobex_listen_def socket_defs split: if_splits)

theorem inobex_listen_leaks_witness:
  "\<exists>w'. inobex_listen (socket_env (-1)) socket_world = (-1, w') \<and> serverfd (hnd w') = 4 \<and> set (ext w') = {4, 3}"
proof -
  let ?p = "inobex_listen (socket_env (-1)) socket_world"
  have p: "?p = (-1, snd ?p)" using socket_env_run(5) [of "-1"] by (simp add: prod_eq_iff)
  have "serverfd (hnd (snd ?p)) \<notin> set (ext socket_world)
      \<and> set (ext (snd ?p)) = insert (serverfd (hnd (snd ?p))) (set (ext socket_world))"
    by (rule inobex_listen_leaks [OF socket_env_contract p]) (simp add: socket_env_run)
  then show ?thesis using p by (intro exI [of _ "snd ?p"]) (simp add: socket_env_run)
qed

text \<open>The bytes of a number read from four bytes.\<close>

lemma ucast_byte: "(ucast (x AND 0xFF) :: byte) = ucast (x :: 32 word)"
proof -
  have "(0xFF :: 32 word) = mask 8" by (simp add: mask_eq_exp_minus_1)
  show ?thesis unfolding \<open>0xFF = mask 8\<close> by (rule bit_word_eqI) (simp add: bit_simps)
qed

lemma unat_rd32: "unat (rd32 w x y z) = unat w * 16777216 + unat x * 65536 + unat y * 256 + unat z"
proof -
  have "unat w * 16777216 + unat x * 65536 + unat y * 256 + unat z < 4294967296"
    using unat_byte_less [of w] unat_byte_less [of x] unat_byte_less [of y] unat_byte_less [of z] by linarith
  then show ?thesis unfolding rd32_def unat_of_nat by simp
qed

lemma rd32_bytes:
  "ucast (rd32 w x y z AND 0xFF) = z" "ucast (drop_bit 8 (rd32 w x y z) AND 0xFF) = y"
  "ucast (drop_bit 16 (rd32 w x y z) AND 0xFF) = x" "ucast (drop_bit 24 (rd32 w x y z) AND 0xFF) = w"
proof -
  have horner: "unat (rd32 w x y z) = ((unat w * 256 + unat x) * 256 + unat y) * 256 + unat z"
    by (simp add: unat_rd32)
  have step: "(m * 256 + unat v) div 256 = m" "(m * 256 + unat v) mod 256 = unat v" for m and v :: byte
    using unat_byte_less [of v] by simp_all
  have nest: "n div 65536 = n div 256 div 256" "n div 16777216 = n div 256 div 256 div 256" for n :: nat
    by (simp_all add: div_mult2_eq [symmetric])
  have byte: "unat (ucast (drop_bit k v) :: byte) = unat v div 2 ^ k mod 256" for k and v :: "32 word"
    unfolding unsigned_ucast_eq unat_drop_bit_eq by (simp add: drop_bit_eq_div take_bit_eq_mod)
  have byte0: "unat (ucast v :: byte) = unat v mod 256" for v :: "32 word" using byte [of 0 v] by simp
  have two: "(2 :: nat) ^ 8 = 256" "(2 :: nat) ^ 16 = 65536" "(2 :: nat) ^ 24 = 16777216" by simp_all
  show "ucast (rd32 w x y z AND 0xFF) = z"
    unfolding ucast_byte word_unat_eq_iff byte0 horner step by simp
  show "ucast (drop_bit 8 (rd32 w x y z) AND 0xFF) = y"
    "ucast (drop_bit 16 (rd32 w x y z) AND 0xFF) = x" "ucast (drop_bit 24 (rd32 w x y z) AND 0xFF) = w"
    unfolding ucast_byte word_unat_eq_iff byte two horner nest step by simp_all
qed

text \<open>
  The address an IPv4 peer is mapped to. On a little-endian host, where \<open>s_addr\<close> is read from the
  bytes a, b, c, d in memory as a + 256 b + ..., the result is ::FFFF:a.b.c.d; on a big-endian host the
  same code reverses them. Without a port the OBEX port is used.
\<close>

theorem map_ip4to6_byte_order:
  assumes "[a, b, c, d] \<noteq> [0, 0, 0, 0]"
  shows "map_ip4to6 port (rd32 d c b a)
      = \<lparr>sin6_family = 10, sin6_port = (if port = 0 then 650 else port), sin6_flowinfo = 0,
         sin6_addr = replicate 10 0 @ [0xFF, 0xFF, a, b, c, d]\<rparr>
    \<and> sin6_addr (map_ip4to6 port (rd32 a b c d)) = replicate 10 0 @ [0xFF, 0xFF, d, c, b, a]"
proof -
  have "rd32 d c b a \<noteq> 0" "rd32 a b c d \<noteq> 0"
    using assms rd32_bytes [of d c b a] rd32_bytes [of a b c d] by auto
  then show ?thesis by (simp add: map_ip4to6_def rd32_bytes)
qed

theorem map_ip4to6_byte_order_witness:
  "sin6_addr (map_ip4to6 0 0x0100007F) = replicate 10 0 @ [0xFF, 0xFF, 127, 0, 0, 1]"
proof -
  have "rd32 1 0 0 127 = (0x0100007F :: 32 word)" by (simp add: rd32_def)
  then show ?thesis using map_ip4to6_byte_order [of 127 0 0 1 0] by simp
qed

end
