(* ===== verification/Usb.thy ===== *)
theory Usb
  imports Sockets
begin

text \<open>
  lib/usb1obex.c and lib/usbutils.c: discovery of USB OBEX interfaces, their class-specific
  descriptors, and opening and closing an interface with libusb 1. What libusb reads from a device
  and the results of its calls are parameters. The list of interfaces found so far is a list here; the
  static context of libusb is part of the world.
\<close>

abbreviation "ENODEV \<equiv> (19 :: int)"
abbreviation "ENOMEM \<equiv> (12 :: int)"
abbreviation "EINVAL \<equiv> (22 :: int)"
abbreviation "USB_CDC_CLASS \<equiv> (2 :: nat)"
abbreviation "USB_CDC_OBEX_SUBCLASS \<equiv> (11 :: nat)"
abbreviation "USB_DT_CS_INTERFACE \<equiv> (0x24 :: byte)"
abbreviation "CDC_UNION_TYPE \<equiv> (0x06 :: byte)"
abbreviation "CDC_OBEX_SERVICE_ID_TYPE \<equiv> (0x19 :: byte)"

section \<open>Endpoints\<close>

definition usbobex_prepare_connect :: "'e world \<Rightarrow> usb_intf \<Rightarrow> 'e world" where
  "usbobex_prepare_connect w intf = set_trans w (t_self_update (\<lambda>_. SA_USB intf))"

definition ep_in :: "usb_endpoint \<Rightarrow> bool" where
  "ep_in ep \<longleftrightarrow> ep_address ep AND 0x80 \<noteq> 0"

definition ep_bulk :: "usb_endpoint \<Rightarrow> bool" where
  "ep_bulk ep \<longleftrightarrow> ep_attributes ep AND 3 = 2"

text \<open>The interface so far, and whether the active and the idle setting have been found.\<close>

type_synonym eps = "usb_intf \<times> bool \<times> bool"

definition take_eps :: "usb_altsetting \<Rightarrow> usb_endpoint \<Rightarrow> usb_endpoint \<Rightarrow> eps \<Rightarrow> eps" where
  "take_eps s rd wr = (\<lambda>(intf, active, idle).
     (intf\<lparr>ui_active_setting := as_setting s, ui_active_desc := as_desc s,
           ui_endpoint_read := unat (ep_address rd), ui_endpoint_write := unat (ep_address wr)\<rparr>, True, idle))"

definition find_eps :: "usb_altsetting \<Rightarrow> eps \<Rightarrow> eps" where
  "find_eps s p =
     (let p = (case as_endpoints s of
                 [ep0, ep1] \<Rightarrow>
                   (let p = (if ep_in ep0 \<and> ep_bulk ep0 \<and> \<not> ep_in ep1 \<and> ep_bulk ep1
                             then take_eps s ep0 ep1 p else p)
                    in if \<not> ep_in ep0 \<and> ep_bulk ep0 \<and> ep_in ep1 \<and> ep_bulk ep1
                       then take_eps s ep1 ep0 p else p)
               | _ \<Rightarrow> p)
      in if as_endpoints s = []
         then (case p of (intf, active, idle) \<Rightarrow>
           (intf\<lparr>ui_idle_setting := as_setting s, ui_idle_desc := as_desc s\<rparr>, active, True))
         else p)"

section \<open>Descriptors\<close>

text \<open>
  The walk over the extra descriptors of the control interface; \<open>buffer\<close> is the memory from the
  pointer on, the result the pointer to the union descriptor. A descriptor that claims the length 0
  keeps the loop at its place for ever.
\<close>

partial_function (option) union_scan :: "byte list \<Rightarrow> int \<Rightarrow> byte list option \<Rightarrow> byte list option option" where
  "union_scan buffer buflen union_header =
     (if buflen \<le> 0 then Some union_header
      else do {
        d \<leftarrow> mem_read buffer 0 2;
        union_header \<leftarrow>
          (if d ! 1 \<noteq> USB_DT_CS_INTERFACE then Some union_header
           else do {
             t \<leftarrow> mem_read buffer 2 1;
             Some (if t ! 0 = CDC_UNION_TYPE \<and> union_header = None then Some buffer else union_header) });
        union_scan (drop (unat (d ! 0)) buffer) (buflen - int (unat (d ! 0))) union_header })"

definition find_obex_data_interface ::
    "byte list option \<Rightarrow> int \<Rightarrow> usb_config \<Rightarrow> usb_intf \<Rightarrow> (int \<times> usb_intf) option" where
  "find_obex_data_interface buffer buflen config intf =
     (case buffer of None \<Rightarrow> Some (- EINVAL, intf)
      | Some b \<Rightarrow> do {
          union_header \<leftarrow> union_scan b buflen None;
          (case union_header of None \<Rightarrow> Some (- ENODEV, intf)
           | Some u \<Rightarrow> do {
               slave \<leftarrow> mem_read u 4 1;
               (let intf = intf\<lparr>ui_data_interface := unat (slave ! 0)\<rparr>;
                    (intf, active, idle) = fold (\<lambda>s p. if as_number s = ui_data_interface (fst p) then find_eps s p else p)
                       (concat (uc_interfaces config)) (intf, False, False)
                in if \<not> idle then Some (- ENODEV, intf)
                   else if \<not> active then Some (- ENODEV, intf)
                   else Some (0, intf)) }) })"

text \<open>
  The walk for the service descriptor goes through a \<open>char\<close> pointer, and \<open>char\<close> is signed here: a
  length byte of 128 or more moves the pointer back. \<open>m\<close> is the block, \<open>pos\<close> the pointer.
\<close>

definition char_at :: "byte list \<Rightarrow> int \<Rightarrow> byte option" where
  "char_at m pos = (if 0 \<le> pos \<and> pos < int (length m) then Some (m ! nat pos) else None)"

abbreviation "WMC_DEFAULT_OBEX_SERVER_UUID \<equiv> ([0x02, 0xae, 0xb3, 0x20, 0xf6, 0x49, 0x11, 0xda,
  0x97, 0x4d, 0x08, 0x00, 0x20, 0x0c, 0x9a, 0x66] :: byte list)"

definition service_at :: "byte list \<Rightarrow> usb_service option" where
  "service_at d = do {
     f \<leftarrow> mem_read d 0 22;
     (let uuid = take 16 (drop 4 f) in
      Some \<lparr>us_role = f ! 3, us_uuid = uuid,
        us_version = ucast (push_bit 8 (scast (f ! 20) :: 32 word) OR scast (f ! 21)),
        us_default_uuid = (uuid = WMC_DEFAULT_OBEX_SERVER_UUID)\<rparr>) }"

partial_function (option) service_scan ::
    "alloc \<Rightarrow> byte list \<Rightarrow> int \<Rightarrow> int \<Rightarrow> usb_service option \<Rightarrow> usb_service option option" where
  "service_scan A m pos buflen service =
     (if buflen \<le> 0 then Some service
      else do {
        typ \<leftarrow> char_at m (pos + 1);
        service \<leftarrow>
          (if typ \<noteq> USB_DT_CS_INTERFACE then Some service
           else do {
             sub \<leftarrow> char_at m (pos + 2);
             (if sub = CDC_OBEX_SERVICE_ID_TYPE \<and> \<not> buflen < 22 \<and> service = None \<and> malloc_ok A 24
              then do { s \<leftarrow> service_at (drop (nat pos) m); Some (Some s) }
              else Some service) });
        len \<leftarrow> char_at m pos;
        service_scan A m (pos + sint len) (buflen - sint len) service })"

definition find_obex_service_descriptor ::
    "alloc \<Rightarrow> byte list option \<Rightarrow> int \<Rightarrow> usb_service option \<Rightarrow> usb_service option option" where
  "find_obex_service_descriptor A buffer buflen service =
     (case buffer of None \<Rightarrow> Some service | Some m \<Rightarrow> service_scan A m 0 buflen service)"

section \<open>Discovery\<close>

definition get_intf_string ::
    "'e env \<Rightarrow> ptr \<Rightarrow> nat \<Rightarrow> 'e world \<Rightarrow> string option \<times> 'e world" where
  "get_intf_string E usb_handle k w =
     (if k \<noteq> 0 \<and> malloc_ok (env_alloc E) 256
      then (let (s, w) = sys (lu_string (env_usb E) usb_handle k) w in (Some s, w)) else (None, w))"

definition intf_blank :: usb_intf where
  "intf_blank = \<lparr>ui_configuration = 0, ui_configuration_desc = 0, ui_control_interface = 0,
     ui_control_setting = 0, ui_control_desc = 0, ui_extra = None, ui_extra_len = 0, ui_data_interface = 0,
     ui_idle_setting = 0, ui_idle_desc = 0, ui_active_setting = 0, ui_active_desc = 0, ui_endpoint_read = 0,
     ui_endpoint_write = 0, ui_device = 0, ui_dev = 0\<rparr>"

text \<open>Fields that are not assigned hold what the allocation held; they are never read before.\<close>

definition check_intf ::
    "alloc \<Rightarrow> ptr \<Rightarrow> usb_config \<Rightarrow> usb_altsetting \<Rightarrow> usb_intf list \<Rightarrow> usb_intf list option" where
  "check_intf A dev conf_desc s current =
     (if as_class s = USB_CDC_CLASS \<and> as_subclass s = USB_CDC_OBEX_SUBCLASS \<and> malloc_ok A 112
      then (let buflen = (case as_extra s of None \<Rightarrow> 0 | Some b \<Rightarrow> length b);
                extra = (if malloc_ok A buflen then Some (case as_extra s of None \<Rightarrow> [] | Some b \<Rightarrow> b) else None);
                intf = intf_blank\<lparr>ui_device := dev, ui_configuration := uc_value conf_desc,
                  ui_configuration_desc := uc_desc conf_desc, ui_control_interface := as_number s,
                  ui_control_desc := as_desc s, ui_control_setting := as_setting s,
                  ui_extra := extra, ui_extra_len := int buflen\<rparr>
            in do {
              (err, intf) \<leftarrow> find_obex_data_interface (as_extra s) (int buflen) conf_desc intf;
              Some (if err \<noteq> 0 then current else current @ [intf]) })
      else Some current)"

fun check_settings ::
    "alloc \<Rightarrow> ptr \<Rightarrow> usb_config \<Rightarrow> usb_altsetting list \<Rightarrow> usb_intf list \<Rightarrow> usb_intf list option" where
  "check_settings A dev conf_desc [] current = Some current"
| "check_settings A dev conf_desc (s # ss) current = do {
     current \<leftarrow> check_intf A dev conf_desc s current; check_settings A dev conf_desc ss current }"

fun check_devices :: "'e env \<Rightarrow> ptr list \<Rightarrow> usb_intf list \<Rightarrow> 'e world \<Rightarrow> (usb_intf list \<times> 'e world) option" where
  "check_devices E [] current w = Some (current, w)"
| "check_devices E (d # ds) current w =
     (let (conf, w) = sys (lu_config (env_usb E) d) w in do {
        current \<leftarrow> (case conf of None \<Rightarrow> Some current
          | Some c \<Rightarrow> check_settings (env_alloc E) d c (concat (uc_interfaces c)) current);
        check_devices E ds current w })"

definition interface_blank :: "usb_intf \<Rightarrow> usb_interface" where
  "interface_blank intf = \<lparr>if_intf = intf, if_manufacturer = None, if_product = None, if_serial = None,
     if_configuration = None, if_control = None, if_idle = None, if_active = None, if_service = None,
     if_vendor = 0, if_product_id = 0, if_bus = 0, if_address = 0, if_number = 0\<rparr>"

definition read_strings :: "'e env \<Rightarrow> ptr \<Rightarrow> usb_device \<Rightarrow> usb_intf \<Rightarrow> usb_interface \<Rightarrow> 'e world \<Rightarrow> usb_interface \<times> 'e world" where
  "read_strings E h desc c i w =
     (let (manufacturer, w) = get_intf_string E h (ud_manufacturer desc) w;
          (product, w) = get_intf_string E h (ud_product desc) w;
          (serial, w) = get_intf_string E h (ud_serial desc) w;
          (configuration, w) = get_intf_string E h (ui_configuration_desc c) w;
          (control, w) = get_intf_string E h (ui_control_desc c) w;
          (idle, w) = get_intf_string E h (ui_idle_desc c) w;
          (active, w) = get_intf_string E h (ui_active_desc c) w
      in (i\<lparr>if_manufacturer := manufacturer, if_product := product, if_serial := serial,
            if_configuration := configuration, if_control := control, if_idle := idle, if_active := active,
            if_vendor := ud_vendor desc, if_product_id := ud_product_id desc,
            if_bus := lu_bus (env_usb E) (ui_device c), if_address := lu_address (env_usb E) (ui_device c),
            if_number := ui_control_interface c\<rparr>, w))"

definition describe_interface :: "'e env \<Rightarrow> usb_intf \<Rightarrow> 'e world \<Rightarrow> (usb_interface \<times> 'e world) option" where
  "describe_interface E c w =
     (let ((r, h), w) = sys (lu_open (env_usb E) (ui_device c)) w; i = interface_blank c in
      if r \<noteq> 0 then Some (i, w)
      else (let (desc, w) = sys (lu_descriptor (env_usb E) (ui_device c)) w;
                (i, w) = (case desc of None \<Rightarrow> (i, w) | Some d \<Rightarrow> read_strings E h d c i w) in do {
        service \<leftarrow> find_obex_service_descriptor (env_alloc E) (ui_extra c) (ui_extra_len c) None;
        (let (_, w) = sys (lu_call (env_usb E) UsbClose h) w in Some (i\<lparr>if_service := service\<rparr>, w)) }))"

fun describe_interfaces :: "'e env \<Rightarrow> usb_intf list \<Rightarrow> 'e world \<Rightarrow> (usb_interface list \<times> 'e world) option" where
  "describe_interfaces E [] w = Some ([], w)"
| "describe_interfaces E (c # cs) w = do {
     (i, w) \<leftarrow> describe_interface E c w; (rest, w) \<leftarrow> describe_interfaces E cs w; Some (i # rest, w) }"

text \<open>
  The result is the number of interfaces, with the array when it could be allocated. When the
  device list cannot be had, libusb returns a negative number, which becomes a huge count of
  devices in a list that was not stored.
\<close>

definition usbobex_find_interfaces :: "'e env \<Rightarrow> 'e world \<Rightarrow> (int \<times> usb_interface list option \<times> 'e world) option" where
  "usbobex_find_interfaces E w =
     (let (err, w) = (if libusb_ctx w = CTX_NULL
                      then (let (r, w) = sys (lu_init (env_usb E)) w
                            in (r, if r = 0 then w\<lparr>libusb_ctx := CTX_LIVE\<rparr> else w))
                      else (0, w)) in do {
       (current, w) \<leftarrow>
         (if err = 0
          then (if libusb_ctx w = CTX_DEAD then None
                else let (list, w) = sys (lu_devices (env_usb E)) w
                     in do { devs \<leftarrow> list; check_devices E devs [] w })
          else Some ([], w));
       (if \<not> malloc_ok (env_alloc E) (length current * 96) then Some (0, None, w)
        else do {
          (arr, w) \<leftarrow> describe_interfaces E current w;
          Some (int (length current), Some arr, w) }) })"

definition usbobex_free_interfaces :: "'e env \<Rightarrow> 'e world \<Rightarrow> usb_interface list option \<Rightarrow> 'e world option" where
  "usbobex_free_interfaces E w intf =
     (if intf = None then Some w
      else case libusb_ctx w of
        CTX_NULL \<Rightarrow> Some w
      | CTX_LIVE \<Rightarrow> Some (w\<lparr>ext := lu_exit (env_usb E) (ext w), libusb_ctx := CTX_DEAD\<rparr>)
      | CTX_DEAD \<Rightarrow> None)"

section \<open>Opening and closing\<close>

definition usb_of :: "saddr \<Rightarrow> usb_intf option" where
  "usb_of a = (case a of SA_USB i \<Rightarrow> Some i | _ \<Rightarrow> None)"

text \<open>The labels \<open>err1\<close> to \<open>err3\<close>: what has been claimed is released, the handle is closed.\<close>

definition usb_err1 :: "'e env \<Rightarrow> usb_intf \<Rightarrow> int \<Rightarrow> 'e world \<Rightarrow> int \<times> 'e world" where
  "usb_err1 E i ret w = (let (_, w) = sys (lu_call (env_usb E) UsbClose (ui_dev i)) w in (ret, w))"

definition usb_err2 :: "'e env \<Rightarrow> usb_intf \<Rightarrow> int \<Rightarrow> 'e world \<Rightarrow> int \<times> 'e world" where
  "usb_err2 E i ret w =
     (let (_, w) = sys (lu_call (env_usb E) (UsbRelease (ui_control_interface i)) (ui_dev i)) w in usb_err1 E i ret w)"

definition usb_err3 :: "'e env \<Rightarrow> usb_intf \<Rightarrow> int \<Rightarrow> 'e world \<Rightarrow> int \<times> 'e world" where
  "usb_err3 E i ret w =
     (let (_, w) = sys (lu_call (env_usb E) (UsbRelease (ui_data_interface i)) (ui_dev i)) w in usb_err2 E i ret w)"

definition usbobex_connect_request :: "'e env \<Rightarrow> 'e world \<Rightarrow> (int \<times> 'e world) option" where
  "usbobex_connect_request E w = do {
     i \<leftarrow> usb_of (t_self (tport (hnd w)));
     (let call = (\<lambda>c d. sys (lu_call (env_usb E) c d));
          ((ret, dev), w) = sys (lu_open (env_usb E) (ui_device i)) w in
      if ret \<noteq> 0 then Some (ret, w)
      else let i = i\<lparr>ui_dev := dev\<rparr>; w = set_trans w (t_self_update (\<lambda>_. SA_USB i));
               (ret, w) = call (UsbClaim (ui_control_interface i)) dev w in
      if ret < 0 then Some (usb_err1 E i ret w)
      else let (ret, w) = call (UsbAltSetting (ui_control_interface i) (ui_control_setting i)) dev w in
      if ret < 0 then Some (usb_err2 E i ret w)
      else let (ret, w) = call (UsbClaim (ui_data_interface i)) dev w in
      if ret < 0 then Some (usb_err2 E i ret w)
      else let (ret, w) = call (UsbAltSetting (ui_data_interface i) (ui_active_setting i)) dev w in
      if ret < 0 then Some (usb_err3 E i ret w)
      else Some (1, set_trans w (t_mtu_update (\<lambda>_. OBEX_MAXIMUM_MTU)))) }"

definition usbobex_disconnect_request :: "'e env \<Rightarrow> 'e world \<Rightarrow> (int \<times> 'e world) option" where
  "usbobex_disconnect_request E w =
     (if \<not> t_connected (tport (hnd w)) then Some (0, w)
      else do {
        i \<leftarrow> usb_of (t_self (tport (hnd w)));
        (let call = (\<lambda>c w. snd (sys (lu_call (env_usb E) c (ui_dev i)) w));
             w = call (UsbClearHalt (ui_endpoint_read i)) w;
             w = call (UsbClearHalt (ui_endpoint_write i)) w;
             w = call (UsbAltSetting (ui_data_interface i) (ui_idle_setting i)) w;
             w = call (UsbRelease (ui_data_interface i)) w;
             w = call (UsbRelease (ui_control_interface i)) w;
             w = call UsbClose w
         in Some (1, w)) })"

section \<open>Properties\<close>

text \<open>
  What libusb promises: \<open>view_usb\<close> gives the open handles and the interfaces claimed through each. An
  open that succeeds returns a handle that was not open, closing one drops its claims, and only
  claiming and releasing touch the claims.
\<close>

definition usb_contract :: "('e \<Rightarrow> ptr set \<times> (ptr \<times> nat) set) \<Rightarrow> 'e usb \<Rightarrow> bool" where
  "usb_contract v U \<longleftrightarrow>
     (\<forall>d e. case lu_open U d e of ((r, h), e') \<Rightarrow>
        (if r = 0 then h \<notin> fst (v e) \<and> v e' = (insert h (fst (v e)), snd (v e)) else r < 0 \<and> v e' = v e))
     \<and> (\<forall>n h e. case lu_call U (UsbClaim n) h e of (r, e') \<Rightarrow>
          v e' = (if r < 0 then v e else (fst (v e), insert (h, n) (snd (v e)))))
     \<and> (\<forall>n h e. v (snd (lu_call U (UsbRelease n) h e)) = (fst (v e), snd (v e) - {(h, n)}))
     \<and> (\<forall>n a h e. v (snd (lu_call U (UsbAltSetting n a) h e)) = v e)
     \<and> (\<forall>p h e. v (snd (lu_call U (UsbClearHalt p) h e)) = v e)
     \<and> (\<forall>h e. v (snd (lu_call U UsbClose h e)) = (fst (v e) - {h}, {c \<in> snd (v e). fst c \<noteq> h}))"

lemma usb_open:
  assumes "usb_contract v (env_usb E)" and "sys (lu_open (env_usb E) d) w = ((r, h), w')"
  shows "hnd w' = hnd w \<and> (if r = 0 then h \<notin> fst (v (ext w)) \<and> v (ext w') = (insert h (fst (v (ext w))), snd (v (ext w)))
           else r < 0 \<and> v (ext w') = v (ext w))"
proof -
  have "case lu_open (env_usb E) d (ext w) of ((r, h), e') \<Rightarrow>
        (if r = 0 then h \<notin> fst (v (ext w)) \<and> v e' = (insert h (fst (v (ext w))), snd (v (ext w)))
         else r < 0 \<and> v e' = v (ext w))"
    using assms(1) [unfolded usb_contract_def, THEN conjunct1, THEN spec [of _ d], THEN spec [of _ "ext w"]] .
  then show ?thesis using assms(2) by (auto simp: sys_fst_snd split: if_splits)
qed

lemma usb_claim:
  assumes "usb_contract v (env_usb E)" and "sys (lu_call (env_usb E) (UsbClaim n) h) w = (r, w')"
  shows "hnd w' = hnd w \<and> v (ext w') = (if r < 0 then v (ext w) else (fst (v (ext w)), insert (h, n) (snd (v (ext w)))))"
proof -
  have "case lu_call (env_usb E) (UsbClaim n) h (ext w) of (r, e') \<Rightarrow>
          v e' = (if r < 0 then v (ext w) else (fst (v (ext w)), insert (h, n) (snd (v (ext w)))))"
    using assms(1) [unfolded usb_contract_def, THEN conjunct2, THEN conjunct1, THEN spec [of _ n], THEN spec [of _ h], THEN spec [of _ "ext w"]] .
  then show ?thesis using assms(2) by (auto simp: sys_fst_snd)
qed

lemma usb_calls:
  assumes "usb_contract v (env_usb E)"
  shows "v (snd (lu_call (env_usb E) (UsbRelease n) h e)) = (fst (v e), snd (v e) - {(h, n)})"
    "v (snd (lu_call (env_usb E) (UsbAltSetting n a) h e)) = v e"
    "v (snd (lu_call (env_usb E) (UsbClearHalt p) h e)) = v e"
    "v (snd (lu_call (env_usb E) UsbClose h e)) = (fst (v e) - {h}, {c \<in> snd (v e). fst c \<noteq> h})"
  using assms unfolding usb_contract_def by blast+

lemma usb_alt:
  assumes "usb_contract v (env_usb E)" and "sys (lu_call (env_usb E) (UsbAltSetting n a) h) w = (r, w')"
  shows "hnd w' = hnd w \<and> v (ext w') = v (ext w)"
  using assms(2) usb_calls [OF assms(1)] by (auto simp: sys_fst_snd)

text \<open>The outcome of opening the interface \<open>i\<close> on a world whose handles and claims are \<open>s\<close>.\<close>

definition usb_ok :: "('e \<Rightarrow> ptr set \<times> (ptr \<times> nat) set) \<Rightarrow> usb_intf \<Rightarrow> 'e world \<Rightarrow> int \<times> 'e world \<Rightarrow> bool" where
  "usb_ok v i w = (\<lambda>(r, w').
     if r < 0 then v (ext w') = v (ext w)
     else r = 1 \<and> (\<exists>h. h \<notin> fst (v (ext w)) \<and> t_self (tport (hnd w')) = SA_USB (i\<lparr>ui_dev := h\<rparr>)
       \<and> v (ext w') = (insert h (fst (v (ext w))),
            {(h, ui_control_interface i), (h, ui_data_interface i)} \<union> snd (v (ext w)))))"

lemma usb_errs:
  assumes "usb_contract v (env_usb E)"
  shows "v (ext (snd (usb_err1 E i r w))) = (fst (v (ext w)) - {ui_dev i}, {c \<in> snd (v (ext w)). fst c \<noteq> ui_dev i})"
    "v (ext (snd (usb_err2 E i r w))) = (fst (v (ext w)) - {ui_dev i}, {c \<in> snd (v (ext w)). fst c \<noteq> ui_dev i})"
    "v (ext (snd (usb_err3 E i r w))) = (fst (v (ext w)) - {ui_dev i}, {c \<in> snd (v (ext w)). fst c \<noteq> ui_dev i})"
    "fst (usb_err1 E i r w) = r" "fst (usb_err2 E i r w) = r" "fst (usb_err3 E i r w) = r"
  by (auto simp: usb_err1_def usb_err2_def usb_err3_def sys_fst_snd usb_calls [OF assms])

lemma usb_connect_ok:
  assumes ct: "usb_contract v (env_usb E)" and "t_self (tport (hnd w)) = SA_USB i"
    and "fst ` snd (v (ext w)) \<subseteq> fst (v (ext w))" and "usbobex_connect_request E w = Some (r, w')"
  shows "usb_ok v i w (r, w')"
proof -
  obtain ret dev w1 where o: "sys (lu_open (env_usb E) (ui_device i)) w = ((ret, dev), w1)"
    by (metis prod.exhaust)
  note open_ok = usb_open [OF ct o]
  show ?thesis
  proof (cases "ret = 0")
    case False
    then show ?thesis using assms open_ok by (auto simp: usbobex_connect_request_def o usb_of_def usb_ok_def)
  next
    case True
    define i' where "i' = i\<lparr>ui_dev := dev\<rparr>"
    define w2 where "w2 = set_trans w1 (t_self_update (\<lambda>_. SA_USB i'))"
    have w2: "dev \<notin> fst (v (ext w))" "v (ext w2) = (insert dev (fst (v (ext w))), snd (v (ext w)))"
      "t_self (tport (hnd w2)) = SA_USB i'"
      using open_ok True by (simp_all add: w2_def)
    have claimed: "fst c \<noteq> dev" if "c \<in> snd (v (ext w))" for c using that w2(1) assms(3) by blast
    have i': "ui_dev i' = dev" "ui_control_interface i' = ui_control_interface i"
      "ui_data_interface i' = ui_data_interface i" by (simp_all add: i'_def)
    have err: "usb_ok v i w p" if "p = usb_err1 E i' q u \<or> p = usb_err2 E i' q u \<or> p = usb_err3 E i' q u"
      "q < 0" "fst (v (ext u)) = insert dev (fst (v (ext w)))" "{c \<in> snd (v (ext u)). fst c \<noteq> dev} = snd (v (ext w))" for p q u
      using that w2(1) usb_errs [OF ct, of i' q u] by (auto simp: usb_ok_def split_beta i')
    obtain q1 w3 where c1: "sys (lu_call (env_usb E) (UsbClaim (ui_control_interface i)) dev) w2 = (q1, w3)" by fastforce
    obtain q2 w4 where c2: "sys (lu_call (env_usb E) (UsbAltSetting (ui_control_interface i) (ui_control_setting i)) dev) w3 = (q2, w4)" by fastforce
    obtain q3 w5 where c3: "sys (lu_call (env_usb E) (UsbClaim (ui_data_interface i)) dev) w4 = (q3, w5)" by fastforce
    obtain q4 w6 where c4: "sys (lu_call (env_usb E) (UsbAltSetting (ui_data_interface i) (ui_active_setting i)) dev) w5 = (q4, w6)" by fastforce
    note steps = usb_claim [OF ct c1] usb_alt [OF ct c2] usb_claim [OF ct c3] usb_alt [OF ct c4]
    have run: "usbobex_connect_request E w = Some
       (if q1 < 0 then usb_err1 E i' q1 w3 else if q2 < 0 then usb_err2 E i' q2 w4
        else if q3 < 0 then usb_err2 E i' q3 w5 else if q4 < 0 then usb_err3 E i' q4 w6
        else (1, set_trans w6 (t_mtu_update (\<lambda>_. OBEX_MAXIMUM_MTU))))"
      using assms(2) True c1 c2 c3 c4
      by (simp add: usbobex_connect_request_def usb_of_def o i'_def [symmetric] w2_def [symmetric])
         (simp add: i'_def)
    have views: "v (ext w3) = (if q1 < 0 then v (ext w2) else (fst (v (ext w2)), insert (dev, ui_control_interface i) (snd (v (ext w2)))))"
      "v (ext w4) = v (ext w3)"
      "v (ext w5) = (if q3 < 0 then v (ext w4) else (fst (v (ext w4)), insert (dev, ui_data_interface i) (snd (v (ext w4)))))"
      "v (ext w6) = v (ext w5)" "hnd w6 = hnd w2"
      using steps by simp_all
    have claims: "{c \<in> snd (v (ext u)). fst c \<noteq> dev} = snd (v (ext w))" "fst (v (ext u)) = insert dev (fst (v (ext w)))"
      if "u \<in> {w3, w4, w5, w6}" for u
    proof -
      have "snd (v (ext u)) - snd (v (ext w)) \<subseteq> {dev} \<times> UNIV \<and> snd (v (ext w)) \<subseteq> snd (v (ext u))
          \<and> fst (v (ext u)) = insert dev (fst (v (ext w)))"
        using that by (elim insertE emptyE) (simp_all add: views w2, blast+)
      then show "{c \<in> snd (v (ext u)). fst c \<noteq> dev} = snd (v (ext w))" "fst (v (ext u)) = insert dev (fst (v (ext w)))"
        using claimed by (auto dest: subsetD)
    qed
    have "(r, w') = (if q1 < 0 then usb_err1 E i' q1 w3 else if q2 < 0 then usb_err2 E i' q2 w4
        else if q3 < 0 then usb_err2 E i' q3 w5 else if q4 < 0 then usb_err3 E i' q4 w6
        else (1, set_trans w6 (t_mtu_update (\<lambda>_. OBEX_MAXIMUM_MTU))))"
      using assms(4) unfolding run by simp
    moreover have "usb_ok v i w (1, set_trans w6 (t_mtu_update (\<lambda>_. OBEX_MAXIMUM_MTU)))" if "\<not> q1 < 0" "\<not> q3 < 0"
      using that w2(1,3) by (auto simp: usb_ok_def views w2(2) i'_def intro!: exI [of _ dev])
    moreover have "usb_ok v i w (usb_err1 E i' q1 w3)" if "q1 < 0"
      using that claims [of w3] by (intro err) auto
    moreover have "usb_ok v i w (usb_err2 E i' q2 w4)" if "q2 < 0"
      using that claims [of w4] by (intro err) auto
    moreover have "usb_ok v i w (usb_err2 E i' q3 w5)" if "q3 < 0"
      using that claims [of w5] by (intro err) auto
    moreover have "usb_ok v i w (usb_err3 E i' q4 w6)" if "q4 < 0"
      using that claims [of w6] by (intro err) auto
    ultimately show ?thesis by (cases "q1 < 0"; cases "q2 < 0"; cases "q3 < 0"; cases "q4 < 0") simp_all
  qed
qed

lemma usb_disconnect_ok:
  assumes ct: "usb_contract v (env_usb E)" and "t_self (tport (hnd w)) = SA_USB i" and "t_connected (tport (hnd w))"
  shows "\<exists>w'. usbobex_disconnect_request E w = Some (1, w')
    \<and> v (ext w') = (fst (v (ext w)) - {ui_dev i}, {c \<in> snd (v (ext w)). fst c \<noteq> ui_dev i})"
  using assms(2,3) by (auto simp: usbobex_disconnect_request_def usb_of_def sys_fst_snd usb_calls [OF ct] split_def Let_def)

text \<open>
  C19: opening a USB interface is all or nothing, and closing it undoes it. When the connection fails at
  any of its steps, the device handle is closed and no interface stays claimed; when it succeeds, one
  handle is open with the control and the data interface claimed, and the disconnect that follows
  leaves the handles and claims as they were.
\<close>

theorem usb_connect_then_disconnect:
  assumes "usb_contract v (env_usb E)" and "t_self (tport (hnd w)) = SA_USB i"
    and "fst ` snd (v (ext w)) \<subseteq> fst (v (ext w))" and "usbobex_connect_request E w = Some (r, w')"
  shows "if r < 0 then v (ext w') = v (ext w)
     else r = 1 \<and> (\<exists>h w''. h \<notin> fst (v (ext w))
       \<and> v (ext w') = (insert h (fst (v (ext w))),
            {(h, ui_control_interface i), (h, ui_data_interface i)} \<union> snd (v (ext w)))
       \<and> usbobex_disconnect_request E (set_trans w' (t_connected_update (\<lambda>_. True))) = Some (1, w'')
       \<and> v (ext w'') = v (ext w))"
proof (cases "r < 0")
  case True
  then show ?thesis using usb_connect_ok [OF assms] by (simp add: usb_ok_def)
next
  case False
  then obtain h where h: "r = 1" "h \<notin> fst (v (ext w))" "t_self (tport (hnd w')) = SA_USB (i\<lparr>ui_dev := h\<rparr>)"
     "v (ext w') = (insert h (fst (v (ext w))),
            {(h, ui_control_interface i), (h, ui_data_interface i)} \<union> snd (v (ext w)))"
    using usb_connect_ok [OF assms] by (auto simp: usb_ok_def)
  obtain w'' where disc: "usbobex_disconnect_request E (set_trans w' (t_connected_update (\<lambda>_. True))) = Some (1, w'')"
     "v (ext w'') = (fst (v (ext w')) - {h}, {c \<in> snd (v (ext w')). fst c \<noteq> h})"
    using usb_disconnect_ok [OF assms(1), of "set_trans w' (t_connected_update (\<lambda>_. True))" "i\<lparr>ui_dev := h\<rparr>"] h(3)
    by auto
  have "fst c \<noteq> h" if "c \<in> snd (v (ext w))" for c using that h(2) assms(3) by blast
  then have "v (ext w'') = v (ext w)" unfolding disc(2) h(4) using h(2) by (intro prod_eqI) auto
  with disc(1) h(1,2,4) show ?thesis unfolding if_not_P [OF False] by (intro conjI exI [of _ h] exI [of _ w''])
qed

text \<open>
  An outside that keeps the open handles and the claims in two lists; claiming the interface \<open>n\<close> fails.
\<close>

definition usb_env :: "nat \<Rightarrow> (ptr list \<times> (ptr \<times> nat) list) env" where
  "usb_env n = calm_env\<lparr>env_usb := (env_usb calm_env)\<lparr>
     lu_open := (\<lambda>d (hs, cs). ((0, 1 + sum_list hs), ((1 + sum_list hs) # hs, cs))),
     lu_call := (\<lambda>c h (hs, cs). case c of
         UsbClaim k \<Rightarrow> (if k = n then (-6, (hs, cs)) else (0, (hs, (h, k) # cs)))
       | UsbRelease k \<Rightarrow> (0, (hs, removeAll (h, k) cs))
       | UsbClose \<Rightarrow> (0, (removeAll h hs, filter (\<lambda>c. fst c \<noteq> h) cs))
       | _ \<Rightarrow> (0, (hs, cs)))\<rparr>\<rparr>"

definition usb_view :: "ptr list \<times> (ptr \<times> nat) list \<Rightarrow> ptr set \<times> (ptr \<times> nat) set" where
  "usb_view = (\<lambda>(hs, cs). (set hs, set cs))"

lemma usb_env_contract: "usb_contract usb_view (env_usb (usb_env n))"
proof -
  have "1 + sum_list hs \<notin> set hs" for hs :: "nat list" using member_le_sum_list [of "1 + sum_list hs" hs] by auto
  then show ?thesis by (auto simp: usb_contract_def usb_env_def usb_view_def)
qed

definition usb_world :: "usb_intf \<Rightarrow> (ptr list \<times> (ptr \<times> nat) list) world" where
  "usb_world i = set_trans (calm_world ([], [])) (\<lambda>t. t\<lparr>t_self := SA_USB i, t_type := OBEX_TRANS_USB\<rparr>)"

theorem usb_connect_then_disconnect_witness:
  "(\<exists>w'. usbobex_connect_request (usb_env 1) (usb_world (intf_blank\<lparr>ui_data_interface := 1\<rparr>)) = Some (-6, w') \<and> ext w' = ([], []))
   \<and> (\<exists>w'. usbobex_connect_request (usb_env 2) (usb_world (intf_blank\<lparr>ui_data_interface := 1\<rparr>)) = Some (1, w')
       \<and> usb_view (ext w') = ({1}, {(1, 0), (1, 1)}))"
proof -
  define i where "i = intf_blank\<lparr>ui_data_interface := 1\<rparr>"
  have i: "ui_control_interface i = 0" "ui_data_interface i = 1" by (simp_all add: i_def intf_blank_def)
  have self: "t_self (tport (hnd (usb_world i))) = SA_USB i" "ext (usb_world i) = ([], [])"
    by (simp_all add: usb_world_def calm_world_def)
  have claims: "fst ` snd (usb_view (ext (usb_world i))) \<subseteq> fst (usb_view (ext (usb_world i)))"
    by (simp add: self usb_view_def)
  obtain w1 where w1: "usbobex_connect_request (usb_env 1) (usb_world i) = Some (-6, w1)"
    by (simp add: usbobex_connect_request_def usb_of_def sys_def self usb_err2_def usb_err1_def usb_env_def i)
  obtain w2 where w2: "usbobex_connect_request (usb_env 2) (usb_world i) = Some (1, w2)" "fst (ext w2) = [1]"
    by (simp add: usbobex_connect_request_def usb_of_def sys_def self usb_env_def i)
  have "usb_view (ext w1) = ({}, {})"
    using usb_connect_then_disconnect [OF usb_env_contract self(1) claims w1] by (simp add: self usb_view_def)
  moreover obtain h where "usb_view (ext w2) = ({h}, {(h, 0), (h, 1)})"
    using usb_connect_then_disconnect [OF usb_env_contract self(1) claims w2(1)]
    by (auto simp: self usb_view_def i)
  ultimately show ?thesis unfolding i_def [symmetric] using w1 w2 by (auto simp: usb_view_def split: prod.splits)
qed

text \<open>A descriptor block: each descriptor starts with its length; \<open>n\<close> bounds the lengths.\<close>

definition desc_ok :: "nat \<Rightarrow> byte list \<Rightarrow> bool" where
  "desc_ok n d \<longleftrightarrow> 3 \<le> length d \<and> length d < n \<and> unat (d ! 0) = length d"

definition is_union :: "byte list \<Rightarrow> bool" where
  "is_union d \<longleftrightarrow> d ! 1 = USB_DT_CS_INTERFACE \<and> d ! 2 = CDC_UNION_TYPE"

definition is_service :: "byte list \<Rightarrow> bool" where
  "is_service d \<longleftrightarrow> d ! 1 = USB_DT_CS_INTERFACE \<and> d ! 2 = CDC_OBEX_SERVICE_ID_TYPE"

fun union_from :: "byte list list \<Rightarrow> byte list option" where
  "union_from [] = None"
| "union_from (d # ds) = (if is_union d then Some (concat (d # ds)) else union_from ds)"

lemma union_scan_end [simp]: "union_scan b 0 u = Some u"
  by (subst union_scan.simps) simp

lemma union_scan_step:
  assumes "desc_ok 256 d"
  shows "union_scan (d @ rest) (int (length (d @ rest))) u
    = union_scan rest (int (length rest)) (if is_union d \<and> u = None then Some (d @ rest) else u)"
proof -
  have d: "3 \<le> length d" "unat (d ! 0) = length d" using assms by (simp_all add: desc_ok_def)
  then obtain a b c d' where dd: "d = a # b # c # d'" by (auto simp: numeral_3_eq_3 Suc_le_length_iff)
  have "uint a = int (length d)" using d(2) by (metis dd nth_Cons_0 of_nat_unat)
  then show ?thesis
    using d(2) by (subst union_scan.simps) (auto simp: dd mem_read_def is_union_def split: if_splits)
qed

lemma union_scan_block:
  "list_all (desc_ok 256) ds \<Longrightarrow> union_scan (concat ds) (int (length (concat ds))) u
     = Some (if u = None then union_from ds else u)"
proof (induction ds arbitrary: u)
  case (Cons d ds)
  then show ?case using union_scan_step [of d "concat ds" u] by auto
qed simp

lemma union_scan_prefix:
  "list_all (desc_ok 256) ds \<Longrightarrow> \<exists>u'. union_scan (concat ds @ rest) (int (length (concat ds @ rest))) u
     = union_scan rest (int (length rest)) u'"
proof (induction ds arbitrary: u)
  case (Cons d ds)
  then show ?case using union_scan_step [of d "concat ds @ rest" u] by (simp del: length_concat length_append)
qed auto

text \<open>A pair of bulk endpoints, one to read and one to write.\<close>

definition bulk_pair :: "usb_altsetting \<Rightarrow> usb_endpoint \<Rightarrow> usb_endpoint \<Rightarrow> bool" where
  "bulk_pair s rd wr \<longleftrightarrow> (as_endpoints s = [rd, wr] \<or> as_endpoints s = [wr, rd])
     \<and> ep_in rd \<and> ep_bulk rd \<and> \<not> ep_in wr \<and> ep_bulk wr"

definition pair_of :: "usb_intf \<Rightarrow> nat \<times> nat \<times> nat \<times> nat" where
  "pair_of i = (ui_active_setting i, ui_active_desc i, ui_endpoint_read i, ui_endpoint_write i)"

definition uses_pair :: "usb_intf \<Rightarrow> usb_altsetting \<Rightarrow> bool" where
  "uses_pair i s \<longleftrightarrow> (\<exists>rd wr. bulk_pair s rd wr
     \<and> pair_of i = (as_setting s, as_desc s, unat (ep_address rd), unat (ep_address wr)))"

text \<open>One setting of the data interface.\<close>

lemma find_eps_step:
  assumes "find_eps s (i, a, d) = (i', a', d')"
  shows "ui_data_interface i' = ui_data_interface i \<and> d' = (d \<or> as_endpoints s = []) \<and> a' = (a \<or> (\<exists>rd wr. bulk_pair s rd wr))
     \<and> (if \<exists>rd wr. bulk_pair s rd wr then uses_pair i' s else pair_of i' = pair_of i)
     \<and> (if as_endpoints s = [] then ui_idle_setting i' = as_setting s else ui_idle_setting i' = ui_idle_setting i)"
proof (cases "as_endpoints s" rule: remdups_adj.cases)
  case 1
  then show ?thesis using assms by (auto simp: find_eps_def bulk_pair_def pair_of_def)
next
  case (2 x)
  then show ?thesis using assms by (auto simp: find_eps_def bulk_pair_def pair_of_def)
next
  case (3 x y xs)
  show ?thesis
  proof (cases xs)
    case Nil
    have pair: "bulk_pair s rd wr \<longleftrightarrow> ep_bulk x \<and> ep_bulk y \<and> ep_in rd \<and> \<not> ep_in wr \<and> (rd = x \<and> wr = y \<or> rd = y \<and> wr = x)" for rd wr
      using 3 Nil by (auto simp: bulk_pair_def)
    show ?thesis
    proof (cases "ep_bulk x \<and> ep_bulk y \<and> ep_in x \<noteq> ep_in y")
      case True
      then have ex: "\<exists>rd wr. bulk_pair s rd wr" unfolding pair by blast
      have "uses_pair i' s"
        using True assms 3 Nil unfolding uses_pair_def
        by (cases "ep_in x"; intro exI [of _ "if ep_in x then x else y"] exI [of _ "if ep_in x then y else x"])
           (auto simp: pair find_eps_def take_eps_def pair_of_def)
      then show ?thesis using True assms 3 Nil ex
        by (cases "ep_in x") (auto simp: find_eps_def take_eps_def)
    next
      case False
      then have "\<not> (\<exists>rd wr. bulk_pair s rd wr)" unfolding pair by blast
      then show ?thesis using False assms 3 Nil by (auto simp: find_eps_def)
    qed
  next
    case Cons
    then show ?thesis using assms 3 by (auto simp: find_eps_def bulk_pair_def pair_of_def)
  qed
qed

text \<open>All the settings, in their order.\<close>

definition settings_of :: "nat \<Rightarrow> usb_config \<Rightarrow> usb_altsetting list" where
  "settings_of n config = [s \<leftarrow> concat (uc_interfaces config). as_number s = n]"

lemma eps_fold:
  assumes "fold (\<lambda>s p. if as_number s = ui_data_interface (fst p) then find_eps s p else p) ss (i0, False, False) = (i, a, d)"
  defines "own \<equiv> [s \<leftarrow> ss. as_number s = ui_data_interface i0]"
  shows "ui_data_interface i = ui_data_interface i0 \<and> (d \<longleftrightarrow> (\<exists>s \<in> set own. as_endpoints s = []))
    \<and> (a \<longleftrightarrow> (\<exists>s \<in> set own. \<exists>rd wr. bulk_pair s rd wr)) \<and> (a \<longrightarrow> (\<exists>s \<in> set own. uses_pair i s))
    \<and> (d \<longrightarrow> (\<exists>s \<in> set own. as_endpoints s = [] \<and> ui_idle_setting i = as_setting s))"
  using assms(1) unfolding own_def
proof (induction ss arbitrary: i a d rule: rev_induct)
  case (snoc s ss)
  obtain i1 a1 d1 where one: "fold (\<lambda>s p. if as_number s = ui_data_interface (fst p) then find_eps s p else p) ss (i0, False, False) = (i1, a1, d1)"
    by (rule prod_cases3)
  note ih = snoc.IH [OF one]
  show ?case
  proof (cases "as_number s = ui_data_interface i0")
    case True
    then have "find_eps s (i1, a1, d1) = (i, a, d)" using snoc.prems one ih by simp
    note st = find_eps_step [OF this]
    have keep: "uses_pair i s' = uses_pair i1 s'" if "\<not> (\<exists>rd wr. bulk_pair s rd wr)" for s'
      using st that by (simp add: uses_pair_def)
    define S where "S = set [s \<leftarrow> ss. as_number s = ui_data_interface i0]"
    define P where "P s \<longleftrightarrow> (\<exists>rd wr. bulk_pair s rd wr)" for s
    have own: "set [s \<leftarrow> ss @ [s]. as_number s = ui_data_interface i0] = insert s S"
      using True by (simp add: S_def)
    note facts = ih [folded S_def P_def] st [folded P_def] keep [folded P_def]
    show ?thesis unfolding own P_def [symmetric]
      using facts by (cases "P s"; cases "as_endpoints s = []") auto
  next
    case False
    then show ?thesis using snoc.prems one ih by simp
  qed
qed simp


lemma union_from_first:
  "\<forall>d \<in> set pre. \<not> is_union d \<Longrightarrow> is_union u \<Longrightarrow> union_from (pre @ u # rest) = Some (concat (u # rest))"
  by (induction pre) simp_all

text \<open>
  C32: which endpoints an OBEX interface is used through. Among well-formed class-specific descriptors the
  first union descriptor names the data interface; the interface is accepted exactly when that data
  interface has an idle setting without endpoints and an active one with a bulk endpoint in each
  direction, and then it is the setting, the reading and the writing endpoint of such an active setting
  that are recorded.
\<close>

theorem data_interface_found:
  fixes config :: usb_config
  assumes "list_all (desc_ok 256) (pre @ u # rest)" and "\<forall>d \<in> set pre. \<not> is_union d"
    and "is_union u" and "5 \<le> length u"
  defines "own \<equiv> settings_of (unat (u ! 4)) config"
  shows "\<exists>r i. find_obex_data_interface (Some (concat (pre @ u # rest))) (int (length (concat (pre @ u # rest)))) config intf = Some (r, i)
    \<and> ui_data_interface i = unat (u ! 4) \<and> r \<in> {0, - ENODEV}
    \<and> (r = 0 \<longleftrightarrow> (\<exists>s \<in> set own. as_endpoints s = []) \<and> (\<exists>s \<in> set own. \<exists>rd wr. bulk_pair s rd wr))
    \<and> (r = 0 \<longrightarrow> (\<exists>s \<in> set own. uses_pair i s) \<and> (\<exists>s \<in> set own. as_endpoints s = [] \<and> ui_idle_setting i = as_setting s))"
proof -
  have scan: "union_scan (concat (pre @ u # rest)) (int (length (concat (pre @ u # rest)))) None = Some (Some (u @ concat rest))"
    using union_scan_block [OF assms(1)] union_from_first [OF assms(2,3)] by simp
  have slave: "mem_read (u @ concat rest) 4 1 = Some [u ! 4]"
    using assms(4) by (simp add: mem_read_def take_Suc_conv_app_nth [where i = 0, simplified] nth_append hd_drop_conv_nth take_Suc)
  define i0 where "i0 = intf\<lparr>ui_data_interface := unat (u ! 4)\<rparr>"
  obtain i a d where run: "fold (\<lambda>s p. if as_number s = ui_data_interface (fst p) then find_eps s p else p)
      (concat (uc_interfaces config)) (i0, False, False) = (i, a, d)"
    by (rule prod_cases3)
  have code: "find_obex_data_interface (Some (concat (pre @ u # rest))) (int (length (concat (pre @ u # rest)))) config intf
      = Some (if d \<and> a then 0 else - ENODEV, i)"
    using run slave unfolding find_obex_data_interface_def option.case scan by (simp add: i0_def [symmetric])
  have i0: "ui_data_interface i0 = unat (u ! 4)" by (simp add: i0_def)
  show ?thesis unfolding code own_def settings_of_def
    using eps_fold [OF run, unfolded i0] by (intro exI [of _ "if d \<and> a then 0 else - ENODEV"] exI [of _ i]) simp
qed

definition obex_device :: usb_config where
  "obex_device = \<lparr>uc_value = 1, uc_desc = 0, uc_interfaces =
     [[\<lparr>as_number = 0, as_setting = 0, as_class = 2, as_subclass = 11, as_desc = 0, as_endpoints = [],
        as_extra = Some [5, 0x24, 0, 0x10, 1, 5, 0x24, 6, 0, 1]\<rparr>],
      [\<lparr>as_number = 1, as_setting = 0, as_class = 10, as_subclass = 0, as_desc = 0, as_endpoints = [], as_extra = None\<rparr>,
       \<lparr>as_number = 1, as_setting = 1, as_class = 10, as_subclass = 0, as_desc = 0,
        as_endpoints = [\<lparr>ep_address = 0x02, ep_attributes = 2\<rparr>, \<lparr>ep_address = 0x81, ep_attributes = 2\<rparr>], as_extra = None\<rparr>]]\<rparr>"

theorem data_interface_found_witness:
  "\<exists>i. find_obex_data_interface (Some [5, 0x24, 0, 0x10, 1, 5, 0x24, 6, 0, 1]) 10 obex_device intf_blank = Some (0, i)
    \<and> ui_data_interface i = 1"
proof -
  let ?b = "[[5, 0x24, 0, 0x10, 1]] @ [5 :: byte, 0x24, 6, 0, 1] # []" and ?own = "settings_of (unat ([5, 0x24, 6, 0, 1 :: byte] ! 4)) obex_device"
  have own: "?own = concat (tl (uc_interfaces obex_device))" by (simp add: settings_of_def obex_device_def)
  have idle: "\<exists>s \<in> set ?own. as_endpoints s = []" unfolding own by (simp add: obex_device_def)
  have active: "\<exists>s \<in> set ?own. \<exists>rd wr. bulk_pair s rd wr" unfolding own
    by (simp add: obex_device_def bulk_pair_def ep_in_def ep_bulk_def) (intro exI [of _ "\<lparr>ep_address = 0x81, ep_attributes = 2\<rparr>"] exI [of _ "\<lparr>ep_address = 2, ep_attributes = 2\<rparr>"], simp)
  have ok: "list_all (desc_ok 256) ?b" "\<forall>d \<in> set [[5, 0x24, 0, 0x10, 1]]. \<not> is_union d" "is_union [5, 0x24, 6, 0, 1]"
    "5 \<le> length [5, 0x24, 6, 0, 1 :: byte]"
    by (simp_all add: desc_ok_def is_union_def)
  obtain r i where "find_obex_data_interface (Some (concat ?b)) (int (length (concat ?b))) obex_device intf_blank = Some (r, i)"
    "ui_data_interface i = unat ([5, 0x24, 6, 0, 1 :: byte] ! 4)"
    "r = 0 \<longleftrightarrow> (\<exists>s \<in> set ?own. as_endpoints s = []) \<and> (\<exists>s \<in> set ?own. \<exists>rd wr. bulk_pair s rd wr)"
    using data_interface_found [OF ok, of obex_device intf_blank] by blast
  moreover have "r = 0" using calculation(3) idle active by blast
  ultimately show ?thesis by (intro exI [of _ i]) simp
qed

lemma union_scan_stuck:
  "union_scan b n u = Some y \<Longrightarrow> b \<noteq> [] \<Longrightarrow> b ! 0 = 0 \<Longrightarrow> 0 < n \<Longrightarrow> False"
proof (induction b n u y rule: union_scan.raw_induct [rotated, consumes 1, case_names step])
  case (step scan b n u y)
  have "okres (\<lambda>_. False) (if n \<le> 0 then Some u
      else do {
        d \<leftarrow> mem_read b 0 2;
        u \<leftarrow>
          (if d ! 1 \<noteq> USB_DT_CS_INTERFACE then Some u
           else do {
             t \<leftarrow> mem_read b 2 1;
             Some (if t ! 0 = CDC_UNION_TYPE \<and> u = None then Some b else u) });
        scan (drop (unat (d ! 0)) b) (n - int (unat (d ! 0))) u })"
    using step.prems step.IH by (auto intro!: okresI simp: mem_read_def split: if_splits)
  then show ?case using step.hyps by (auto dest: okresD)
qed

lemma service_scan_stuck:
  "service_scan A m pos n sv = Some y \<Longrightarrow> char_at m pos = Some 0 \<Longrightarrow> 0 < n \<Longrightarrow> False"
proof (induction A m pos n sv y rule: service_scan.raw_induct [rotated, consumes 1, case_names step])
  case (step scan A m pos n sv y)
  have stuck: "scan A m pos n s = None" for s
    using step.IH [of A m pos n s] step.prems by (cases "scan A m pos n s") auto
  have "okres (\<lambda>_. False) (if n \<le> 0 then Some sv
      else do {
        typ \<leftarrow> char_at m (pos + 1);
        sv \<leftarrow>
          (if typ \<noteq> USB_DT_CS_INTERFACE then Some sv
           else do {
             sub \<leftarrow> char_at m (pos + 2);
             (if sub = CDC_OBEX_SERVICE_ID_TYPE \<and> \<not> n < 22 \<and> sv = None \<and> malloc_ok A 24
              then do { s \<leftarrow> service_at (drop (nat pos) m); Some (Some s) }
              else Some sv) });
        len \<leftarrow> char_at m pos;
        scan A m (pos + sint len) (n - sint len) sv })"
    using step.prems by (auto intro!: okresI simp: stuck split: if_splits)
  then show ?case using step.hyps by (auto dest: okresD)
qed

lemma char_at_descriptor:
  "k < length d \<Longrightarrow> char_at (pre @ d @ rest) (int (length pre) + int k) = Some (d ! k)"
  by (simp add: char_at_def nth_append nat_add_distrib)

text \<open>One step of the walk for the service descriptor.\<close>

definition service_step :: "alloc \<Rightarrow> byte list \<Rightarrow> usb_service option \<Rightarrow> usb_service option" where
  "service_step A d sv = (if is_service d \<and> sv = None \<and> malloc_ok A 24 then service_at d else sv)"

lemma service_at_append: "22 \<le> length d \<Longrightarrow> service_at (d @ e) = service_at d"
  by (simp add: service_at_def mem_read_def)

lemma service_at_Some: "22 \<le> length d \<Longrightarrow> \<exists>s. service_at d = Some s"
  by (simp add: service_at_def mem_read_def Let_def)

lemma service_scan_step:
  assumes "desc_ok 128 d" and "is_service d \<longrightarrow> 22 \<le> length d"
  shows "service_scan A (pre @ d @ rest) (int (length pre)) (int (length (d @ rest))) sv
    = service_scan A ((pre @ d) @ rest) (int (length (pre @ d))) (int (length rest)) (service_step A d sv)"
proof -
  have d: "3 \<le> length d" "length d < 128" "unat (d ! 0) = length d" using assms(1) by (simp_all add: desc_ok_def)
  have "uint (d ! 0) = int (length d)" using d(3) by (metis of_nat_unat)
  then have len: "sint (d ! 0) = int (length d)"
    using d(2) by (simp add: sint_uint signed_take_bit_int_eq_self)
  have chars: "char_at (pre @ d @ rest) (int (length pre)) = Some (d ! 0)"
    "char_at (pre @ d @ rest) (int (length pre) + 1) = Some (d ! 1)"
    "char_at (pre @ d @ rest) (int (length pre) + 2) = Some (d ! 2)"
    using char_at_descriptor [of 0 d pre rest] char_at_descriptor [of 1 d pre rest] char_at_descriptor [of 2 d pre rest]
      d(1) order.strict_trans2 [of 0 3 "length d"]
    by simp_all
  have some: "is_service d \<Longrightarrow> \<exists>s. service_at (d @ rest) = Some s \<and> service_at d = Some s"
    using assms(2) service_at_Some [of d] service_at_append [of d rest] by simp
  have next_pos: "int (length pre) + sint (d ! 0) = int (length (pre @ d))"
    "int (length (d @ rest)) - sint (d ! 0) = int (length rest)" by (simp_all add: len)
  have pos: "\<not> int (length (d @ rest)) \<le> 0" using d(1) by simp
  have bound: "\<not> int (length (d @ rest)) < 22" if "is_service d" using that assms(2) by simp
  show ?thesis
    apply (subst service_scan.simps)
    unfolding if_not_P [OF pos] chars bind.bind_lunit next_pos
    using some bound d(1) by (auto simp: is_service_def service_step_def)
qed


lemma service_scan_block:
  assumes "list_all (desc_ok 128) ds" and "\<forall>d \<in> set ds. is_service d \<longrightarrow> 22 \<le> length d"
  shows "service_scan A (pre @ concat ds @ rest) (int (length pre)) (int (length (concat ds @ rest))) sv
     = service_scan A (pre @ concat ds @ rest) (int (length (pre @ concat ds))) (int (length rest)) (fold (service_step A) ds sv)"
  using assms
proof (induction ds arbitrary: pre sv)
  case (Cons d ds)
  then have "desc_ok 128 d" "is_service d \<longrightarrow> 22 \<le> length d" by simp_all
  from service_scan_step [OF this, of A pre "concat ds @ rest" sv]
  show ?case using Cons.IH [of "pre @ d"] Cons.prems by simp
qed simp

lemma service_scan_end [simp]: "service_scan A m pos 0 sv = Some sv"
  by (subst service_scan.simps) simp

text \<open>The version is put together from two \<open>char\<close>s: a low byte of 128 or more fills the high one.\<close>

lemma byte_sign: "bit (y :: byte) 7 \<longleftrightarrow> \<not> unat y < 128"
proof -
  have "unat y div 128 < 2" using unat_byte_less [of y] by linarith
  then have "odd (unat y div 128) \<longleftrightarrow> unat y div 128 \<noteq> 0" by (cases "unat y div 128 = 0") auto
  then have "odd (unat y div 128) \<longleftrightarrow> \<not> unat y < 128" by (simp add: div_eq_0_iff)
  moreover have "bit (unat y) 7 \<longleftrightarrow> odd (unat y div 128)" by (simp add: bit_iff_odd)
  ultimately show ?thesis by (simp add: bit_unsigned_iff)
qed

lemma version_bits:
  "(ucast (push_bit 8 (scast (x :: byte) :: 32 word) OR scast (y :: byte)) :: 16 word)
    = (if unat y < 128 then push_bit 8 (ucast x) else 0xFF00) OR ucast y"
proof -
  have top: "(0xFF00 :: 16 word) = push_bit 8 (mask 8)" by (simp add: mask_eq_exp_minus_1 push_bit_eq_mult)
  have sign: "bit y (min 7 n) \<longleftrightarrow> (if n < 8 then bit y n else \<not> unat y < 128)" for n
    by (cases "n = 7") (auto simp: min_def byte_sign [symmetric])
  have sign': "bit x (min 7 (n - 8)) \<longleftrightarrow> bit x (n - 8)" if "n < 16" for n
    using that by (cases "n = 15") (auto simp: min_def)
  have high: "bit y n \<Longrightarrow> n < 8" for n by (drule bit_imp_le_length) simp
  show ?thesis unfolding top
    by (rule bit_word_eqI) (auto simp: bit_simps sign sign' dest: high)
qed


lemma service_step_Some [simp]: "fold (service_step A) ds (Some s) = Some s"
  by (induction ds) (simp_all add: service_step_def)

definition service_of :: "byte list \<Rightarrow> usb_service" where
  "service_of d = \<lparr>us_role = d ! 3, us_uuid = take 16 (drop 4 d),
     us_version = (if unat (d ! 21) < 128 then push_bit 8 (ucast (d ! 20)) else 0xFF00) OR ucast (d ! 21),
     us_default_uuid = (take 16 (drop 4 d) = WMC_DEFAULT_OBEX_SERVER_UUID)\<rparr>"

lemma service_at_of: "22 \<le> length d \<Longrightarrow> service_at d = Some (service_of d)"
  by (simp add: service_at_def service_of_def mem_read_def Let_def drop_take min_def version_bits)

lemma service_fold_None:
  "\<forall>d \<in> set ds. is_service d \<longrightarrow> 22 \<le> length d \<Longrightarrow>
   fold (service_step A) ds None = (if malloc_ok A 24 then map_option service_of (find is_service ds) else None)"
  by (induction ds) (auto simp: service_step_def service_at_of)

text \<open>
  Which service an interface announces. Among well-formed class-specific descriptors shorter than 128
  bytes it is the first service identification descriptor, with its role and UUID. Its version is the
  big-endian number of the last two bytes only when the second one is below 128; otherwise the high
  byte is lost.
\<close>

theorem service_descriptor_found:
  assumes "list_all (desc_ok 128) ds" and "\<forall>d \<in> set ds. is_service d \<longrightarrow> 22 \<le> length d" and "malloc_ok A 24"
  shows "find_obex_service_descriptor A (Some (concat ds)) (int (length (concat ds))) None
    = Some (case find is_service ds of None \<Rightarrow> None
        | Some d \<Rightarrow> Some \<lparr>us_role = d ! 3, us_uuid = take 16 (drop 4 d),
            us_version = (if unat (d ! 21) < 128 then push_bit 8 (ucast (d ! 20)) else 0xFF00) OR ucast (d ! 21),
            us_default_uuid = (take 16 (drop 4 d) = WMC_DEFAULT_OBEX_SERVER_UUID)\<rparr>)"
  using service_scan_block [OF assms(1,2), of A "[]" "[]" None] service_fold_None [OF assms(2), of A] assms(3)
  by (simp add: find_obex_service_descriptor_def service_of_def split: option.splits)

theorem service_descriptor_found_witness:
  "find_obex_service_descriptor zero_alloc
     (Some ([5, 0x24, 0, 0x10, 1] @ [22, 0x24, 0x19, 7] @ WMC_DEFAULT_OBEX_SERVER_UUID @ [1, 0x80])) 27 None
   = Some (Some \<lparr>us_role = 7, us_uuid = WMC_DEFAULT_OBEX_SERVER_UUID, us_version = 0xFF80, us_default_uuid = True\<rparr>)"
  using service_descriptor_found [of "[[5, 0x24, 0, 0x10, 1], [22, 0x24, 0x19, 7] @ WMC_DEFAULT_OBEX_SERVER_UUID @ [1, 0x80]]" zero_alloc]
  by (simp add: desc_ok_def is_service_def zero_alloc_def)

text \<open>
  C35: a descriptor that claims the length 0 hangs the discovery. Both walks add the length a device
  reports to their pointer, so once they reach such a descriptor neither returns.
\<close>

theorem zero_length_descriptor_hangs:
  assumes "list_all (desc_ok 128) ds" and "rest \<noteq> []" and "rest ! 0 = 0"
    and "\<forall>d \<in> set ds. is_service d \<longrightarrow> 22 \<le> length d"
  shows "find_obex_data_interface (Some (concat ds @ rest)) (int (length (concat ds @ rest))) config intf = None
    \<and> find_obex_service_descriptor A (Some (concat ds @ rest)) (int (length (concat ds @ rest))) sv = None"
proof -
  have "list_all (desc_ok 256) ds"
    using assms(1) by (rule list.pred_mono_strong) (simp add: desc_ok_def)
  from union_scan_prefix [OF this] obtain u' where "union_scan (concat ds @ rest) (int (length (concat ds @ rest))) None
      = union_scan rest (int (length rest)) u'" by metis
  moreover have "union_scan rest (int (length rest)) u' = None"
    using union_scan_stuck [of rest "int (length rest)" u'] assms(2,3) by (cases "union_scan rest (int (length rest)) u'") auto
  moreover have "char_at (concat ds @ rest) (int (length (concat ds))) = Some 0"
    using assms(2,3) by (simp add: char_at_def nth_append del: length_concat)
  then have "service_scan A (concat ds @ rest) (int (length (concat ds))) (int (length rest)) v = None" for v
    using service_scan_stuck [of A "concat ds @ rest" "int (length (concat ds))" "int (length rest)" v] assms(2)
    by (cases "service_scan A (concat ds @ rest) (int (length (concat ds))) (int (length rest)) v") auto
  ultimately show ?thesis
    using service_scan_block [OF assms(1,4), of A "[]" rest sv]
    by (simp add: find_obex_data_interface_def find_obex_service_descriptor_def del: length_concat length_append)
qed

theorem zero_length_descriptor_hangs_witness:
  "find_obex_data_interface (Some [5, 0x24, 0, 0x10, 1, 0, 0x24]) 7 obex_device intf_blank = None"
  using zero_length_descriptor_hangs [of "[[5, 0x24, 0, 0x10, 1]]" "[0, 0x24]" obex_device intf_blank]
  by (simp add: desc_ok_def is_service_def)

text \<open>
  USB interfaces can be enumerated only once. Freeing the list of interfaces destroys the libusb
  context but leaves the pointer to it in place, so the next enumeration goes on with a destroyed
  context.
\<close>

theorem enumerate_again_uses_dead_context:
  assumes "usbobex_find_interfaces E w = Some (n, Some arr, w1)" and "libusb_ctx w1 = CTX_LIVE"
    and "usbobex_free_interfaces E w1 (Some arr) = Some w2"
  shows "usbobex_find_interfaces E w2 = None"
proof -
  have "libusb_ctx w2 = CTX_DEAD" using assms(2,3) by (auto simp: usbobex_free_interfaces_def)
  then show ?thesis by (simp add: usbobex_find_interfaces_def)
qed

theorem enumerate_again_uses_dead_context_witness:
  "\<exists>w1 w2. usbobex_find_interfaces calm_env (calm_world ()) = Some (0, Some [], w1)
    \<and> usbobex_free_interfaces calm_env w1 (Some []) = Some w2 \<and> usbobex_find_interfaces calm_env w2 = None"
proof -
  let ?w1 = "(calm_world ())\<lparr>libusb_ctx := CTX_LIVE\<rparr>"
  have find: "usbobex_find_interfaces calm_env (calm_world ()) = Some (0, Some [], ?w1)"
    by (simp add: usbobex_find_interfaces_def sys_def calm_env_def calm_world_def zero_alloc_def)
  have free: "usbobex_free_interfaces calm_env ?w1 (Some []) = Some (?w1\<lparr>libusb_ctx := CTX_DEAD\<rparr>)"
    by (simp add: usbobex_free_interfaces_def calm_env_def)
  have "usbobex_find_interfaces calm_env (?w1\<lparr>libusb_ctx := CTX_DEAD\<rparr>) = None"
    by (rule enumerate_again_uses_dead_context [OF find _ free]) simp
  with find free show ?thesis by blast
qed

end
