(* ===== verification/Obex_Transport.thy ===== *)
theory Obex_Transport
  imports Usb
begin

text \<open>
  The rest of lib/obex_transport.c: waiting for input, and the dispatch of connecting, listening,
  accepting and disconnecting to the transport of the handle. The build has IrDA, Bluetooth and
  USB (libusb 1).
\<close>

definition obex_transport_accept :: "'e env \<Rightarrow> 'e world \<Rightarrow> int \<times> 'e world" where
  "obex_transport_accept E w =
     (case t_type (tport (hnd w)) of
        OBEX_TRANS_IRDA \<Rightarrow> irobex_accept E w
      | OBEX_TRANS_INET \<Rightarrow> inobex_accept E w
      | OBEX_TRANS_BLUETOOTH \<Rightarrow> btobex_accept E w
      | OBEX_TRANS_FD \<Rightarrow> (0, w)
      | _ \<Rightarrow> (-1, w))"

definition obex_transport_connect_request :: "'e env \<Rightarrow> 'e world \<Rightarrow> (int \<times> 'e world) option" where
  "obex_transport_connect_request E w =
     (if t_connected (tport (hnd w)) then Some (1, w)
      else do {
        (ret, w) \<leftarrow>
          (case t_type (tport (hnd w)) of
             OBEX_TRANS_IRDA \<Rightarrow> irobex_connect_request E w
           | OBEX_TRANS_INET \<Rightarrow>
               inobex_connect_request E
                 (case t_peer (tport (hnd w)) of
                    SA_INET port a \<Rightarrow> inobex_prepare_connect w (Some (SA_INET port a)) | _ \<Rightarrow> w)
           | OBEX_TRANS_CUSTOM \<Rightarrow>
               (if ct_connect (ctrans (hnd w)) \<noteq> 0
                then env_ct_connect E (ct_connect (ctrans (hnd w))) w (ct_customdata (ctrans (hnd w)))
                else Some (-1, w))
           | OBEX_TRANS_BLUETOOTH \<Rightarrow> Some (btobex_connect_request E w)
           | OBEX_TRANS_FD \<Rightarrow>
               Some (if fd (hnd w) \<noteq> INVALID_SOCKET \<and> writefd (hnd w) \<noteq> INVALID_SOCKET then 0 else -1, w)
           | OBEX_TRANS_USB \<Rightarrow> usbobex_connect_request E w
           | OBEX_TRANS_OTHER _ \<Rightarrow> Some (-1, w));
        Some (ret, if ret \<ge> 0 then set_trans w (t_connected_update (\<lambda>_. True)) else w) })"

definition obex_transport_disconnect_request :: "'e env \<Rightarrow> 'e world \<Rightarrow> 'e world option" where
  "obex_transport_disconnect_request E w = do {
     w \<leftarrow>
       (case t_type (tport (hnd w)) of
          OBEX_TRANS_IRDA \<Rightarrow> Some (snd (irobex_disconnect_request E w))
        | OBEX_TRANS_INET \<Rightarrow> Some (snd (inobex_disconnect_request E w))
        | OBEX_TRANS_CUSTOM \<Rightarrow>
            (if ct_disconnect (ctrans (hnd w)) \<noteq> 0
             then map_option snd (env_ct_disconnect E (ct_disconnect (ctrans (hnd w))) w (ct_customdata (ctrans (hnd w))))
             else Some w)
        | OBEX_TRANS_BLUETOOTH \<Rightarrow> Some (snd (btobex_disconnect_request E w))
        | OBEX_TRANS_FD \<Rightarrow> Some (w\<lparr>hnd := (hnd w)\<lparr>fd := INVALID_SOCKET, writefd := INVALID_SOCKET\<rparr>\<rparr>)
        | OBEX_TRANS_USB \<Rightarrow> map_option snd (usbobex_disconnect_request E w)
        | OBEX_TRANS_OTHER _ \<Rightarrow> Some w);
     Some (set_trans w (t_connected_update (\<lambda>_. False))) }"

definition obex_transport_listen :: "'e env \<Rightarrow> 'e world \<Rightarrow> (int \<times> 'e world) option" where
  "obex_transport_listen E w =
     (case t_type (tport (hnd w)) of
        OBEX_TRANS_IRDA \<Rightarrow> Some (irobex_listen E w)
      | OBEX_TRANS_INET \<Rightarrow> Some (inobex_listen E w)
      | OBEX_TRANS_CUSTOM \<Rightarrow>
          (if ct_listen (ctrans (hnd w)) \<noteq> 0
           then env_ct_listen E (ct_listen (ctrans (hnd w))) w (ct_customdata (ctrans (hnd w)))
           else Some (-1, w))
      | OBEX_TRANS_BLUETOOTH \<Rightarrow> Some (btobex_listen E w)
      | OBEX_TRANS_FD \<Rightarrow> Some (0, w)
      | OBEX_TRANS_USB \<Rightarrow> Some (0, w)
      | OBEX_TRANS_OTHER _ \<Rightarrow> Some (-1, w))"

definition obex_transport_disconnect_server :: "'e env \<Rightarrow> 'e world \<Rightarrow> 'e world" where
  "obex_transport_disconnect_server E w =
     (case t_type (tport (hnd w)) of
        OBEX_TRANS_IRDA \<Rightarrow> snd (irobex_disconnect_server E w)
      | OBEX_TRANS_INET \<Rightarrow> snd (inobex_disconnect_server E w)
      | OBEX_TRANS_BLUETOOTH \<Rightarrow> snd (btobex_disconnect_server E w)
      | _ \<Rightarrow> w)"

text \<open>
  \<open>select\<close> gets the descriptors of the set and reports its result with the descriptors that are
  ready.
\<close>

definition select_fds :: "obex \<Rightarrow> int list" where
  "select_fds self = filter (\<lambda>s. s \<noteq> INVALID_SOCKET) [fd self, serverfd self]"

definition handle_select :: "'e env \<Rightarrow> 'e world \<Rightarrow> int \<Rightarrow> (int \<times> 'e world) option" where
  "handle_select E w timeout =
     (if select_fds (hnd w) = [] then Some (-1, w)
      else let ((ret, ready), w) = sys (env_select E (select_fds (hnd w)) timeout) w; self = hnd w in
      if ret < 1 then Some (ret, w)
      else if fd self \<noteq> INVALID_SOCKET \<and> fd self \<in> set ready then obex_data_indication E w None 0
      else if serverfd self \<noteq> INVALID_SOCKET \<and> serverfd self \<in> set ready
      then (let (ret, w) = obex_transport_accept E w in do {
        w \<leftarrow> (if keepserver (hnd w) then obex_deliver_event E w OBEX_EV_ACCEPTHINT 0 0 False else Some w);
        Some (ret, if ret \<ge> 0 \<and> \<not> keepserver (hnd w) then obex_transport_disconnect_server E w else w) })
      else Some (-1, w))"

definition obex_transport_handle_input :: "'e env \<Rightarrow> 'e world \<Rightarrow> int \<Rightarrow> (int \<times> 'e world) option" where
  "obex_transport_handle_input E w timeout =
     (case t_type (tport (hnd w)) of
        OBEX_TRANS_CUSTOM \<Rightarrow>
          (if ct_handleinput (ctrans (hnd w)) \<noteq> 0
           then env_ct_handleinput E (ct_handleinput (ctrans (hnd w))) w (ct_customdata (ctrans (hnd w))) timeout
           else Some (-1, w))
      | OBEX_TRANS_USB \<Rightarrow> obex_data_indication E w None 0
      | _ \<Rightarrow> handle_select E w timeout)"

end
