(* ===== verification/Obex_Api.thy ===== *)
theory Obex_Api
  imports Obex_Transport
begin

text \<open>
  lib/obex.c, the application interface. A handle that is not NULL is assumed (the macros
  \<open>obex_return_if_fail\<close> for \<open>self\<close> are left out); object pointers, addresses and buffers may be NULL
  (\<open>None\<close>). The build has all transports and is not Windows. An address is copied as a whole.
\<close>

abbreviation "EBUSY \<equiv> (16 :: int)"
abbreviation "E2BIG \<equiv> (7 :: int)"
abbreviation "ESOCKTNOSUPPORT \<equiv> (94 :: int)"
abbreviation "OBEX_FL_KEEPSERVER \<equiv> (0x02 :: 32 word)"
abbreviation "OBEX_FL_FILTERHINT \<equiv> (0x04 :: 32 word)"
abbreviation "OBEX_FL_FILTERIAS \<equiv> (0x08 :: 32 word)"

section \<open>Handles\<close>

definition ctrans_zero :: ctrans where
  "ctrans_zero = \<lparr>ct_connect = 0, ct_disconnect = 0, ct_listen = 0, ct_write = 0, ct_handleinput = 0, ct_customdata = 0\<rparr>"

definition OBEX_Init :: "alloc \<Rightarrow> trans_type \<Rightarrow> ptr \<Rightarrow> 32 word \<Rightarrow> obex option" where
  "OBEX_Init A tr cb flags =
     (if cb = 0 then None
      else if \<not> malloc_ok A 400 then None
      else let (rx, tx, tx_max) = (if tr = OBEX_TRANS_USB then (OBEX_MAXIMUM_MTU, OBEX_MINIMUM_MTU, OBEX_MAXIMUM_MTU)
                                   else (OBEX_DEFAULT_MTU, OBEX_MINIMUM_MTU, OBEX_DEFAULT_MTU)) in do {
        rxb \<leftarrow> buf_new A (unat (rx :: 16 word));
        txb \<leftarrow> buf_new A (unat (tx_max :: 16 word));
        Some \<lparr>mtu_tx = tx, mtu_rx = rx, mtu_tx_max = tx_max, fd = INVALID_SOCKET, serverfd = INVALID_SOCKET,
              writefd = INVALID_SOCKET, state = (MODE_SRV, STATE_IDLE),
              keepserver = (flags AND OBEX_FL_KEEPSERVER \<noteq> 0), filterhint = (flags AND OBEX_FL_FILTERHINT \<noteq> 0),
              filterias = (flags AND OBEX_FL_FILTERIAS \<noteq> 0), tx_msg = txb, rx_msg = rxb, cur_object = None,
              eventcb = cb,
              tport = \<lparr>t_type = tr, t_connected = False, t_mtu = 0, t_self = SA_NONE, t_peer = SA_NONE\<rparr>,
              ctrans = ctrans_zero, interfaces = None, interfaces_number = 0, userdata = 0\<rparr> })"

definition OBEX_RegisterCTransport :: "'e world \<Rightarrow> ctrans option \<Rightarrow> int \<times> 'e world" where
  "OBEX_RegisterCTransport w ct =
     (case ct of None \<Rightarrow> (-1, w) | Some c \<Rightarrow> (1, upd_hnd w (ctrans_update (\<lambda>_. c))))"

definition OBEX_FreeInterfaces :: "'e env \<Rightarrow> 'e world \<Rightarrow> 'e world option" where
  "OBEX_FreeInterfaces E w = do {
     w \<leftarrow> (if t_type (tport (hnd w)) = OBEX_TRANS_USB
           then do { w \<leftarrow> usbobex_free_interfaces E w (interfaces (hnd w));
                     Some (upd_hnd w (interfaces_update (\<lambda>_. None))) }
           else Some w);
     Some (upd_hnd w (interfaces_number_update (\<lambda>_. 0))) }"

text \<open>After \<open>OBEX_Cleanup\<close> the handle is gone; what is left are the objects and the outside.\<close>

definition OBEX_Cleanup ::
    "'e env \<Rightarrow> 'e world \<Rightarrow> ((addr \<Rightarrow> obex_object option) \<times> 'e \<times> usb_ctx) option" where
  "OBEX_Cleanup E w = do {
     w \<leftarrow> obex_transport_disconnect_request E w;
     w \<leftarrow> OBEX_FreeInterfaces E (obex_transport_disconnect_server E w);
     Some (objs w, ext w, libusb_ctx w) }"

definition OBEX_SetUserData :: "'e world \<Rightarrow> ptr \<Rightarrow> 'e world" where
  "OBEX_SetUserData w data = upd_hnd w (userdata_update (\<lambda>_. data))"

definition OBEX_GetUserData :: "'e world \<Rightarrow> ptr" where
  "OBEX_GetUserData w = userdata (hnd w)"

definition OBEX_SetUserCallBack :: "'e world \<Rightarrow> ptr \<Rightarrow> ptr \<Rightarrow> 'e world" where
  "OBEX_SetUserCallBack w cb data =
     (if cb \<noteq> 0
      then (let w = upd_hnd w (eventcb_update (\<lambda>_. cb)) in
            if data \<noteq> 0 then upd_hnd w (userdata_update (\<lambda>_. data)) else w)
      else w)"

definition OBEX_SetTransportMTU :: "'e env \<Rightarrow> 'e world \<Rightarrow> 16 word \<Rightarrow> 16 word \<Rightarrow> (int \<times> 'e world) option" where
  "OBEX_SetTransportMTU E w rx tx_max =
     (if cur_object (hnd w) \<noteq> None then Some (- EBUSY, w)
      else if rx < OBEX_MINIMUM_MTU then Some (- E2BIG, w)
      else if tx_max < OBEX_MINIMUM_MTU then Some (- E2BIG, w)
      else do {
        rxb \<leftarrow> buf_resize (env_alloc E) (rx_msg (hnd w)) (unat rx);
        txb \<leftarrow> buf_resize (env_alloc E) (tx_msg (hnd w)) (unat tx_max);
        Some (0, upd_hnd w (\<lambda>h. h\<lparr>mtu_rx := rx, mtu_tx_max := tx_max, rx_msg := rxb, tx_msg := txb\<rparr>)) })"

definition OBEX_ServerRegister :: "'e env \<Rightarrow> 'e world \<Rightarrow> saddr option \<Rightarrow> nat \<Rightarrow> (int \<times> 'e world) option" where
  "OBEX_ServerRegister E w saddr addrlen =
     (if addrlen \<noteq> 0 \<and> saddr = None then Some (-1, w)
      else obex_transport_listen E
        (case saddr of Some a \<Rightarrow> (if addrlen = 0 then w else set_trans w (t_self_update (\<lambda>_. a))) | None \<Rightarrow> w))"

text \<open>The new handle and the server's one without the connection's socket.\<close>

definition OBEX_ServerAccept :: "alloc \<Rightarrow> obex \<Rightarrow> ptr \<Rightarrow> ptr \<Rightarrow> obex option \<times> obex" where
  "OBEX_ServerAccept A server cb data =
     (if fd server = INVALID_SOCKET \<or> serverfd server = INVALID_SOCKET then (None, server)
      else if cur_object server \<noteq> None then (None, server)
      else if \<not> malloc_ok A 400 then (None, server)
      else case buf_new A (unat (mtu_rx server)) of None \<Rightarrow> (None, server)
      | Some rxb \<Rightarrow>
          (case buf_new A (unat (mtu_tx_max server)) of None \<Rightarrow> (None, server)
           | Some txb \<Rightarrow>
               (Some \<lparr>mtu_tx = mtu_tx server, mtu_rx = mtu_rx server, mtu_tx_max = mtu_tx_max server,
                  fd = fd server, serverfd = INVALID_SOCKET, writefd = INVALID_SOCKET,
                  state = (MODE_SRV, STATE_IDLE), keepserver = keepserver server, filterhint = False,
                  filterias = False, tx_msg = txb, rx_msg = rxb, cur_object = None,
                  eventcb = (if cb \<noteq> 0 then cb else eventcb server), tport = tport server,
                  ctrans = ctrans server, interfaces = None, interfaces_number = 0,
                  userdata = (if data \<noteq> 0 then data else userdata server)\<rparr>,
                server\<lparr>fd := INVALID_SOCKET\<rparr>)))"

definition OBEX_HandleInput :: "'e env \<Rightarrow> 'e world \<Rightarrow> int \<Rightarrow> (int \<times> 'e world) option" where
  "OBEX_HandleInput E w timeout = obex_transport_handle_input E w timeout"

definition OBEX_CustomDataFeed :: "'e env \<Rightarrow> 'e world \<Rightarrow> byte list option \<Rightarrow> int \<Rightarrow> (int \<times> 'e world) option" where
  "OBEX_CustomDataFeed E w inputbuf actual =
     (if inputbuf = None then Some (-1, w) else obex_data_indication E w inputbuf actual)"

definition OBEX_TransportConnect :: "'e env \<Rightarrow> 'e world \<Rightarrow> saddr option \<Rightarrow> nat \<Rightarrow> (int \<times> 'e world) option" where
  "OBEX_TransportConnect E w saddr addrlen =
     (if addrlen \<noteq> 0 \<and> saddr = None then Some (-1, w)
      else obex_transport_connect_request E
        (case saddr of Some a \<Rightarrow> (if addrlen = 0 then w else set_trans w (t_peer_update (\<lambda>_. a))) | None \<Rightarrow> w))"

definition OBEX_TransportDisconnect :: "'e env \<Rightarrow> 'e world \<Rightarrow> (int \<times> 'e world) option" where
  "OBEX_TransportDisconnect E w = do { w \<leftarrow> obex_transport_disconnect_request E w; Some (0, w) }"

definition OBEX_GetFD :: "'e world \<Rightarrow> int" where
  "OBEX_GetFD w = (if fd (hnd w) = INVALID_SOCKET then serverfd (hnd w) else fd (hnd w))"

section \<open>Requests\<close>

definition OBEX_Request :: "'e env \<Rightarrow> 'e world \<Rightarrow> addr option \<Rightarrow> (int \<times> 'e world) option" where
  "OBEX_Request E w object =
     (if cur_object (hnd w) \<noteq> None then Some (- EBUSY, w)
      else if object = None then Some (-1, w)
      else obex_client E (upd_hnd w (\<lambda>h. h\<lparr>cur_object := object, state := (MODE_CLI, STATE_START)\<rparr>)) False)"

definition OBEX_CancelRequest :: "'e env \<Rightarrow> 'e world \<Rightarrow> bool \<Rightarrow> (int \<times> 'e world) option" where
  "OBEX_CancelRequest E w nice = obex_cancelrequest E w nice"

definition OBEX_SuspendRequest :: "'e world \<Rightarrow> addr option \<Rightarrow> (int \<times> 'e world) option" where
  "OBEX_SuspendRequest w object =
     (case (case object of None \<Rightarrow> cur_object (hnd w) | Some a \<Rightarrow> Some a) of
        None \<Rightarrow> Some (-1, w) | Some a \<Rightarrow> obex_object_suspend w a)"

definition OBEX_ResumeRequest :: "'e env \<Rightarrow> 'e world \<Rightarrow> (int \<times> 'e world) option" where
  "OBEX_ResumeRequest E w =
     (case cur_object (hnd w) of None \<Rightarrow> Some (-1, w) | Some a \<Rightarrow> obex_object_resume E w a)"

section \<open>Objects\<close>

definition OBEX_ObjectNew :: "'e env \<Rightarrow> 'e world \<Rightarrow> byte \<Rightarrow> (addr option \<times> 'e world) option" where
  "OBEX_ObjectNew E w c =
     (let (object, w) = obex_object_new E w in
      case object of None \<Rightarrow> Some (None, w)
      | Some a \<Rightarrow> do {
          w \<leftarrow> upd_obj w a (\<lambda>ob. obex_object_setcmd ob c (c OR OBEX_FINAL));
          (if c = OBEX_CMD_CONNECT
           then do {
             (r, w) \<leftarrow> obex_insert_connectframe E w a;
             (if r < 0 then do { (_, w) \<leftarrow> obex_object_delete w (Some a); Some (None, w) }
              else Some (Some a, w)) }
           else Some (Some a, w)) })"

text \<open>Wrappers that only reject a NULL object.\<close>

definition OBEX_ObjectDelete :: "'e world \<Rightarrow> addr option \<Rightarrow> (int \<times> 'e world) option" where
  "OBEX_ObjectDelete w object = (case object of None \<Rightarrow> Some (-1, w) | Some a \<Rightarrow> obex_object_delete w (Some a))"

definition OBEX_ObjectGetSpace :: "'e world \<Rightarrow> addr option \<Rightarrow> 32 word \<Rightarrow> int option" where
  "OBEX_ObjectGetSpace w object flags =
     (case object of None \<Rightarrow> Some (-1)
      | Some a \<Rightarrow> do { ob \<leftarrow> objs w a; Some (obex_object_getspace (hnd w) ob flags) })"

definition OBEX_ObjectAddHeader ::
    "'e env \<Rightarrow> 'e world \<Rightarrow> addr option \<Rightarrow> byte \<Rightarrow> obex_headerdata \<Rightarrow> nat \<Rightarrow> 32 word \<Rightarrow> (int \<times> 'e world) option" where
  "OBEX_ObjectAddHeader E w object hi hv hv_size flags =
     (case object of None \<Rightarrow> Some (-1, w) | Some a \<Rightarrow> obex_object_addheader E w a hi hv hv_size flags)"

definition OBEX_ObjectGetNextHeader ::
    "'e env \<Rightarrow> 'e world \<Rightarrow> addr option \<Rightarrow> (int \<times> (byte \<times> obex_headerdata \<times> nat) option \<times> 'e world) option" where
  "OBEX_ObjectGetNextHeader E w object =
     (case object of None \<Rightarrow> Some (-1, None, w)
      | Some a \<Rightarrow> do { (h, w) \<leftarrow> obex_object_getnextheader E w a;
                     Some (if h = None then 0 else 1, h, w) })"

definition OBEX_ObjectReParseHeaders :: "'e world \<Rightarrow> addr option \<Rightarrow> (int \<times> 'e world) option" where
  "OBEX_ObjectReParseHeaders w object =
     (case object of None \<Rightarrow> Some (-1, w) | Some a \<Rightarrow> obex_object_reparseheaders w a)"

definition OBEX_ObjectReadStream ::
    "'e world \<Rightarrow> addr option \<Rightarrow> bool \<Rightarrow> (int \<times> byte list option \<times> 'e world) option" where
  "OBEX_ObjectReadStream w object buf_null =
     (case object of None \<Rightarrow> Some (-1, None, w) | Some a \<Rightarrow> obex_object_readstream w a buf_null)"

definition OBEX_ObjectSetRsp :: "'e world \<Rightarrow> addr option \<Rightarrow> byte \<Rightarrow> byte \<Rightarrow> (int \<times> 'e world) option" where
  "OBEX_ObjectSetRsp w object rsp lastrsp =
     (case object of None \<Rightarrow> Some (-1, w)
      | Some a \<Rightarrow> do { w \<leftarrow> upd_obj w a (\<lambda>ob. obex_object_setrsp ob rsp lastrsp); Some (1, w) })"

text \<open>The result with the pointer stored through \<open>buffer\<close>.\<close>

definition OBEX_ObjectGetNonHdrData :: "'e world \<Rightarrow> addr option \<Rightarrow> (int \<times> byte list option) option" where
  "OBEX_ObjectGetNonHdrData w object =
     (case object of None \<Rightarrow> Some (-1, None)
      | Some a \<Rightarrow> do {
          ob \<leftarrow> objs w a;
          Some (case rx_nonhdr_data ob of None \<Rightarrow> (0, None)
                | Some b \<Rightarrow> (s32 (int (data_size b)), Some (buf_ptr b))) })"

definition OBEX_ObjectSetNonHdrData ::
    "'e env \<Rightarrow> 'e world \<Rightarrow> addr option \<Rightarrow> byte list option \<Rightarrow> nat \<Rightarrow> (int \<times> 'e world) option" where
  "OBEX_ObjectSetNonHdrData E w object buffer len =
     (case object of None \<Rightarrow> Some (-1, w)
      | Some a \<Rightarrow>
          (case buffer of None \<Rightarrow> Some (-1, w)
           | Some d \<Rightarrow> do {
               ob \<leftarrow> objs w a;
               (if tx_nonhdr_data ob \<noteq> None then Some (-1, w)
                else case buf_new (env_alloc E) len of
                  None \<Rightarrow> Some (-1, w)
                | Some b \<Rightarrow> do {
                    b \<leftarrow> buf_insert_end (env_alloc E) b d len;
                    w \<leftarrow> upd_obj w a (\<lambda>ob. ob\<lparr>tx_nonhdr_data := Some b\<rparr>);
                    Some (1, w) }) }))"

definition OBEX_ObjectSetHdrOffset :: "'e world \<Rightarrow> addr option \<Rightarrow> nat \<Rightarrow> (int \<times> 'e world) option" where
  "OBEX_ObjectSetHdrOffset w object offset =
     (case object of None \<Rightarrow> Some (-1, w)
      | Some a \<Rightarrow> do { w \<leftarrow> upd_obj w a (\<lambda>ob. ob\<lparr>headeroffset := offset\<rparr>); Some (1, w) })"

definition OBEX_ObjectGetCommand :: "'e world \<Rightarrow> addr option \<Rightarrow> int option" where
  "OBEX_ObjectGetCommand w object =
     (case (case object of None \<Rightarrow> cur_object (hnd w) | Some a \<Rightarrow> Some a) of
        None \<Rightarrow> Some (-1) | Some a \<Rightarrow> do { ob \<leftarrow> objs w a; Some (int (unat (ob_cmd ob))) })"

section \<open>Strings\<close>

text \<open>
  The first loop of \<open>OBEX_UnicodeToChar\<close> finds the first character whose low byte is zero (whatever its
  high byte); beyond the block it is undefined. \<open>c\<close> and \<open>uc\<close> are the blocks from the pointers on.
\<close>

fun unicode_len :: "byte list \<Rightarrow> nat option" where
  "unicode_len (hi # lo # uc) = (if lo = 0 then Some 0 else map_option Suc (unicode_len uc))"
| "unicode_len _ = None"

fun unicode_chars :: "nat \<Rightarrow> byte list \<Rightarrow> byte list" where
  "unicode_chars (Suc n) (hi # lo # uc) = lo # unicode_chars n uc"
| "unicode_chars _ _ = []"

definition OBEX_UnicodeToChar :: "byte list option \<Rightarrow> byte list option \<Rightarrow> int \<Rightarrow> (int \<times> byte list option) option" where
  "OBEX_UnicodeToChar c uc sz =
     (case uc of None \<Rightarrow> Some (-1, c)
      | Some u \<Rightarrow>
          (case c of None \<Rightarrow> Some (-1, c)
           | Some m \<Rightarrow> do {
               n \<leftarrow> unicode_len u;
               (if \<not> int n < sz then Some (-1, c)
                else do { m \<leftarrow> mem_write m 0 (unicode_chars n u @ [0]); Some (0, Some m) }) }))"

text \<open>The loop \<open>while (n--)\<close> of \<open>OBEX_CharToUnicode\<close>.\<close>

fun widen_loop :: "byte list \<Rightarrow> nat \<Rightarrow> byte list \<Rightarrow> byte list option" where
  "widen_loop c 0 uc = Some uc"
| "widen_loop c (Suc n) uc = do { uc \<leftarrow> mem_write uc (n * 2) [0, c ! n]; widen_loop c n uc }"

definition OBEX_CharToUnicode :: "byte list option \<Rightarrow> byte list option \<Rightarrow> int \<Rightarrow> (int \<times> byte list option) option" where
  "OBEX_CharToUnicode uc c sz =
     (case uc of None \<Rightarrow> Some (-1, uc)
      | Some m \<Rightarrow>
          (case c of None \<Rightarrow> Some (-1, uc)
           | Some s \<Rightarrow>
               (if 0 \<notin> set s then None
                else let n = length (takeWhile (\<lambda>x. x \<noteq> 0) s) in
                     if \<not> int n * 2 + 2 \<le> sz then Some (-1, uc)
                     else do {
                       m \<leftarrow> mem_write m (n * 2) [0, 0];
                       m \<leftarrow> widen_loop s n m;
                       Some (s32 (int n * 2 + 2), Some m) })))"

definition OBEX_ResponseToString :: "int \<Rightarrow> string" where
  "OBEX_ResponseToString rsp = obex_response_to_string rsp"

section \<open>Transports\<close>

definition OBEX_SetCustomData :: "'e world \<Rightarrow> ptr \<Rightarrow> 'e world" where
  "OBEX_SetCustomData w data = upd_hnd w (ctrans_update (ct_customdata_update (\<lambda>_. data)))"

definition OBEX_GetCustomData :: "'e world \<Rightarrow> ptr" where
  "OBEX_GetCustomData w = ct_customdata (ctrans (hnd w))"

definition TcpOBEX_ServerRegister :: "'e env \<Rightarrow> 'e world \<Rightarrow> saddr option \<Rightarrow> (int \<times> 'e world) option" where
  "TcpOBEX_ServerRegister E w addr = obex_transport_listen E (inobex_prepare_listen w addr)"

definition TcpOBEX_TransportConnect :: "'e env \<Rightarrow> 'e world \<Rightarrow> saddr option \<Rightarrow> (int \<times> 'e world) option" where
  "TcpOBEX_TransportConnect E w addr =
     (if cur_object (hnd w) \<noteq> None then Some (-1, w)
      else obex_transport_connect_request E (inobex_prepare_connect w addr))"

definition IrOBEX_ServerRegister :: "'e env \<Rightarrow> 'e world \<Rightarrow> byte list option \<Rightarrow> (int \<times> 'e world) option" where
  "IrOBEX_ServerRegister E w service =
     (if service = None then Some (-1, w)
      else do { w \<leftarrow> irobex_prepare_listen w service; obex_transport_listen E w })"

definition IrOBEX_TransportConnect :: "'e env \<Rightarrow> 'e world \<Rightarrow> byte list option \<Rightarrow> (int \<times> 'e world) option" where
  "IrOBEX_TransportConnect E w service =
     (if cur_object (hnd w) \<noteq> None then Some (- EBUSY, w)
      else do { w \<leftarrow> irobex_prepare_connect w service; obex_transport_connect_request E w })"

definition BtOBEX_ServerRegister :: "'e env \<Rightarrow> 'e world \<Rightarrow> byte list option \<Rightarrow> byte \<Rightarrow> (int \<times> 'e world) option" where
  "BtOBEX_ServerRegister E w src channel =
     obex_transport_listen E (btobex_prepare_listen w (case src of None \<Rightarrow> BDADDR_ANY | Some a \<Rightarrow> a) channel)"

definition BtOBEX_TransportConnect ::
    "'e env \<Rightarrow> 'e world \<Rightarrow> byte list option \<Rightarrow> byte list option \<Rightarrow> byte \<Rightarrow> (int \<times> 'e world) option" where
  "BtOBEX_TransportConnect E w src dst channel =
     (if cur_object (hnd w) \<noteq> None then Some (- EBUSY, w)
      else case dst of None \<Rightarrow> Some (-1, w)
      | Some d \<Rightarrow> obex_transport_connect_request E
          (btobex_prepare_connect w (case src of None \<Rightarrow> BDADDR_ANY | Some a \<Rightarrow> a) d channel))"

definition FdOBEX_TransportSetup :: "'e env \<Rightarrow> 'e world \<Rightarrow> int \<Rightarrow> int \<Rightarrow> int \<Rightarrow> (int \<times> 'e world) option" where
  "FdOBEX_TransportSetup E w rfd wfd mtu =
     (if cur_object (hnd w) \<noteq> None then Some (- EBUSY, w)
      else let h = (hnd w)\<lparr>fd := rfd, writefd := wfd\<rparr>;
               m = (if mtu \<noteq> 0 then u32 mtu else unat (mtu_tx_max h))
           in obex_transport_connect_request E (w\<lparr>hnd := h\<lparr>tport := (tport h)\<lparr>t_mtu := m\<rparr>\<rparr>\<rparr>))"

definition OBEX_InterfaceConnect :: "'e env \<Rightarrow> 'e world \<Rightarrow> usb_interface option \<Rightarrow> (int \<times> 'e world) option" where
  "OBEX_InterfaceConnect E w intf =
     (if cur_object (hnd w) \<noteq> None then Some (- EBUSY, w)
      else case intf of None \<Rightarrow> Some (-1, w)
      | Some i \<Rightarrow>
          (if t_type (tport (hnd w)) = OBEX_TRANS_USB
           then obex_transport_connect_request E (usbobex_prepare_connect w (if_intf i))
           else Some (- ESOCKTNOSUPPORT, w)))"

definition OBEX_EnumerateInterfaces :: "'e env \<Rightarrow> 'e world \<Rightarrow> (int \<times> 'e world) option" where
  "OBEX_EnumerateInterfaces E w = do {
     w \<leftarrow> OBEX_FreeInterfaces E w;
     w \<leftarrow> (if t_type (tport (hnd w)) = OBEX_TRANS_USB
           then do {
             (n, arr, w) \<leftarrow> usbobex_find_interfaces E w;
             Some (upd_hnd w (\<lambda>h. h\<lparr>interfaces_number := n,
               interfaces := (case arr of None \<Rightarrow> interfaces h | Some _ \<Rightarrow> arr)\<rparr>)) }
           else Some w);
     Some (interfaces_number (hnd w), w) }"

definition OBEX_GetInterfaceByIndex :: "'e world \<Rightarrow> int \<Rightarrow> usb_interface option option" where
  "OBEX_GetInterfaceByIndex w i =
     (if i \<ge> interfaces_number (hnd w) \<or> i < 0 then Some None
      else do { arr \<leftarrow> interfaces (hnd w); (if nat i < length arr then Some (Some (arr ! nat i)) else None) })"

end
