(* ===== verification/Ircp_Io.thy ===== *)
theory Ircp_Io
  imports Obex_Api
begin

text \<open>
  ircp/ircp_io.c and ircp/dirtraverse.c: the file side of the ircp application. A file name is the
  list of its bytes without the terminating zero. The C library's file functions are a record of
  parameters over the state \<open>'x\<close> of the operating system; the application's own structure, which
  the callbacks reach through the user data of the handle, and that state make up the outside of
  the handle's world.
\<close>

section \<open>Operating system\<close>

abbreviation "MAXPATHLEN \<equiv> (4096 :: nat)"
abbreviation "SLASH \<equiv> (47 :: byte)"
abbreviation "DOT \<equiv> (46 :: byte)"

datatype file_kind = S_REG | S_DIR | S_LNK | S_CHR | S_BLK | S_FIFO | S_SOCK

text \<open>The test \<open>st_mode & S_IFDIR\<close> of ircp_client.c: block devices and sockets have the bit as well.\<close>

definition s_ifdir_bit :: "file_kind \<Rightarrow> bool" where
  "s_ifdir_bit k = (case k of S_DIR \<Rightarrow> True | S_BLK \<Rightarrow> True | S_SOCK \<Rightarrow> True | _ \<Rightarrow> False)"

datatype ircp_event = IRCP_EV_ERRMSG | IRCP_EV_OK | IRCP_EV_ERR | IRCP_EV_CONNECTING
  | IRCP_EV_DISCONNECTING | IRCP_EV_SENDING | IRCP_EV_LISTENING | IRCP_EV_CONNECTIND
  | IRCP_EV_DISCONNECTIND | IRCP_EV_RECEIVING

text \<open>
  \<open>None\<close> is the failure of \<open>stat\<close>, \<open>lstat\<close>, \<open>opendir\<close> and \<open>getcwd\<close>. A directory stream is the list of
  the names \<open>readdir\<close> returns one by one: POSIX leaves open whether later changes of the directory
  show, the model fixes the list when the directory is opened. \<open>px_create\<close> is
  \<open>open(_, O_RDWR | O_CREAT | O_EXCL, _)\<close>, \<open>px_open\<close> is \<open>open(_, O_RDONLY, 0)\<close>; \<open>px_info\<close> is the
  application's \<open>infocb\<close>.
\<close>

record 'x posix =
  px_stat :: "byte list \<Rightarrow> 'x \<Rightarrow> (file_kind \<times> int) option \<times> 'x"
  px_lstat :: "byte list \<Rightarrow> 'x \<Rightarrow> file_kind option \<times> 'x"
  px_opendir :: "byte list \<Rightarrow> 'x \<Rightarrow> byte list list option \<times> 'x"
  px_chdir :: "byte list \<Rightarrow> 'x \<Rightarrow> int \<times> 'x"
  px_mkdir :: "byte list \<Rightarrow> 'x \<Rightarrow> int \<times> 'x"
  px_getcwd :: "'x \<Rightarrow> byte list option \<times> 'x"
  px_create :: "byte list \<Rightarrow> 'x \<Rightarrow> int \<times> 'x"
  px_mkstemp :: "byte list \<Rightarrow> 'x \<Rightarrow> int \<times> 'x"
  px_open :: "byte list \<Rightarrow> 'x \<Rightarrow> int \<times> 'x"
  px_read :: "int \<Rightarrow> nat \<Rightarrow> 'x \<Rightarrow> (int \<times> byte list) \<times> 'x"
  px_write :: "int \<Rightarrow> byte list \<Rightarrow> 'x \<Rightarrow> int \<times> 'x"
  px_close :: "int \<Rightarrow> 'x \<Rightarrow> int \<times> 'x"
  px_info :: "ptr \<Rightarrow> ircp_event \<Rightarrow> byte list \<Rightarrow> 'x \<Rightarrow> 'x"

text \<open>A system in which every call fails; examples replace what they need.\<close>

definition dead_posix :: "'x posix" where
  "dead_posix = \<lparr>px_stat = (\<lambda>_ x. (None, x)), px_lstat = (\<lambda>_ x. (None, x)), px_opendir = (\<lambda>_ x. (None, x)),
     px_chdir = (\<lambda>_ x. (-1, x)), px_mkdir = (\<lambda>_ x. (-1, x)), px_getcwd = (\<lambda>x. (None, x)),
     px_create = (\<lambda>_ x. (-1, x)), px_mkstemp = (\<lambda>_ x. (-1, x)), px_open = (\<lambda>_ x. (-1, x)),
     px_read = (\<lambda>_ _ x. ((-1, []), x)), px_write = (\<lambda>_ _ x. (-1, x)), px_close = (\<lambda>_ x. (-1, x)),
     px_info = (\<lambda>_ _ _ x. x)\<rparr>"

record ('s, 'x) host =
  app :: 's
  os :: 'x

definition sys_os :: "('x \<Rightarrow> 'r \<times> 'x) \<Rightarrow> ('s, 'x) host world \<Rightarrow> 'r \<times> ('s, 'x) host world" where
  "sys_os f w = (let (r, x) = f (os (ext w)) in (r, w\<lparr>ext := (ext w)\<lparr>os := x\<rparr>\<rparr>))"

definition upd_app :: "('s, 'x) host world \<Rightarrow> ('s \<Rightarrow> 's) \<Rightarrow> ('s, 'x) host world" where
  "upd_app w f = w\<lparr>ext := (ext w)\<lparr>app := f (app (ext w))\<rparr>\<rparr>"

definition infocb :: "'x posix \<Rightarrow> ptr \<Rightarrow> ircp_event \<Rightarrow> byte list \<Rightarrow> ('s, 'x) host world \<Rightarrow> ('s, 'x) host world" where
  "infocb P cb ev param w = w\<lparr>ext := (ext w)\<lparr>os := px_info P cb ev param (os (ext w))\<rparr>\<rparr>"

text \<open>The service name both programs use.\<close>

definition OBEX_IRXFER :: "byte list" where
  "OBEX_IRXFER = map (\<lambda>c. word_of_nat (of_char c)) ''OBEX:IrXfer''"

section \<open>C strings\<close>

text \<open>The string at the start of a block; without a terminating zero reading it runs out of the block.\<close>

definition c_str :: "mem \<Rightarrow> byte list option" where
  "c_str m = (if 0 \<in> set m then Some (takeWhile (\<lambda>c. c \<noteq> 0) m) else None)"

text \<open>\<open>strstr(s, needle) != NULL\<close>.\<close>

fun strstr_found :: "byte list \<Rightarrow> byte list \<Rightarrow> bool" where
  "strstr_found [] needle = (needle = [])"
| "strstr_found (c # s) needle = (take (length needle) (c # s) = needle \<or> strstr_found s needle)"

text \<open>What follows the last \<open>c\<close> in \<open>s\<close>: \<open>strrchr(s, c) + 1\<close>, \<open>None\<close> for NULL.\<close>

fun strrchr_after :: "byte list \<Rightarrow> byte \<Rightarrow> byte list option" where
  "strrchr_after [] c = None"
| "strrchr_after (d # s) c =
     (case strrchr_after s c of Some r \<Rightarrow> Some r | None \<Rightarrow> (if d = c then Some s else None))"

section \<open>Names, files and directories\<close>

definition ircp_nameok :: "byte list \<Rightarrow> bool" where
  "ircp_nameok name =
     (if name \<noteq> [] \<and> name ! 0 = SLASH then False
      else if length name \<ge> 3 then
        (if name ! 0 = DOT \<and> name ! 1 = DOT \<and> name ! 2 = SLASH then False
         else if strstr_found name [SLASH, DOT, DOT, SLASH] then False
         else True)
      else True)"

definition XXXXXX :: "byte list" where
  "XXXXXX = [95, 88, 88, 88, 88, 88, 88]"

definition ircp_open_safe :: "'x posix \<Rightarrow> byte list option \<Rightarrow> byte list \<Rightarrow> 'x \<Rightarrow> int \<times> 'x" where
  "ircp_open_safe P path name x =
     (if \<not> ircp_nameok name then (-1, x)
      else let path = (case path of None \<Rightarrow> [DOT] | Some p \<Rightarrow> (if p = [] then [DOT] else p));
               diskname = path @ SLASH # name in
        if length diskname \<ge> MAXPATHLEN then (-1, x)
        else let (fd, x) = px_create P diskname x in
          if fd < 0 \<and> length (diskname @ XXXXXX) < MAXPATHLEN then px_mkstemp P (diskname @ XXXXXX) x
          else (fd, x))"

abbreviation "CD_CREATE \<equiv> (1 :: 32 word)"
abbreviation "CD_ALLOWABS \<equiv> (2 :: 32 word)"

text \<open>\<open>strncpy\<close> of a name that fills the buffer leaves it without a terminating zero.\<close>

definition checkdir_path :: "byte list \<Rightarrow> byte list \<Rightarrow> byte list option" where
  "checkdir_path path dir =
     (if path \<noteq> [] then Some (take (MAXPATHLEN - 1) (path @ SLASH # dir))
      else if length dir < MAXPATHLEN then Some dir else None)"

definition ircp_checkdir :: "'x posix \<Rightarrow> byte list \<Rightarrow> byte list \<Rightarrow> 32 word \<Rightarrow> 'x \<Rightarrow> (int \<times> 'x) option" where
  "ircp_checkdir P path dir flags x =
     (if flags AND CD_ALLOWABS = 0 \<and> \<not> ircp_nameok dir then Some (-1, x)
      else do {
        newpath \<leftarrow> checkdir_path path dir;
        (let (st, x) = px_stat P newpath x in
          case st of
            Some (kind, _) \<Rightarrow> Some (if kind = S_DIR then 1 else -1, x)
          | None \<Rightarrow> Some (if flags AND CD_CREATE \<noteq> 0 then px_mkdir P newpath x else (-1, x))) })"

text \<open>
  \<open>get_fileinfo\<close> does not look at the result of \<open>stat\<close>: after a failure it reads a structure that was
  never written. The time stamp it formats ends up in a debug message only.
\<close>

definition get_fileinfo :: "'x posix \<Rightarrow> byte list \<Rightarrow> 'x \<Rightarrow> (int \<times> 'x) option" where
  "get_fileinfo P name x =
     (let (st, x) = px_stat P name x in
      case st of None \<Rightarrow> None | Some (_, sz) \<Rightarrow> Some (s32 sz, x))"

definition build_object_from_file ::
    "('s, 'x) host env \<Rightarrow> 'x posix \<Rightarrow> ('s, 'x) host world \<Rightarrow> byte list \<Rightarrow> byte list
     \<Rightarrow> (addr option \<times> ('s, 'x) host world) option" where
  "build_object_from_file E P w localname remotename = do {
     (sz, x) \<leftarrow> get_fileinfo P localname (os (ext w));
     (let w = w\<lparr>ext := (ext w)\<lparr>os := x\<rparr>\<rparr> in do {
     (object, w) \<leftarrow> OBEX_ObjectNew E w OBEX_CMD_PUT;
     (if object = None then Some (None, w)
      else let ucname_len = length remotename * 2 + 2 in
        case malloc (env_alloc E) ucname_len of
          None \<Rightarrow> do { (_, w) \<leftarrow> OBEX_ObjectDelete w object; Some (None, w) }
        | Some ucname \<Rightarrow> do {
            (n, uc) \<leftarrow> OBEX_CharToUnicode (Some ucname) (Some (remotename @ [0])) (int ucname_len);
            (_, w) \<leftarrow> OBEX_ObjectAddHeader E w object OBEX_HDR_NAME (BS uc) (u32 n) 0;
            (_, w) \<leftarrow> OBEX_ObjectAddHeader E w object OBEX_HDR_LENGTH (BQ4 (word_of_int sz)) 4 0;
            (_, w) \<leftarrow> OBEX_ObjectAddHeader E w object OBEX_HDR_BODY (BS None) 0 OBEX_FL_STREAM_START;
            Some (object, w) }) }) }"

section \<open>Directory traversal\<close>

datatype visit_action = VISIT_FILE | VISIT_GOING_DEEPER | VISIT_GOING_UP

type_synonym 'w visit_cb = "visit_action \<Rightarrow> byte list \<Rightarrow> byte list \<Rightarrow> 'w \<Rightarrow> (int \<times> 'w) option"

text \<open>
  \<open>visit_dir\<close> and its \<open>readdir\<close> loop with the value of \<open>ret\<close>. The buffers \<open>t\<close> and \<open>path\<close> hold
  \<open>MAXPATHLEN\<close> bytes: \<open>snprintf\<close> cuts the one off, \<open>strcat\<close> runs over the end of the other. On the way
  back \<open>path\<close> is cut to what it was. The paths grow with each level, so the recursion ends.
\<close>

function visit_dir :: "'x posix \<Rightarrow> ('s, 'x) host world visit_cb \<Rightarrow> byte list \<Rightarrow> ('s, 'x) host world
       \<Rightarrow> (int \<times> ('s, 'x) host world) option"
  and visit_entries :: "'x posix \<Rightarrow> ('s, 'x) host world visit_cb \<Rightarrow> byte list \<Rightarrow> byte list list \<Rightarrow> int
       \<Rightarrow> ('s, 'x) host world \<Rightarrow> (int \<times> ('s, 'x) host world) option"
where
  "visit_dir P cb path w =
     (let (es, w) = sys_os (px_opendir P path) w in
      case es of None \<Rightarrow> Some (-1, w) | Some es \<Rightarrow> visit_entries P cb path es 1 w)"
| "visit_entries P cb path [] ret w = Some (ret, w)"
| "visit_entries P cb path (name # es) ret w =
     (if name = [DOT] \<or> name = [DOT, DOT] then visit_entries P cb path es ret w
      else let t = take (MAXPATHLEN - 1) (path @ SLASH # name); (kind, w) = sys_os (px_lstat P t) w in
        case kind of
          None \<Rightarrow> Some (-1, w)
        | Some kind \<Rightarrow>
            (if kind = S_REG
             then do { (ret, w) \<leftarrow> cb VISIT_FILE t [] w;
                       (if ret < 0 then Some (ret, w) else visit_entries P cb path es ret w) }
             else if kind = S_DIR
             then do {
               (ret, w) \<leftarrow> cb VISIT_GOING_DEEPER name path w;
               (if ret < 0 then Some (ret, w)
                else if length path + 1 + length name \<ge> MAXPATHLEN then None
                else do {
                  (ret, w) \<leftarrow> visit_dir P cb t w;
                  (if ret < 0 then Some (ret, w)
                   else do {
                     (ret, w) \<leftarrow> cb VISIT_GOING_UP [] [] w;
                     (if ret < 0 then Some (ret, w) else visit_entries P cb path es ret w) }) }) }
             else visit_entries P cb path es ret w))"
  by pat_completeness auto

termination
  by (relation "measures [case_sum (\<lambda>(P, cb, path, w). MAXPATHLEN - length path)
                                   (\<lambda>(P, cb, path, es, ret, w). MAXPATHLEN - length path),
                          case_sum (\<lambda>_. 1) (\<lambda>_. 0),
                          case_sum (\<lambda>_. 0) (\<lambda>(P, cb, path, es, ret, w). length es)]") auto

declare visit_dir.simps [simp del] visit_entries.simps(2) [simp del]

definition visit_all_files ::
    "'x posix \<Rightarrow> ('s, 'x) host world visit_cb \<Rightarrow> byte list \<Rightarrow> ('s, 'x) host world
     \<Rightarrow> (int \<times> ('s, 'x) host world) option" where
  "visit_all_files P cb name w =
     (let (st, w) = sys_os (px_stat P name) w in
      case st of
        None \<Rightarrow> Some (-1, w)
      | Some (kind, _) \<Rightarrow>
          (if kind = S_REG then cb VISIT_FILE name [] w
           else if kind = S_DIR
           then do {
             (ret, w) \<leftarrow> (if name = [DOT] then Some (1, w) else cb VISIT_GOING_DEEPER name [] w);
             (if ret < 0 then Some (ret, w)
              else do {
                (ret, w) \<leftarrow> visit_dir P cb (take (MAXPATHLEN - 1) name) w;
                (if ret < 0 then Some (ret, w) else cb VISIT_GOING_UP [] [] w) }) }
           else Some (-1, w)))"

section \<open>Names as paths\<close>

text \<open>The components of a path, between the slashes.\<close>

fun components :: "byte list \<Rightarrow> byte list list" where
  "components [] = [[]]"
| "components (c # s) =
     (if c = SLASH then [] # components s
      else (case components s of [] \<Rightarrow> [[c]] | p # ps \<Rightarrow> (c # p) # ps))"

lemma components_not_Nil [simp]: "components s \<noteq> []"
  by (cases s) (auto split: list.splits)

lemma components_Cons: "c \<noteq> SLASH \<Longrightarrow> components (c # s) = (c # hd (components s)) # tl (components s)"
  by (cases "components s") auto

lemma components_slash: "components (SLASH # s) = [] # components s"
  by simp

lemma components_absolute: "s \<noteq> [] \<and> s ! 0 = SLASH \<longleftrightarrow> hd (components s) = [] \<and> tl (components s) \<noteq> []"
proof (cases s)
  case (Cons c r)
  then show ?thesis by (cases "c = SLASH") (simp_all add: components_Cons components_slash del: components.simps)
qed simp

lemma components_plain: "SLASH \<notin> set s \<Longrightarrow> components s = [s]"
  by (induction s) auto

lemma components_dotdot_first:
  "take 3 s = [DOT, DOT, SLASH] \<longleftrightarrow> hd (components s) = [DOT, DOT] \<and> tl (components s) \<noteq> []"
proof -
  have nil: "hd (components s) = [] \<and> tl (components s) \<noteq> [] \<longleftrightarrow> take 1 s = [SLASH]" for s
    using components_absolute [of s] by (cases s) auto
  have step: "hd (components s) = DOT # r \<and> tl (components s) \<noteq> [] \<longleftrightarrow>
      take 1 s = [DOT] \<and> hd (components (tl s)) = r \<and> tl (components (tl s)) \<noteq> []" for s r
  proof (cases s)
    case (Cons c s')
    then show ?thesis by (cases "c = SLASH") (auto simp: components_Cons components_slash simp del: components.simps)
  qed simp
  show ?thesis
    unfolding step nil by (cases s; cases "tl s"; cases "tl (tl s)") (auto simp: numeral_eq_Suc)
qed

lemma strstr_found_length: "strstr_found s needle \<Longrightarrow> length needle \<le> length s"
proof (induction s)
  case (Cons c s)
  show ?case
  proof (cases "take (length needle) (c # s) = needle")
    case True
    then show ?thesis by (metis length_take min.cobounded1)
  next
    case False
    then show ?thesis using Cons by simp
  qed
qed simp

lemma in_butlast: "xs \<noteq> [] \<Longrightarrow> x \<in> set (butlast xs) \<longleftrightarrow> hd xs = x \<and> tl xs \<noteq> [] \<or> x \<in> set (butlast (tl xs))"
  by (cases xs) auto

lemma strstr_dotdot: "strstr_found s [SLASH, DOT, DOT, SLASH] \<longleftrightarrow> [DOT, DOT] \<in> set (butlast (tl (components s)))"
proof (induction s)
  case (Cons c s)
  show ?case
  proof (cases "c = SLASH")
    case True
    have "take 4 (c # s) = [SLASH, DOT, DOT, SLASH] \<longleftrightarrow> take 3 s = [DOT, DOT, SLASH]"
      using True by (simp add: numeral_eq_Suc)
    then show ?thesis using Cons components_dotdot_first [of s] True
      by (simp add: in_butlast [of "components s"] numeral_eq_Suc)
  next
    case False
    then show ?thesis using Cons by (simp add: components_Cons del: components.simps)
  qed
qed simp

text \<open>
  C30: what \<open>ircp_nameok\<close> accepts, in terms of path components: exactly the names that
  are not absolute and in which the parent directory \<open>..\<close> is not a component, unless it is the last
  one. A name \<open>..\<close> itself and names that end in \<open>/..\<close> are accepted.
\<close>

theorem nameok_components:
  "ircp_nameok name \<longleftrightarrow> \<not> (hd (components name) = [] \<and> tl (components name) \<noteq> [])
     \<and> [DOT, DOT] \<notin> set (butlast (components name))"
proof -
  have three: "length name \<ge> 3 \<Longrightarrow> (name ! 0 = DOT \<and> name ! 1 = DOT \<and> name ! 2 = SLASH) = (take 3 name = [DOT, DOT, SLASH])"
    by (cases name; cases "tl name"; cases "tl (tl name)") (auto simp: numeral_eq_Suc)
  have short: "take 3 name = [DOT, DOT, SLASH] \<Longrightarrow> length name \<ge> 3"
    using length_take [of 3 name] by simp
  have long: "strstr_found name [SLASH, DOT, DOT, SLASH] \<Longrightarrow> length name \<ge> 3"
    using strstr_found_length [of name] by fastforce
  show ?thesis
    unfolding ircp_nameok_def in_butlast [OF components_not_Nil] components_absolute [symmetric]
      strstr_dotdot [symmetric] components_dotdot_first [symmetric]
    using three short long by auto
qed
end
