(* ===== verification/Ircp_Server.thy ===== *)
theory Ircp_Server
  imports Ircp_Io
begin

text \<open>
  ircp/ircp_server.c: the receiving side of ircp. Its structure is the application part of the
  world; \<open>srv_obex_event\<close> is the event callback the library calls.
\<close>

section \<open>State\<close>

record ircp_server =
  sv_finished :: int
  sv_success :: int
  sv_inbox :: "byte list"
  sv_infocb :: ptr
  sv_fd :: int
  sv_dirdepth :: int

type_synonym 'x srv_host = "(ircp_server, 'x) host"

abbreviation srv_of :: "'x srv_host world \<Rightarrow> ircp_server" where
  "srv_of w \<equiv> app (ext w)"

definition srv_info :: "'x posix \<Rightarrow> ircp_event \<Rightarrow> byte list \<Rightarrow> 'x srv_host world \<Rightarrow> 'x srv_host world" where
  "srv_info P ev param w = infocb P (sv_infocb (srv_of w)) ev param w"

section \<open>Requests\<close>

text \<open>
  The loop over the received headers, the same in \<open>ircp_srv_setpath\<close> and \<open>new_file\<close>. The block for
  the name has half the length of the header, but \<open>OBEX_UnicodeToChar\<close> is told the whole length;
  its result is not looked at. \<open>name\<close> is the block so far (\<open>None\<close> is NULL). A NULL object gives -1,
  which keeps the loop running on variables that were never set.
\<close>

partial_function (option) received_name ::
    "'x srv_host env \<Rightarrow> 'x srv_host world \<Rightarrow> addr option \<Rightarrow> mem option \<Rightarrow> (mem option \<times> 'x srv_host world) option"
where
  "received_name E w object name = do {
     (r, h, w) \<leftarrow> OBEX_ObjectGetNextHeader E w object;
     (if r = 0 then Some (name, w)
      else do {
        (hi, hv, hlen) \<leftarrow> h;
        (if hi = OBEX_HDR_NAME
         then (case malloc (env_alloc E) (hlen div 2) of
                 None \<Rightarrow> received_name E w object None
               | Some m \<Rightarrow> do {
                   bs \<leftarrow> hv_bs hv;
                   (_, name) \<leftarrow> OBEX_UnicodeToChar (Some m) bs (s32 (int hlen));
                   received_name E w object name })
         else received_name E w object name) }) }"

text \<open>The change of directory: lines 173 to 204, with the first byte of the SETPATH packet's own data.\<close>

definition setpath_move ::
    "'x posix \<Rightarrow> byte \<Rightarrow> mem option \<Rightarrow> 'x srv_host world \<Rightarrow> (int \<times> 'x srv_host world) option" where
  "setpath_move P flags name w =
     (if flags AND 1 \<noteq> 0
      then (if sv_dirdepth (srv_of w) = 0 then Some (-1, w)
            else let (r, w) = sys_os (px_chdir P [DOT, DOT]) w in
              if r = -1 then Some (-1, w)
              else Some (1, upd_app w (\<lambda>s. s\<lparr>sv_dirdepth := sv_dirdepth s - 1\<rparr>)))
      else case name of
        None \<Rightarrow> Some (-1, w)
      | Some m \<Rightarrow> do {
          name \<leftarrow> c_str m;
          (if name = []
           then let (r, w) = sys_os (px_chdir P (sv_inbox (srv_of w))) w in
             Some (if r = -1 then (-1, w) else (1, upd_app w (\<lambda>s. s\<lparr>sv_dirdepth := 0\<rparr>)))
           else do {
             (r, x) \<leftarrow> ircp_checkdir P [] name CD_CREATE (os (ext w));
             (let w = w\<lparr>ext := (ext w)\<lparr>os := x\<rparr>\<rparr> in
              if r < 0 then Some (-1, w)
              else let (r, w) = sys_os (px_chdir P name) w in
                Some (if r = -1 then (-1, w)
                      else (1, upd_app w (\<lambda>s. s\<lparr>sv_dirdepth := sv_dirdepth s + 1\<rparr>)))) }) })"

definition ircp_srv_setpath ::
    "'x srv_host env \<Rightarrow> 'x posix \<Rightarrow> 'x srv_host world \<Rightarrow> addr option \<Rightarrow> (int \<times> 'x srv_host world) option" where
  "ircp_srv_setpath E P w object = do {
     (n, nonhdr_data) \<leftarrow> OBEX_ObjectGetNonHdrData w object;
     (if n \<noteq> 2 then Some (-1, w)
      else do {
        (name, w) \<leftarrow> received_name E w object None;
        d \<leftarrow> nonhdr_data;
        flags \<leftarrow> mem_read d 0 1;
        (ret, w) \<leftarrow> setpath_move P (flags ! 0) name w;
        (_, w) \<leftarrow> (if ret < 0 then OBEX_ObjectSetRsp w object OBEX_RSP_FORBIDDEN OBEX_RSP_FORBIDDEN
                  else Some (0, w));
        Some (ret, w) }) }"

definition new_file ::
    "'x srv_host env \<Rightarrow> 'x posix \<Rightarrow> 'x srv_host world \<Rightarrow> addr option \<Rightarrow> (int \<times> 'x srv_host world) option" where
  "new_file E P w object = do {
     (name, w) \<leftarrow> received_name E w object None;
     (case name of
        None \<Rightarrow> do {
          (_, w) \<leftarrow> OBEX_ObjectSetRsp w object OBEX_RSP_BAD_REQUEST OBEX_RSP_BAD_REQUEST;
          Some (-1, srv_info P IRCP_EV_ERR [] w) }
      | Some m \<Rightarrow> do {
          name \<leftarrow> c_str m;
          (let w = srv_info P IRCP_EV_RECEIVING name w;
               (fd, w) = sys_os (ircp_open_safe P (Some []) name) w;
               w = upd_app w (\<lambda>s. s\<lparr>sv_fd := fd\<rparr>)
           in Some (fd, w)) }) }"

definition ircp_srv_receive ::
    "'x srv_host env \<Rightarrow> 'x posix \<Rightarrow> 'x srv_host world \<Rightarrow> addr option \<Rightarrow> bool \<Rightarrow> (int \<times> 'x srv_host world) option" where
  "ircp_srv_receive E P w object finished = do {
     (r, w) \<leftarrow> (if sv_fd (srv_of w) < 0 \<and> \<not> finished then new_file E P w object else Some (0, w));
     (if r < 0 then Some (1, w)
      else if finished then Some (1, w)
      else if sv_fd (srv_of w) > 0
      then do {
        (body_len, body, w) \<leftarrow> OBEX_ObjectReadStream w object False;
        (if body_len < 0 then Some (1, w)
         else if body_len = 0
         then let (_, w) = sys_os (px_close P (sv_fd (srv_of w))) w;
                  w = upd_app w (\<lambda>s. s\<lparr>sv_fd := -1\<rparr>)
              in Some (1, srv_info P IRCP_EV_OK [] w)
         else do {
           b \<leftarrow> body;
           d \<leftarrow> mem_read b 0 (nat body_len);
           (let (_, w) = sys_os (px_write P (sv_fd (srv_of w)) d) w in Some (1, w)) }) }
      else Some (-1, w)) }"

section \<open>Events\<close>

definition srv_request ::
    "'x srv_host env \<Rightarrow> 'x posix \<Rightarrow> 'x srv_host world \<Rightarrow> addr option \<Rightarrow> byte \<Rightarrow> (int \<times> 'x srv_host world) option" where
  "srv_request E P w object obex_cmd =
     (if obex_cmd = OBEX_CMD_CONNECT then Some (1, srv_info P IRCP_EV_CONNECTIND [] w)
      else if obex_cmd = OBEX_CMD_DISCONNECT then Some (1, srv_info P IRCP_EV_DISCONNECTIND [] w)
      else if obex_cmd = OBEX_CMD_PUT then ircp_srv_receive E P w object True
      else if obex_cmd = OBEX_CMD_SETPATH then ircp_srv_setpath E P w object
      else Some (1, w))"

definition srv_reqhint :: "'x srv_host world \<Rightarrow> addr option \<Rightarrow> byte \<Rightarrow> 'x srv_host world option" where
  "srv_reqhint w object obex_cmd =
     (if obex_cmd = OBEX_CMD_PUT then do {
        (_, w) \<leftarrow> OBEX_ObjectSetRsp w object OBEX_RSP_CONTINUE OBEX_RSP_SUCCESS;
        (_, _, w) \<leftarrow> OBEX_ObjectReadStream w object True;
        Some w }
      else if obex_cmd = OBEX_CMD_SETPATH \<or> obex_cmd = OBEX_CMD_CONNECT \<or> obex_cmd = OBEX_CMD_DISCONNECT
      then do { (_, w) \<leftarrow> OBEX_ObjectSetRsp w object OBEX_RSP_CONTINUE OBEX_RSP_SUCCESS; Some w }
      else do { (_, w) \<leftarrow> OBEX_ObjectSetRsp w object OBEX_RSP_NOT_IMPLEMENTED OBEX_RSP_NOT_IMPLEMENTED; Some w })"

definition srv_stop :: "int \<Rightarrow> 'x srv_host world \<Rightarrow> 'x srv_host world" where
  "srv_stop success w = upd_app w (\<lambda>s. s\<lparr>sv_finished := 1, sv_success := success\<rparr>)"

definition srv_obex_event ::
    "'x srv_host env \<Rightarrow> 'x posix \<Rightarrow> 'x srv_host world \<Rightarrow> addr option \<Rightarrow> obex_event \<Rightarrow> byte \<Rightarrow> 'x srv_host world option" where
  "srv_obex_event E P w object event obex_cmd =
     (case event of
        OBEX_EV_STREAMAVAIL \<Rightarrow> do { (_, w) \<leftarrow> ircp_srv_receive E P w object False; Some w }
      | OBEX_EV_REQ \<Rightarrow> do {
          (ret, w) \<leftarrow> srv_request E P w object obex_cmd;
          Some (if ret < 0 then srv_stop 0 w else w) }
      | OBEX_EV_REQHINT \<Rightarrow> srv_reqhint w object obex_cmd
      | OBEX_EV_REQDONE \<Rightarrow> Some (if obex_cmd = OBEX_CMD_DISCONNECT then srv_stop 1 w else w)
      | OBEX_EV_LINKERR \<Rightarrow> Some (srv_stop 0 w)
      | _ \<Rightarrow> Some w)"

section \<open>The server\<close>

text \<open>
  The environment of the library in this program: \<open>srv_obex_event\<close> is the callback. The library
  functions it calls do not deliver events themselves.
\<close>

definition srv_env :: "'x srv_host env \<Rightarrow> 'x posix \<Rightarrow> 'x srv_host env" where
  "srv_env E P = E\<lparr>env_event := (\<lambda>cb w object mode event obex_cmd obex_rsp. srv_obex_event E P w object event obex_cmd)\<rparr>"

partial_function (option) ircp_srv_sync_wait ::
    "'x srv_host env \<Rightarrow> 'x posix \<Rightarrow> 'x srv_host world \<Rightarrow> (int \<times> 'x srv_host world) option" where
  "ircp_srv_sync_wait E P w =
     (if sv_finished (srv_of w) = 0
      then do {
        (ret, w) \<leftarrow> OBEX_HandleInput (srv_env E P) w 1;
        (if ret < 0 then Some (-1, w) else ircp_srv_sync_wait E P w) }
      else Some (if sv_success (srv_of w) \<noteq> 0 then 1 else -1, w))"

text \<open>
  \<open>fresh\<close> is what the block returned by \<open>malloc\<close> holds: only the descriptor, the callback and the
  handle are written. \<open>cb\<close> and \<open>self\<close> are the addresses of \<open>srv_obex_event\<close> and of the structure.
\<close>

definition ircp_srv_open ::
    "alloc \<Rightarrow> ircp_server option \<Rightarrow> ptr \<Rightarrow> ptr \<Rightarrow> ptr \<Rightarrow> (ircp_server \<times> obex) option" where
  "ircp_srv_open A fresh self cb info = do {
     srv \<leftarrow> fresh;
     h \<leftarrow> OBEX_Init A OBEX_TRANS_IRDA cb 0;
     Some (srv\<lparr>sv_fd := -1, sv_infocb := info\<rparr>, h\<lparr>userdata := self\<rparr>) }"

definition ircp_srv_close ::
    "'x srv_host env \<Rightarrow> 'x posix \<Rightarrow> 'x srv_host world \<Rightarrow> ((addr \<Rightarrow> obex_object option) \<times> 'x srv_host \<times> usb_ctx) option" where
  "ircp_srv_close E P w = OBEX_Cleanup (srv_env E P) w"

text \<open>The text of the program's message.\<close>

definition NO_INBOX :: "byte list" where
  "NO_INBOX = map (\<lambda>c. word_of_nat (of_char c)) ''Specified desination directory does not exist.''"

definition ircp_srv_recv ::
    "'x srv_host env \<Rightarrow> 'x posix \<Rightarrow> 'x srv_host world \<Rightarrow> byte list \<Rightarrow> (int \<times> 'x srv_host world) option" where
  "ircp_srv_recv E P w inbox = do {
     (r, x) \<leftarrow> ircp_checkdir P [] inbox CD_ALLOWABS (os (ext w));
     (let w = w\<lparr>ext := (ext w)\<lparr>os := x\<rparr>\<rparr> in
      if r < 0 then Some (-1, srv_info P IRCP_EV_ERRMSG NO_INBOX w)
      else let (r, w) = sys_os (px_chdir P inbox) w in
      if r = -1 then Some (-1, w)
      else do {
        (r, w) \<leftarrow> IrOBEX_ServerRegister (srv_env E P) (upd_app w (\<lambda>s. s\<lparr>sv_dirdepth := 0\<rparr>)) (Some (OBEX_IRXFER @ [0]));
        (if r < 0 then Some (-1, w)
         else do {
           (ret, w) \<leftarrow> ircp_srv_sync_wait E P
             (upd_app (srv_info P IRCP_EV_LISTENING [] w) (\<lambda>s. s\<lparr>sv_inbox := inbox\<rparr>));
           (let (_, w) = sys_os (px_chdir P inbox) w in Some (ret, w)) }) }) }"

end
