(* ===== verification/Traversal.thy ===== *)
theory Traversal
  imports Ircp_Io
begin

text \<open>
  What the directory traversal of ircp/dirtraverse.c does, independently of paths and system calls: it
  calls the application for the entries of a tree, in preorder, until a call fails.
\<close>

section \<open>Traversal as a walk of a tree\<close>

text \<open>
  What is on disk: a directory is the list of its entries in the order \<open>readdir\<close> gives them, without
  the entries for itself and its parent; links and special files are \<open>Other\<close>.
\<close>

datatype tree = File | Dir "(byte list \<times> tree) list" | Other

type_synonym visit = "visit_action \<times> byte list \<times> byte list"

fun visits :: "byte list \<Rightarrow> (byte list \<times> tree) list \<Rightarrow> visit list" where
  "visits path [] = []"
| "visits path ((n, File) # es) = (VISIT_FILE, path @ SLASH # n, []) # visits path es"
| "visits path ((n, Dir ds) # es) =
     (VISIT_GOING_DEEPER, n, path) # visits (path @ SLASH # n) ds @ (VISIT_GOING_UP, [], []) # visits path es"
| "visits path ((n, Other) # es) = visits path es"

text \<open>The callback called for one visit after the other, until it fails.\<close>

fun run_visits :: "'w visit_cb \<Rightarrow> visit list \<Rightarrow> int \<Rightarrow> 'w \<Rightarrow> (int \<times> 'w) option" where
  "run_visits cb [] ret w = Some (ret, w)"
| "run_visits cb ((a, n, p) # vs) ret w = do {
     (ret, w) \<leftarrow> cb a n p w;
     (if ret < 0 then Some (ret, w) else run_visits cb vs ret w) }"

definition proper :: "byte list \<Rightarrow> bool" where
  "proper n \<longleftrightarrow> n \<noteq> [DOT] \<and> n \<noteq> [DOT, DOT]"

text \<open>
  The calls \<open>opendir\<close> and \<open>lstat\<close> show the tree \<open>es\<close> at \<open>path\<close>, in every state in which \<open>S\<close> holds, and
  do not change the state. Paths are short enough for the buffers.
\<close>

definition listed :: "'x posix \<Rightarrow> ('x \<Rightarrow> bool) \<Rightarrow> byte list \<Rightarrow> (byte list \<times> tree) list \<Rightarrow> bool" where
  "listed P S path es \<longleftrightarrow> (\<forall>x. S x \<longrightarrow>
     (\<exists>ns. px_opendir P path x = (Some ns, x) \<and> filter proper ns = map fst es))"

definition lstat_is :: "'x posix \<Rightarrow> ('x \<Rightarrow> bool) \<Rightarrow> byte list \<Rightarrow> (file_kind \<Rightarrow> bool) \<Rightarrow> bool" where
  "lstat_is P S path k \<longleftrightarrow> (\<forall>x. S x \<longrightarrow> (\<exists>kind. px_lstat P path x = (Some kind, x) \<and> k kind))"

fun on_disk :: "'x posix \<Rightarrow> ('x \<Rightarrow> bool) \<Rightarrow> byte list \<Rightarrow> (byte list \<times> tree) list \<Rightarrow> bool" where
  "on_disk P S path [] = True"
| "on_disk P S path ((n, File) # es) =
     (length path + 1 + length n < MAXPATHLEN \<and> lstat_is P S (path @ SLASH # n) (\<lambda>k. k = S_REG) \<and> on_disk P S path es)"
| "on_disk P S path ((n, Dir ds) # es) =
     (length path + 1 + length n < MAXPATHLEN \<and> lstat_is P S (path @ SLASH # n) (\<lambda>k. k = S_DIR)
      \<and> listed P S (path @ SLASH # n) ds \<and> on_disk P S (path @ SLASH # n) ds \<and> on_disk P S path es)"
| "on_disk P S path ((n, Other) # es) =
     (length path + 1 + length n < MAXPATHLEN \<and> lstat_is P S (path @ SLASH # n) (\<lambda>k. k \<noteq> S_REG \<and> k \<noteq> S_DIR)
      \<and> on_disk P S path es)"

definition keeps_view :: "('x \<Rightarrow> bool) \<Rightarrow> ('s, 'x) host world visit_cb \<Rightarrow> bool" where
  "keeps_view S cb \<longleftrightarrow> (\<forall>a n p w r w'. S (os (ext w)) \<and> cb a n p w = Some (r, w') \<longrightarrow> S (os (ext w')))"

lemma run_visits_append:
  "0 \<le> ret \<Longrightarrow> run_visits cb (vs @ us) ret w = do {
     (r, w) \<leftarrow> run_visits cb vs ret w; (if r < 0 then Some (r, w) else run_visits cb us r w) }"
proof (induction vs arbitrary: ret w)
  case (Cons v vs)
  obtain a n p where v: "v = (a, n, p)" by (cases v) auto
  show ?case
  proof (cases "cb a n p w")
    case (Some rw)
    then show ?thesis using Cons.IH [of "fst rw"] by (cases rw) (simp add: v)
  qed (simp add: v)
qed simp

lemma keeps_viewD:
  "keeps_view S cb \<Longrightarrow> S (os (ext w)) \<Longrightarrow> cb a n p w = Some (r, w') \<Longrightarrow> S (os (ext w'))"
  unfolding keeps_view_def by blast

lemma run_visits_ret: "vs \<noteq> [] \<Longrightarrow> run_visits cb vs r w = run_visits cb vs 1 w"
  by (cases vs) auto

lemma run_visits_view:
  "keeps_view S cb \<Longrightarrow> S (os (ext w)) \<Longrightarrow> run_visits cb vs ret w = Some (r, w') \<Longrightarrow> S (os (ext w'))"
proof (induction vs arbitrary: ret w)
  case (Cons v vs)
  obtain a n p where v: "v = (a, n, p)" by (cases v) auto
  obtain r1 w1 where cb: "cb a n p w = Some (r1, w1)"
    using Cons.prems(3) by (auto simp: v bind_eq_Some_conv)
  have "S (os (ext w1))" by (rule keeps_viewD [OF Cons.prems(1,2) cb])
  then show ?case using Cons.IH [OF Cons.prems(1)] Cons.prems(3) by (auto simp: v cb split: if_splits)
qed simp

lemma visit_entries_proper:
  "visit_entries P cb path ns = visit_entries P cb path (filter proper ns)"
proof (induction ns)
  case (Cons n ns)
  show ?case
  proof (cases "proper n")
    case True
    then show ?thesis
      by (intro ext) (simp only: filter.simps if_True visit_entries.simps(2) Cons.IH [symmetric])
  next
    case False
    then have d: "(n = [DOT] \<or> n = [DOT, DOT]) = True" by (simp add: proper_def)
    show ?thesis
      by (intro ext) (simp only: visit_entries.simps(2) d False if_True if_False filter.simps Cons.IH [symmetric])
  qed
qed simp

lemma sys_os_pure: "f (os (ext w)) = (r, os (ext w)) \<Longrightarrow> sys_os f w = (r, w)"
  by (simp add: sys_os_def)

lemma lstat_isD:
  "lstat_is P S path k \<Longrightarrow> S (os (ext w)) \<Longrightarrow> \<exists>kind. sys_os (px_lstat P path) w = (Some kind, w) \<and> k kind"
proof -
  assume "lstat_is P S path k" "S (os (ext w))"
  then obtain kind where "px_lstat P path (os (ext w)) = (Some kind, os (ext w))" "k kind"
    by (auto simp: lstat_is_def)
  then show ?thesis by (auto simp: sys_os_pure [of "px_lstat P path"])
qed

lemma append_cons_not_Nil: "xs @ y # ys \<noteq> []"
  by simp

lemma visit_entry:
  assumes "proper n" "length path + 1 + length n < MAXPATHLEN"
    and "sys_os (px_lstat P (path @ SLASH # n)) w = (Some kind, w)"
  shows "visit_entries P cb path (n # es) ret w =
    (if kind = S_REG
     then do { (ret, w) \<leftarrow> cb VISIT_FILE (path @ SLASH # n) [] w;
               (if ret < 0 then Some (ret, w) else visit_entries P cb path es ret w) }
     else if kind = S_DIR
     then do {
       (ret, w) \<leftarrow> cb VISIT_GOING_DEEPER n path w;
       (if ret < 0 then Some (ret, w)
        else do {
          (ret, w) \<leftarrow> visit_dir P cb (path @ SLASH # n) w;
          (if ret < 0 then Some (ret, w)
           else do {
             (ret, w) \<leftarrow> cb VISIT_GOING_UP [] [] w;
             (if ret < 0 then Some (ret, w) else visit_entries P cb path es ret w) }) }) }
     else visit_entries P cb path es ret w)"
proof -
  have t: "take (MAXPATHLEN - 1) (path @ SLASH # n) = path @ SLASH # n"
    by (rule take_all) (use assms(2) in simp)
  have d: "(n = [DOT] \<or> n = [DOT, DOT]) = False" "(MAXPATHLEN \<le> length path + 1 + length n) = False"
    using assms(1,2) by (auto simp: proper_def)
  show ?thesis
    unfolding visit_entries.simps(2) Let_def t d if_False assms(3) split_conv option.case ..
qed

lemma visit_entries_walk:
  assumes cb: "keeps_view S cb"
  shows "on_disk P S path es \<Longrightarrow> filter proper ns = map fst es \<Longrightarrow> S (os (ext w)) \<Longrightarrow> 0 \<le> ret \<Longrightarrow>
    visit_entries P cb path ns ret w = run_visits cb (visits path es) ret w"
proof (induction path es arbitrary: ns ret w rule: visits.induct)
  case (1 path)
  then show ?case using visit_entries_proper [of P cb path ns] by simp
next
  case (2 path n es)
  have n: "proper n" "filter proper (map fst es) = map fst es"
    using 2(3) by (auto simp: filter_eq_Cons_iff)
  have eq: "visit_entries P cb path ns ret w = visit_entries P cb path (n # map fst es) ret w"
    using visit_entries_proper [of P cb path ns] 2(3) by simp
  have st: "sys_os (px_lstat P (path @ SLASH # n)) w = (Some S_REG, w)"
    using 2(2) 2(4) lstat_isD [of P S "path @ SLASH # n" "\<lambda>k. k = S_REG" w] by auto
  have "visit_entries P cb path (map fst es) r w' = run_visits cb (visits path es) r w'"
    if "cb VISIT_FILE (path @ SLASH # n) [] w = Some (r, w')" "\<not> r < 0" for r w'
    by (rule 2(1)) (use 2(2) n that keeps_viewD [OF cb 2(4)] in auto)
  then show ?case unfolding eq using 2(2)
    by (subst visit_entry [OF n(1) _ st]) (auto split: bind_splits)
next
  case (3 path n ds es)
  have n: "proper n" "filter proper (map fst es) = map fst es"
    using 3(4) by (auto simp: filter_eq_Cons_iff)
  have eq: "visit_entries P cb path ns ret w = visit_entries P cb path (n # map fst es) ret w"
    using visit_entries_proper [of P cb path ns] 3(4) by simp
  have st: "sys_os (px_lstat P (path @ SLASH # n)) w = (Some S_DIR, w)"
    using 3(3) 3(5) lstat_isD [of P S "path @ SLASH # n" "\<lambda>k. k = S_DIR" w] by auto
  let ?path = "path @ SLASH # n"
  have sub: "visit_dir P cb ?path w' = run_visits cb (visits ?path ds) 1 w'" if S: "S (os (ext w'))" for w'
  proof -
    obtain ds' where ds: "px_opendir P ?path (os (ext w')) = (Some ds', os (ext w'))" "filter proper ds' = map fst ds"
      using 3(3) S by (auto simp: listed_def)
    have "visit_entries P cb ?path ds' 1 w' = run_visits cb (visits ?path ds) 1 w'"
      by (rule 3(1)) (use 3(3) ds S in auto)
    then show ?thesis by (simp add: visit_dir.simps sys_os_pure [of "px_opendir P ?path", OF ds(1)])
  qed
  have rest: "visit_entries P cb path (map fst es) r w' = run_visits cb (visits path es) r w'"
    if "S (os (ext w'))" "\<not> r < 0" for r w'
    by (rule 3(2)) (use 3(3) n that in auto)
  have go: "run_visits cb (visits ?path ds @ (VISIT_GOING_UP, [], []) # visits path es) r w' =
      do { (ret, w) \<leftarrow> visit_dir P cb ?path w';
           (if ret < 0 then Some (ret, w)
            else do { (ret, w) \<leftarrow> cb VISIT_GOING_UP [] [] w;
                      (if ret < 0 then Some (ret, w) else visit_entries P cb path (map fst es) ret w) }) }"
    if c: "cb VISIT_GOING_DEEPER n path w = Some (r, w')" "\<not> r < 0" for r w'
  proof -
    have S: "S (os (ext w'))" by (rule keeps_viewD [OF cb 3(5) c(1)])
    have lhs: "run_visits cb (visits ?path ds @ (VISIT_GOING_UP, [], []) # visits path es) r w' =
        do { (ret, w) \<leftarrow> visit_dir P cb ?path w';
             (if ret < 0 then Some (ret, w)
              else do { (ret, w) \<leftarrow> cb VISIT_GOING_UP [] [] w;
                        (if ret < 0 then Some (ret, w) else run_visits cb (visits path es) ret w) }) }"
      unfolding run_visits_ret [of "visits ?path ds @ (VISIT_GOING_UP, [], []) # visits path es", OF append_cons_not_Nil]
        run_visits_append [of 1, OF zero_le_one] run_visits.simps(2) sub [OF S] ..
    have "run_visits cb (visits path es) r2 w2 = visit_entries P cb path (map fst es) r2 w2"
      if "visit_dir P cb ?path w' = Some (r1, w1)" "cb VISIT_GOING_UP [] [] w1 = Some (r2, w2)" "\<not> r2 < 0"
      for r1 w1 r2 w2
    proof -
      have "S (os (ext w1))" using that(1) sub [OF S] run_visits_view [OF cb S] by auto
      then have "S (os (ext w2))" by (rule keeps_viewD [OF cb _ that(2)])
      then show ?thesis using rest that(3) by simp
    qed
    then show ?thesis unfolding lhs by (auto split: bind_splits)
  qed
  then show ?case unfolding eq using 3(3)
    by (subst visit_entry [OF n(1) _ st]) (auto split: bind_splits)
next
  case (4 path n es)
  have n: "proper n" "filter proper (map fst es) = map fst es"
    using 4(3) by (auto simp: filter_eq_Cons_iff)
  have eq: "visit_entries P cb path ns ret w = visit_entries P cb path (n # map fst es) ret w"
    using visit_entries_proper [of P cb path ns] 4(3) by simp
  obtain kind where st: "sys_os (px_lstat P (path @ SLASH # n)) w = (Some kind, w)" "kind \<noteq> S_REG" "kind \<noteq> S_DIR"
    using 4(2) 4(4) lstat_isD [of P S "path @ SLASH # n" "\<lambda>k. k \<noteq> S_REG \<and> k \<noteq> S_DIR" w] by auto
  have "visit_entries P cb path (map fst es) ret w = run_visits cb (visits path es) ret w"
    by (rule 4(1)) (use 4 n in auto)
  then show ?case unfolding eq using 4(2) st(2,3)
    by (subst visit_entry [OF n(1) _ st(1)]) auto
qed
section \<open>Property\<close>

text \<open>
  C10: the traversal of a directory visits its tree. Where \<open>lstat\<close> and \<open>opendir\<close> show a
  tree of entries with paths shorter than the buffers, and the callback does not disturb that view,
  \<open>visit_dir\<close> calls the callback for every file with its path and, around the contents of every
  subdirectory, for going down and going up, in the order of the entries; it stops at the first call
  that fails and returns its result, and it returns the result of the last call otherwise (1 for a
  directory without files and subdirectories). Links and special files are passed over.
\<close>

theorem visit_dir_walks_tree:
  assumes "keeps_view S cb" and "listed P S path es" and "on_disk P S path es" and "S (os (ext w))"
  shows "visit_dir P cb path w = run_visits cb (visits path es) 1 w"
proof -
  obtain ns where ns: "px_opendir P path (os (ext w)) = (Some ns, os (ext w))" "filter proper ns = map fst es"
    using assms(2,4) by (auto simp: listed_def)
  have "visit_entries P cb path ns 1 w = run_visits cb (visits path es) 1 w"
    by (rule visit_entries_walk [OF assms(1,3) ns(2) assms(4)]) simp
  then show ?thesis by (simp add: visit_dir.simps sys_os_pure [of "px_opendir P path", OF ns(1)])
qed

text \<open>A directory \<open>d\<close> with a file \<open>f\<close> and a subdirectory \<open>s\<close> that holds a link \<open>l\<close> and a file \<open>g\<close>.\<close>

definition ex_tree :: "(byte list \<times> tree) list" where
  "ex_tree = [([102], File), ([115], Dir [([108], Other), ([103], File)])]"

definition ex_tree_posix :: "'x posix" where
  "ex_tree_posix = dead_posix\<lparr>
     px_lstat := (\<lambda>p x. (if p = [100, SLASH, 102] \<or> p = [100, SLASH, 115, SLASH, 103] then Some S_REG
       else if p = [100, SLASH, 115] then Some S_DIR else if p = [100, SLASH, 115, SLASH, 108] then Some S_LNK
       else None, x)),
     px_opendir := (\<lambda>p x. (if p = [100] then Some [[DOT], [102], [DOT, DOT], [115]]
       else if p = [100, SLASH, 115] then Some [[DOT], [DOT, DOT], [108], [103]] else None, x))\<rparr>"

definition ex_log :: "(unit, visit list) host world visit_cb" where
  "ex_log a n p w = Some (1, w\<lparr>ext := (ext w)\<lparr>os := os (ext w) @ [(a, n, p)]\<rparr>\<rparr>)"

theorem visit_dir_walks_tree_witness:
  "\<forall>w. map_option (\<lambda>(r, w'). (r, os (ext w'))) (visit_dir ex_tree_posix ex_log [100] w)
     = Some (1, os (ext w) @ [(VISIT_FILE, [100, SLASH, 102], []), (VISIT_GOING_DEEPER, [115], [100]),
         (VISIT_FILE, [100, SLASH, 115, SLASH, 103], []), (VISIT_GOING_UP, [], [])])"
proof
  fix w :: "(unit, visit list) host world"
  have "visit_dir ex_tree_posix ex_log [100] w = run_visits ex_log (visits [100] ex_tree) 1 w"
    by (rule visit_dir_walks_tree [where S = "\<lambda>_. True"])
       (simp_all add: keeps_view_def listed_def lstat_is_def ex_tree_def ex_tree_posix_def proper_def)
  then show "map_option (\<lambda>(r, w'). (r, os (ext w'))) (visit_dir ex_tree_posix ex_log [100] w)
     = Some (1, os (ext w) @ [(VISIT_FILE, [100, SLASH, 102], []), (VISIT_GOING_DEEPER, [115], [100]),
         (VISIT_FILE, [100, SLASH, 115, SLASH, 103], []), (VISIT_GOING_UP, [], [])])"
    by (simp add: ex_tree_def ex_log_def)
qed

end
