(* ===== verification/Inbox.thy ===== *)
theory Inbox
  imports Ircp_Server Traversal Unpacking
begin

text \<open>
  Where the ircp server puts what it receives: the names it takes from headers, the directories it
  goes to, and the files it opens. The file system is described by where \<open>chdir\<close> leads.
\<close>

section \<open>Names in headers\<close>

text \<open>
  The text of a NAME header whose zero character lies within the header, so that the text and its
  zero fit the block of half the length.
\<close>

definition name_text :: "header_element \<Rightarrow> byte list option" where
  "name_text h = do {
     b \<leftarrow> h_buf h;
     n \<leftarrow> unicode_len (buf_ptr b);
     (if n < h_length h div 2 then Some (unicode_chars n (buf_ptr b)) else None) }"

definition names_ok :: "(addr \<times> header_element) list \<Rightarrow> bool" where
  "names_ok q \<longleftrightarrow> (\<forall>m \<in> set q. rx_elem_ok m \<and> h_length (snd m) < 65536
     \<and> (h_hi (snd m) = OBEX_HDR_NAME \<longrightarrow> name_text (snd m) \<noteq> None))"

text \<open>The text of the last NAME header of a queue.\<close>

fun last_name :: "(addr \<times> header_element) list \<Rightarrow> byte list option" where
  "last_name [] = None"
| "last_name (m # q) = (case last_name q of Some t \<Rightarrow> Some t
     | None \<Rightarrow> (if h_hi (snd m) = OBEX_HDR_NAME then name_text (snd m) else None))"

lemma unicode_chars_nonzero:
  "unicode_len u = Some n \<Longrightarrow> length (unicode_chars n u) = n \<and> 0 \<notin> set (unicode_chars n u)"
  by (induction u arbitrary: n rule: unicode_len.induct) (auto split: if_splits)

lemma c_str_text: "0 \<notin> set t \<Longrightarrow> c_str (t @ 0 # r) = Some t"
proof -
  assume "0 \<notin> set t"
  then have "takeWhile (\<lambda>c. c \<noteq> 0) (t @ 0 # r) = t" by (induction t) auto
  then show ?thesis by (simp add: c_str_def)
qed

definition read_all :: "'e world \<Rightarrow> addr \<Rightarrow> obex_object \<Rightarrow> 'e world" where
  "read_all w a ob = w\<lparr>objs := (objs w)(a := Some (ob\<lparr>rx_headerq := [],
     rx_headerq_rm := rx_headerq_rm ob @ rx_headerq ob\<rparr>))\<rparr>"

lemma next_header_object:
  "OBEX_ObjectGetNextHeader E w (Some a) = do { (h, w) \<leftarrow> obex_object_getnextheader E w a;
     Some (if h = None then 0 else 1, h, w) }"
  by (simp add: OBEX_ObjectGetNextHeader_def)

lemma hv_typed_name: "hv_typed OBEX_HDR_NAME hv n \<Longrightarrow> \<exists>p. hv = BS p"
  by (auto simp: hv_typed_def split: obex_headerdata.splits)

lemma received_name_spec:
  assumes A: "generous (env_alloc E)"
  shows "objs w a = Some ob \<Longrightarrow> rx_headerq ob = q \<Longrightarrow> distinct (map fst q) \<Longrightarrow> names_ok q \<Longrightarrow>
    \<exists>name'. received_name E w (Some a) name = Some (name', read_all w a ob)
      \<and> (case last_name q of None \<Rightarrow> name' = name | Some t \<Rightarrow> \<exists>m. name' = Some m \<and> c_str m = Some t)"
proof (induction q arbitrary: w ob name)
  case Nil
  then have "ob\<lparr>rx_headerq := [], rx_headerq_rm := rx_headerq_rm ob @ rx_headerq ob\<rparr> = ob" by (cases ob) simp
  then have "read_all w a ob = w" using Nil(1) by (simp add: read_all_def fun_upd_idem)
  then show ?case using Nil
    by (subst received_name.simps) (simp add: next_header_object obex_object_getnextheader_def)
next
  case (Cons m q)
  obtain p h where m: "m = (p, h)" by fastforce
  define ob1 where "ob1 = ob\<lparr>rx_headerq := q, rx_headerq_rm := rx_headerq_rm ob @ [(p, h)]\<rparr>"
  define w1 where "w1 = w\<lparr>objs := (objs w)(a := Some ob1)\<rparr>"
  have ok: "rx_elem_ok (p, h)" "h_length h < 65536" "h_hi h = OBEX_HDR_NAME \<longrightarrow> name_text h \<noteq> None" "names_ok q"
    using Cons.prems(4) by (auto simp: names_ok_def m)
  obtain hv where hv: "header_value h = Some hv" "hv_typed (h_hi h) hv (h_length h)"
    and g: "obex_object_getnextheader E w a = Some (Some (h_hi h, hv, h_length h), w1)"
    unfolding w1_def ob1_def
    by (rule getnextheader_Cons [OF A Cons.prems(1), of p h q]) (use Cons.prems ok m in auto)
  have all: "read_all w1 a ob1 = read_all w a ob"
    using Cons.prems(2) by (simp add: read_all_def w1_def ob1_def m)
  have IH: "\<exists>name'. received_name E w1 (Some a) nm = Some (name', read_all w a ob)
      \<and> (case last_name q of None \<Rightarrow> name' = nm | Some t \<Rightarrow> \<exists>m. name' = Some m \<and> c_str m = Some t)" for nm
    using Cons.IH [of w1 ob1 nm] Cons.prems(3) ok(4) unfolding all by (simp add: w1_def ob1_def)
  show ?case
  proof (cases "h_hi h = OBEX_HDR_NAME")
    case False
    then have step: "received_name E w (Some a) name = received_name E w1 (Some a) name"
      by (subst received_name.simps) (simp add: next_header_object g)
    show ?thesis using IH [of name] False unfolding step by (cases "last_name q") (simp_all add: m)
  next
    case True
    obtain b n where b: "h_buf h = Some b" "unicode_len (buf_ptr b) = Some n" "n < h_length h div 2"
      "name_text h = Some (unicode_chars n (buf_ptr b))"
      using ok(3) True by (auto simp: name_text_def bind_eq_Some_conv split: if_splits)
    have hvb: "hv = BS (Some (buf_ptr b))" using hv(1) True b(1) by (simp add: header_value_def)
    obtain mm where mm: "malloc (env_alloc E) (h_length h div 2) = Some mm" "length mm = h_length h div 2"
      using malloc_generous [OF A, of "h_length h div 2"] le_less_trans [OF div_le_dividend, of "h_length h" 65536 2] ok(2)
      by auto
    define t where "t = unicode_chars n (buf_ptr b)"
    have t: "length t = n" "0 \<notin> set t" using unicode_chars_nonzero [OF b(2)] by (simp_all add: t_def)
    have u: "OBEX_UnicodeToChar (Some mm) (Some (buf_ptr b)) (s32 (int (h_length h)))
        = Some (0, Some (t @ 0 # drop (Suc n) mm))"
      using b(2,3) ok(2) t mm(2) by (simp add: OBEX_UnicodeToChar_def s32_id mem_simps flip: t_def)
    have step: "received_name E w (Some a) name = received_name E w1 (Some a) (Some (t @ 0 # drop (Suc n) mm))"
      by (subst received_name.simps) (simp add: next_header_object g True mm(1) hvb hv_bs_def u)
    show ?thesis using IH [of "Some (t @ 0 # drop (Suc n) mm)"] True b(4) c_str_text [OF t(2)] unfolding step
      by (cases "last_name q") (auto simp: m t_def [symmetric])
  qed
qed

text \<open>A NAME header that no zero character ends within its length, after headers as they should be.\<close>

definition overlong_name :: "header_element \<Rightarrow> bool" where
  "overlong_name h \<longleftrightarrow> h_hi h = OBEX_HDR_NAME \<and> h_length h < 65536 \<and> name_text h = None
     \<and> (\<forall>b n. h_buf h = Some b \<and> unicode_len (buf_ptr b) = Some n \<longrightarrow> n < h_length h)"

lemma received_name_overrun:
  assumes A: "generous (env_alloc E)" and o: "overlong_name h" "rx_elem_ok (p, h)"
  shows "objs w a = Some ob \<Longrightarrow> rx_headerq ob = q @ (p, h) # q' \<Longrightarrow> distinct (map fst (q @ (p, h) # q')) \<Longrightarrow>
    names_ok q \<Longrightarrow> received_name E w (Some a) name = None"
proof (induction q arbitrary: w ob name)
  case Nil
  obtain hv w1 where hv: "header_value h = Some hv" "hv_typed (h_hi h) hv (h_length h)"
    and g: "obex_object_getnextheader E w a = Some (Some (h_hi h, hv, h_length h), w1)"
    by (rule getnextheader_Cons [OF A Nil(1), of p h q']) (use Nil o(2) in auto)
  obtain b where b: "h_buf h = Some b" using o(2) by (auto simp: rx_elem_ok_def)
  have hvb: "hv = BS (Some (buf_ptr b))" using hv(1) o(1) b by (simp add: header_value_def overlong_name_def)
  obtain mm where mm: "malloc (env_alloc E) (h_length h div 2) = Some mm" "length mm = h_length h div 2"
    using malloc_generous [OF A, of "h_length h div 2"] le_less_trans [OF div_le_dividend, of "h_length h" 65536 2] o(1)
    by (auto simp: overlong_name_def)
  have "OBEX_UnicodeToChar (Some mm) (Some (buf_ptr b)) (s32 (int (h_length h))) = None"
  proof (cases "unicode_len (buf_ptr b)")
    case (Some n)
    then have "n < h_length h" "\<not> n < h_length h div 2"
      using o(1) b by (auto simp: overlong_name_def name_text_def split: if_splits)
    then show ?thesis using Some o(1) mm(2) unicode_chars_nonzero [OF Some]
      by (simp add: OBEX_UnicodeToChar_def s32_id overlong_name_def mem_write_def)
  qed (simp add: OBEX_UnicodeToChar_def)
  then show ?case using o(1)
    by (subst received_name.simps) (simp add: next_header_object g overlong_name_def mm(1) hvb hv_bs_def)
next
  case (Cons m q)
  obtain p1 h1 where m: "m = (p1, h1)" by fastforce
  define ob1 where "ob1 = ob\<lparr>rx_headerq := q @ (p, h) # q', rx_headerq_rm := rx_headerq_rm ob @ [(p1, h1)]\<rparr>"
  define w1 where "w1 = w\<lparr>objs := (objs w)(a := Some ob1)\<rparr>"
  have ok: "rx_elem_ok (p1, h1)" "names_ok q" "h_hi h1 = OBEX_HDR_NAME \<longrightarrow> name_text h1 \<noteq> None" "h_length h1 < 65536"
    using Cons.prems(4) by (auto simp: names_ok_def m)
  have IH: "received_name E w1 (Some a) nm = None" for nm
    using Cons.IH [of w1 ob1 nm] Cons.prems(3) ok(2) by (simp add: w1_def ob1_def)
  obtain hv where hv: "hv_typed (h_hi h1) hv (h_length h1)"
    and g: "obex_object_getnextheader E w a = Some (Some (h_hi h1, hv, h_length h1), w1)"
    unfolding w1_def ob1_def
    by (rule getnextheader_Cons [OF A Cons.prems(1), of p1 h1 "q @ (p, h) # q'"]) (use Cons.prems ok m in auto)
  show ?case
    by (subst received_name.simps)
       (auto simp: next_header_object g IH split: option.splits bind_splits)
qed

section \<open>Directories\<close>

text \<open>
  Where a path leads from a directory, given by its components from the root on, in a file system
  without symbolic links.
\<close>

definition enter :: "byte list list \<Rightarrow> byte list \<Rightarrow> byte list list" where
  "enter d c = (if c = [] \<or> c = [DOT] then d else if c = [DOT, DOT] then butlast d else d @ [c])"

definition resolve :: "byte list list \<Rightarrow> byte list \<Rightarrow> byte list list" where
  "resolve d p = foldl enter (if p \<noteq> [] \<and> p ! 0 = SLASH then [] else d) (components p)"

text \<open>
  What POSIX says of the calls and the current directory \<open>cwd\<close>: \<open>chdir\<close> goes where the path leads or
  fails and changes nothing, and \<open>stat\<close> and \<open>mkdir\<close> do not change it.
\<close>

definition posix_dirs :: "'x posix \<Rightarrow> ('x \<Rightarrow> byte list list) \<Rightarrow> bool" where
  "posix_dirs P cwd \<longleftrightarrow>
     (\<forall>p x. cwd (snd (px_chdir P p x)) = (if fst (px_chdir P p x) = -1 then cwd x else resolve (cwd x) p))
     \<and> (\<forall>p x. cwd (snd (px_stat P p x)) = cwd x) \<and> (\<forall>p x. cwd (snd (px_mkdir P p x)) = cwd x)"

text \<open>A single component that names a directory below the current one.\<close>

definition plain :: "byte list \<Rightarrow> bool" where
  "plain n \<longleftrightarrow> n \<noteq> [] \<and> proper n \<and> SLASH \<notin> set n \<and> length n < MAXPATHLEN"

lemma resolve_plain: "plain n \<Longrightarrow> resolve d n = d @ [n]"
  by (cases n) (auto simp: plain_def proper_def resolve_def components_plain enter_def)

lemma resolve_up: "resolve d [DOT, DOT] = butlast d"
  by (simp add: resolve_def enter_def)

lemma plain_nameok: "plain n \<Longrightarrow> ircp_nameok n"
  by (simp add: nameok_components components_plain plain_def)

lemma posix_dirsD:
  assumes "posix_dirs P cwd"
  shows "px_chdir P p x = (r, x') \<Longrightarrow> cwd x' = (if r = -1 then cwd x else resolve (cwd x) p)"
    and "px_stat P p x = (st, x') \<Longrightarrow> cwd x' = cwd x"
    and "px_mkdir P p x = (r, x') \<Longrightarrow> cwd x' = cwd x"
  using assms unfolding posix_dirs_def by (metis fst_conv snd_conv)+

lemma ircp_checkdir_returns:
  assumes "length dir < MAXPATHLEN"
  obtains r x' where "ircp_checkdir P [] dir flags x = Some (r, x')"
    "posix_dirs P cwd \<Longrightarrow> cwd x' = cwd x" "r \<ge> 0 \<Longrightarrow> flags AND CD_ALLOWABS = 0 \<Longrightarrow> ircp_nameok dir"
proof (cases "flags AND CD_ALLOWABS = 0 \<and> \<not> ircp_nameok dir")
  case True
  then show ?thesis using that by (simp add: ircp_checkdir_def)
next
  case False
  then have ok: "flags AND CD_ALLOWABS = 0 \<Longrightarrow> ircp_nameok dir" by blast
  obtain st x1 where st: "px_stat P dir x = (st, x1)" by fastforce
  obtain r x2 where mk: "px_mkdir P dir x1 = (r, x2)" by fastforce
  have cwd: "posix_dirs P cwd \<Longrightarrow> cwd x1 = cwd x" "posix_dirs P cwd \<Longrightarrow> cwd x2 = cwd x"
    using posix_dirsD(2) [of P cwd, OF _ st] posix_dirsD(3) [of P cwd, OF _ mk] by auto
  consider (dir) k sz where "st = Some (k, sz)" | (make) "st = None" "flags AND CD_CREATE \<noteq> 0"
    | (no) "st = None" "flags AND CD_CREATE = 0" by (cases st) auto
  then show ?thesis
  proof cases
    case dir
    then show ?thesis using False assms cwd(1) ok
      by (intro that [of "if k = S_DIR then 1 else -1" x1]) (auto simp: ircp_checkdir_def checkdir_path_def st)
  next
    case make
    then show ?thesis using False assms cwd(2) ok
      by (intro that [of r x2]) (auto simp: ircp_checkdir_def checkdir_path_def st mk)
  next
    case no
    then show ?thesis using False assms cwd(1) ok
      by (intro that [of "-1" x1]) (auto simp: ircp_checkdir_def checkdir_path_def st)
  qed
qed

text \<open>The server is at its inbox or as many levels below as it counts.\<close>

definition in_inbox :: "('x \<Rightarrow> byte list list) \<Rightarrow> byte list list \<Rightarrow> 'x srv_host world \<Rightarrow> bool" where
  "in_inbox cwd I w \<longleftrightarrow> (\<exists>ds. cwd (os (ext w)) = I @ ds \<and> sv_dirdepth (srv_of w) = int (length ds))"

definition name_plain :: "mem option \<Rightarrow> bool" where
  "name_plain name \<longleftrightarrow> (case name of None \<Rightarrow> True
     | Some m \<Rightarrow> (case c_str m of None \<Rightarrow> False | Some t \<Rightarrow> t = [] \<or> plain t))"

lemma setpath_move_in_inbox:
  assumes dirs: "posix_dirs P cwd" and root: "\<forall>d. resolve d (sv_inbox (srv_of w)) = I"
    and name: "name_plain name" and inv: "in_inbox cwd I w"
  obtains r w' where "setpath_move P flags name w = Some (r, w')" "in_inbox cwd I w'"
    "sv_inbox (srv_of w') = sv_inbox (srv_of w)" "objs w' = objs w"
proof -
  obtain ds where ds: "cwd (os (ext w)) = I @ ds" "sv_dirdepth (srv_of w) = int (length ds)"
    using inv by (auto simp: in_inbox_def)
  note cd = posix_dirsD(1) [OF dirs]
  consider (up) "flags AND 1 \<noteq> 0" | (none) "flags AND 1 = 0" "name = None"
    | (root) m where "flags AND 1 = 0" "name = Some m" "c_str m = Some []"
    | (down) m t where "flags AND 1 = 0" "name = Some m" "c_str m = Some t" "plain t"
    using name by (auto simp: name_plain_def split: option.splits)
  then show ?thesis
  proof cases
    case up
    obtain r x where c: "px_chdir P [DOT, DOT] (os (ext w)) = (r, x)" by fastforce
    show ?thesis
    proof (cases "ds = []")
      case True
      then show ?thesis using that [of "-1" w] up ds inv by (simp add: setpath_move_def)
    next
      case False
      then have "cwd x = (if r = -1 then I @ ds else I @ butlast ds)"
        using cd [OF c] ds by (simp add: resolve_up butlast_append)
      then have "in_inbox cwd I (if r = -1 then w\<lparr>ext := (ext w)\<lparr>os := x\<rparr>\<rparr>
          else upd_app (w\<lparr>ext := (ext w)\<lparr>os := x\<rparr>\<rparr>) (\<lambda>s. s\<lparr>sv_dirdepth := sv_dirdepth s - 1\<rparr>))"
        using ds False by (auto simp: in_inbox_def upd_app_def of_nat_diff Suc_leI)
      from that [OF _ this, of "if r = -1 then -1 else 1"] show ?thesis using up ds False c
        by (auto simp: setpath_move_def sys_os_def upd_app_def)
    qed
  next
    case none
    then show ?thesis using that [of "-1" w] inv by (simp add: setpath_move_def)
  next
    case (root m)
    obtain r x where c: "px_chdir P (sv_inbox (srv_of w)) (os (ext w)) = (r, x)" by fastforce
    have "cwd x = (if r = -1 then I @ ds else I)" using cd [OF c] ds assms(2) by simp
    then have "in_inbox cwd I (if r = -1 then w\<lparr>ext := (ext w)\<lparr>os := x\<rparr>\<rparr>
        else upd_app (w\<lparr>ext := (ext w)\<lparr>os := x\<rparr>\<rparr>) (\<lambda>s. s\<lparr>sv_dirdepth := 0\<rparr>))"
      using ds by (auto simp: in_inbox_def upd_app_def)
    from that [OF _ this, of "if r = -1 then -1 else 1"] show ?thesis using root c
      by (auto simp: setpath_move_def sys_os_def upd_app_def)
  next
    case (down m t)
    then have t: "t \<noteq> []" "length t < MAXPATHLEN" by (auto simp: plain_def)
    obtain k x1 where k: "ircp_checkdir P [] t CD_CREATE (os (ext w)) = Some (k, x1)" "cwd x1 = I @ ds"
      using ircp_checkdir_returns [OF t(2), of P CD_CREATE "os (ext w)" cwd] dirs ds(1) by metis
    obtain r x where c: "px_chdir P t x1 = (r, x)" by fastforce
    have "cwd x = (if r = -1 then I @ ds else I @ (ds @ [t]))"
      using cd [OF c] k(2) resolve_plain [OF down(4)] by simp
    then have "in_inbox cwd I (if k < 0 then w\<lparr>ext := (ext w)\<lparr>os := x1\<rparr>\<rparr>
        else if r = -1 then w\<lparr>ext := (ext w)\<lparr>os := x\<rparr>\<rparr>
        else upd_app (w\<lparr>ext := (ext w)\<lparr>os := x\<rparr>\<rparr>) (\<lambda>s. s\<lparr>sv_dirdepth := sv_dirdepth s + 1\<rparr>))"
      using ds k(2) unfolding in_inbox_def
      by (auto simp: upd_app_def intro: exI [of _ ds] exI [of _ "ds @ [t]"])
    from that [OF _ this, of "if k < 0 \<or> r = -1 then -1 else 1"] show ?thesis using down(1-3) t(1) c k(1)
      by (auto simp: setpath_move_def sys_os_def upd_app_def Let_def)
  qed
qed
section \<open>Requests with well-formed headers\<close>

text \<open>A received SETPATH request: two bytes of its own, then headers with terminated names.\<close>

definition setpath_request :: "'e env \<Rightarrow> 'e world \<Rightarrow> addr \<Rightarrow> obex_object \<Rightarrow> byte list \<Rightarrow> bool" where
  "setpath_request E w a ob d \<longleftrightarrow> generous (env_alloc E) \<and> objs w a = Some ob
     \<and> (case rx_nonhdr_data ob of None \<Rightarrow> False | Some nb \<Rightarrow> buf_wf nb \<and> buf_bytes nb = d) \<and> length d = 2
     \<and> distinct (map fst (rx_headerq ob)) \<and> names_ok (rx_headerq ob)"

definition name_is :: "byte list option \<Rightarrow> mem option \<Rightarrow> bool" where
  "name_is t name \<longleftrightarrow> (case t of None \<Rightarrow> name = None | Some t \<Rightarrow> \<exists>m. name = Some m \<and> c_str m = Some t)"

text \<open>The end of \<open>ircp_srv_setpath\<close>: a refused request is answered with FORBIDDEN.\<close>

definition setpath_finish :: "addr \<Rightarrow> int \<times> 'x srv_host world \<Rightarrow> (int \<times> 'x srv_host world) option" where
  "setpath_finish a = (\<lambda>(ret, w). do {
     (_, w) \<leftarrow> (if ret < 0 then OBEX_ObjectSetRsp w (Some a) OBEX_RSP_FORBIDDEN OBEX_RSP_FORBIDDEN else Some (0, w));
     Some (ret, w) })"

lemma setpath_finish_ok [simp]: "0 \<le> r \<Longrightarrow> setpath_finish a (r, w) = Some (r, w)"
  by (simp add: setpath_finish_def)

lemma setpath_finish_ext:
  "objs w a \<noteq> None \<Longrightarrow> \<exists>w'. setpath_finish a (r, w) = Some (r, w') \<and> ext w' = ext w"
  by (auto simp: setpath_finish_def OBEX_ObjectSetRsp_def)

lemma srv_setpath_runs:
  assumes "setpath_request E w a ob d"
  obtains name where "name_is (last_name (rx_headerq ob)) name"
    "ircp_srv_setpath E P w (Some a) = setpath_move P (d ! 0) name (read_all w a ob) \<bind> setpath_finish a"
proof -
  obtain nb where r: "generous (env_alloc E)" "objs w a = Some ob" "rx_nonhdr_data ob = Some nb" "buf_wf nb"
    "buf_bytes nb = d" "length d = 2" "distinct (map fst (rx_headerq ob))" "names_ok (rx_headerq ob)"
    using assms by (auto simp: setpath_request_def split: option.splits)
  obtain name where n: "received_name E w (Some a) None = Some (name, read_all w a ob)"
    "name_is (last_name (rx_headerq ob)) name"
    using received_name_spec [OF r(1,2) refl r(7,8), of None] by (auto simp: name_is_def)
  have sz: "data_size nb = 2" using length_buf_bytes [OF r(4)] r(5,6) by simp
  have fl: "mem_read (buf_ptr nb) 0 1 = Some [d ! 0]"
  proof -
    have "2 \<le> length (buf_ptr nb)" using buf_ptr_ge [OF r(4)] sz by simp
    moreover have "take 2 (buf_ptr nb) = d" using r(5) sz by (simp add: buf_bytes_def)
    ultimately show ?thesis by (cases "buf_ptr nb") (auto simp: mem_simps)
  qed
  show ?thesis
    by (rule that [OF n(2)])
       (simp add: ircp_srv_setpath_def OBEX_ObjectGetNonHdrData_def r(2,3) sz s32_id n(1) fl [unfolded One_nat_def] setpath_finish_def)
qed

lemma read_all_simps [simp]: "ext (read_all w a ob) = ext w" "hnd (read_all w a ob) = hnd w"
  by (simp_all add: read_all_def)

lemma in_inbox_cong: "ext w' = ext w \<Longrightarrow> in_inbox cwd I w' = in_inbox cwd I w"
  by (simp add: in_inbox_def)

text \<open>
  C9: SETPATH requests with plain names keep the server inside its inbox. With an
  absolute inbox and a file system without symbolic links, whatever the flags of the request: the server
  answers, and it stays as many levels below the inbox as it counts in \<open>dirdepth\<close>, if it was so before
  and if the name, when there is one, is empty or a single component other than \<open>.\<close> and \<open>..\<close>. In
  particular going up from the inbox is refused.
\<close>

theorem setpath_stays_in_inbox:
  assumes "posix_dirs P cwd" and "setpath_request E w a ob d"
    and "case last_name (rx_headerq ob) of None \<Rightarrow> True | Some t \<Rightarrow> t = [] \<or> plain t"
    and "\<forall>d. resolve d (sv_inbox (srv_of w)) = I" and "in_inbox cwd I w"
  shows "\<exists>r w'. ircp_srv_setpath E P w (Some a) = Some (r, w') \<and> in_inbox cwd I w'
     \<and> sv_inbox (srv_of w') = sv_inbox (srv_of w)"
proof -
  obtain name where name: "name_is (last_name (rx_headerq ob)) name"
    and run: "ircp_srv_setpath E P w (Some a) = setpath_move P (d ! 0) name (read_all w a ob) \<bind> setpath_finish a"
    by (rule srv_setpath_runs [OF assms(2)])
  have pl: "name_plain name"
    using name assms(3) by (auto simp: name_is_def name_plain_def split: option.splits)
  obtain r w1 where m: "setpath_move P (d ! 0) name (read_all w a ob) = Some (r, w1)" "in_inbox cwd I w1"
    "sv_inbox (srv_of w1) = sv_inbox (srv_of w)" "objs w1 = objs (read_all w a ob)"
    using setpath_move_in_inbox [OF assms(1) _ pl, of "read_all w a ob" I "d ! 0"] assms(4,5)
    by (auto simp: in_inbox_cong [of "read_all w a ob" w])
  obtain w2 where "setpath_finish a (r, w1) = Some (r, w2)" "ext w2 = ext w1"
    using setpath_finish_ext [of w1 a r] m(4) by (auto simp: read_all_def)
  then show ?thesis using m run by (simp add: in_inbox_cong [of w2 w1])
qed

text \<open>
  C34: the check of names does not keep a peer inside the inbox. A request to go down to
  \<open>..\<close>, sent to a server at its inbox, is accepted: the server is then in the parent directory of the
  inbox and counts itself one level below it.
\<close>

theorem setpath_dotdot_leaves_inbox:
  assumes "posix_dirs P cwd" and "setpath_request E w a ob d" and "d ! 0 AND 1 = 0"
    and "last_name (rx_headerq ob) = Some [DOT, DOT]"
    and "px_stat P [DOT, DOT] (os (ext w)) = (Some (S_DIR, sz), x)" and "fst (px_chdir P [DOT, DOT] x) \<noteq> -1"
    and "cwd (os (ext w)) = I" and "sv_dirdepth (srv_of w) = 0"
  shows "\<exists>w'. ircp_srv_setpath E P w (Some a) = Some (1, w') \<and> cwd (os (ext w')) = butlast I
     \<and> sv_dirdepth (srv_of w') = 1"
proof -
  obtain name where name: "name_is (last_name (rx_headerq ob)) name"
    and run: "ircp_srv_setpath E P w (Some a) = setpath_move P (d ! 0) name (read_all w a ob) \<bind> setpath_finish a"
    by (rule srv_setpath_runs [OF assms(2)])
  obtain m where m: "name = Some m" "c_str m = Some [DOT, DOT]" using name assms(4) by (auto simp: name_is_def)
  obtain r x' where c: "px_chdir P [DOT, DOT] x = (r, x')" "r \<noteq> -1" using assms(6) by (cases "px_chdir P [DOT, DOT] x") auto
  have "cwd x' = butlast I"
    using posix_dirsD(1) [OF assms(1) c(1)] posix_dirsD(2) [OF assms(1,5)] c(2) assms(7) by (simp add: resolve_up)
  then show ?thesis using assms(3,5,8) c m
    by (simp add: run setpath_move_def ircp_checkdir_def checkdir_path_def ircp_nameok_def sys_os_def upd_app_def)
qed

text \<open>
  Going back to the root (a SETPATH with an empty name) does not work with a relative inbox, as
  with the program's default \<open>.\<close>: the current directory stays, but the server then counts itself at
  the inbox, and refuses to go up.
\<close>

theorem setpath_root_of_relative_inbox:
  assumes "posix_dirs P cwd" and "setpath_request E w a ob d" and "d ! 0 AND 1 = 0"
    and "last_name (rx_headerq ob) = Some []" and "sv_inbox (srv_of w) = [DOT]"
    and "fst (px_chdir P [DOT] (os (ext w))) \<noteq> -1" 
  shows "\<exists>w'. ircp_srv_setpath E P w (Some a) = Some (1, w') \<and> cwd (os (ext w')) = cwd (os (ext w))
     \<and> sv_dirdepth (srv_of w') = 0"
proof -
  obtain name where name: "name_is (last_name (rx_headerq ob)) name"
    and run: "ircp_srv_setpath E P w (Some a) = setpath_move P (d ! 0) name (read_all w a ob) \<bind> setpath_finish a"
    by (rule srv_setpath_runs [OF assms(2)])
  obtain m where m: "name = Some m" "c_str m = Some []" using name assms(4) by (auto simp: name_is_def)
  obtain r x' where c: "px_chdir P [DOT] (os (ext w)) = (r, x')" "r \<noteq> -1"
    using assms(6) by (cases "px_chdir P [DOT] (os (ext w))") auto
  have "cwd x' = cwd (os (ext w))"
    using posix_dirsD(1) [OF assms(1) c(1)] c(2) by (simp add: resolve_def enter_def)
  then show ?thesis using assms(3,5) c m
    by (simp add: run setpath_move_def sys_os_def upd_app_def)
qed
section \<open>Examples\<close>

definition ex_srv :: "byte list \<Rightarrow> ircp_server" where
  "ex_srv inbox = \<lparr>sv_finished = 0, sv_success = 0, sv_inbox = inbox, sv_infocb = 0, sv_fd = -1, sv_dirdepth = 0\<rparr>"

text \<open>A file system with every directory one asks for; the state is the current one.\<close>

definition walk_posix :: "byte list list posix" where
  "walk_posix = dead_posix\<lparr>px_stat := (\<lambda>p d. (Some (S_DIR, 0), d)), px_chdir := (\<lambda>p d. (0, resolve d p)),
     px_create := (\<lambda>p d. (3, d))\<rparr>"

lemma walk_posix_dirs: "posix_dirs walk_posix id"
  by (simp add: posix_dirs_def walk_posix_def dead_posix_def)

text \<open>A request with flags 0 and the name \<open>n\<close>, each character two bytes.\<close>

definition ex_request :: "byte list \<Rightarrow> obex_object" where
  "ex_request n = obex_object_init\<lparr>rx_nonhdr_data := Some (buf_holding [0, 0] 0),
     rx_headerq := [(5, ex_elem OBEX_HDR_NAME n)]\<rparr>"

definition ex_srv_world :: "'x \<Rightarrow> byte list \<Rightarrow> obex_object \<Rightarrow> 'x srv_host world" where
  "ex_srv_world d inbox ob = (calm_world \<lparr>app = ex_srv inbox, os = d\<rparr>)\<lparr>objs := (\<lambda>a. if a = 1 then Some ob else None)\<rparr>"

lemma ex_srv_world_simps [simp]:
  "cur_object (hnd (ex_srv_world d inbox ob)) = Some 1"
  "ext (ex_srv_world d inbox ob) = \<lparr>app = ex_srv inbox, os = d\<rparr>"
  "objs (ex_srv_world d inbox ob) a = (if a = 1 then Some ob else None)"
  "rx_headerq (ex_request n) = [(5, ex_elem OBEX_HDR_NAME n)]"
  by (simp_all add: ex_srv_world_def calm_world_def ex_request_def ex_handle_def)

lemma calm_env_generous [simp]: "generous (env_alloc calm_env)"
  by (simp add: calm_env_def)

lemma ex_request_ok:
  assumes "name_text (ex_elem OBEX_HDR_NAME n) \<noteq> None" and "length n < 65536"
  shows "setpath_request calm_env (ex_srv_world d inbox (ex_request n)) 1 (ex_request n) [0, 0]"
  using assms
  by (simp add: setpath_request_def names_ok_def rx_elem_ok_def ex_elem_def buf_wf_holding)
     (simp add: ex_request_def buf_wf_holding)

lemma ex_names [simp]:
  "name_text (ex_elem OBEX_HDR_NAME [0, 97, 0, 0]) = Some [97]"
  "name_text (ex_elem OBEX_HDR_NAME [0, DOT, 0, DOT, 0, 0]) = Some [DOT, DOT]"
  "name_text (ex_elem OBEX_HDR_NAME [0, 0]) = Some []"
  by (simp_all add: name_text_def ex_elem_def)

lemma ex_last_name [simp]:
  "last_name (rx_headerq (ex_request n)) = name_text (ex_elem OBEX_HDR_NAME n)"
  by (simp add: ex_elem_def)

lemma walk_posix_simps [simp]:
  "px_stat walk_posix p d = (Some (S_DIR, 0), d)" "px_chdir walk_posix p d = (0, resolve d p)"
  "px_create walk_posix p d = (3, d)" "px_info walk_posix cb ev t d = d"
  by (simp_all add: walk_posix_def dead_posix_def)

lemma ex_srv_simps [simp]:
  "sv_dirdepth (ex_srv i) = 0" "sv_inbox (ex_srv i) = i" "sv_fd (ex_srv i) = -1" "sv_infocb (ex_srv i) = 0"
  by (simp_all add: ex_srv_def)

theorem setpath_stays_in_inbox_witness:
  "\<exists>r w'. ircp_srv_setpath calm_env walk_posix (ex_srv_world [[104]] [SLASH, 104] (ex_request [0, 97, 0, 0])) (Some 1)
       = Some (r, w') \<and> in_inbox id [[104]] w' \<and> sv_inbox (srv_of w') = sv_inbox (ex_srv [SLASH, 104])"
  using setpath_stays_in_inbox [OF walk_posix_dirs ex_request_ok [of "[0, 97, 0, 0]" "[[104]]" "[SLASH, 104]"], of "[[104]]"]
  by (simp add: plain_def proper_def in_inbox_def resolve_def enter_def del: last_name.simps ex_srv_world_simps(4))

theorem setpath_dotdot_leaves_inbox_witness:
  "\<exists>w'. ircp_srv_setpath calm_env walk_posix
         (ex_srv_world [[104], [105]] [SLASH, 104, SLASH, 105] (ex_request [0, DOT, 0, DOT, 0, 0])) (Some 1)
       = Some (1, w') \<and> id (os (ext w')) = butlast [[104], [105]] \<and> sv_dirdepth (srv_of w') = 1"
  by (rule setpath_dotdot_leaves_inbox [OF walk_posix_dirs ex_request_ok])
     (simp_all del: last_name.simps ex_srv_world_simps(4))

theorem setpath_root_of_relative_inbox_witness:
  "\<exists>w'. ircp_srv_setpath calm_env walk_posix (ex_srv_world [[104], [105]] [DOT] (ex_request [0, 0])) (Some 1)
       = Some (1, w') \<and> id (os (ext w')) = id (os (ext (ex_srv_world [[104], [105]] [DOT] (ex_request [0, 0]))))
     \<and> sv_dirdepth (srv_of w') = 0"
  by (rule setpath_root_of_relative_inbox [OF walk_posix_dirs ex_request_ok])
     (simp_all del: last_name.simps ex_srv_world_simps(4))

section \<open>Files\<close>

text \<open>
  What \<open>new_file\<close> does with the headers of a PUT whose names are terminated: the last name is opened
  by \<open>ircp_open_safe\<close>, after the user was told, and the result becomes the descriptor of the server;
  without a name the request is refused with BAD_REQUEST and the descriptor stays.
\<close>

theorem new_file_opens_named:
  assumes "generous (env_alloc E)" and "objs w a = Some ob" and "distinct (map fst (rx_headerq ob))"
    and "names_ok (rx_headerq ob)"
  shows "\<exists>w'. new_file E P w (Some a) = Some
       (case last_name (rx_headerq ob) of None \<Rightarrow> -1
        | Some t \<Rightarrow> fst (ircp_open_safe P (Some []) t (px_info P (sv_infocb (srv_of w)) IRCP_EV_RECEIVING t (os (ext w)))), w')
     \<and> sv_fd (srv_of w') = (case last_name (rx_headerq ob) of None \<Rightarrow> sv_fd (srv_of w)
        | Some t \<Rightarrow> fst (ircp_open_safe P (Some []) t (px_info P (sv_infocb (srv_of w)) IRCP_EV_RECEIVING t (os (ext w)))))
     \<and> (last_name (rx_headerq ob) = None \<longrightarrow> objs w' a = Some (obex_object_setrsp
          (ob\<lparr>rx_headerq := [], rx_headerq_rm := rx_headerq_rm ob @ rx_headerq ob\<rparr>) OBEX_RSP_BAD_REQUEST OBEX_RSP_BAD_REQUEST))"
proof -
  obtain name where n: "received_name E w (Some a) None = Some (name, read_all w a ob)"
    "name_is (last_name (rx_headerq ob)) name"
    using received_name_spec [OF assms(1,2) refl assms(3,4), of None] by (auto simp: name_is_def)
  show ?thesis
  proof (cases "last_name (rx_headerq ob)")
    case None
    then show ?thesis using n
      by (simp add: new_file_def name_is_def OBEX_ObjectSetRsp_def read_all_def srv_info_def infocb_def)
  next
    case (Some t)
    then obtain m where "name = Some m" "c_str m = Some t" using n(2) by (auto simp: name_is_def)
    then show ?thesis using n(1) Some
      by (simp add: new_file_def srv_info_def infocb_def sys_os_def upd_app_def split: prod.splits)
  qed
qed

theorem new_file_opens_named_witness:
  "\<exists>w'. new_file calm_env walk_posix (ex_srv_world [] [DOT] (ex_request [0, 97, 0, 0])) (Some 1) = Some (3, w')
     \<and> sv_fd (srv_of w') = 3"
proof -
  have "distinct (map fst (rx_headerq (ex_request [0, 97, 0, 0])))" "names_ok (rx_headerq (ex_request [0, 97, 0, 0]))"
    using ex_request_ok [of "[0, 97, 0, 0]"] by (simp_all add: setpath_request_def del: ex_srv_world_simps(4))
  from new_file_opens_named [OF calm_env_generous _ this, of "ex_srv_world [] [DOT] (ex_request [0, 97, 0, 0])" 1 walk_posix]
  show ?thesis
    by (auto simp: ircp_open_safe_def ircp_nameok_def simp del: last_name.simps ex_srv_world_simps(4))
qed

text \<open>
  A name that is not terminated is undefined behaviour. A NAME header without a zero
  character within its length makes the server read beyond the received bytes or write beyond the block
  it allocated, which has half the length of the header, while the conversion is told the whole length.
\<close>

theorem overlong_name_undefined:
  assumes "generous (env_alloc E)" and "objs w a = Some ob" and "rx_headerq ob = q @ (p, h) # q'"
    and "distinct (map fst (rx_headerq ob))" and "names_ok q" and "rx_elem_ok (p, h)" and "overlong_name h"
  shows "new_file E P w (Some a) = None"
  using received_name_overrun [OF assms(1,7,6,2,3) _ assms(5), of None] assms(3,4)
  by (simp add: new_file_def)

theorem overlong_name_undefined_witness:
  "new_file calm_env walk_posix (ex_srv_world [] [DOT] (ex_request [0, 97, 0, 98])) (Some 1) = None"
proof -
  have "overlong_name (ex_elem OBEX_HDR_NAME [0, 97, 0, 98])"
    by (simp add: overlong_name_def name_text_def ex_elem_def)
  moreover have "rx_elem_ok (5, ex_elem OBEX_HDR_NAME [0, 97, 0, 98])"
    by (simp add: rx_elem_ok_def ex_elem_def buf_wf_holding)
  ultimately show ?thesis
    using overlong_name_undefined [of calm_env "ex_srv_world [] [DOT] (ex_request [0, 97, 0, 98])" 1
        "ex_request [0, 97, 0, 98]" "[]" 5 "ex_elem OBEX_HDR_NAME [0, 97, 0, 98]" "[]" walk_posix]
    by (simp add: names_ok_def)
qed

section \<open>A tree arrives as it was\<close>

text \<open>
  The requests a client makes for the visits of a tree, as the server carries them out: SETPATH with a
  name, SETPATH up, and PUT of a file, which lands in the current directory under the last component
  of its path.
\<close>

fun replay :: "'x posix \<Rightarrow> ('x \<Rightarrow> byte list list) \<Rightarrow> visit list \<Rightarrow> 'x srv_host world
    \<Rightarrow> ((byte list list \<times> byte list) list \<times> 'x srv_host world) option" where
  "replay P cwd [] w = Some ([], w)"
| "replay P cwd ((VISIT_FILE, n, p) # vs) w = do {
     (fs, w') \<leftarrow> replay P cwd vs w;
     Some ((cwd (os (ext w)), case strrchr_after n SLASH of None \<Rightarrow> n | Some r \<Rightarrow> r) # fs, w') }"
| "replay P cwd ((VISIT_GOING_DEEPER, n, p) # vs) w = do {
     (r, w) \<leftarrow> setpath_move P 0 (Some (n @ [0])) w;
     (if r < 0 then None else replay P cwd vs w) }"
| "replay P cwd ((VISIT_GOING_UP, n, p) # vs) w = do {
     (r, w) \<leftarrow> setpath_move P 1 None w;
     (if r < 0 then None else replay P cwd vs w) }"

text \<open>The files of a tree below the directory \<open>d\<close>.\<close>

fun placed :: "byte list list \<Rightarrow> (byte list \<times> tree) list \<Rightarrow> (byte list list \<times> byte list) list" where
  "placed d [] = []"
| "placed d ((n, File) # es) = (d, n) # placed d es"
| "placed d ((n, Dir ds) # es) = placed (d @ [n]) ds @ placed d es"
| "placed d ((n, Other) # es) = placed d es"

fun plain_tree :: "(byte list \<times> tree) list \<Rightarrow> bool" where
  "plain_tree [] = True"
| "plain_tree ((n, Dir ds) # es) = (plain n \<and> 0 \<notin> set n \<and> plain_tree ds \<and> plain_tree es)"
| "plain_tree ((n, t) # es) = (plain n \<and> 0 \<notin> set n \<and> plain_tree es)"

text \<open>A system in which directories can be made and entered.\<close>

definition makes_dirs :: "'x posix \<Rightarrow> bool" where
  "makes_dirs P \<longleftrightarrow> (\<forall>p x. fst (px_chdir P p x) \<noteq> -1)
     \<and> (\<forall>n x. plain n \<longrightarrow> (case ircp_checkdir P [] n CD_CREATE x of None \<Rightarrow> False | Some (r, x') \<Rightarrow> 0 \<le> r))"

lemma strrchr_after_last: "c \<notin> set ys \<Longrightarrow> strrchr_after (xs @ c # ys) c = Some ys"
proof (induction xs)
  case Nil
  have "c \<notin> set ys \<Longrightarrow> strrchr_after ys c = None" by (induction ys) auto
  then show ?case using Nil by simp
qed simp

lemma move_down:
  assumes "posix_dirs P cwd" and "makes_dirs P" and "plain n" and "0 \<notin> set n"
  shows "\<exists>w'. setpath_move P 0 (Some (n @ [0])) w = Some (1, w') \<and> cwd (os (ext w')) = cwd (os (ext w)) @ [n]
     \<and> sv_dirdepth (srv_of w') = sv_dirdepth (srv_of w) + 1"
proof -
  have n: "n \<noteq> []" "length n < MAXPATHLEN" "c_str (n @ [0]) = Some n"
    using assms(3) c_str_text [OF assms(4), of "[]"] by (simp_all add: plain_def)
  obtain k x1 where k: "ircp_checkdir P [] n CD_CREATE (os (ext w)) = Some (k, x1)" "cwd x1 = cwd (os (ext w))"
    using ircp_checkdir_returns [OF n(2), of P CD_CREATE "os (ext w)" cwd] assms(1) by metis
  have k0: "0 \<le> k"
    using assms(2,3) k(1) unfolding makes_dirs_def by (metis (mono_tags, lifting) case_prod_conv option.simps(5))
  obtain r x where c: "px_chdir P n x1 = (r, x)" "r \<noteq> -1"
    using assms(2) unfolding makes_dirs_def by (metis prod.collapse)
  have "cwd x = cwd (os (ext w)) @ [n]" using posix_dirsD(1) [OF assms(1) c(1)] c(2) k(2) resolve_plain [OF assms(3)] by simp
  then show ?thesis using n(1,3) k(1) k0 c by (simp add: setpath_move_def sys_os_def upd_app_def)
qed

lemma move_up:
  assumes "posix_dirs P cwd" and "makes_dirs P" and "sv_dirdepth (srv_of w) \<noteq> 0"
  shows "\<exists>w'. setpath_move P 1 None w = Some (1, w') \<and> cwd (os (ext w')) = butlast (cwd (os (ext w)))
     \<and> sv_dirdepth (srv_of w') = sv_dirdepth (srv_of w) - 1"
proof -
  obtain r x where c: "px_chdir P [DOT, DOT] (os (ext w)) = (r, x)" "r \<noteq> -1"
    using assms(2) unfolding makes_dirs_def by (metis prod.collapse)
  have "cwd x = butlast (cwd (os (ext w)))" using posix_dirsD(1) [OF assms(1) c(1)] c(2) by (simp add: resolve_up)
  then show ?thesis using c assms(3) by (simp add: setpath_move_def sys_os_def upd_app_def)
qed

lemma replay_tree:
  assumes P: "posix_dirs P cwd" "makes_dirs P"
  shows "plain_tree es \<Longrightarrow> 0 \<le> sv_dirdepth (srv_of w) \<Longrightarrow>
    \<exists>w'. (\<forall>vs. replay P cwd (visits path es @ vs) w
        = map_option (\<lambda>(fs, v). (placed (cwd (os (ext w))) es @ fs, v)) (replay P cwd vs w'))
      \<and> cwd (os (ext w')) = cwd (os (ext w)) \<and> sv_dirdepth (srv_of w') = sv_dirdepth (srv_of w)"
proof (induction path es arbitrary: w rule: visits.induct)
  case (1 path)
  then show ?case by (intro exI [of _ w]) (simp add: option.map_ident)
next
  case (2 path n es)
  obtain w' where w': "\<And>vs. replay P cwd (visits path es @ vs) w
        = map_option (\<lambda>(fs, v). (placed (cwd (os (ext w))) es @ fs, v)) (replay P cwd vs w')"
    "cwd (os (ext w')) = cwd (os (ext w))" "sv_dirdepth (srv_of w') = sv_dirdepth (srv_of w)"
    using 2 by auto
  have "strrchr_after (path @ SLASH # n) SLASH = Some n"
    by (rule strrchr_after_last) (use 2(2) in \<open>simp add: plain_def\<close>)
  then have "replay P cwd (visits path ((n, File) # es) @ vs) w
        = map_option (\<lambda>(fs, v). (placed (cwd (os (ext w))) ((n, File) # es) @ fs, v)) (replay P cwd vs w')" for vs
    by (cases "replay P cwd vs w'") (auto simp: w'(1))
  then show ?case using w'(2,3) by blast
next
  case (3 path n ds es)
  let ?d = "cwd (os (ext w))"
  have pl: "plain n" "0 \<notin> set n" "plain_tree ds" "plain_tree es" using 3(3) by simp_all
  obtain w1 where w1: "setpath_move P 0 (Some (n @ [0])) w = Some (1, w1)" "cwd (os (ext w1)) = ?d @ [n]"
     "sv_dirdepth (srv_of w1) = sv_dirdepth (srv_of w) + 1"
    using move_down [OF P pl(1,2)] by blast
  obtain w2 where w2: "\<And>vs. replay P cwd (visits (path @ SLASH # n) ds @ vs) w1
        = map_option (\<lambda>(fs, v). (placed (?d @ [n]) ds @ fs, v)) (replay P cwd vs w2)"
    "cwd (os (ext w2)) = ?d @ [n]" "sv_dirdepth (srv_of w2) = sv_dirdepth (srv_of w) + 1"
    using 3(1) [of w1] pl(3) 3(4) w1(2,3) by auto
  obtain w3 where w3: "setpath_move P 1 None w2 = Some (1, w3)" "cwd (os (ext w3)) = ?d"
     "sv_dirdepth (srv_of w3) = sv_dirdepth (srv_of w)"
    using move_up [OF P, of w2] w2(2,3) 3(4) by auto
  obtain w' where w': "\<And>vs. replay P cwd (visits path es @ vs) w3
        = map_option (\<lambda>(fs, v). (placed ?d es @ fs, v)) (replay P cwd vs w')"
    "cwd (os (ext w')) = ?d" "sv_dirdepth (srv_of w') = sv_dirdepth (srv_of w)"
    using 3(2) [of w3] pl(4) 3(4) w3(2,3) by auto
  have "replay P cwd (visits path ((n, Dir ds) # es) @ vs) w
        = map_option (\<lambda>(fs, v). (placed ?d ((n, Dir ds) # es) @ fs, v)) (replay P cwd vs w')" for vs
    by (cases "replay P cwd vs w'") (auto simp: w1(1) w2(1) w3(1) w'(1))
  then show ?case using w'(2,3) by blast
next
  case (4 path n es)
  then show ?case by simp
qed



end
