(* ===== verification/Ircp_Client.thy ===== *)
theory Ircp_Client
  imports Ircp_Io
begin

text \<open>
  ircp/ircp_client.c: the sending side of ircp. Its structure is the application part of the world;
  \<open>cli_obex_event\<close> is the event callback the library calls.
\<close>

section \<open>State\<close>

record ircp_client =
  cl_finished :: int
  cl_success :: int
  cl_obex_rsp :: int
  cl_infocb :: ptr
  cl_fd :: int
  cl_buf :: "mem option"

type_synonym 'x cli_host = "(ircp_client, 'x) host"

abbreviation cli_of :: "'x cli_host world \<Rightarrow> ircp_client" where
  "cli_of w \<equiv> app (ext w)"

definition cli_info :: "'x posix \<Rightarrow> ircp_event \<Rightarrow> byte list \<Rightarrow> 'x cli_host world \<Rightarrow> 'x cli_host world" where
  "cli_info P ev param w = infocb P (cl_infocb (cli_of w)) ev param w"

abbreviation "STREAM_CHUNK \<equiv> (4096 :: nat)"

section \<open>Events\<close>

text \<open>\<open>read(cli->fd, cli->buf, STREAM_CHUNK)\<close>: with a NULL buffer the system call fails.\<close>

definition cli_read :: "'x posix \<Rightarrow> 'x cli_host world \<Rightarrow> (int \<times> 'x cli_host world) option" where
  "cli_read P w =
     (case cl_buf (cli_of w) of
        None \<Rightarrow> Some (-1, w)
      | Some buf \<Rightarrow> (let ((actual, d), w) = sys_os (px_read P (cl_fd (cli_of w)) STREAM_CHUNK) w in
          if actual > 0
          then do { buf \<leftarrow> mem_write buf 0 d; Some (actual, upd_app w (\<lambda>s. s\<lparr>cl_buf := Some buf\<rparr>)) }
          else Some (actual, w)))"

definition cli_close_fd :: "'x posix \<Rightarrow> 'x cli_host world \<Rightarrow> 'x cli_host world" where
  "cli_close_fd P w =
     (let (_, w) = sys_os (px_close P (cl_fd (cli_of w))) w in upd_app w (\<lambda>s. s\<lparr>cl_fd := -1\<rparr>))"

definition cli_fillstream ::
    "'x cli_host env \<Rightarrow> 'x posix \<Rightarrow> 'x cli_host world \<Rightarrow> addr option \<Rightarrow> (int \<times> 'x cli_host world) option" where
  "cli_fillstream E P w object = do {
     (actual, w) \<leftarrow> cli_read P w;
     (if actual > 0
      then do {
        (_, w) \<leftarrow> OBEX_ObjectAddHeader E w object OBEX_HDR_BODY (BS (cl_buf (cli_of w))) (nat actual) OBEX_FL_STREAM_DATA;
        Some (actual, w) }
      else if actual = 0
      then do {
        (_, w) \<leftarrow> OBEX_ObjectAddHeader E (cli_close_fd P w) object OBEX_HDR_BODY (BS (cl_buf (cli_of w))) 0 OBEX_FL_STREAM_DATAEND;
        Some (actual, w) }
      else do {
        (_, w) \<leftarrow> OBEX_ObjectAddHeader E (cli_close_fd P w) object OBEX_HDR_BODY (BS None) 0 OBEX_FL_STREAM_DATA;
        Some (actual, w) }) }"

definition cli_obex_event ::
    "'x cli_host env \<Rightarrow> 'x posix \<Rightarrow> 'x cli_host world \<Rightarrow> addr option \<Rightarrow> obex_event \<Rightarrow> byte \<Rightarrow> 'x cli_host world option" where
  "cli_obex_event E P w object event obex_rsp =
     (case event of
        OBEX_EV_REQDONE \<Rightarrow> Some (upd_app w (\<lambda>s. s\<lparr>cl_finished := 1,
          cl_success := (if obex_rsp = OBEX_RSP_SUCCESS then 1 else 0), cl_obex_rsp := int (unat obex_rsp)\<rparr>))
      | OBEX_EV_LINKERR \<Rightarrow> Some (upd_app w (\<lambda>s. s\<lparr>cl_finished := 1, cl_success := 0\<rparr>))
      | OBEX_EV_STREAMEMPTY \<Rightarrow> do { (_, w) \<leftarrow> cli_fillstream E P w object; Some w }
      | _ \<Rightarrow> Some w)"

text \<open>
  The environment of the library in this program. \<open>OBEX_ObjectAddHeader\<close>, the only library function
  the callback calls, does not deliver events itself.
\<close>

definition cli_env :: "'x cli_host env \<Rightarrow> 'x posix \<Rightarrow> 'x cli_host env" where
  "cli_env E P = E\<lparr>env_event := (\<lambda>cb w object mode event obex_cmd obex_rsp. cli_obex_event E P w object event obex_rsp)\<rparr>"

section \<open>Requests\<close>

partial_function (option) cli_wait ::
    "'x cli_host env \<Rightarrow> 'x posix \<Rightarrow> 'x cli_host world \<Rightarrow> (int \<times> 'x cli_host world) option" where
  "cli_wait E P w =
     (if cl_finished (cli_of w) = 0
      then do {
        (ret, w) \<leftarrow> OBEX_HandleInput (cli_env E P) w 20;
        (if ret \<le> 0 then Some (-1, w) else cli_wait E P w) }
      else Some (if cl_success (cli_of w) \<noteq> 0 then 1 else -1, w))"

definition cli_sync_request ::
    "'x cli_host env \<Rightarrow> 'x posix \<Rightarrow> 'x cli_host world \<Rightarrow> addr option \<Rightarrow> (int \<times> 'x cli_host world) option" where
  "cli_sync_request E P w object = do {
     (_, w) \<leftarrow> OBEX_Request (cli_env E P) (upd_app w (\<lambda>s. s\<lparr>cl_finished := 0\<rparr>)) object;
     cli_wait E P w }"

text \<open>\<open>fresh\<close> is what the block returned by \<open>malloc\<close> holds.\<close>

definition ircp_cli_open ::
    "alloc \<Rightarrow> ircp_client option \<Rightarrow> ptr \<Rightarrow> ptr \<Rightarrow> ptr \<Rightarrow> (ircp_client \<times> obex) option" where
  "ircp_cli_open A fresh self cb info = do {
     cli \<leftarrow> fresh;
     h \<leftarrow> OBEX_Init A OBEX_TRANS_IRDA cb 0;
     Some (cli\<lparr>cl_infocb := info, cl_fd := -1, cl_buf := malloc A STREAM_CHUNK\<rparr>, h\<lparr>userdata := self\<rparr>) }"

definition ircp_cli_close ::
    "'x cli_host env \<Rightarrow> 'x posix \<Rightarrow> 'x cli_host world \<Rightarrow> ((addr \<Rightarrow> obex_object option) \<times> 'x cli_host \<times> usb_ctx) option" where
  "ircp_cli_close E P w = OBEX_Cleanup (cli_env E P) w"

definition ircp_cli_connect ::
    "'x cli_host env \<Rightarrow> 'x posix \<Rightarrow> 'x cli_host world \<Rightarrow> (int \<times> 'x cli_host world) option" where
  "ircp_cli_connect E P w = do {
     (ret, w) \<leftarrow> IrOBEX_TransportConnect (cli_env E P) (cli_info P IRCP_EV_CONNECTING [] w) (Some (OBEX_IRXFER @ [0]));
     (if ret < 0 then Some (-1, cli_info P IRCP_EV_ERR [] w)
      else do {
        (object, w) \<leftarrow> OBEX_ObjectNew (cli_env E P) w OBEX_CMD_CONNECT;
        (ret, w) \<leftarrow> cli_sync_request E P w object;
        Some (ret, cli_info P (if ret < 0 then IRCP_EV_ERR else IRCP_EV_OK) [] w) }) }"

definition ircp_cli_disconnect ::
    "'x cli_host env \<Rightarrow> 'x posix \<Rightarrow> 'x cli_host world \<Rightarrow> (int \<times> 'x cli_host world) option" where
  "ircp_cli_disconnect E P w = do {
     (object, w) \<leftarrow> OBEX_ObjectNew (cli_env E P) (cli_info P IRCP_EV_DISCONNECTING [] w) OBEX_CMD_DISCONNECT;
     (ret, w) \<leftarrow> cli_sync_request E P w object;
     (_, w) \<leftarrow> OBEX_TransportDisconnect (cli_env E P) (cli_info P (if ret < 0 then IRCP_EV_ERR else IRCP_EV_OK) [] w);
     Some (ret, w) }"

section \<open>Files and directories\<close>

text \<open>The last \<open>close\<close> leaves \<open>cli->fd\<close> as it is.\<close>

definition ircp_put_file ::
    "'x cli_host env \<Rightarrow> 'x posix \<Rightarrow> 'x cli_host world \<Rightarrow> byte list \<Rightarrow> byte list \<Rightarrow> (int \<times> 'x cli_host world) option" where
  "ircp_put_file E P w localname remotename = do {
     (object, w) \<leftarrow> build_object_from_file (cli_env E P) P (cli_info P IRCP_EV_SENDING localname w) localname remotename;
     (let (f, w) = sys_os (px_open P localname) w; w = upd_app w (\<lambda>s. s\<lparr>cl_fd := f\<rparr>) in do {
        (ret, w) \<leftarrow> (if f < 0 then Some (-1, w) else cli_sync_request E P w object);
        (let (_, w) = sys_os (px_close P (cl_fd (cli_of w))) w in
         Some (ret, cli_info P (if ret < 0 then IRCP_EV_ERR else IRCP_EV_OK) localname w)) }) }"

definition ircp_setpath ::
    "'x cli_host env \<Rightarrow> 'x posix \<Rightarrow> 'x cli_host world \<Rightarrow> byte list \<Rightarrow> bool \<Rightarrow> (int \<times> 'x cli_host world) option" where
  "ircp_setpath E P w name up = do {
     (object, w) \<leftarrow> OBEX_ObjectNew (cli_env E P) w OBEX_CMD_SETPATH;
     (let ucname_len = length name * 2 + 2 in
      if \<not> up \<and> malloc (env_alloc E) ucname_len = None
      then do { (_, w) \<leftarrow> OBEX_ObjectDelete w object; Some (-1, w) }
      else do {
        (_, w) \<leftarrow> (if up then Some (0, w)
          else do {
            (n, uc) \<leftarrow> OBEX_CharToUnicode (malloc (env_alloc E) ucname_len) (Some (name @ [0])) (int ucname_len);
            OBEX_ObjectAddHeader (cli_env E P) w object OBEX_HDR_NAME (BS uc) (u32 n) 0 });
        (_, w) \<leftarrow> OBEX_ObjectSetNonHdrData (cli_env E P) w object (Some [if up then 1 else 0, 0]) 2;
        cli_sync_request E P w object }) }"

definition ircp_visit ::
    "'x cli_host env \<Rightarrow> 'x posix \<Rightarrow> visit_action \<Rightarrow> byte list \<Rightarrow> byte list \<Rightarrow> 'x cli_host world \<Rightarrow> (int \<times> 'x cli_host world) option" where
  "ircp_visit E P action name path w =
     (case action of
        VISIT_FILE \<Rightarrow> ircp_put_file E P w name (case strrchr_after name SLASH of None \<Rightarrow> name | Some r \<Rightarrow> r)
      | VISIT_GOING_DEEPER \<Rightarrow> ircp_setpath E P w name False
      | VISIT_GOING_UP \<Rightarrow> ircp_setpath E P w [] True)"

text \<open>
  The directory part of \<open>ircp_put\<close>: the result of \<open>chdir\<close> is dropped. \<open>getcwd\<close> is not checked the
  second time, and neither is \<open>strrchr\<close> (an unreachable directory has no leading slash).
\<close>

definition put_enter ::
    "'x cli_host env \<Rightarrow> 'x posix \<Rightarrow> 'x cli_host world \<Rightarrow> byte list \<Rightarrow> 'x cli_host world option" where
  "put_enter E P w name =
     (let (_, w) = sys_os (px_chdir P name) w; (newrealdir, w) = sys_os (px_getcwd P) w in do {
        d \<leftarrow> newrealdir;
        dirname \<leftarrow> strrchr_after d SLASH;
        (if dirname \<noteq> [] then do { (_, w) \<leftarrow> ircp_setpath E P w dirname False; Some w } else Some w) })"

definition ircp_put ::
    "'x cli_host env \<Rightarrow> 'x posix \<Rightarrow> 'x cli_host world \<Rightarrow> byte list \<Rightarrow> (int \<times> 'x cli_host world) option" where
  "ircp_put E P w name =
     (let (origdir, w) = sys_os (px_getcwd P) w in
      case origdir of
        None \<Rightarrow> Some (-1, w)
      | Some origdir \<Rightarrow>
          (let (st, w) = sys_os (px_stat P name) w in
           case st of
             None \<Rightarrow> Some (-1, w)
           | Some (kind, _) \<Rightarrow> do {
               (name, w) \<leftarrow> (if s_ifdir_bit kind then do { w \<leftarrow> put_enter E P w name; Some ([DOT], w) }
                            else Some (name, w));
               (ret, w) \<leftarrow> visit_all_files P (ircp_visit E P) name w;
               (let (_, w) = sys_os (px_chdir P origdir) w in Some (ret, w)) }))"

section \<open>The program\<close>

text \<open>ircp.c: what \<open>main\<close> does to send the files of its command line.\<close>

fun ircp_send_files ::
    "'x cli_host env \<Rightarrow> 'x posix \<Rightarrow> byte list list \<Rightarrow> 'x cli_host world \<Rightarrow> 'x cli_host world option" where
  "ircp_send_files E P [] w = Some w"
| "ircp_send_files E P (f # fs) w = do { (_, w) \<leftarrow> ircp_put E P w f; ircp_send_files E P fs w }"

definition ircp_send ::
    "'x cli_host env \<Rightarrow> 'x posix \<Rightarrow> byte list list \<Rightarrow> 'x cli_host world \<Rightarrow> ((addr \<Rightarrow> obex_object option) \<times> 'x cli_host \<times> usb_ctx) option" where
  "ircp_send E P files w = do {
     (r, w) \<leftarrow> ircp_cli_connect E P w;
     w \<leftarrow> (if r \<ge> 0 then do {
             w \<leftarrow> ircp_send_files E P files w;
             (_, w) \<leftarrow> ircp_cli_disconnect E P w;
             Some w }
           else Some w);
     ircp_cli_close E P w }"

end
