(* ===== verification/Upload.thy ===== *)
theory Upload
  imports Streaming Inbox Ircp_Client
begin

text \<open>
  A file on its way: the client's answer to \<open>OBEX_EV_STREAMEMPTY\<close> makes it a source of a stream, the
  fragments the library makes of it are stored by the server's answer to \<open>OBEX_EV_STREAMAVAIL\<close>.
\<close>

section \<open>The client as a source\<close>

text \<open>
  What \<open>read\<close> and \<open>close\<close> do with the descriptor \<open>f\<close> of a file of which \<open>left\<close> is not yet read.
\<close>

definition reads_file :: "'x posix \<Rightarrow> int \<Rightarrow> ('x \<Rightarrow> byte list) \<Rightarrow> bool" where
  "reads_file P f left \<longleftrightarrow>
     (\<forall>n x. fst (px_read P f n x) = (int (length (take n (left x))), take n (left x))
        \<and> left (snd (px_read P f n x)) = drop n (left x))"

definition cli_good :: "'x posix \<Rightarrow> int \<Rightarrow> ('x \<Rightarrow> byte list) \<Rightarrow> 'x cli_host \<Rightarrow> bool" where
  "cli_good P f left e \<longleftrightarrow> reads_file P f left \<and> f \<noteq> -1 \<and> cl_fd (app e) = f
     \<and> (case cl_buf (app e) of None \<Rightarrow> False | Some m \<Rightarrow> length m = STREAM_CHUNK)"

definition cli_pending :: "int \<Rightarrow> ('x \<Rightarrow> byte list) \<Rightarrow> 'x cli_host \<Rightarrow> byte list" where
  "cli_pending f left e = (if cl_fd (app e) = f then left (os e) else [])"

lemma cli_deliver:
  "obex_deliver_event (cli_env E P) w OBEX_EV_STREAMEMPTY 0 0 False
     = do { (_, w) \<leftarrow> cli_fillstream E P w (cur_object (hnd w)); Some w }"
  by (simp add: obex_deliver_event_def cli_env_def cli_obex_event_def)

lemma cli_env_alloc [simp]: "env_alloc (cli_env E P) = env_alloc E"
  by (simp add: cli_env_def)

lemma cli_more:
  assumes "cli_good P f left (ext w)" and "cli_pending f left (ext w) \<noteq> []" and "cur_object (hnd w) = Some a"
    and "objs w a = Some ob"
  shows "\<exists>d r e. d \<noteq> [] \<and> length d < 65536 \<and> cli_pending f left (ext w) = d @ cli_pending f left e \<and> cli_good P f left e
      \<and> obex_deliver_event (cli_env E P) w OBEX_EV_STREAMEMPTY 0 0 False
          = Some (given w a (ob\<lparr>s_buf := Some (d @ r), s_len := length d\<rparr>) e)"
proof -
  define d where "d = take STREAM_CHUNK (left (os (ext w)))"
  obtain m where m: "cl_buf (app (ext w)) = Some m" "length m = STREAM_CHUNK" "cl_fd (app (ext w)) = f" "reads_file P f left"
    using assms(1) by (auto simp: cli_good_def split: option.splits)
  have ne: "left (os (ext w)) \<noteq> []" using assms(2) m(3) by (simp add: cli_pending_def)
  obtain x where rd: "px_read P f STREAM_CHUNK (os (ext w)) = ((int (length d), d), x)" "left x = drop STREAM_CHUNK (left (os (ext w)))"
    using m(4) [unfolded reads_file_def, rule_format, of STREAM_CHUNK "os (ext w)"]
    by (cases "px_read P f STREAM_CHUNK (os (ext w))") (simp add: d_def)
  have d: "d \<noteq> []" "length d \<le> STREAM_CHUNK" using ne by (simp_all add: d_def)
  define buf where "buf = d @ drop (length d) m"
  have wr: "mem_write m 0 d = Some buf" using d(2) m(2) by (simp add: mem_simps buf_def)
  define e where "e = (ext w)\<lparr>app := (app (ext w))\<lparr>cl_buf := Some buf\<rparr>, os := x\<rparr>"
  have "cli_pending f left (ext w) = d @ cli_pending f left e"
    using m(3) rd(2) by (simp add: cli_pending_def e_def d_def)
  moreover have "cli_good P f left e"
    using assms(1) d(2) m by (simp add: cli_good_def e_def buf_def)
  moreover have "obex_deliver_event (cli_env E P) w OBEX_EV_STREAMEMPTY 0 0 False
      = Some (given w a (ob\<lparr>s_buf := Some (d @ drop (length d) m), s_len := length d\<rparr>) e)"
    using m d rd(1) wr assms(3,4)
    by (simp add: cli_deliver cli_fillstream_def cli_read_def sys_os_def upd_app_def OBEX_ObjectAddHeader_def
        obex_object_addheader_def hv_bs_def given_def e_def buf_def)
  ultimately show ?thesis using d by (intro exI [of _ d] exI [of _ "drop (length d) m"] exI [of _ e]) simp
qed

lemma cli_no_more:
  assumes "cli_good P f left (ext w)" and "cli_pending f left (ext w) = []" and "cur_object (hnd w) = Some a"
    and "objs w a = Some ob"
  shows "\<exists>bs e. cli_pending f left e = [] \<and> obex_deliver_event (cli_env E P) w OBEX_EV_STREAMEMPTY 0 0 False
            = Some (given w a (ob\<lparr>s_stop := True, s_buf := bs, s_len := 0\<rparr>) e)"
proof -
  obtain m where m: "cl_buf (app (ext w)) = Some m" "cl_fd (app (ext w)) = f" "reads_file P f left" "f \<noteq> -1"
    using assms(1) by (auto simp: cli_good_def split: option.splits)
  have ne: "left (os (ext w)) = []" using assms(2) m(2) by (simp add: cli_pending_def)
  obtain x where rd: "px_read P f STREAM_CHUNK (os (ext w)) = ((0, []), x)"
    using m(3) [unfolded reads_file_def, rule_format, of STREAM_CHUNK "os (ext w)"] ne
    by (cases "px_read P f STREAM_CHUNK (os (ext w))") simp
  obtain c x2 where cl: "px_close P f x = (c, x2)" by fastforce
  define e where "e = (ext w)\<lparr>app := (app (ext w))\<lparr>cl_fd := -1\<rparr>, os := x2\<rparr>"
  have "cli_pending f left e = []" using m(4) by (simp add: cli_pending_def e_def)
  moreover have "obex_deliver_event (cli_env E P) w OBEX_EV_STREAMEMPTY 0 0 False
      = Some (given w a (ob\<lparr>s_stop := True, s_buf := Some m, s_len := 0\<rparr>) e)"
    using m rd cl assms(3,4)
    by (simp add: cli_deliver cli_fillstream_def cli_read_def sys_os_def upd_app_def OBEX_ObjectAddHeader_def
        obex_object_addheader_def hv_bs_def given_def e_def cli_close_fd_def)
  ultimately show ?thesis by blast
qed

interpretation filesrc: stream_source "cli_env E P" a "\<lambda>h. cur_object h = Some a" "cli_good P f left" "cli_pending f left"
  for E P a f left
  by unfold_locales (simp, simp, (rule cli_more cli_no_more; assumption)+)

section \<open>The server as a sink\<close>

text \<open>Writing to the descriptor \<open>f\<close> extends the file \<open>stored\<close>; closing it and messages to the user do not change it.\<close>

definition writes_file :: "'x posix \<Rightarrow> int \<Rightarrow> ('x \<Rightarrow> byte list) \<Rightarrow> bool" where
  "writes_file P f stored \<longleftrightarrow> 0 < f \<and> (\<forall>d x. stored (snd (px_write P f d x)) = stored x @ d)
     \<and> (\<forall>x. stored (snd (px_close P f x)) = stored x) \<and> (\<forall>cb ev t x. stored (px_info P cb ev t x) = stored x)"

text \<open>No file is open, and the PUT at hand names one, which opens as \<open>f\<close>, new and empty.\<close>

definition opens_file :: "'x srv_host env \<Rightarrow> 'x posix \<Rightarrow> int \<Rightarrow> ('x \<Rightarrow> byte list) \<Rightarrow> 'x srv_host world \<Rightarrow> obex_object \<Rightarrow> bool" where
  "opens_file E P f stored w ob \<longleftrightarrow> sv_fd (srv_of w) < 0 \<and> generous (env_alloc E)
     \<and> distinct (map fst (rx_headerq ob)) \<and> names_ok (rx_headerq ob)
     \<and> (case last_name (rx_headerq ob) of None \<Rightarrow> False
        | Some t \<Rightarrow> (let (r, x) = ircp_open_safe P (Some []) t (px_info P (sv_infocb (srv_of w)) IRCP_EV_RECEIVING t (os (ext w)))
            in r = f \<and> stored x = []))"

definition can_store :: "'x srv_host env \<Rightarrow> 'x posix \<Rightarrow> int \<Rightarrow> ('x \<Rightarrow> byte list) \<Rightarrow> addr \<Rightarrow> 'x srv_host world \<Rightarrow> bool" where
  "can_store E P f stored a w \<longleftrightarrow> cur_object (hnd w) = Some a \<and> (case objs w a of None \<Rightarrow> False
     | Some ob \<Rightarrow> \<not> abort_req ob \<and> (sv_fd (srv_of w) = f \<or> opens_file E P f stored w ob))"

text \<open>What the file holds before the next bytes.\<close>

definition stored_so_far :: "('x \<Rightarrow> byte list) \<Rightarrow> 'x srv_host world \<Rightarrow> byte list" where
  "stored_so_far stored w = (if sv_fd (srv_of w) < 0 then [] else stored (os (ext w)))"

lemma srv_deliver:
  "obex_deliver_event (srv_env E P) w OBEX_EV_STREAMAVAIL 0 0 False
     = do { (_, w) \<leftarrow> ircp_srv_receive E P w (cur_object (hnd w)) False; Some w }"
  by (simp add: obex_deliver_event_def srv_env_def srv_obex_event_def)

lemma receive_opens:
  assumes "opens_file E P f stored w ob" and "objs w a = Some ob" and "writes_file P f stored"
  obtains w1 ob1 where "ircp_srv_receive E P w (Some a) False = ircp_srv_receive E P w1 (Some a) False"
    "hnd w1 = hnd w" "objs w1 a = Some ob1" "ob1 = ob\<lparr>rx_headerq := [], rx_headerq_rm := rx_headerq_rm ob @ rx_headerq ob\<rparr>"
    "sv_fd (srv_of w1) = f" "stored (os (ext w1)) = []"
proof -
  obtain t r x where o: "sv_fd (srv_of w) < 0" "generous (env_alloc E)" "distinct (map fst (rx_headerq ob))"
    "names_ok (rx_headerq ob)" "last_name (rx_headerq ob) = Some t"
    "ircp_open_safe P (Some []) t (px_info P (sv_infocb (srv_of w)) IRCP_EV_RECEIVING t (os (ext w))) = (r, x)"
    "r = f" "stored x = []"
    using assms(1) by (auto simp: opens_file_def split: option.splits prod.splits)
  have f: "0 < f" using assms(3) by (simp add: writes_file_def)
  obtain m where n: "received_name E w (Some a) None = Some (Some m, read_all w a ob)" "c_str m = Some t"
    using received_name_spec [OF o(2) assms(2) refl o(3,4), of None] o(5) by auto
  define w1 where "w1 = (read_all w a ob)\<lparr>ext := \<lparr>app = (srv_of w)\<lparr>sv_fd := f\<rparr>, os = x\<rparr>\<rparr>"
  have "new_file E P w (Some a) = Some (f, w1)"
    using n o(6,7) by (simp add: new_file_def srv_info_def infocb_def sys_os_def upd_app_def w1_def)
  then have "ircp_srv_receive E P w (Some a) False = ircp_srv_receive E P w1 (Some a) False"
    using o(1) f by (simp add: ircp_srv_receive_def w1_def)
  then show ?thesis by (rule that) (use o(8) in \<open>simp_all add: w1_def read_all_def\<close>)
qed

lemma receive_data:
  assumes wr: "writes_file P f stored" and fd: "sv_fd (srv_of w) = f" and ob: "objs w a = Some ob"
    and len: "s_len ob < 65536" "s_buf ob = Some src" "s_len ob \<le> length src"
  obtains r w' where "ircp_srv_receive E P w (Some a) False = Some (r, w')" "hnd w' = hnd w" "objs w' = objs w"
    "stored (os (ext w')) = stored (os (ext w)) @ take (s_len ob) src"
    "sv_fd (srv_of w') = (if s_len ob = 0 then -1 else f)"
proof -
  have f: "0 < f" using wr by (simp add: writes_file_def)
  show ?thesis
  proof (cases "s_len ob = 0")
    case True
    obtain c x where c: "px_close P f (os (ext w)) = (c, x)" by fastforce
    have "stored x = stored (os (ext w))" using wr c unfolding writes_file_def by (metis snd_conv)
    moreover have run: "ircp_srv_receive E P w (Some a) False = Some (1, srv_info P IRCP_EV_OK []
        (w\<lparr>ext := (ext w)\<lparr>os := x, app := (srv_of w)\<lparr>sv_fd := -1\<rparr>\<rparr>\<rparr>))"
      using f fd ob True c by (simp add: ircp_srv_receive_def OBEX_ObjectReadStream_def obex_object_readstream_def
          s32_id sys_os_def upd_app_def)
    ultimately show ?thesis using True wr
      by (intro that [OF run]) (auto simp: srv_info_def infocb_def writes_file_def)
  next
    case False
    obtain c x where c: "px_write P f (take (s_len ob) src) (os (ext w)) = (c, x)" by fastforce
    have "stored x = stored (os (ext w)) @ take (s_len ob) src" using wr c unfolding writes_file_def by (metis snd_conv)
    moreover have run: "ircp_srv_receive E P w (Some a) False = Some (1, w\<lparr>ext := (ext w)\<lparr>os := x\<rparr>\<rparr>)"
      using f fd ob False c len by (simp add: ircp_srv_receive_def OBEX_ObjectReadStream_def obex_object_readstream_def
          s32_id sys_os_def mem_simps)
    ultimately show ?thesis using False fd by (intro that [OF run]) auto
  qed
qed

text \<open>One event, whether the file is open or is opened now.\<close>

lemma store_event:
  assumes wr: "writes_file P f stored" and can: "can_store E P f stored a w" and ob: "objs w a = Some ob"
    and len: "s_len ob < 65536" "s_buf ob = Some src" "s_len ob \<le> length src"
  obtains w' ob' where "obex_deliver_event (srv_env E P) w OBEX_EV_STREAMAVAIL 0 0 False = Some w'"
    "hnd w' = hnd w" "objs w' a = Some ob'" "\<not> abort_req ob'"
    "stored (os (ext w')) = stored_so_far stored w @ take (s_len ob) src"
    "sv_fd (srv_of w') = (if s_len ob = 0 then -1 else f)"
proof -
  have f: "0 < f" using wr by (simp add: writes_file_def)
  have cur: "cur_object (hnd w) = Some a" and na: "\<not> abort_req ob"
    and fd: "sv_fd (srv_of w) = f \<or> opens_file E P f stored w ob"
    using can ob by (auto simp: can_store_def)
  show ?thesis
  proof (cases "sv_fd (srv_of w) = f")
    case True
    obtain r w' where r: "ircp_srv_receive E P w (Some a) False = Some (r, w')" "hnd w' = hnd w" "objs w' = objs w"
      "stored (os (ext w')) = stored (os (ext w)) @ take (s_len ob) src"
      "sv_fd (srv_of w') = (if s_len ob = 0 then -1 else f)"
      by (rule receive_data [OF wr True ob len])
    then show ?thesis using cur na ob f True by (intro that [of w' ob]) (auto simp: srv_deliver stored_so_far_def)
  next
    case False
    then have op: "opens_file E P f stored w ob" using fd by simp
    obtain w1 ob1 where o: "ircp_srv_receive E P w (Some a) False = ircp_srv_receive E P w1 (Some a) False"
      "hnd w1 = hnd w" "objs w1 a = Some ob1" "ob1 = ob\<lparr>rx_headerq := [], rx_headerq_rm := rx_headerq_rm ob @ rx_headerq ob\<rparr>"
      "sv_fd (srv_of w1) = f" "stored (os (ext w1)) = []"
      by (rule receive_opens [OF op ob wr])
    have len1: "s_len ob1 < 65536" "s_buf ob1 = Some src" "s_len ob1 \<le> length src" using len by (simp_all add: o(4))
    obtain r w' where r: "ircp_srv_receive E P w1 (Some a) False = Some (r, w')" "hnd w' = hnd w1" "objs w' = objs w1"
      "stored (os (ext w')) = stored (os (ext w1)) @ take (s_len ob1) src"
      "sv_fd (srv_of w') = (if s_len ob1 = 0 then -1 else f)"
      by (rule receive_data [OF wr o(5,3) len1])
    have "sv_fd (srv_of w) < 0" using op by (simp add: opens_file_def)
    then show ?thesis using cur na ob o r
      by (intro that [of w' ob1]) (auto simp: srv_deliver stored_so_far_def)
  qed
qed

text \<open>The object with the bytes just received, as \<open>obex_object_receive_stream\<close> shows it to the application.\<close>

definition showing :: "'e world \<Rightarrow> addr \<Rightarrow> obex_object \<Rightarrow> byte list \<Rightarrow> nat \<Rightarrow> 'e world" where
  "showing w a ob src n = w\<lparr>objs := (objs w)(a := Some (ob\<lparr>s_buf := Some src, s_len := n\<rparr>))\<rparr>"

lemma opens_file_cong:
  "ext w' = ext w \<Longrightarrow> rx_headerq ob' = rx_headerq ob \<Longrightarrow> opens_file E P f stored w' ob' = opens_file E P f stored w ob"
  by (simp only: opens_file_def)

lemma can_store_showing:
  assumes "can_store E P f stored a w" and "objs w a = Some ob"
  shows "can_store E P f stored a (showing w a ob src n)"
  using assms opens_file_cong [of "showing w a ob src n" w "ob\<lparr>s_buf := Some src, s_len := n\<rparr>" ob E P f stored]
  by (simp add: can_store_def showing_def)

lemma hnd_showing [simp]: "hnd (showing w a ob src n) = hnd w"
  by (simp add: showing_def)

lemma stored_so_far_showing [simp]: "stored_so_far stored (showing w a ob src n) = stored_so_far stored w"
  by (simp add: stored_so_far_def showing_def)

lemma showing_event:
  assumes wr: "writes_file P f stored" and can: "can_store E P f stored a w" and ob: "objs w a = Some ob"
    and n: "n < 65536" "n \<le> length src"
  obtains w' ob' where "obex_deliver_event (srv_env E P) (showing w a ob src n) OBEX_EV_STREAMAVAIL 0 0 False = Some w'"
    "objs w' a = Some ob'" "n \<noteq> 0 \<longrightarrow> can_store E P f stored a w' \<and> sv_fd (srv_of w') = f" "n = 0 \<longrightarrow> sv_fd (srv_of w') = -1"
    "stored (os (ext w')) = stored_so_far stored w @ take n src" "hnd w' = hnd w"
proof -
  let ?ob = "ob\<lparr>s_buf := Some src, s_len := n\<rparr>"
  have s: "objs (showing w a ob src n) a = Some ?ob" "s_len ?ob < 65536" "s_buf ?ob = Some src" "s_len ?ob \<le> length src"
    using n by (simp_all add: showing_def)
  obtain w' ob' where "obex_deliver_event (srv_env E P) (showing w a ob src n) OBEX_EV_STREAMAVAIL 0 0 False = Some w'"
    "hnd w' = hnd w" "objs w' a = Some ob'" "\<not> abort_req ob'"
    "stored (os (ext w')) = stored_so_far stored w @ take n src" "sv_fd (srv_of w') = (if n = 0 then -1 else f)"
    by (rule store_event [OF wr can_store_showing [OF can ob] s]) simp
  moreover have "cur_object (hnd w) = Some a"
    using can by (simp add: can_store_def)
  ultimately show ?thesis by (intro that [of w' ob']) (auto simp: can_store_def)
qed

lemma store_fragment:
  assumes wr: "writes_file P f stored" and can: "can_store E P f stored a w" and n: "n < 65536" "n \<le> length src"
    and hi: "hi = OBEX_HDR_BODY \<and> n \<noteq> 0 \<or> hi = OBEX_HDR_BODY_END"
  obtains w' where "obex_object_receive_stream (srv_env E P) w hi src n = Some w'"
    "stored (os (ext w')) = stored_so_far stored w @ take n src"
    "hi = OBEX_HDR_BODY \<Longrightarrow> can_store E P f stored a w' \<and> sv_fd (srv_of w') = f"
    "hi = OBEX_HDR_BODY_END \<Longrightarrow> sv_fd (srv_of w') = -1" "hnd w' = hnd w"
proof -
  have f: "0 < f" using wr by (simp add: writes_file_def)
  obtain ob where ob: "objs w a = Some ob" "cur_object (hnd w) = Some a" "\<not> abort_req ob"
    using can by (auto simp: can_store_def split: option.splits)
  obtain w1 ob1 where e1: "obex_deliver_event (srv_env E P) (showing w a ob src n) OBEX_EV_STREAMAVAIL 0 0 False = Some w1"
    "objs w1 a = Some ob1" "n \<noteq> 0 \<longrightarrow> can_store E P f stored a w1 \<and> sv_fd (srv_of w1) = f" "n = 0 \<longrightarrow> sv_fd (srv_of w1) = -1"
    "stored (os (ext w1)) = stored_so_far stored w @ take n src" "hnd w1 = hnd w"
    by (rule showing_event [OF wr can ob(1) n])
  have step: "obex_object_receive_stream (srv_env E P) w hi src n =
      (if hi = OBEX_HDR_BODY_END \<and> n \<noteq> 0
       then obex_deliver_event (srv_env E P) (showing w1 a ob1 src 0) OBEX_EV_STREAMAVAIL 0 0 False else Some w1)"
    using ob e1(1,2) hi by (auto simp: obex_object_receive_stream_def showing_def)
  show ?thesis
  proof (cases "hi = OBEX_HDR_BODY_END \<and> n \<noteq> 0")
    case True
    obtain w2 ob2 where e2: "obex_deliver_event (srv_env E P) (showing w1 a ob1 src 0) OBEX_EV_STREAMAVAIL 0 0 False = Some w2"
      "sv_fd (srv_of w2) = -1" "stored (os (ext w2)) = stored_so_far stored w1 @ take 0 src" "hnd w2 = hnd w1"
      by (rule showing_event [OF wr conjunct1 [OF mp [OF e1(3)]] e1(2), of 0 src]) (use True in auto)
    then show ?thesis using True step e1(3,5,6) f by (intro that [of w2]) (auto simp: stored_so_far_def)
  next
    case False
    then show ?thesis using step e1 hi by (intro that [of w1]) auto
  qed
qed

text \<open>The body headers of the packets of a PUT, as the receive loop meets them one by one.\<close>

fun receive_fragments :: "'e env \<Rightarrow> (byte \<times> byte list) list \<Rightarrow> 'e world \<Rightarrow> 'e world option" where
  "receive_fragments E [] w = Some w"
| "receive_fragments E ((hi, d) # fs) w = do {
     w \<leftarrow> obex_object_receive_stream E w hi d (length d); receive_fragments E fs w }"

lemma fragments_stored:
  assumes wr: "writes_file P f stored" and m: "0 < m" "m < 65536"
  shows "can_store E P f stored a w \<Longrightarrow>
    \<exists>w'. receive_fragments (srv_env E P) (body_frames m U) w = Some w'
      \<and> stored (os (ext w')) = stored_so_far stored w @ U \<and> sv_fd (srv_of w') = -1"
proof (induction "length U" arbitrary: U w rule: less_induct)
  case less
  show ?case
  proof (cases "length U < m")
    case True
    obtain w' where "obex_object_receive_stream (srv_env E P) w OBEX_HDR_BODY_END U (length U) = Some w'"
      "stored (os (ext w')) = stored_so_far stored w @ U" "sv_fd (srv_of w') = -1"
      by (rule store_fragment [OF wr less.prems, of "length U" U OBEX_HDR_BODY_END]) (use True m in auto)
    then show ?thesis using True m by (subst body_frames.simps) simp
  next
    case False
    obtain w1 where w1: "obex_object_receive_stream (srv_env E P) w OBEX_HDR_BODY (take m U) m = Some w1"
      "stored (os (ext w1)) = stored_so_far stored w @ take m U" "can_store E P f stored a w1" "sv_fd (srv_of w1) = f"
      by (rule store_fragment [OF wr less.prems, of m "take m U" OBEX_HDR_BODY]) (use False m in auto)
    have "length (drop m U) < length U" using False m by simp
    from less.hyps [OF this w1(3)] obtain w' where
      "receive_fragments (srv_env E P) (body_frames m (drop m U)) w1 = Some w'"
      "stored (os (ext w')) = stored_so_far stored w1 @ drop m U" "sv_fd (srv_of w') = -1" by blast
    moreover have "stored_so_far stored w1 = stored_so_far stored w @ take m U"
      using w1(2,4) wr by (simp add: stored_so_far_def writes_file_def)
    moreover have frames: "body_frames m U = (OBEX_HDR_BODY, take m U) # body_frames m (drop m U)"
      using False m by (subst body_frames.simps) simp
    moreover have len: "length (take m U) = m" using False by simp
    ultimately show ?thesis unfolding frames receive_fragments.simps len w1(1) by simp
  qed
qed

section \<open>Property\<close>

text \<open>
  C3: a file arrives whole. A client whose PUT streams an open file makes finitely many
  body fragments of it, each filling the room in its packet but the last, which carries the code for
  the end; and a server that opens a new file for the PUT and is shown these fragments one by one has
  stored exactly the contents of the client's file, and closed it, after the last.
\<close>

theorem upload_round_trip:
  assumes "generous (env_alloc E)" and "buf_wf tx" and "buf_bytes tx = []" and "n \<le> buf_free_end tx"
    and "3 < n" and "n < 65536" and "cur_object (hnd w) = Some a" and "objs w a = Some ob"
    and "stream_ok ob" and "s_len ob = 0" and "cli_good P f left (ext w)" and "length (left (os (ext w))) < (n - 3) * k"
    and "writes_file Q g stored" and "can_store F Q g stored b v" and "sv_fd (srv_of v) < 0"
  shows "\<exists>fs w' v'. stream_packets (cli_env E P) a p n tx k w = Some (map frame_bytes fs, w')
     \<and> receive_fragments (srv_env F Q) fs v = Some v' \<and> stored (os (ext v')) = left (os (ext w)) \<and> sv_fd (srv_of v') = -1"
proof -
  let ?U = "left (os (ext w))"
  have U: "unsent (cli_pending f left) ob (ext w) = ?U"
    using assms(10,11) by (simp add: unsent_def cli_pending_def cli_good_def)
  have "\<exists>w'. stream_packets (cli_env E P) a p n tx k w = Some (map frame_bytes (body_frames (n - 3) ?U), w')"
    by (rule filesrc.stream_packets_deliver [of E P tx n w a ob f left k p, unfolded U]) (use assms in simp_all)
  moreover have "\<exists>v'. receive_fragments (srv_env F Q) (body_frames (n - 3) ?U) v = Some v'
      \<and> stored (os (ext v')) = stored_so_far stored v @ ?U \<and> sv_fd (srv_of v') = -1"
    by (rule fragments_stored [OF assms(13) _ _ assms(14)]) (use assms(5,6) in auto)
  ultimately show ?thesis using assms(15) by (auto simp: stored_so_far_def)
qed

text \<open>A file of ten bytes in packets with room for eight: three fragments.\<close>

definition ex_cli_world :: "byte list \<Rightarrow> byte list cli_host world" where
  "ex_cli_world d = (calm_world \<lparr>app = \<lparr>cl_finished = 0, cl_success = 0, cl_obex_rsp = 0, cl_infocb = 0, cl_fd = 3,
     cl_buf = Some (replicate STREAM_CHUNK 0)\<rparr>, os = d\<rparr>)\<lparr>objs := (\<lambda>a. if a = 1 then Some obex_object_init else None)\<rparr>"

definition file_posix :: "byte list posix" where
  "file_posix = dead_posix\<lparr>px_read := (\<lambda>f n d. ((int (length (take n d)), take n d), drop n d)),
     px_create := (\<lambda>p d. (3, [])), px_write := (\<lambda>f b d. (int (length b), d @ b))\<rparr>"

theorem upload_round_trip_witness:
  "\<exists>fs w' v'. stream_packets (cli_env calm_env file_posix) 1 0 8 (buf_holding [] 16) 3 (ex_cli_world [1, 2, 3, 4, 5, 6, 7, 8, 9, 10])
       = Some (map frame_bytes fs, w')
     \<and> receive_fragments (srv_env calm_env file_posix) fs (ex_srv_world [] [DOT] (ex_request [0, 97, 0, 0])) = Some v'
     \<and> os (ext v') = [1, 2, 3, 4, 5, 6, 7, 8, 9, 10] \<and> sv_fd (srv_of v') = -1"
proof -
  let ?d = "[1, 2, 3, 4, 5, 6, 7, 8, 9, 10] :: byte list"
  have c: "cur_object (hnd (ex_cli_world ?d)) = Some 1" "objs (ex_cli_world ?d) 1 = Some obex_object_init"
    "cli_good file_posix 3 id (ext (ex_cli_world ?d))" "id (os (ext (ex_cli_world ?d))) = ?d"
    by (simp_all add: ex_cli_world_def calm_world_def ex_handle_def cli_good_def reads_file_def file_posix_def)
  have o: "stream_ok obex_object_init" "s_len obex_object_init = 0"
    by (simp_all add: stream_ok_def obex_object_init_def obex_object_zero_def obex_object_setrsp_def stream_ptr_def)
  have wr: "writes_file file_posix 3 id" by (simp add: writes_file_def file_posix_def dead_posix_def)
  have "distinct (map fst (rx_headerq (ex_request [0, 97, 0, 0])))" "names_ok (rx_headerq (ex_request [0, 97, 0, 0]))"
    using ex_request_ok [of "[0, 97, 0, 0]"] by (simp_all add: setpath_request_def del: ex_srv_world_simps(4))
  then have "can_store calm_env file_posix 3 id 1 (ex_srv_world [] [DOT] (ex_request [0, 97, 0, 0]))"
    by (simp add: can_store_def opens_file_def file_posix_def dead_posix_def ircp_open_safe_def ircp_nameok_def
        del: last_name.simps ex_srv_world_simps(4))
       (simp add: ex_request_def obex_object_init_def obex_object_zero_def obex_object_setrsp_def)
  from upload_round_trip [of calm_env "buf_holding [] 16" 8 "ex_cli_world ?d" 1 obex_object_init file_posix 3 id 3,
      OF _ _ _ _ _ _ c(1,2) o c(3) _ wr this, of 0]
  show ?thesis unfolding c(4) by (simp add: buf_wf_holding buf_free_end_def)
qed

text \<open>
  For a streamed body the length is checked too late. When a BODY header claims more
  bytes than the message has, beyond its own three, the header is rejected, but the server has been
  handed, and has written to its file, as many bytes as claimed: those received and then whatever
  the receive buffer holds after the message.
\<close>

theorem rejected_body_is_stored:
  assumes "writes_file P f stored" and "can_store E P f stored a w" and "objs w a = Some ob" and "s_srv ob"
    and "buf_wf (rx_msg (hnd w))" and "buf_bytes (rx_msg (hnd w)) = [OBEX_HDR_BODY, x, y] @ d"
    and "length d + 6 < rd16 x y" and "rd16 x y \<le> length (buf_ptr (rx_msg (hnd w)))"
  shows "\<exists>w'. receive_header (srv_env E P) a w = Some (True, rd16 x y, w')
     \<and> stored (os (ext w')) = stored_so_far stored w @ take (rd16 x y - 3) (drop 3 (buf_ptr (rx_msg (hnd w))))"
proof -
  let ?b = "rx_msg (hnd w)" and ?n = "rd16 x y - 3"
  have sz: "data_size ?b = length d + 3" using length_buf_bytes [OF assms(5)] assms(6) by simp
  have ptr: "buf_ptr ?b = [OBEX_HDR_BODY, x, y] @ drop 3 (buf_ptr ?b)"
  proof -
    have "take 3 (buf_ptr ?b) = take 3 (buf_bytes ?b)" using take_buf_ptr [OF assms(5), of 3] sz by simp
    then have "take 3 (buf_ptr ?b) = [OBEX_HDR_BODY, x, y]" unfolding assms(6) by simp
    then show ?thesis by (metis append_take_drop_id)
  qed
  have rd: "mem_read (buf_ptr ?b) 0 1 = Some [OBEX_HDR_BODY]" "mem_read (buf_ptr ?b) 1 2 = Some [x, y]"
    by (subst ptr, simp add: mem_read_def numeral_eq_Suc)+
  have n: "u32 (int (rd16 x y) - 3) = ?n" using assms(7) rd16_less [of x y] by (subst u32_id) auto
  obtain w' where w': "obex_object_receive_stream (srv_env E P) w OBEX_HDR_BODY (drop 3 (buf_ptr ?b)) ?n = Some w'"
    "stored (os (ext w')) = stored_so_far stored w @ take ?n (drop 3 (buf_ptr ?b))" "hnd w' = hnd w"
    by (rule store_fragment [OF assms(1,2), of ?n "drop 3 (buf_ptr ?b)" OBEX_HDR_BODY])
       (use assms(7,8) rd16_less [of x y] in auto)
  have dec: "receive_decode (srv_env E P) w a OBEX_HDR_BODY = Some (None, ?n, rd16 x y, False, w')"
    using assms(3,4) w'(1) unfolding receive_decode_def Let_def rd(2) by (simp add: n)
  have big: "(data_size ?b < ?n) = True" using assms(7) sz by simp
  have "receive_header (srv_env E P) a w = Some (True, rd16 x y, w')"
    unfolding receive_header_def rd(1) Let_def by (simp add: dec w'(3) big)
  then show ?thesis using w'(2) by blast
qed

theorem rejected_body_is_stored_witness:
  "\<exists>w'. receive_header (srv_env calm_env file_posix) 1
       ((ex_srv_world [] [DOT] ((ex_request [0, 97, 0, 0])\<lparr>s_srv := True\<rparr>))\<lparr>hnd := ex_handle\<lparr>rx_msg := buf_holding [0x48, 0, 20, 1, 2] 15\<rparr>\<rparr>)
       = Some (True, 20, w') \<and> os (ext w') = [1, 2] @ replicate 15 0"
proof -
  let ?ob = "(ex_request [0, 97, 0, 0])\<lparr>s_srv := True\<rparr>"
  let ?w = "(ex_srv_world [] [DOT] ?ob)\<lparr>hnd := ex_handle\<lparr>rx_msg := buf_holding [0x48, 0, 20, 1, 2] 15\<rparr>\<rparr>"
  have wr: "writes_file file_posix 3 id" by (simp add: writes_file_def file_posix_def dead_posix_def)
  have "distinct (map fst (rx_headerq (ex_request [0, 97, 0, 0])))" "names_ok (rx_headerq (ex_request [0, 97, 0, 0]))"
    using ex_request_ok [of "[0, 97, 0, 0]"] by (simp_all add: setpath_request_def del: ex_srv_world_simps(4))
  then have "can_store calm_env file_posix 3 id 1 ?w"
    by (simp add: can_store_def opens_file_def file_posix_def dead_posix_def ircp_open_safe_def ircp_nameok_def ex_handle_def
        del: last_name.simps ex_srv_world_simps(4))
       (simp add: ex_request_def obex_object_init_def obex_object_zero_def obex_object_setrsp_def)
  from rejected_body_is_stored [OF wr this, of ?ob 0 20 "[1, 2]"]
  show ?thesis by (simp add: buf_wf_holding rd16_def stored_so_far_def)
qed

text \<open>
  A directory the client cannot enter (\<open>chdir\<close> fails) is not skipped: \<open>ircp_put\<close> drops the
  result of \<open>chdir\<close> and sends the current directory instead, as if that had been named.
\<close>

theorem put_ignores_chdir_failure:
  assumes "px_getcwd P (os (ext w)) = (Some d, os (ext w))"
    and "px_stat P name (os (ext w)) = (Some (S_DIR, n), os (ext w))"
    and "px_chdir P name (os (ext w)) = (-1, os (ext w))"
    and "px_stat P [DOT] (os (ext w)) = (Some (S_DIR, m), os (ext w))"
    and "px_chdir P [DOT] (os (ext w)) = (0, os (ext w))"
  shows "ircp_put E P w name = ircp_put E P w [DOT]"
proof -
  note pure = sys_os_pure [of "px_getcwd P", OF assms(1)] sys_os_pure [of "px_stat P name", OF assms(2)]
    sys_os_pure [of "px_chdir P name", OF assms(3)] sys_os_pure [of "px_stat P [DOT]", OF assms(4)]
    sys_os_pure [of "px_chdir P [DOT]", OF assms(5)]
  show ?thesis unfolding ircp_put_def put_enter_def Let_def pure by (simp add: s_ifdir_bit_def pure)
qed

theorem put_ignores_chdir_failure_witness:
  "\<forall>E w. ircp_put E (dead_posix\<lparr>px_getcwd := (\<lambda>x. (Some [SLASH, 104], x)), px_stat := (\<lambda>p x. (Some (S_DIR, 0), x)),
        px_chdir := (\<lambda>p x. (if p = [DOT] then 0 else -1, x))\<rparr>) w [100]
     = ircp_put E (dead_posix\<lparr>px_getcwd := (\<lambda>x. (Some [SLASH, 104], x)), px_stat := (\<lambda>p x. (Some (S_DIR, 0), x)),
        px_chdir := (\<lambda>p x. (if p = [DOT] then 0 else -1, x))\<rparr>) w [DOT]"
  by (intro allI put_ignores_chdir_failure) simp_all

end
