(* ===== verification/Glib_Time.thy ===== *)
theory Glib_Time
  imports Prelude
begin

text \<open>
  glib/obex-lowlevel.c: time stamps. No build file of the repository defines \<open>HAVE_TM_GMTOFF\<close>,
  \<open>HAVE_TIMEZONE\<close> or \<open>USE_LOCALTIME\<close>, so the code under these macros is left out. The zone rule of the
  system is the parameter \<open>Z\<close>: the number of seconds local time is ahead of UTC at a local time.
\<close>

section \<open>The calendar of the C library\<close>

record tm =
  tm_sec :: int
  tm_min :: int
  tm_hour :: int
  tm_mday :: int
  tm_mon :: int
  tm_year :: int

type_synonym zone = "tm \<Rightarrow> int"

definition leap :: "int \<Rightarrow> bool" where
  "leap y \<longleftrightarrow> y mod 4 = 0 \<and> (y mod 100 \<noteq> 0 \<or> y mod 400 = 0)"

definition year_days :: "int \<Rightarrow> nat" where
  "year_days y = (if leap y then 366 else 365)"

definition month_days :: "int \<Rightarrow> nat list" where
  "month_days y = [31, if leap y then 29 else 28, 31, 30, 31, 30, 31, 31, 30, 31, 30, 31]"

function split_year :: "int \<Rightarrow> nat \<Rightarrow> int \<times> nat" where
  "split_year y d = (if d < year_days y then (y, d) else split_year (y + 1) (d - year_days y))"
  by pat_completeness auto
termination by (relation "measure snd") (auto simp: year_days_def)

declare split_year.simps [simp del]

fun split_month :: "nat list \<Rightarrow> nat \<Rightarrow> nat \<times> nat" where
  "split_month [] d = (0, d)"
| "split_month (l # ls) d = (if d < l then (0, d) else let (m, d) = split_month ls (d - l) in (Suc m, d))"

text \<open>\<open>gmtime_r\<close> for a time after the epoch; the year is counted from 1900. NULL when it does not fit.\<close>

definition gmtime :: "nat \<Rightarrow> tm option" where
  "gmtime t =
     (let (y, d) = split_year 1970 (t div 86400); (m, d) = split_month (month_days y) d; s = t mod 86400 in
      if y - 1900 > 2147483647 then None
      else Some \<lparr>tm_sec = int (s mod 60), tm_min = int (s div 60 mod 60), tm_hour = int (s div 3600),
                 tm_mday = int d + 1, tm_mon = int m, tm_year = y - 1900\<rparr>)"

definition leaps_to :: "int \<Rightarrow> int" where
  "leaps_to y = y div 4 - y div 100 + y div 400"

text \<open>
  \<open>mktime\<close>: fields out of their range carry over, the zone rule is applied. Years of four digits do not
  overflow the result.
\<close>

definition seconds_of :: "tm \<Rightarrow> int" where
  "seconds_of t =
     (let y = tm_year t + 1900 + tm_mon t div 12;
          days = 365 * (y - 1970) + leaps_to (y - 1) - leaps_to 1969
            + int (sum_list (take (nat (tm_mon t mod 12)) (month_days y))) + tm_mday t - 1
      in ((days * 24 + tm_hour t) * 60 + tm_min t) * 60 + tm_sec t)"

definition mktime :: "zone \<Rightarrow> tm \<Rightarrow> int" where
  "mktime Z t = seconds_of t - Z t"

section \<open>Printing\<close>

fun dec :: "nat \<Rightarrow> byte list" where
  "dec n = (if n < 10 then [] else dec (n div 10)) @ [word_of_nat (48 + n mod 10)]"

declare dec.simps [simp del]

text \<open>\<open>%0wu\<close>.\<close>

definition pad :: "nat \<Rightarrow> nat \<Rightarrow> byte list" where
  "pad w n = replicate (w - length (dec n)) 48 @ dec n"

abbreviation "CHAR_T \<equiv> (84 :: byte)"
abbreviation "CHAR_Z \<equiv> (90 :: byte)"

text \<open>\<open>str\<close> has room for \<open>len\<close> bytes; \<open>snprintf\<close> returns the length of the whole text.\<close>

definition make_iso8601 :: "nat \<Rightarrow> mem \<Rightarrow> nat \<Rightarrow> (int \<times> mem) option" where
  "make_iso8601 time str len =
     (case gmtime time of
        None \<Rightarrow> Some (-1, str)
      | Some t \<Rightarrow>
          (if tm_year t + 1900 > 2147483647 then None
           else let text = pad 4 (u32 (tm_year t + 1900)) @ pad 2 (u32 (tm_mon t + 1)) @ pad 2 (u32 (tm_mday t))
                      @ CHAR_T # pad 2 (u32 (tm_hour t)) @ pad 2 (u32 (tm_min t)) @ pad 2 (u32 (tm_sec t)) @ [CHAR_Z]
                in do {
                  str \<leftarrow> (if len = 0 then Some str else mem_write str 0 (take (len - 1) text @ [0]));
                  Some (int (length text), str) }))"

section \<open>Scanning\<close>

definition isspace :: "byte \<Rightarrow> bool" where
  "isspace c \<longleftrightarrow> c = 32 \<or> 9 \<le> c \<and> c \<le> 13"

definition isdigit :: "byte \<Rightarrow> bool" where
  "isdigit c \<longleftrightarrow> 48 \<le> c \<and> c \<le> 57"

definition number :: "byte list \<Rightarrow> int" where
  "number ds = foldl (\<lambda>v c. v * 10 + int (unat c - 48)) 0 ds"

text \<open>\<open>%wu\<close>: white space is skipped, a sign counts as one of the \<open>w\<close> characters.\<close>

definition scan_u :: "nat \<Rightarrow> byte list \<Rightarrow> (int \<times> byte list) option" where
  "scan_u w s =
     (let s = dropWhile isspace s;
          signed = (s \<noteq> [] \<and> (hd s = 45 \<or> hd s = 43));
          minus = (signed \<and> hd s = 45);
          (w, s) = (if signed then (w - 1, tl s) else (w, s));
          ds = takeWhile isdigit (take w s)
      in if ds = [] then None
         else Some (s32 (if minus then - number ds else number ds), drop (length ds) s))"

datatype directive = ScanU nat | ScanLit byte | ScanC

text \<open>The values \<open>sscanf\<close> stores; their number is its result (or -1 for an empty input).\<close>

fun sscanf :: "directive list \<Rightarrow> byte list \<Rightarrow> int list" where
  "sscanf [] s = []"
| "sscanf (ScanU w # f) s = (case scan_u w s of None \<Rightarrow> [] | Some (v, s) \<Rightarrow> v # sscanf f s)"
| "sscanf (ScanLit c # f) s = (case s of [] \<Rightarrow> [] | x # s \<Rightarrow> (if x = c then sscanf f s else []))"
| "sscanf (ScanC # f) s = (case s of [] \<Rightarrow> [] | x # s \<Rightarrow> int (unat x) # sscanf f s)"

definition iso_format :: "directive list" where
  "iso_format = [ScanU 4, ScanU 2, ScanU 2, ScanLit CHAR_T, ScanU 2, ScanU 2, ScanU 2, ScanC]"

text \<open>The string \<open>strncpy\<close> copies from a pointer; \<open>str\<close> is the block from there on.\<close>

definition c_strn :: "byte list \<Rightarrow> nat \<Rightarrow> byte list option" where
  "c_strn str n = (if n \<le> length str \<or> 0 \<in> set str then Some (takeWhile (\<lambda>c. c \<noteq> 0) (take n str)) else None)"

text \<open>
  Without the macros the offset of the zone is always 0, so nothing is added for a seventh value (the
  \<open>Z\<close> of a time in UTC).
\<close>

definition parse_iso8601 :: "alloc \<Rightarrow> zone \<Rightarrow> byte list \<Rightarrow> int \<Rightarrow> int option" where
  "parse_iso8601 A Z str len =
     (case malloc A (u64 (len + 1)) of
        None \<Rightarrow> Some (-1)
      | Some _ \<Rightarrow> do {
          tstr \<leftarrow> c_strn str (u64 len);
          (let v = sscanf iso_format tstr; nr = length v in
           if nr < 6 then Some (-1)
           else let t = \<lparr>tm_sec = v ! 5, tm_min = v ! 4, tm_hour = v ! 3, tm_mday = v ! 2,
                         tm_mon = v ! 1 - 1, tm_year = v ! 0 - 1900\<rparr>;
                    tz_offset = (0 :: int); time = mktime Z t
                in Some (if nr = 7 then time + tz_offset else time)) })"

section \<open>A time stamp there and back\<close>

lemma div_step:
  fixes y k :: int
  assumes "0 < k"
  shows "y div k = (y - 1) div k + (if y mod k = 0 then 1 else 0)"
proof -
  define q r where "q = y div k" and "r = y mod k"
  have y: "y = k * q + r" "0 \<le> r" "r < k" using assms by (simp_all add: q_def r_def)
  show ?thesis
  proof (cases "r = 0")
    case True
    have "(y - 1) div k = q - 1"
      by (rule int_div_pos_eq [of _ _ _ "k - 1"]) (use y True assms in \<open>simp_all add: algebra_simps\<close>)
    then show ?thesis using True by (simp add: q_def r_def)
  next
    case False
    have "(y - 1) div k = q" by (rule int_div_pos_eq [of _ _ _ "r - 1"]) (use y False in simp_all)
    then show ?thesis using False by (simp add: q_def r_def)
  qed
qed

lemma leaps_step: "leaps_to y = leaps_to (y - 1) + (if leap y then 1 else 0)"
proof -
  have m: "y mod 400 = 0 \<Longrightarrow> y mod 100 = 0" "y mod 100 = 0 \<Longrightarrow> y mod 4 = 0"
    by (auto simp: mod_eq_0_iff_dvd elim: dvd_trans [rotated])
  have d: "y div 4 = (y - 1) div 4 + (if y mod 4 = 0 then 1 else 0)"
    "y div 100 = (y - 1) div 100 + (if y mod 100 = 0 then 1 else 0)"
    "y div 400 = (y - 1) div 400 + (if y mod 400 = 0 then 1 else 0)"
    by (rule div_step, simp)+
  have "a + (if P then 1 else 0) - (b + (if Q then 1 else 0)) + (c + (if R then 1 else 0))
      = a - b + c + (if P \<and> (\<not> Q \<or> R) then 1 else 0)" if "R \<longrightarrow> Q" "Q \<longrightarrow> P" for a b c :: int and P Q R
    using that by (cases P; cases Q; cases R; simp only: simp_thms if_True if_False; simp)
  note aux = this
  show ?thesis unfolding leaps_to_def leap_def d by (rule aux) (use m in blast)+
qed

lemma split_year_spec:
  "split_year y d = (y', d') \<Longrightarrow>
   d' < year_days y' \<and> y \<le> y' \<and> int d = 365 * (y' - y) + leaps_to (y' - 1) - leaps_to (y - 1) + int d'"
proof (induction y d arbitrary: y' d' rule: split_year.induct)
  case (1 y d)
  show ?case
  proof (cases "d < year_days y")
    case True
    then show ?thesis using 1 by (simp add: split_year.simps)
  next
    case False
    then have "split_year (y + 1) (d - year_days y) = (y', d')" using 1 by (simp add: split_year.simps [of y])
    from 1(1) [OF False this] False leaps_step [of y] show ?thesis
      by (auto simp: year_days_def split: if_splits)
  qed
qed

lemma split_month_spec:
  "split_month ls d = (m, d') \<Longrightarrow> d < sum_list ls \<Longrightarrow>
   m < length ls \<and> d = sum_list (take m ls) + d' \<and> d' < ls ! m"
proof (induction ls d arbitrary: m d' rule: split_month.induct)
  case (2 l ls d)
  show ?case
  proof (cases "d < l")
    case True
    then show ?thesis using 2 by simp
  next
    case False
    obtain m1 d1 where s: "split_month ls (d - l) = (m1, d1)" by fastforce
    have "m = Suc m1" "d' = d1" using 2(2) False s by simp_all
    moreover have "d - l < sum_list ls" using 2(3) False by simp
    ultimately show ?thesis using 2(1) [OF False s] False by auto
  qed
qed simp

lemma sum_month_days: "sum_list (month_days y) = year_days y"
  by (simp add: month_days_def year_days_def)

lemma length_month_days [simp]: "length (month_days y) = 12"
  by (simp add: month_days_def)

lemma month_days_le: "m < 12 \<Longrightarrow> month_days y ! m \<le> 31"
  by (simp add: month_days_def nth_Cons' )

text \<open>The ranges of the fields, and back to the seconds.\<close>

lemma gmtime_spec:
  assumes "gmtime t = Some c"
  shows "seconds_of c = int t" "0 \<le> tm_sec c" "tm_sec c < 60" "0 \<le> tm_min c" "tm_min c < 60" "0 \<le> tm_hour c"
    "tm_hour c < 24" "1 \<le> tm_mday c" "tm_mday c \<le> 31" "0 \<le> tm_mon c" "tm_mon c < 12" "70 \<le> tm_year c"
proof -
  define D s where "D = t div 86400" and "s = t mod 86400"
  have t: "int t = int D * 86400 + int s" "s < 86400"
  proof -
    have "t = D * 86400 + s" using div_mult_mod_eq [of t 86400] by (simp add: D_def s_def)
    then have "int t = int (D * 86400 + s)" by (rule arg_cong)
    then show "int t = int D * 86400 + int s" unfolding of_nat_add of_nat_mult of_nat_numeral .
  qed (simp add: s_def)
  obtain y d where y: "split_year 1970 D = (y, d)" by fastforce
  obtain m md where m: "split_month (month_days y) d = (m, md)" by fastforce
  have c: "c = \<lparr>tm_sec = int (s mod 60), tm_min = int (s div 60 mod 60), tm_hour = int (s div 3600),
      tm_mday = int md + 1, tm_mon = int m, tm_year = y - 1900\<rparr>"
    using assms y m by (simp add: gmtime_def D_def s_def Let_def split: if_splits)
  from split_year_spec [OF y] have yd: "d < year_days y" "1970 \<le> y"
    "int D = 365 * (y - 1970) + leaps_to (y - 1) - leaps_to 1969 + int d" by auto
  from split_month_spec [OF m, unfolded sum_month_days, OF yd(1)]
  have md: "m < 12" "d = sum_list (take m (month_days y)) + md" "md < month_days y ! m" by simp_all
  have mday: "md < 31" using md(3) month_days_le [OF md(1), of y] by simp
  have hms: "int s = (int (s div 3600) * 60 + int (s div 60 mod 60)) * 60 + int (s mod 60)"
  proof -
    have "s div 3600 = s div 60 div 60" using div_mult2_eq [of s 60 60] by simp
    then have "s = (s div 3600 * 60 + s div 60 mod 60) * 60 + s mod 60"
      using div_mult_mod_eq [of "s div 60" 60] div_mult_mod_eq [of s 60] by (simp only:)
    then have "int s = int ((s div 3600 * 60 + s div 60 mod 60) * 60 + s mod 60)" by (rule arg_cong)
    then show ?thesis unfolding of_nat_add of_nat_mult of_nat_numeral .
  qed
  have "tm_mon c div 12 = 0" "nat (tm_mon c mod 12) = m" using md(1) c by simp_all
  then have "seconds_of c = ((int D * 24 + int (s div 3600)) * 60 + int (s div 60 mod 60)) * 60 + int (s mod 60)"
    using yd(3) md(2) by (simp add: seconds_of_def Let_def c)
  then show "seconds_of c = int t" using t(1) hms by (simp add: algebra_simps)
  show "0 \<le> tm_sec c" "tm_sec c < 60" "0 \<le> tm_min c" "tm_min c < 60" "0 \<le> tm_hour c"
    "tm_hour c < 24" "1 \<le> tm_mday c" "tm_mday c \<le> 31" "0 \<le> tm_mon c" "tm_mon c < 12" "70 \<le> tm_year c"
    using t(2) md(1) mday yd(2) by (simp_all add: c less_mult_imp_div_less)
qed

lemma digit: "n < 10 \<Longrightarrow> isdigit (word_of_nat (48 + n))" "n < 10 \<Longrightarrow> unat (word_of_nat (48 + n) :: byte) = 48 + n"
proof -
  assume n: "n < 10"
  then show u: "unat (word_of_nat (48 + n) :: byte) = 48 + n" by (simp add: unat_byte_of_nat del: of_nat_add)
  show "isdigit (word_of_nat (48 + n))"
    using n u by (simp add: isdigit_def word_le_nat_alt del: of_nat_add)
qed

lemma dec_digits: "c \<in> set (dec n) \<Longrightarrow> isdigit c"
proof (induction n rule: dec.induct)
  case (1 n)
  have "isdigit (word_of_nat (48 + n mod 10))" by (rule digit) simp
  then show ?case using 1 by (subst (asm) (2) dec.simps) (auto split: if_splits)
qed

lemma dec_length: "n < 10 ^ w \<Longrightarrow> 0 < w \<Longrightarrow> length (dec n) \<le> w"
proof (induction n arbitrary: w rule: dec.induct)
  case (1 n)
  show ?case
  proof (cases "n < 10")
    case True
    then show ?thesis using 1(3) by (subst dec.simps) simp
  next
    case False
    then obtain v where w: "w = Suc v" "0 < v" using 1(2,3) by (cases w; cases "w - 1") auto
    have "n div 10 < 10 ^ v" using 1(2) w by (simp add: less_mult_imp_div_less mult.commute)
    from 1(1) [OF False this w(2)] show ?thesis using False w by (subst dec.simps) simp
  qed
qed

lemma number_append: "number (ds @ [c]) = number ds * 10 + int (unat c - 48)"
  by (simp add: number_def)

lemma number_dec: "number (dec n) = int n"
proof (induction n rule: dec.induct)
  case (1 n)
  have u: "unat (word_of_nat (48 + n mod 10) :: byte) = 48 + n mod 10" by (rule digit) simp
  show ?case
  proof (cases "n < 10")
    case True
    then show ?thesis using u by (subst dec.simps) (simp add: number_def del: of_nat_add)
  next
    case False
    then have "number (dec n) = int (n div 10) * 10 + int (n mod 10)"
      using 1 u by (subst dec.simps) (simp add: number_append del: of_nat_add)
    also have "\<dots> = int (n div 10 * 10 + n mod 10)" unfolding of_nat_add of_nat_mult by simp
    finally show ?thesis unfolding div_mult_mod_eq .
  qed
qed

lemma number_zeros: "number (replicate k 48 @ ds) = number ds"
proof -
  have "foldl (\<lambda>v c. v * 10 + int (unat c - 48)) 0 (replicate k (48 :: byte)) = 0" by (induction k) simp_all
  then show ?thesis by (simp add: number_def)
qed

text \<open>A padded number of the right width is read back, whatever follows.\<close>

lemma scan_pad:
  assumes "n < 10 ^ w" and "0 < w" and "n < 2147483648"
  shows "scan_u w (pad w n @ rest) = Some (int n, rest)"
proof -
  have len: "length (pad w n) = w" using dec_length [OF assms(1,2)] by (simp add: pad_def)
  have digits: "\<forall>c \<in> set (pad w n). isdigit c" using dec_digits [of _ n] by (auto simp: pad_def isdigit_def)
  obtain c cs where c: "pad w n = c # cs" using len assms(2) by (cases "pad w n") auto
  have cd: "isdigit c" using digits c by simp
  then have nc: "\<not> isspace c" "c \<noteq> 45" "c \<noteq> 43"
    by (auto simp: isdigit_def isspace_def word_le_nat_alt)
  have drop: "dropWhile isspace (pad w n @ rest) = pad w n @ rest" using nc(1) c by simp
  have take: "takeWhile isdigit (pad w n) = pad w n" using digits by (simp add: takeWhile_eq_all_conv)
  have num: "number (pad w n) = int n" by (simp add: pad_def number_zeros number_dec)
  have hd: "hd (pad w n @ rest) = c" "pad w n \<noteq> []" using c by simp_all
  show ?thesis
    unfolding scan_u_def Let_def drop
    using hd nc len num assms(3) by (simp add: s32_id take)
qed

lemma gmtime_fits: "gmtime t = Some c \<Longrightarrow> tm_year c \<le> 2147483647"
  by (auto simp: gmtime_def Let_def split: prod.splits if_splits)

text \<open>The text of a time stamp before the year 10000.\<close>

definition iso_text :: "tm \<Rightarrow> byte list" where
  "iso_text t = pad 4 (nat (tm_year t + 1900)) @ pad 2 (nat (tm_mon t + 1)) @ pad 2 (nat (tm_mday t))
     @ CHAR_T # pad 2 (nat (tm_hour t)) @ pad 2 (nat (tm_min t)) @ pad 2 (nat (tm_sec t)) @ [CHAR_Z]"

lemma length_pad: "n < 10 ^ w \<Longrightarrow> 0 < w \<Longrightarrow> length (pad w n) = w"
  using dec_length [of n w] by (simp add: pad_def)

lemma make_iso8601_text:
  assumes "gmtime t = Some c" and "tm_year c + 1900 < 10000" and "length str = 17"
  shows "make_iso8601 t str 17 = Some (16, iso_text c @ [0])" "length (iso_text c) = 16" "0 \<notin> set (iso_text c)"
    "sscanf iso_format (iso_text c) = [tm_year c + 1900, tm_mon c + 1, tm_mday c, tm_hour c, tm_min c, tm_sec c, 90]"
proof -
  note r = gmtime_spec [OF assms(1)]
  have n: "nat (tm_year c + 1900) < 10 ^ 4" "nat (tm_mon c + 1) < 10 ^ 2" "nat (tm_mday c) < 10 ^ 2"
    "nat (tm_hour c) < 10 ^ 2" "nat (tm_min c) < 10 ^ 2" "nat (tm_sec c) < 10 ^ 2"
    using r assms(2) by simp_all
  show len: "length (iso_text c) = 16"
    unfolding iso_text_def length_append list.size length_pad [OF n(1) zero_less_numeral]
      length_pad [OF n(2) zero_less_numeral] length_pad [OF n(3) zero_less_numeral] length_pad [OF n(4) zero_less_numeral]
      length_pad [OF n(5) zero_less_numeral] length_pad [OF n(6) zero_less_numeral] by simp
  have z: "0 \<notin> set (pad w k)" for w k using dec_digits [of 0 k] by (auto simp: pad_def isdigit_def)
  show "0 \<notin> set (iso_text c)" by (simp add: iso_text_def z)
  have "u32 (tm_year c + 1900) = nat (tm_year c + 1900)" "u32 (tm_mon c + 1) = nat (tm_mon c + 1)" "u32 (tm_mday c) = nat (tm_mday c)"
    "u32 (tm_hour c) = nat (tm_hour c)" "u32 (tm_min c) = nat (tm_min c)" "u32 (tm_sec c) = nat (tm_sec c)"
    by (rule u32_id; use r assms(2) in simp)+
  then have "make_iso8601 t str 17 = do { str \<leftarrow> mem_write str 0 (take 16 (iso_text c) @ [0]); Some (int (length (iso_text c)), str) }"
    using assms(1,2) by (simp add: make_iso8601_def iso_text_def Let_def)
  then show "make_iso8601 t str 17 = Some (16, iso_text c @ [0])" using len assms(3) by (simp add: mem_simps)
  show "sscanf iso_format (iso_text c) = [tm_year c + 1900, tm_mon c + 1, tm_mday c, tm_hour c, tm_min c, tm_sec c, 90]"
    unfolding iso_format_def iso_text_def using n r by (simp add: scan_pad)
qed

text \<open>
  C25: a time stamp there and back. What \<open>make_iso8601\<close> writes for a time of the years 1970 to 9999 has sixteen
  characters and is read by \<open>parse_iso8601\<close> as the same date and time of day, but as local time: the result is
  off by the offset of the receiver's zone, although the text is marked as UTC.
\<close>

theorem time_stamp_round_trip:
  assumes "gmtime t = Some c" and "tm_year c + 1900 < 10000" and "length str = 17" and "generous A"
  shows "\<exists>buf. make_iso8601 t str 17 = Some (16, buf) \<and> parse_iso8601 A Z buf 16 = Some (int t - Z c)"
proof -
  note m = make_iso8601_text [OF assms(1-3)]
  have z: "0 \<notin> set (iso_text c)" "take 16 (iso_text c @ [0]) = iso_text c" using m by simp_all
  have "takeWhile (\<lambda>x. x \<noteq> 0) (iso_text c) = iso_text c"
    unfolding takeWhile_eq_all_conv by (metis z(1))
  then have "c_strn (iso_text c @ [0]) 16 = Some (iso_text c)" using m(2) z(2) by (simp add: c_strn_def)
  moreover obtain b where "malloc A 17 = Some b" using malloc_generous [OF assms(4), of 17] by auto
  ultimately have "parse_iso8601 A Z (iso_text c @ [0]) 16 = Some (mktime Z c)"
    using m(4) by (cases c) (simp add: parse_iso8601_def u64_id)
  then show ?thesis using m(1) gmtime_spec(1) [OF assms(1)] by (simp add: mktime_def)
qed

theorem time_stamp_round_trip_witness:
  "\<exists>buf. make_iso8601 90061 (replicate 17 0) 17 = Some (16, buf) \<and> parse_iso8601 zero_alloc (\<lambda>_. 3600) buf 16 = Some (90061 - 3600)"
proof -
  have "gmtime 90061 = Some \<lparr>tm_sec = 1, tm_min = 1, tm_hour = 1, tm_mday = 2, tm_mon = 0, tm_year = 70\<rparr>"
    by (simp add: gmtime_def Let_def split_year.simps [of 1970] year_days_def leap_def month_days_def)
  from time_stamp_round_trip [OF this, of "replicate 17 0" zero_alloc "\<lambda>_. 3600"] show ?thesis by simp
qed

end
