(* ===== verification/Glib_Lowlevel.thy ===== *)
theory Glib_Lowlevel
  imports Ircp_Io Glib_Time
begin

text \<open>
  glib/obex-lowlevel.c: the client under the GLib binding. \<open>obex_context_t\<close> is the application part of the
  world, reached through the user data of the handle; \<open>gl_obex_event\<close> is the callback the library calls. The
  callbacks of the user (\<open>obex_callback_t\<close>) are parameters that transform the whole world.
\<close>

section \<open>State\<close>

abbreviation "BUF_SIZE \<equiv> (32767 :: nat)"
abbreviation "CID_INVALID \<equiv> (0xFFFFFFFF :: 32 word)"
abbreviation "OBEX_TIMEOUT \<equiv> (1 :: int)"

abbreviation "EAGAIN \<equiv> (11 :: int)"
abbreviation "EISCONN \<equiv> (106 :: int)"
abbreviation "ENOTCONN \<equiv> (107 :: int)"

abbreviation "OBEX_HDR_TYPE \<equiv> (0x42 :: byte)"
abbreviation "OBEX_HDR_TIME \<equiv> (0x44 :: byte)"
abbreviation "OBEX_HDR_TARGET \<equiv> (0x46 :: byte)"
abbreviation "OBEX_HDR_CONNECTION \<equiv> (0xcb :: byte)"

datatype link_state = OBEX_CONNECTED | OBEX_OPEN | OBEX_BOUND | OBEX_LISTEN | OBEX_CONNECT | OBEX_CONNECT2
  | OBEX_CONFIG | OBEX_DISCONN | OBEX_CLOSED

text \<open>
  The last field is not in the source: it says that \<open>obex_do_callback\<close> is running, to recognise that a
  callback frees the list of events its caller walks.
\<close>

record obex_context =
  gx_state :: link_state
  gx_cid :: "32 word"
  gx_user_data :: ptr
  gx_callback :: ptr
  gx_pending :: "addr option"
  gx_obex_rsp :: int
  gx_buf :: mem
  gx_data_start :: int
  gx_data_length :: int
  gx_counter :: int
  gx_target_size :: int
  gx_modtime :: int
  gx_tx_max :: int
  gx_close :: int
  gx_events :: "obex_event list"
  gx_signalling :: bool

type_synonym 'x gl_host = "(obex_context, 'x) host"

text \<open>The functions \<open>obex_callback_t\<close> points to, NULL being \<open>None\<close>; each gets the user's pointer.\<close>

record 'x gl_callback =
  connect_cfm :: "(ptr \<Rightarrow> 'x gl_host world \<Rightarrow> 'x gl_host world option) option"
  disconn_ind :: "(ptr \<Rightarrow> 'x gl_host world \<Rightarrow> 'x gl_host world option) option"
  progress_ind :: "(ptr \<Rightarrow> 'x gl_host world \<Rightarrow> 'x gl_host world option) option"
  command_ind :: "(obex_event \<Rightarrow> ptr \<Rightarrow> 'x gl_host world \<Rightarrow> 'x gl_host world option) option"

text \<open>The structure behind the user data; after \<open>obex_close\<close> there is none.\<close>

definition gl_context :: "'x gl_host world \<Rightarrow> obex_context option" where
  "gl_context w = (if OBEX_GetUserData w = 0 then None else Some (app (ext w)))"

definition upd_ctx :: "'x gl_host world \<Rightarrow> (obex_context \<Rightarrow> obex_context) \<Rightarrow> 'x gl_host world option" where
  "upd_ctx w f = (if OBEX_GetUserData w = 0 then None else Some (upd_app w f))"

definition call_user ::
    "(ptr \<Rightarrow> 'x gl_host world \<Rightarrow> 'x gl_host world option) option \<Rightarrow> 'x gl_host world \<Rightarrow> 'x gl_host world option" where
  "call_user f w = do {
     c \<leftarrow> gl_context w;
     (case f of Some g \<Rightarrow> (if gx_callback c \<noteq> 0 then g (gx_user_data c) w else Some w) | None \<Rightarrow> Some w) }"

text \<open>An event that finds no memory is lost.\<close>

definition queue_event :: "'x gl_host env \<Rightarrow> 'x gl_host world \<Rightarrow> obex_event \<Rightarrow> 'x gl_host world option" where
  "queue_event E w e =
     (if malloc_ok (env_alloc E) 4 then upd_ctx w (\<lambda>c. c\<lparr>gx_events := gx_events c @ [e]\<rparr>) else Some w)"

text \<open>A place in the buffer of the context.\<close>

definition buf_index :: "int \<Rightarrow> nat option" where
  "buf_index i = (if 0 \<le> i \<and> i \<le> int BUF_SIZE then Some (nat i) else None)"

section \<open>Headers of the object\<close>

text \<open>
  The loop \<open>while (OBEX_ObjectGetNextHeader(...))\<close> with the body \<open>f\<close>. A NULL object gives -1, which keeps the
  loop running on variables that were never set.
\<close>

partial_function (option) each_header ::
    "'x gl_host env \<Rightarrow> (byte \<Rightarrow> obex_headerdata \<Rightarrow> nat \<Rightarrow> 'x gl_host world \<Rightarrow> 'x gl_host world option)
     \<Rightarrow> addr option \<Rightarrow> 'x gl_host world \<Rightarrow> 'x gl_host world option" where
  "each_header E f object w = do {
     (r, h, w) \<leftarrow> OBEX_ObjectGetNextHeader E w object;
     (if r = 0 then Some w
      else do {
        (hi, hv, hlen) \<leftarrow> h;
        w \<leftarrow> f hi hv hlen w;
        each_header E f object w }) }"

definition size_and_time_header ::
    "alloc \<Rightarrow> zone \<Rightarrow> byte \<Rightarrow> obex_headerdata \<Rightarrow> nat \<Rightarrow> 'x gl_host world \<Rightarrow> 'x gl_host world option" where
  "size_and_time_header A Z hi hv hlen w =
     (if hi = OBEX_HDR_LENGTH
      then do { v \<leftarrow> hv_bq4 hv; upd_ctx w (\<lambda>c. c\<lparr>gx_target_size := s32 (uint v)\<rparr>) }
      else if hi = OBEX_HDR_TIME
      then do { bs \<leftarrow> hv_bs hv; bs \<leftarrow> bs; t \<leftarrow> parse_iso8601 A Z bs (s32 (int hlen));
                upd_ctx w (\<lambda>c. c\<lparr>gx_modtime := t\<rparr>) }
      else Some w)"

definition get_target_size_and_time ::
    "'x gl_host env \<Rightarrow> zone \<Rightarrow> 'x gl_host world \<Rightarrow> addr option \<Rightarrow> 'x gl_host world option" where
  "get_target_size_and_time E Z w object = do {
     w \<leftarrow> upd_ctx w (\<lambda>c. c\<lparr>gx_target_size := -1, gx_modtime := -1\<rparr>);
     w \<leftarrow> each_header E (size_and_time_header (env_alloc E) Z) object w;
     (_, w) \<leftarrow> OBEX_ObjectReParseHeaders w object;
     Some w }"

section \<open>Events of the library\<close>

definition obex_progress :: "'x gl_callback \<Rightarrow> 'x gl_host world \<Rightarrow> 'x gl_host world option" where
  "obex_progress C w = call_user (progress_ind C) w"

definition connection_header ::
    "byte \<Rightarrow> obex_headerdata \<Rightarrow> nat \<Rightarrow> 'x gl_host world \<Rightarrow> 'x gl_host world option" where
  "connection_header hi hv hlen w =
     (if hi = OBEX_HDR_CONNECTION
      then do { v \<leftarrow> hv_bq4 hv; upd_ctx w (\<lambda>c. c\<lparr>gx_cid := v\<rparr>) }
      else Some w)"

text \<open>\<open>sizeof(obex_connect_hdr_t)\<close> is 4; the announced size is in the last two bytes.\<close>

definition connect_resize :: "'x gl_host world \<Rightarrow> addr option \<Rightarrow> 'x gl_host world option" where
  "connect_resize w object = do {
     (n, p) \<leftarrow> OBEX_ObjectGetNonHdrData w object;
     (if n = 4
      then do {
        p \<leftarrow> p;
        d \<leftarrow> mem_read p 0 4;
        (let new_size = int (rd16 (d ! 2) (d ! 3)) - 200 in
         upd_ctx w (\<lambda>c. if new_size < gx_tx_max c then c\<lparr>gx_tx_max := new_size\<rparr> else c)) }
      else Some w) }"

definition obex_connect_done ::
    "'x gl_host env \<Rightarrow> 'x gl_callback \<Rightarrow> 'x gl_host world \<Rightarrow> addr option \<Rightarrow> byte \<Rightarrow> 'x gl_host world option" where
  "obex_connect_done E C w object response =
     (if response \<noteq> OBEX_RSP_SUCCESS then Some w
      else do {
        w \<leftarrow> upd_ctx w (\<lambda>c. c\<lparr>gx_state := OBEX_CONNECTED\<rparr>);
        w \<leftarrow> connect_resize w object;
        w \<leftarrow> each_header E connection_header object w;
        call_user (connect_cfm C) w })"

definition obex_disconnect_done :: "'x gl_host world \<Rightarrow> 'x gl_host world option" where
  "obex_disconnect_done w = upd_ctx w (\<lambda>c. c\<lparr>gx_state := OBEX_CLOSED\<rparr>)"

text \<open>
  The copy in \<open>obex_readstream\<close> goes to \<open>data_start\<close>, also when data is waiting there. The space is computed
  with \<open>size_t\<close> and stored in an \<open>int\<close>; without room nothing is copied (\<open>None\<close> inside).
\<close>

definition store_chunk :: "obex_context \<Rightarrow> byte list option \<Rightarrow> int \<Rightarrow> obex_context option option" where
  "store_chunk c buf actual =
     (let free_space = s32 (int BUF_SIZE - (gx_data_start c + gx_data_length c)) in
      if actual > free_space then Some None
      else do {
        b \<leftarrow> buf;
        d \<leftarrow> mem_read b 0 (nat actual);
        i \<leftarrow> buf_index (gx_data_start c);
        m \<leftarrow> mem_write (gx_buf c) i d;
        Some (Some (c\<lparr>gx_buf := m, gx_data_length := s32 (gx_data_length c + actual)\<rparr>)) })"

definition obex_readstream ::
    "'x gl_host env \<Rightarrow> zone \<Rightarrow> 'x gl_host world \<Rightarrow> addr option \<Rightarrow> 'x gl_host world option" where
  "obex_readstream E Z w object = do {
     c \<leftarrow> gl_context w;
     w \<leftarrow> (if gx_counter c = 0 then get_target_size_and_time E Z w object else Some w);
     (actual, buf, w) \<leftarrow> OBEX_ObjectReadStream w object False;
     (if actual \<le> 0 then Some w
      else do {
        w \<leftarrow> upd_ctx w (\<lambda>c. c\<lparr>gx_counter := s32 (gx_counter c + actual)\<rparr>);
        c \<leftarrow> gl_context w;
        stored \<leftarrow> store_chunk c buf actual;
        (case stored of
           None \<Rightarrow> Some w
         | Some c \<Rightarrow> do {
             w \<leftarrow> upd_ctx w (\<lambda>_. c);
             (_, w) \<leftarrow> OBEX_SuspendRequest w object;
             queue_event E w OBEX_EV_STREAMAVAIL }) }) }"

text \<open>
  The next chunk, for a buffer that is not empty: the pointer into the buffer that the library is lent and
  keeps until the bytes are sent, their number, and the context afterwards.
\<close>

definition lend_chunk :: "obex_context \<Rightarrow> (byte list \<times> int \<times> obex_context) option" where
  "lend_chunk c =
     (let send_size = (if gx_data_length c > gx_tx_max c then gx_tx_max c else gx_data_length c) in do {
        i \<leftarrow> buf_index (gx_data_start c);
        (let c' = c\<lparr>gx_counter := s32 (gx_counter c + send_size), gx_data_length := s32 (gx_data_length c - send_size)\<rparr> in
         Some (drop i (gx_buf c), send_size,
               c'\<lparr>gx_data_start := (if gx_data_length c' = 0 then 0 else s32 (gx_data_start c' + send_size))\<rparr>)) })"

definition obex_writestream ::
    "'x gl_host env \<Rightarrow> 'x gl_host world \<Rightarrow> addr option \<Rightarrow> 'x gl_host world option" where
  "obex_writestream E w object = do {
     c \<leftarrow> gl_context w;
     (if gx_data_length c > 0
      then do {
        (bs, send_size, c) \<leftarrow> lend_chunk c;
        (_, w) \<leftarrow> OBEX_ObjectAddHeader E w object OBEX_HDR_BODY (BS (Some bs)) (u32 send_size) OBEX_FL_STREAM_DATA;
        w \<leftarrow> upd_ctx w (\<lambda>_. c);
        (if gx_close c = 0 \<and> gx_data_length c = 0
         then do {
           (_, w) \<leftarrow> OBEX_SuspendRequest w object;
           queue_event E w OBEX_EV_STREAMEMPTY }
         else Some w) }
      else do {
        (_, w) \<leftarrow> OBEX_ObjectAddHeader E w object OBEX_HDR_BODY (BS None) 0 OBEX_FL_STREAM_DATAEND;
        Some w }) }"

text \<open>
  The end of a request. The object of a request that could not be sent is deleted by \<open>OBEX_Request\<close>, which
  returns 0 all the same; then its command is read from freed memory.
\<close>

definition start_pending :: "'x gl_host env \<Rightarrow> 'x gl_host world \<Rightarrow> 'x gl_host world option" where
  "start_pending E w = do {
     c \<leftarrow> gl_context w;
     (if gx_pending c = None then Some w
      else do {
        (r, w) \<leftarrow> OBEX_Request E w (gx_pending c);
        (if r \<noteq> 0 then Some w
         else do {
           c \<leftarrow> gl_context w;
           cmd \<leftarrow> OBEX_ObjectGetCommand w (gx_pending c);
           w \<leftarrow> (if cmd = int (unat OBEX_CMD_PUT) then queue_event E w OBEX_EV_STREAMEMPTY else Some w);
           upd_ctx w (\<lambda>c. c\<lparr>gx_pending := None\<rparr>) }) }) }"

definition request_done ::
    "'x gl_host env \<Rightarrow> 'x gl_callback \<Rightarrow> 'x gl_host world \<Rightarrow> addr option \<Rightarrow> byte \<Rightarrow> byte \<Rightarrow> 'x gl_host world option" where
  "request_done E C w object command response = do {
     w \<leftarrow> upd_ctx w (\<lambda>c. c\<lparr>gx_obex_rsp := int (unat response)\<rparr>);
     w \<leftarrow> queue_event E w OBEX_EV_REQDONE;
     w \<leftarrow> start_pending E w;
     (if command = OBEX_CMD_CONNECT then obex_connect_done E C w object response
      else if command = OBEX_CMD_DISCONNECT then obex_disconnect_done w
      else Some w) }"

definition gl_obex_event ::
    "'x gl_host env \<Rightarrow> 'x gl_callback \<Rightarrow> zone \<Rightarrow> 'x gl_host world \<Rightarrow> addr option \<Rightarrow> obex_event \<Rightarrow> byte \<Rightarrow> byte
     \<Rightarrow> 'x gl_host world option" where
  "gl_obex_event E C Z w object event command response =
     (case event of
        OBEX_EV_PROGRESS \<Rightarrow> obex_progress C w
      | OBEX_EV_REQHINT \<Rightarrow> do { (_, w) \<leftarrow> OBEX_ObjectSetRsp w object OBEX_RSP_NOT_IMPLEMENTED response; Some w }
      | OBEX_EV_REQ \<Rightarrow> do { (_, w) \<leftarrow> OBEX_ObjectSetRsp w object OBEX_RSP_NOT_IMPLEMENTED response; Some w }
      | OBEX_EV_REQDONE \<Rightarrow> request_done E C w object command response
      | OBEX_EV_LINKERR \<Rightarrow> do { (_, w) \<leftarrow> OBEX_TransportDisconnect E w; Some w }
      | OBEX_EV_PARSEERR \<Rightarrow> do { (_, w) \<leftarrow> OBEX_TransportDisconnect E w; Some w }
      | OBEX_EV_ABORT \<Rightarrow> queue_event E w OBEX_EV_ABORT
      | OBEX_EV_STREAMEMPTY \<Rightarrow> obex_writestream E w object
      | OBEX_EV_STREAMAVAIL \<Rightarrow> obex_readstream E Z w object
      | _ \<Rightarrow> Some w)"

text \<open>
  The environment of the library: \<open>gl_obex_event\<close> is the callback, and starts a pending request from inside,
  which delivers events again. \<open>n\<close> bounds this nesting; two levels are enough, because starting a request
  does not end one.
\<close>

fun gl_env :: "'x gl_host env \<Rightarrow> 'x gl_callback \<Rightarrow> zone \<Rightarrow> nat \<Rightarrow> 'x gl_host env" where
  "gl_env E C Z 0 = E\<lparr>env_event := (\<lambda>_ _ _ _ _ _ _. None)\<rparr>"
| "gl_env E C Z (Suc n) = E\<lparr>env_event := (\<lambda>cb w object mode event command response.
     gl_obex_event (gl_env E C Z n) C Z w object event command response)\<rparr>"

section \<open>Open, close, poll\<close>

text \<open>
  The context is zeroed. \<open>self\<close> and \<open>cb\<close> are the addresses of the context and of \<open>gl_obex_event\<close>, \<open>x\<close> is the
  state of the system. A failing setup of the transport leaves the context allocated.
\<close>

definition new_context :: "ptr \<Rightarrow> ptr \<Rightarrow> obex_context" where
  "new_context data callback = \<lparr>gx_state = OBEX_OPEN, gx_cid = CID_INVALID, gx_user_data = data, gx_callback = callback,
     gx_pending = None, gx_obex_rsp = 0, gx_buf = replicate BUF_SIZE 0, gx_data_start = 0, gx_data_length = 0,
     gx_counter = 0, gx_target_size = 0, gx_modtime = 0, gx_tx_max = int BUF_SIZE, gx_close = 0, gx_events = [],
     gx_signalling = False\<rparr>"

definition obex_open ::
    "'x gl_host env \<Rightarrow> ptr \<Rightarrow> ptr \<Rightarrow> int \<Rightarrow> ptr \<Rightarrow> ptr \<Rightarrow> 'x \<Rightarrow> ('x gl_host world option \<times> 'x) option" where
  "obex_open E self cb filedes callback data x =
     (if \<not> malloc_ok (env_alloc E) 32864 then Some (None, x)
      else case OBEX_Init (env_alloc E) OBEX_TRANS_FD cb 0 of
        None \<Rightarrow> Some (None, x)
      | Some h \<Rightarrow>
          (let w = \<lparr>hnd = h, objs = Map.empty, next_addr = 1, ext = \<lparr>app = new_context data callback, os = x\<rparr>,
                    libusb_ctx = CTX_NULL\<rparr> in do {
             (_, w) \<leftarrow> OBEX_SetTransportMTU E (OBEX_SetUserData w self) (word_of_nat BUF_SIZE) (word_of_nat BUF_SIZE);
             (r, w) \<leftarrow> FdOBEX_TransportSetup E w filedes filedes 0;
             (if r < 0 then do { (_, e, _) \<leftarrow> OBEX_Cleanup E w; Some (None, os e) }
              else Some (Some w, os (ext w))) }))"

text \<open>The world goes on when there is no context.\<close>

definition obex_close ::
    "'x gl_host env \<Rightarrow> 'x gl_host world \<Rightarrow> ('x gl_host world + (addr \<Rightarrow> obex_object option) \<times> 'x gl_host \<times> usb_ctx) option" where
  "obex_close E w =
     (case gl_context w of
        None \<Rightarrow> Some (Inl w)
      | Some c \<Rightarrow> do {
          (_, w) \<leftarrow> (if gx_pending c \<noteq> None then OBEX_ObjectDelete (OBEX_SetUserData w 0) (gx_pending c)
                     else Some (0, OBEX_SetUserData w 0));
          r \<leftarrow> OBEX_Cleanup E w;
          Some (Inr r) })"

text \<open>
  The walk over the events: the \<open>i\<close>-th one is signalled, then freed. A callback may queue more. It must not
  get here itself, nor close the handle: then the list is freed under the loop.
\<close>

partial_function (option) signal_events ::
    "(obex_event \<Rightarrow> ptr \<Rightarrow> 'x gl_host world \<Rightarrow> 'x gl_host world option) \<Rightarrow> nat \<Rightarrow> 'x gl_host world \<Rightarrow> 'x gl_host world option"
where
  "signal_events f i w = do {
     c \<leftarrow> gl_context w;
     (if i < length (gx_events c)
      then do { w \<leftarrow> f (gx_events c ! i) (gx_user_data c) w; signal_events f (Suc i) w }
      else Some w) }"

definition obex_do_callback :: "'x gl_callback \<Rightarrow> 'x gl_host world \<Rightarrow> 'x gl_host world option" where
  "obex_do_callback C w = do {
     c \<leftarrow> gl_context w;
     (case command_ind C of
        None \<Rightarrow> Some w
      | Some f \<Rightarrow>
          (if gx_events c = [] \<or> gx_callback c = 0 then Some w
           else if gx_signalling c then None
           else do {
             w \<leftarrow> upd_ctx w (\<lambda>c. c\<lparr>gx_signalling := True\<rparr>);
             w \<leftarrow> signal_events f 0 w;
             upd_ctx w (\<lambda>c. c\<lparr>gx_events := [], gx_signalling := False\<rparr>) })) }"

text \<open>The loop ends when the state of the connection changes, and only then.\<close>

partial_function (option) poll_loop ::
    "'x gl_host env \<Rightarrow> link_state \<Rightarrow> 'x gl_host world \<Rightarrow> 'x gl_host world option" where
  "poll_loop E st w = do {
     (_, w) \<leftarrow> OBEX_HandleInput E w OBEX_TIMEOUT;
     c \<leftarrow> gl_context w;
     (if gx_state c \<noteq> st then Some w else poll_loop E st w) }"

definition obex_poll :: "'x gl_host env \<Rightarrow> 'x gl_callback \<Rightarrow> 'x gl_host world \<Rightarrow> 'x gl_host world option" where
  "obex_poll E C w = do {
     c \<leftarrow> gl_context w;
     w \<leftarrow> poll_loop E (gx_state c) w;
     obex_do_callback C w }"

section \<open>Requests of the user\<close>

text \<open>A request while another one is running is kept, one of them at most.\<close>

definition obex_send_or_queue ::
    "'x gl_host env \<Rightarrow> 'x gl_host world \<Rightarrow> addr option \<Rightarrow> (int \<times> 'x gl_host world) option" where
  "obex_send_or_queue E w object = do {
     (err, w) \<leftarrow> OBEX_Request E w object;
     (if err = - EBUSY
      then do {
        c \<leftarrow> gl_context w;
        (if gx_pending c = None
         then do { w \<leftarrow> upd_ctx w (\<lambda>c. c\<lparr>gx_pending := object\<rparr>); Some (0, w) }
         else Some (err, w)) }
      else Some (err, w)) }"

text \<open>The end of every request function: the object is deleted unless it was taken.\<close>

definition send_or_delete ::
    "'x gl_host env \<Rightarrow> 'x gl_host world \<Rightarrow> addr option \<Rightarrow> (int \<times> 'x gl_host world) option" where
  "send_or_delete E w object = do {
     (ret, w) \<leftarrow> obex_send_or_queue E w object;
     (if ret < 0 then do { (_, w) \<leftarrow> OBEX_ObjectDelete w object; Some (ret, w) } else Some (ret, w)) }"

text \<open>Deleting the object and leaving with an error.\<close>

definition give_up :: "'x gl_host world \<Rightarrow> addr option \<Rightarrow> int \<Rightarrow> (int \<times> 'x gl_host world) option" where
  "give_up w object err = do { (_, w) \<leftarrow> OBEX_ObjectDelete w object; Some (err, w) }"

text \<open>\<open>g_return_val_if_fail(context != NULL, -1)\<close>, then the rest of the function.\<close>

definition with_context ::
    "'x gl_host world \<Rightarrow> (obex_context \<Rightarrow> (int \<times> 'x gl_host world) option) \<Rightarrow> (int \<times> 'x gl_host world) option" where
  "with_context w f = (case gl_context w of None \<Rightarrow> Some (-1, w) | Some c \<Rightarrow> f c)"

definition obex_connect ::
    "'x gl_host env \<Rightarrow> 'x gl_host world \<Rightarrow> byte list option \<Rightarrow> nat \<Rightarrow> (int \<times> 'x gl_host world) option" where
  "obex_connect E w target sz = with_context w (\<lambda>c.
     if gx_state c \<noteq> OBEX_OPEN \<and> gx_state c \<noteq> OBEX_CLOSED then Some (- EISCONN, w)
     else do {
       (object, w) \<leftarrow> OBEX_ObjectNew E w OBEX_CMD_CONNECT;
       (if object = None then Some (- ENOMEM, w)
        else do {
          (err, w) \<leftarrow> (if target \<noteq> None
            then OBEX_ObjectAddHeader E w object OBEX_HDR_TARGET (BS target) (u32 (int sz)) OBEX_FL_FIT_ONE_PACKET
            else Some (0, w));
          (if err < 0 then give_up w object err
           else do {
             w \<leftarrow> upd_ctx w (\<lambda>c. c\<lparr>gx_state := OBEX_CONNECT\<rparr>);
             send_or_delete E w object }) }) })"

definition obex_disconnect ::
    "'x gl_host env \<Rightarrow> 'x gl_callback \<Rightarrow> 'x gl_host world \<Rightarrow> (int \<times> 'x gl_host world) option" where
  "obex_disconnect E C w = with_context w (\<lambda>c.
     if gx_state c \<noteq> OBEX_CONNECTED then Some (- ENOTCONN, w)
     else do {
       (object, w) \<leftarrow> OBEX_ObjectNew E w OBEX_CMD_DISCONNECT;
       (if object = None then Some (- ENOMEM, w)
        else do {
          w \<leftarrow> upd_ctx w (\<lambda>c. c\<lparr>gx_state := OBEX_DISCONN\<rparr>);
          w \<leftarrow> call_user (disconn_ind C) w;
          send_or_delete E w object }) })"

section \<open>Headers of a request\<close>

text \<open>
  What \<open>obex_delete\<close>, \<open>obex_put\<close> and \<open>obex_get\<close> have in common: the state they are allowed in, and their
  headers. The connection identifier is added without a look at the result. A name or type is a C string
  without its terminating zero.
\<close>

definition may_request :: "obex_context \<Rightarrow> bool" where
  "may_request c \<longleftrightarrow> gx_state c = OBEX_OPEN \<or> gx_state c = OBEX_CONNECT \<or> gx_state c = OBEX_CONNECTED"

definition add_connection ::
    "'x gl_host env \<Rightarrow> 'x gl_host world \<Rightarrow> addr option \<Rightarrow> 32 word \<Rightarrow> 'x gl_host world option" where
  "add_connection E w object flags = do {
     c \<leftarrow> gl_context w;
     (if gx_cid c \<noteq> CID_INVALID
      then do { (_, w) \<leftarrow> OBEX_ObjectAddHeader E w object OBEX_HDR_CONNECTION (BQ4 (gx_cid c)) 4 flags; Some w }
      else Some w) }"

definition add_type ::
    "'x gl_host env \<Rightarrow> 'x gl_host world \<Rightarrow> addr option \<Rightarrow> byte list option \<Rightarrow> (int \<times> 'x gl_host world) option" where
  "add_type E w object ty =
     (case ty of
        None \<Rightarrow> Some (0, w)
      | Some s \<Rightarrow> OBEX_ObjectAddHeader E w object OBEX_HDR_TYPE (BS (Some (s @ [0])))
                   (u32 (s32 (int (length s) + 1))) OBEX_FL_FIT_ONE_PACKET)"

definition add_name ::
    "'x gl_host env \<Rightarrow> 'x gl_host world \<Rightarrow> addr option \<Rightarrow> byte list \<Rightarrow> 32 word \<Rightarrow> (int \<times> 'x gl_host world) option" where
  "add_name E w object name flags =
     (let ulen = s32 ((int (length name) + 1) * 2) in
      case malloc (env_alloc E) (u64 ulen) of
        None \<Rightarrow> Some (- ENOMEM, w)
      | Some unicode \<Rightarrow> do {
          (len, uc) \<leftarrow> OBEX_CharToUnicode (Some unicode) (Some (name @ [0])) ulen;
          OBEX_ObjectAddHeader E w object OBEX_HDR_NAME (BS uc) (u32 len) flags })"

definition add_opt_name ::
    "'x gl_host env \<Rightarrow> 'x gl_host world \<Rightarrow> addr option \<Rightarrow> byte list option \<Rightarrow> (int \<times> 'x gl_host world) option" where
  "add_opt_name E w object name =
     (case name of None \<Rightarrow> Some (0, w) | Some n \<Rightarrow> add_name E w object n OBEX_FL_FIT_ONE_PACKET)"

definition obex_delete ::
    "'x gl_host env \<Rightarrow> 'x gl_host world \<Rightarrow> byte list option \<Rightarrow> (int \<times> 'x gl_host world) option" where
  "obex_delete E w name = with_context w (\<lambda>c.
     if \<not> may_request c then Some (- ENOTCONN, w)
     else do {
       (object, w) \<leftarrow> OBEX_ObjectNew E w OBEX_CMD_PUT;
       (if object = None then Some (- ENOMEM, w)
        else do {
          w \<leftarrow> add_connection E w object OBEX_FL_FIT_ONE_PACKET;
          (err, w) \<leftarrow> add_opt_name E w object name;
          (if err < 0 then give_up w object err else send_or_delete E w object) }) })"

section \<open>Transfers\<close>

text \<open>The command of the current request, -1 when there is none.\<close>

abbreviation cur_command :: "'x gl_host world \<Rightarrow> int option" where
  "cur_command w \<equiv> OBEX_ObjectGetCommand w None"

abbreviation is_cmd :: "int \<Rightarrow> byte \<Rightarrow> bool" where
  "is_cmd cmd c \<equiv> cmd = int (unat c)"

definition init_transfer :: "int \<Rightarrow> int \<Rightarrow> obex_context \<Rightarrow> obex_context" where
  "init_transfer sz mtime c = c\<lparr>gx_data_start := 0, gx_data_length := 0, gx_counter := 0, gx_target_size := sz,
     gx_modtime := mtime, gx_close := 0\<rparr>"

text \<open>The time and length headers; the results of adding them are not looked at.\<close>

definition add_time ::
    "'x gl_host env \<Rightarrow> 'x gl_host world \<Rightarrow> addr option \<Rightarrow> 'x gl_host world option" where
  "add_time E w object = do {
     c \<leftarrow> gl_context w;
     (if gx_modtime c \<ge> 0
      then do {
        (len, tstr) \<leftarrow> make_iso8601 (nat (gx_modtime c)) (replicate 17 0) 17;
        (if len \<ge> 0
         then do { (_, w) \<leftarrow> OBEX_ObjectAddHeader E w object OBEX_HDR_TIME (BS (Some tstr)) (u32 len) 0; Some w }
         else Some w) }
      else Some w) }"

definition add_length ::
    "'x gl_host env \<Rightarrow> 'x gl_host world \<Rightarrow> addr option \<Rightarrow> 'x gl_host world option" where
  "add_length E w object = do {
     c \<leftarrow> gl_context w;
     (if gx_target_size c > 0
      then do { (_, w) \<leftarrow> OBEX_ObjectAddHeader E w object OBEX_HDR_LENGTH (BQ4 (word_of_int (gx_target_size c))) 4 0; Some w }
      else Some w) }"

definition obex_put ::
    "'x gl_host env \<Rightarrow> 'x gl_host world \<Rightarrow> byte list option \<Rightarrow> byte list option \<Rightarrow> int \<Rightarrow> int \<Rightarrow> (int \<times> 'x gl_host world) option" where
  "obex_put E w ty name sz mtime = with_context w (\<lambda>c.
     if \<not> may_request c then Some (- ENOTCONN, w)
     else do {
       cmd \<leftarrow> cur_command w;
       (if is_cmd cmd OBEX_CMD_GET \<or> is_cmd cmd OBEX_CMD_PUT then Some (- EBUSY, w)
        else do {
          w \<leftarrow> upd_ctx w (init_transfer sz mtime);
          (object, w) \<leftarrow> OBEX_ObjectNew E w OBEX_CMD_PUT;
          (if object = None then Some (- ENOMEM, w)
           else do {
             w \<leftarrow> add_connection E w object OBEX_FL_FIT_ONE_PACKET;
             (err, w) \<leftarrow> add_type E w object ty;
             (if err < 0 then give_up w object err
              else do {
                (err, w) \<leftarrow> add_opt_name E w object name;
                (if err < 0 then give_up w object err
                 else do {
                   w \<leftarrow> add_time E w object;
                   w \<leftarrow> add_length E w object;
                   (_, w) \<leftarrow> OBEX_ObjectAddHeader E w object OBEX_HDR_BODY (BS None) 0 OBEX_FL_STREAM_START;
                   (_, w) \<leftarrow> OBEX_SuspendRequest w object;
                   send_or_delete E w object }) }) }) }) })"

definition obex_get ::
    "'x gl_host env \<Rightarrow> 'x gl_host world \<Rightarrow> byte list option \<Rightarrow> byte list option \<Rightarrow> (int \<times> 'x gl_host world) option" where
  "obex_get E w ty name = with_context w (\<lambda>c.
     if \<not> may_request c then Some (- ENOTCONN, w)
     else do {
       cmd \<leftarrow> cur_command w;
       (if is_cmd cmd OBEX_CMD_GET \<or> is_cmd cmd OBEX_CMD_PUT then Some (- EBUSY, w)
        else do {
          w \<leftarrow> upd_ctx w (init_transfer (-1) (-1));
          (object, w) \<leftarrow> OBEX_ObjectNew E w OBEX_CMD_GET;
          (if object = None then Some (- ENOMEM, w)
           else do {
             w \<leftarrow> add_connection E w object OBEX_FL_FIT_ONE_PACKET;
             (err, w) \<leftarrow> add_type E w object ty;
             (if err < 0 then give_up w object err
              else do {
                (err, w) \<leftarrow> add_opt_name E w object name;
                (if err < 0 then give_up w object err
                 else do {
                   (_, _, w) \<leftarrow> OBEX_ObjectReadStream w object True;
                   send_or_delete E w object }) }) }) }) })"

text \<open>
  The copy in \<open>obex_read\<close>, for a buffer that is not empty: the bytes stored through \<open>buf\<close>, and whether the
  request is to be resumed. \<open>count\<close> and the number of bytes are of type \<open>size_t\<close>, the fields of type \<open>int\<close>.
\<close>

definition read_from :: "obex_context \<Rightarrow> nat \<Rightarrow> (byte list \<times> bool \<times> obex_context) option" where
  "read_from c count =
     (let bytes_read = (if count < u64 (gx_data_length c) then count else u64 (gx_data_length c)) in do {
        i \<leftarrow> buf_index (gx_data_start c);
        d \<leftarrow> mem_read (gx_buf c) i bytes_read;
        (let c = c\<lparr>gx_data_length := s32 (gx_data_length c - int bytes_read)\<rparr> in
         Some (if gx_data_length c \<noteq> 0
               then (d, False, c\<lparr>gx_data_start := s32 (gx_data_start c + int bytes_read)\<rparr>)
               else (d, True, c\<lparr>gx_data_start := 0\<rparr>))) })"

definition obex_read ::
    "'x gl_host env \<Rightarrow> 'x gl_host world \<Rightarrow> nat \<Rightarrow> (int \<times> byte list \<times> 'x gl_host world) option" where
  "obex_read E w count = do {
     cmd \<leftarrow> cur_command w;
     (if \<not> is_cmd cmd OBEX_CMD_GET then Some (- EINVAL, [], w)
      else do {
        c \<leftarrow> gl_context w;
        (if gx_data_length c = 0 then Some (- EAGAIN, [], w)
         else do {
           (d, resume, c) \<leftarrow> read_from c count;
           w \<leftarrow> upd_ctx w (\<lambda>_. c);
           (_, w) \<leftarrow> (if resume then OBEX_ResumeRequest E w else Some (0, w));
           Some (0, d, w) }) }) }"

text \<open>
  The copy in \<open>obex_write\<close>: the number of bytes taken from the block \<open>buf\<close>, and whether the request is to be
  resumed.
\<close>

definition write_into :: "obex_context \<Rightarrow> byte list \<Rightarrow> nat \<Rightarrow> (nat \<times> bool \<times> obex_context) option" where
  "write_into c buf count =
     (let free_space = s32 (int BUF_SIZE - (gx_data_start c + gx_data_length c));
          bytes_written = (if count > u64 free_space then u64 free_space else count) in do {
        d \<leftarrow> mem_read buf 0 bytes_written;
        i \<leftarrow> buf_index (gx_data_start c + gx_data_length c);
        m \<leftarrow> mem_write (gx_buf c) i d;
        (let c = c\<lparr>gx_buf := m, gx_data_length := s32 (gx_data_length c + int bytes_written)\<rparr> in
         Some (bytes_written, gx_data_length c \<ge> gx_tx_max c \<or> bytes_written = u64 free_space, c)) })"

text \<open>
  The buffer was written: a pointer into it that the library still holds for the current PUT shows the new
  bytes. The block behind a pointer ends where the buffer ends, so its length tells where it points.
\<close>

definition refresh_lent :: "'x gl_host world \<Rightarrow> 'x gl_host world option" where
  "refresh_lent w = do {
     c \<leftarrow> gl_context w;
     upd_cur w (\<lambda>ob. ob\<lparr>s_buf := map_option (\<lambda>m. drop (BUF_SIZE - length m) (gx_buf c)) (s_buf ob)\<rparr>) }"

definition obex_write ::
    "'x gl_host env \<Rightarrow> 'x gl_host world \<Rightarrow> byte list \<Rightarrow> nat \<Rightarrow> (int \<times> nat \<times> 'x gl_host world) option" where
  "obex_write E w buf count = do {
     cmd \<leftarrow> cur_command w;
     (if \<not> is_cmd cmd OBEX_CMD_PUT then Some (- EINVAL, 0, w)
      else do {
        c \<leftarrow> gl_context w;
        (bytes_written, resume, c) \<leftarrow> write_into c buf count;
        w \<leftarrow> upd_ctx w (\<lambda>_. c);
        w \<leftarrow> refresh_lent w;
        (_, w) \<leftarrow> (if resume then OBEX_ResumeRequest E w else Some (0, w));
        Some (0, bytes_written, w) }) }"

definition obex_flush :: "'x gl_host env \<Rightarrow> 'x gl_host world \<Rightarrow> (int \<times> 'x gl_host world) option" where
  "obex_flush E w = do {
     cmd \<leftarrow> cur_command w;
     (if \<not> is_cmd cmd OBEX_CMD_PUT then Some (- EINVAL, w)
      else do {
        c \<leftarrow> gl_context w;
        (_, w) \<leftarrow> (if gx_data_length c \<noteq> 0 then OBEX_ResumeRequest E w else Some (0, w));
        Some (0, w) }) }"

definition obex_abort :: "'x gl_host env \<Rightarrow> 'x gl_host world \<Rightarrow> (int \<times> 'x gl_host world) option" where
  "obex_abort E w = do {
     cmd \<leftarrow> cur_command w;
     (if \<not> is_cmd cmd OBEX_CMD_PUT \<or> \<not> is_cmd cmd OBEX_CMD_GET then Some (- EINVAL, w)
      else OBEX_CancelRequest E w True) }"

definition obex_close_transfer :: "'x gl_host env \<Rightarrow> 'x gl_host world \<Rightarrow> (int \<times> 'x gl_host world) option" where
  "obex_close_transfer E w = do {
     cmd \<leftarrow> cur_command w;
     (if \<not> is_cmd cmd OBEX_CMD_PUT \<and> \<not> is_cmd cmd OBEX_CMD_GET then Some (- EINVAL, w)
      else do {
        w \<leftarrow> upd_ctx w (\<lambda>c. c\<lparr>gx_close := 1\<rparr>);
        (_, w) \<leftarrow> OBEX_ResumeRequest E w;
        Some (0, w) }) }"

definition obex_get_response :: "'x gl_host world \<Rightarrow> (int \<times> 'x gl_host world) option" where
  "obex_get_response w = do {
     c \<leftarrow> gl_context w;
     w \<leftarrow> upd_ctx w (\<lambda>c. c\<lparr>gx_obex_rsp := int (unat OBEX_RSP_SUCCESS)\<rparr>);
     Some (gx_obex_rsp c, w) }"

text \<open>For the parent directory with \<open>create\<close> the new object is not deleted.\<close>

definition obex_setpath ::
    "'x gl_host env \<Rightarrow> 'x gl_host world \<Rightarrow> byte list \<Rightarrow> bool \<Rightarrow> (int \<times> 'x gl_host world) option" where
  "obex_setpath E w path create = with_context w (\<lambda>c.
     if gx_state c \<noteq> OBEX_CONNECTED then Some (- ENOTCONN, w)
     else do {
       (object, w) \<leftarrow> OBEX_ObjectNew E w OBEX_CMD_SETPATH;
       (if object = None then Some (- ENOMEM, w)
        else do {
          w \<leftarrow> add_connection E w object 0;
          (if path = [DOT, DOT] \<and> create then Some (- EINVAL, w)
           else do {
             (ret, w) \<leftarrow> (if path = [DOT, DOT] then Some (0, w) else add_name E w object path 0);
             (if ret < 0 then give_up w object ret
              else do {
                (_, w) \<leftarrow> OBEX_ObjectSetNonHdrData E w object
                   (Some [if path = [DOT, DOT] then 0x03 else if create then 0 else 0x02, 0]) 2;
                send_or_delete E w object }) }) }) })"

end
