(* ===== verification/Glib_Laws.thy ===== *)
theory Glib_Laws
  imports Glib_Lowlevel Streaming Sockets
begin

text \<open>
  What the transfer buffer of the GLib binding guarantees, and what becomes of the requests made through it.
\<close>

section \<open>The context\<close>

lemma gl_context_open [simp]:
  "userdata (hnd w) \<noteq> 0 \<Longrightarrow> gl_context w = Some (app (ext w))"
  "userdata (hnd w) \<noteq> 0 \<Longrightarrow> upd_ctx w f = Some (upd_app w f)"
  by (simp_all add: gl_context_def upd_ctx_def OBEX_GetUserData_def)

lemma upd_app_simps [simp]:
  "hnd (upd_app w f) = hnd w" "objs (upd_app w f) = objs w" "next_addr (upd_app w f) = next_addr w"
  "app (ext (upd_app w f)) = f (app (ext w))" "os (ext (upd_app w f)) = os (ext w)"
  "upd_app (upd_app w f) g = upd_app w (\<lambda>c. g (f c))"
  by (simp_all add: upd_app_def)

lemma gl_env_alloc [simp]: "env_alloc (gl_env E C Z n) = env_alloc E"
  by (cases n) simp_all

declare gl_env.simps [simp del]

section \<open>A queue of bytes\<close>

text \<open>
  The contract of the buffer: putting adds a beginning of the offered bytes at the end, getting takes bytes
  from the front. \<open>None\<close> is a call that must not be made.
\<close>

datatype fifo_op = Put "byte list" | Get nat

fun fifo_run ::
    "('c \<Rightarrow> byte list \<Rightarrow> (nat \<times> 'c) option) \<Rightarrow> ('c \<Rightarrow> nat \<Rightarrow> (byte list \<times> 'c) option) \<Rightarrow> fifo_op list \<Rightarrow> 'c
     \<Rightarrow> (byte list \<times> byte list \<times> 'c) option" where
  "fifo_run enq deq [] c = Some ([], [], c)"
| "fifo_run enq deq (Put d # ops) c = do {
     (n, c) \<leftarrow> enq c d;
     (ins, outs, c) \<leftarrow> fifo_run enq deq ops c;
     Some (take n d @ ins, outs, c) }"
| "fifo_run enq deq (Get k # ops) c = do {
     (d, c) \<leftarrow> deq c k;
     (ins, outs, c) \<leftarrow> fifo_run enq deq ops c;
     Some (ins, d @ outs, c) }"

locale byte_fifo =
  fixes inv :: "'c \<Rightarrow> bool" and queue :: "'c \<Rightarrow> byte list"
    and enq :: "'c \<Rightarrow> byte list \<Rightarrow> (nat \<times> 'c) option" and deq :: "'c \<Rightarrow> nat \<Rightarrow> (byte list \<times> 'c) option"
  assumes enq_law: "inv c \<Longrightarrow> enq c d = Some (n, c') \<Longrightarrow> inv c' \<and> queue c' = queue c @ take n d"
    and deq_law: "inv c \<Longrightarrow> deq c k = Some (e, c') \<Longrightarrow> inv c' \<and> queue c = e @ queue c'"
begin

lemma run_in_order:
  "inv c \<Longrightarrow> fifo_run enq deq ops c = Some (ins, outs, c') \<Longrightarrow> inv c' \<and> queue c @ ins = outs @ queue c'"
proof (induction ops arbitrary: c ins outs)
  case (Cons op ops)
  show ?case
  proof (cases op)
    case (Put d)
    obtain n c1 ins1 where r: "enq c d = Some (n, c1)" "fifo_run enq deq ops c1 = Some (ins1, outs, c')" "ins = take n d @ ins1"
      using Cons.prems(2) Put by (auto split: Option.bind_splits)
    from enq_law [OF Cons.prems(1) r(1)] Cons.IH [OF _ r(2)] show ?thesis using r(3) by simp
  next
    case (Get k)
    obtain e c1 outs1 where r: "deq c k = Some (e, c1)" "fifo_run enq deq ops c1 = Some (ins, outs1, c')" "outs = e @ outs1"
      using Cons.prems(2) Get by (auto split: Option.bind_splits)
    from deq_law [OF Cons.prems(1) r(1)] Cons.IH [OF _ r(2)] show ?thesis using r(3) by simp
  qed
qed simp

end

section \<open>The buffer of the context\<close>

definition ctx_ok :: "obex_context \<Rightarrow> bool" where
  "ctx_ok c \<longleftrightarrow> length (gx_buf c) = BUF_SIZE \<and> 0 \<le> gx_data_start c \<and> 0 \<le> gx_data_length c
     \<and> gx_data_start c + gx_data_length c \<le> int BUF_SIZE \<and> 0 < gx_tx_max c"

text \<open>The bytes between the user and the library.\<close>

definition held :: "obex_context \<Rightarrow> byte list" where
  "held c = take (nat (gx_data_length c)) (drop (nat (gx_data_start c)) (gx_buf c))"

lemma counter_irrelevant [simp]:
  "ctx_ok (c\<lparr>gx_counter := x\<rparr>) = ctx_ok c" "held (c\<lparr>gx_counter := x\<rparr>) = held c"
  by (simp_all add: ctx_ok_def held_def)

lemma length_held: "ctx_ok c \<Longrightarrow> length (held c) = nat (gx_data_length c)"
  by (auto simp: ctx_ok_def held_def)

lemma write_into_spec:
  assumes "ctx_ok c" and "write_into c buf count = Some (n, resume, c')"
  shows "ctx_ok c' \<and> held c' = held c @ take n buf \<and> n = min count (BUF_SIZE - nat (gx_data_start c + gx_data_length c))
    \<and> n \<le> length buf \<and> resume = (gx_data_length c' \<ge> gx_tx_max c \<or> gx_data_start c' + gx_data_length c' = int BUF_SIZE)
    \<and> c' = c\<lparr>gx_buf := gx_buf c', gx_data_length := gx_data_length c'\<rparr>"
proof -
  define s l where "s = nat (gx_data_start c)" and "l = nat (gx_data_length c)"
  have c: "length (gx_buf c) = BUF_SIZE" "gx_data_start c = int s" "gx_data_length c = int l" "s + l \<le> BUF_SIZE" "0 < gx_tx_max c"
    using assms(1) by (auto simp: ctx_ok_def s_def l_def)
  have fs: "s32 (int BUF_SIZE - (int s + int l)) = int (BUF_SIZE - (s + l))" using c(4) by (subst s32_id) auto
  have u: "u64 (int (BUF_SIZE - (s + l))) = BUF_SIZE - (s + l)" by (subst u64_id) auto
  have i: "buf_index (int s + int l) = Some (s + l)" using c(4) by (simp add: buf_index_def nat_int_add)
  obtain d m where r: "mem_read buf 0 n = Some d" "mem_write (gx_buf c) (s + l) d = Some m"
    "n = (if count > BUF_SIZE - (s + l) then BUF_SIZE - (s + l) else count)"
    "c' = c\<lparr>gx_buf := m, gx_data_length := s32 (int l + int n)\<rparr>"
    "resume = (gx_data_length c' \<ge> gx_tx_max c' \<or> n = BUF_SIZE - (s + l))"
    using assms(2) unfolding write_into_def Let_def c(2,3) fs u i
    by (auto split: Option.bind_splits simp: c(3))
  have n: "n \<le> length buf" "d = take n buf" "n = min count (BUF_SIZE - (s + l))" "s + l + n \<le> BUF_SIZE"
    using r(1,3) c(4) by (auto simp: mem_read_def split: if_splits)
  have m: "m = take (s + l) (gx_buf c) @ d @ drop (s + l + n) (gx_buf c)" "length m = BUF_SIZE"
    using r(2) n c(1) by (auto simp: mem_write_def split: if_splits)
  have l': "gx_data_length c' = int (l + n)" using r(4) n(4) by (simp add: s32_id)
  have "held c' = take (l + n) (drop s m)" using l' r(4) c(2) by (simp add: held_def nat_int_add)
  also have "\<dots> = take l (drop s (gx_buf c)) @ d"
  proof -
    have "drop s m = take l (drop s (gx_buf c)) @ d @ drop (s + l + n) (gx_buf c)"
      unfolding m(1) using c(1,4) by (simp add: drop_take)
    moreover have "length (take l (drop s (gx_buf c))) = l" "length d = n" using c(1,4) n(1,2) by simp_all
    ultimately show ?thesis by simp
  qed
  finally have "held c' = held c @ take n buf" by (simp add: held_def c(2,3) n(2))
  moreover have "ctx_ok c'" using l' r(4) m(2) n(4) c by (simp add: ctx_ok_def)
  moreover have "(n = BUF_SIZE - (s + l)) = (gx_data_start c' + gx_data_length c' = int BUF_SIZE)"
    using l' r(4) c(2,4) n(4) by auto
  moreover have "nat (gx_data_start c + gx_data_length c) = s + l" by (simp add: c(2,3) nat_int_add)
  moreover have "c' = c\<lparr>gx_buf := gx_buf c', gx_data_length := gx_data_length c'\<rparr>" "gx_tx_max c' = gx_tx_max c"
    by (simp_all add: r(4))
  ultimately show ?thesis unfolding r(5) using n(1,3) by simp
qed

text \<open>Taking bytes from the front, as \<open>obex_read\<close> and \<open>obex_writestream\<close> do.\<close>

definition advanced :: "nat \<Rightarrow> obex_context \<Rightarrow> obex_context" where
  "advanced n c = c\<lparr>gx_data_length := gx_data_length c - int n,
     gx_data_start := (if gx_data_length c = int n then 0 else gx_data_start c + int n)\<rparr>"

lemma advanced_ok:
  assumes "ctx_ok c" and "n \<le> length (held c)"
  shows "ctx_ok (advanced n c)" "held (advanced n c) = drop n (held c)"
proof -
  obtain s l where c: "gx_data_start c = int s" "gx_data_length c = int l" "s + l \<le> BUF_SIZE" "length (gx_buf c) = BUF_SIZE"
    using assms(1) by (auto simp: ctx_ok_def dest!: zero_le_imp_eq_int)
  have n: "n \<le> l" using assms by (simp add: length_held c(2))
  show "ctx_ok (advanced n c)" using assms(1) c n by (simp add: ctx_ok_def advanced_def)
  have "nat (int l - int n) = l - n" using n by simp
  then show "held (advanced n c) = drop n (held c)"
    using c n by (auto simp: held_def advanced_def drop_take nat_int_add add.commute)
qed

lemma read_from_spec:
  assumes "ctx_ok c"
  shows "read_from c count = Some (take count (held c), length (held c) \<le> count, advanced (min count (length (held c))) c)"
proof -
  obtain s l where c: "gx_data_start c = int s" "gx_data_length c = int l" "s + l \<le> BUF_SIZE" "length (gx_buf c) = BUF_SIZE"
    using assms(1) by (auto simp: ctx_ok_def dest!: zero_le_imp_eq_int)
  define n where "n = min count l"
  have u: "(if count < u64 (int l) then count else u64 (int l)) = n" using c(3) by (simp add: u64_id n_def)
  have n: "n \<le> l" by (simp add: n_def)
  have held: "held c = take l (drop s (gx_buf c))" "length (held c) = l" using c by (simp_all add: held_def)
  have r: "mem_read (gx_buf c) s n = Some (take count (held c))"
    using c n by (simp add: mem_simps held(1) n_def min.commute)
  have s32s: "s32 (int l - int n) = int l - int n" "s32 (int s + int n) = int s + int n"
    using n c(3) by (simp_all add: s32_id)
  have i: "buf_index (int s) = Some s" using c(3) by (simp add: buf_index_def)
  show ?thesis
    unfolding read_from_def Let_def c(1,2) u i bind.bind_lunit r s32s prod.case
    using n c(3) by (cases "n = l") (auto simp: r s32s advanced_def c(1,2) held(2) n_def s32_id)
qed

lemma lend_chunk_spec:
  assumes "ctx_ok c"
  shows "lend_chunk c = Some (drop (nat (gx_data_start c)) (gx_buf c), int (min (nat (gx_tx_max c)) (length (held c))),
     (advanced (min (nat (gx_tx_max c)) (length (held c))) c)
       \<lparr>gx_counter := s32 (gx_counter c + int (min (nat (gx_tx_max c)) (length (held c))))\<rparr>)"
proof -
  obtain s l t where c: "gx_data_start c = int s" "gx_data_length c = int l" "s + l \<le> BUF_SIZE" "length (gx_buf c) = BUF_SIZE"
    "gx_tx_max c = int t"
    using assms(1) by (auto simp: ctx_ok_def dest!: zero_le_imp_eq_int less_imp_le)
  define n where "n = min t l"
  have u: "(if int l > int t then int t else int l) = int n" by (simp add: n_def)
  have n: "n \<le> l" by (simp add: n_def)
  have held: "length (held c) = l" using c by (simp add: held_def)
  have s32s: "s32 (int l - int n) = int l - int n" "s32 (int s + int n) = int s + int n"
    using n c(3) by (simp_all add: s32_id)
  have i: "buf_index (int s) = Some s" using c(3) by (simp add: buf_index_def)
  show ?thesis
    unfolding lend_chunk_def Let_def c(1,2,5) u i by (simp add: s32s advanced_def c(1,2,5) held flip: n_def)
qed

lemma lent_bytes:
  assumes "ctx_ok c" and "n \<le> length (held c)"
  shows "take n (drop (nat (gx_data_start c)) (gx_buf c)) = take n (held c)"
  using assms by (simp add: length_held) (simp add: held_def min_def)

text \<open>A chunk from the peer, into an empty buffer.\<close>

lemma store_chunk_spec:
  assumes "ctx_ok c" and "gx_data_length c = 0" and "length d \<le> BUF_SIZE - nat (gx_data_start c)"
  obtains c' where "store_chunk c (Some (d @ rest)) (int (length d)) = Some (Some c')" "ctx_ok c'" "held c' = d"
    "c' = c\<lparr>gx_buf := gx_buf c', gx_data_length := int (length d)\<rparr>"
proof -
  obtain s where c: "gx_data_start c = int s" "s \<le> BUF_SIZE" "length (gx_buf c) = BUF_SIZE"
    using assms(1) by (auto simp: ctx_ok_def dest!: zero_le_imp_eq_int)
  have fs: "s32 (int BUF_SIZE - (int s + 0)) = int (BUF_SIZE - s)" using c(2) by (subst s32_id) auto
  have fit: "\<not> int (length d) > int (BUF_SIZE - s)" "s + length d \<le> length (gx_buf c)" using assms(3) c by simp_all
  have i: "buf_index (int s) = Some s" using c(2) by (simp add: buf_index_def)
  have l: "s32 (0 + int (length d)) = int (length d)" using fit(2) c(3) by (simp add: s32_id)
  define c' where "c' = c\<lparr>gx_buf := take s (gx_buf c) @ d @ drop (s + length d) (gx_buf c), gx_data_length := int (length d)\<rparr>"
  have "store_chunk c (Some (d @ rest)) (int (length d)) = Some (Some c')"
    unfolding store_chunk_def Let_def c(1) assms(2) fs l i c'_def using fit by (simp add: mem_simps)
  moreover have "ctx_ok c'" using assms(1) fit c by (simp add: ctx_ok_def c'_def)
  moreover have "held c' = d" using c fit by (simp add: held_def c'_def)
  ultimately show ?thesis by (rule that) (simp add: c'_def)
qed

section \<open>Bytes pass in order\<close>

text \<open>The two directions: the user writes and the library is lent chunks; the library stores chunks and the user reads.\<close>

definition user_writes :: "obex_context \<Rightarrow> byte list \<Rightarrow> (nat \<times> obex_context) option" where
  "user_writes c d = do { (n, _, c) \<leftarrow> write_into c d (length d); Some (n, c) }"

definition chunk_taken :: "obex_context \<Rightarrow> nat \<Rightarrow> (byte list \<times> obex_context) option" where
  "chunk_taken c k = do { (p, n, c) \<leftarrow> lend_chunk c; Some (take (nat n) p, c) }"

definition chunk_arrives :: "obex_context \<Rightarrow> byte list \<Rightarrow> (nat \<times> obex_context) option" where
  "chunk_arrives c d =
     (if gx_data_length c \<noteq> 0 \<or> length d > BUF_SIZE - nat (gx_data_start c) then None
      else case store_chunk c (Some d) (int (length d)) of Some (Some c) \<Rightarrow> Some (length d, c) | _ \<Rightarrow> None)"

definition user_reads :: "obex_context \<Rightarrow> nat \<Rightarrow> (byte list \<times> obex_context) option" where
  "user_reads c k = do { (d, _, c) \<leftarrow> read_from c k; Some (d, c) }"

interpretation upload: byte_fifo ctx_ok held user_writes chunk_taken
proof
  fix c c' :: obex_context and d e :: "byte list" and n k :: nat
  assume c: "ctx_ok c"
  show "ctx_ok c' \<and> held c' = held c @ take n d" if "user_writes c d = Some (n, c')"
    using that write_into_spec [OF c, of d "length d"] by (auto simp: user_writes_def split: Option.bind_splits)
  show "ctx_ok c' \<and> held c = e @ held c'" if "chunk_taken c k = Some (e, c')"
  proof -
    define m where "m = min (nat (gx_tx_max c)) (length (held c))"
    have "e = take m (held c)" "c' = (advanced m c)\<lparr>gx_counter := s32 (gx_counter c + int m)\<rparr>"
      using that lend_chunk_spec [OF c] lent_bytes [OF c, of m] by (simp_all add: chunk_taken_def m_def)
    moreover have "ctx_ok (advanced m c)" "held (advanced m c) = drop m (held c)"
      by (rule advanced_ok [OF c]; simp add: m_def)+
    ultimately show ?thesis by simp
  qed
qed

interpretation download: byte_fifo ctx_ok held chunk_arrives user_reads
proof
  fix c c' :: obex_context and d e :: "byte list" and n k :: nat
  assume c: "ctx_ok c"
  show "ctx_ok c' \<and> held c' = held c @ take n d" if "chunk_arrives c d = Some (n, c')"
  proof -
    have a: "gx_data_length c = 0" "length d \<le> BUF_SIZE - nat (gx_data_start c)"
      using that by (auto simp: chunk_arrives_def split: if_splits)
    obtain c1 where "store_chunk c (Some (d @ [])) (int (length d)) = Some (Some c1)" "ctx_ok c1" "held c1 = d"
      by (rule store_chunk_spec [OF c a])
    moreover have "held c = []" using a(1) by (simp add: held_def)
    ultimately show ?thesis using that a by (simp add: chunk_arrives_def)
  qed
  show "ctx_ok c' \<and> held c = e @ held c'" if "user_reads c k = Some (e, c')"
    using that advanced_ok [OF c, of "min k (length (held c))"] by (auto simp: user_reads_def read_from_spec [OF c] min_def)
qed

lemma write_into_defined:
  assumes "ctx_ok c" and "count \<le> length buf"
  shows "write_into c buf count \<noteq> None"
proof -
  obtain s l where c: "gx_data_start c = int s" "gx_data_length c = int l" "s + l \<le> BUF_SIZE" "length (gx_buf c) = BUF_SIZE"
    using assms(1) by (auto simp: ctx_ok_def dest!: zero_le_imp_eq_int)
  have fs: "s32 (int BUF_SIZE - (int s + int l)) = int (BUF_SIZE - (s + l))" using c(3) by (subst s32_id) auto
  have u: "u64 (int (BUF_SIZE - (s + l))) = BUF_SIZE - (s + l)" by (subst u64_id) auto
  have i: "buf_index (int s + int l) = Some (s + l)" using c(3) by (simp add: buf_index_def nat_int_add)
  define n where "n = (if count > BUF_SIZE - (s + l) then BUF_SIZE - (s + l) else count)"
  have "n \<le> length buf" "s + l + n \<le> length (gx_buf c)" using assms(2) c by (auto simp: n_def)
  then show ?thesis unfolding write_into_def Let_def c(1,2) fs u i by (simp add: mem_simps flip: n_def)
qed

lemma upload_defined: "ctx_ok c \<Longrightarrow> fifo_run user_writes chunk_taken ops c \<noteq> None"
proof (induction ops arbitrary: c)
  case (Cons op ops)
  show ?case
  proof (cases op)
    case (Put d)
    obtain n c1 where r: "user_writes c d = Some (n, c1)"
      using write_into_defined [OF Cons.prems, of "length d" d] by (auto simp: user_writes_def)
    from Cons.IH [of c1] upload.enq_law [OF Cons.prems r] show ?thesis using Put r by auto
  next
    case (Get k)
    obtain e c1 where r: "chunk_taken c k = Some (e, c1)" using lend_chunk_spec [OF Cons.prems] by (simp add: chunk_taken_def)
    from Cons.IH [of c1] upload.deq_law [OF Cons.prems r] show ?thesis using Get r by auto
  qed
qed simp


lemma new_context_ok: "ctx_ok (new_context d cb)" "held (new_context d cb) = []"
  by (simp_all add: ctx_ok_def new_context_def held_def)


section \<open>Chunks from the peer\<close>

lemma gl_deliver [simp]:
  "obex_deliver_event (gl_env E C Z (Suc n)) w ev cmd rsp False = gl_obex_event (gl_env E C Z n) C Z w (cur_object (hnd w)) ev cmd rsp"
  by (simp add: obex_deliver_event_def gl_env.simps)

lemma receive_stream_body:
  assumes "cur_object (hnd w) = Some a" and "objs w a = Some ob" and "\<not> abort_req ob" and "len \<noteq> 0"
  shows "obex_object_receive_stream (gl_env E C Z (Suc n)) w OBEX_HDR_BODY src len
    = obex_readstream (gl_env E C Z n) Z (w\<lparr>objs := (objs w)(a := Some (ob\<lparr>s_buf := Some src, s_len := len\<rparr>))\<rparr>) (Some a)"
  using assms by (simp add: obex_object_receive_stream_def gl_obex_event_def)

text \<open>A chunk after the first: it goes to the place of the bytes that are waiting.\<close>

lemma readstream_stores:
  assumes "userdata (hnd w) \<noteq> 0" and "ctx_ok (app (ext w))" and "gx_counter (app (ext w)) \<noteq> 0" and "gx_data_start (app (ext w)) = 0"
    and "objs w a = Some ob" and "s_buf ob = Some (d @ rest)" and "s_len ob = length d" and "d \<noteq> []"
    and "nat (gx_data_length (app (ext w))) + length d \<le> BUF_SIZE"
  obtains w' where "obex_readstream E Z w (Some a) = Some w'" "hnd w' = hnd w" "objs w' a = Some (ob\<lparr>suspend := True\<rparr>)"
    "gx_buf (app (ext w')) = d @ drop (length d) (gx_buf (app (ext w)))" "ctx_ok (app (ext w'))"
    "gx_data_length (app (ext w')) = gx_data_length (app (ext w)) + int (length d)" "gx_data_start (app (ext w')) = 0"
    "gx_counter (app (ext w')) = s32 (gx_counter (app (ext w)) + int (length d))"
proof -
  define c where "c = (app (ext w))\<lparr>gx_counter := s32 (gx_counter (app (ext w)) + int (length d))\<rparr>"
  obtain l where l: "gx_data_length (app (ext w)) = int l" "l + length d \<le> BUF_SIZE"
    using assms(2,9) by (auto simp: ctx_ok_def dest!: zero_le_imp_eq_int)
  have len: "length (gx_buf (app (ext w))) = BUF_SIZE" using assms(2) by (simp add: ctx_ok_def)
  define c' where "c' = c\<lparr>gx_buf := d @ drop (length d) (gx_buf c), gx_data_length := int (l + length d)\<rparr>"
  have fs: "s32 (int BUF_SIZE - (0 + int l)) = int (BUF_SIZE - l)" using l(2) by (subst s32_id) auto
  have dl: "s32 (int l + int (length d)) = int (l + length d)" "s32 (int (length d)) = int (length d)"
    using l(2) by (simp_all add: s32_id)
  have store: "store_chunk c (Some (d @ rest)) (int (length d)) = Some (Some c')"
    unfolding store_chunk_def Let_def c_def c'_def
    using assms(4) l len fs by (simp add: buf_index_def mem_simps dl)
  define w1 where "w1 = (upd_app w (\<lambda>_. c'))\<lparr>objs := (objs w)(a := Some (ob\<lparr>suspend := True\<rparr>))\<rparr>"
  define w' where "w' = (if malloc_ok (env_alloc E) 4 then upd_app w1 (\<lambda>c. c\<lparr>gx_events := gx_events c @ [OBEX_EV_STREAMAVAIL]\<rparr>) else w1)"
  have w1: "userdata (hnd w1) \<noteq> 0" "(upd_app (upd_app w (\<lambda>c. c\<lparr>gx_counter := s32 (gx_counter c + int (length d))\<rparr>)) (\<lambda>_. c')) = upd_app w (\<lambda>_. c')"
    using assms(1) by (simp_all add: w1_def)
  have "obex_readstream E Z w (Some a) = Some w'"
    unfolding obex_readstream_def
    using assms(1,3,5-8) store w1
    by (simp add: OBEX_ObjectReadStream_def obex_object_readstream_def dl OBEX_SuspendRequest_def obex_object_suspend_def
        queue_event_def w'_def c_def flip: w1_def)
  moreover have "ctx_ok (app (ext w'))" "gx_buf (app (ext w')) = d @ drop (length d) (gx_buf (app (ext w)))"
    using assms(2,4) l len by (simp_all add: w'_def w1_def c'_def c_def ctx_ok_def)
  ultimately show ?thesis using assms(4) l
    by (intro that [of w']) (simp_all add: w'_def w1_def c'_def c_def)
qed

lemma body_chunk:
  assumes "userdata (hnd w) \<noteq> 0" and "ctx_ok (app (ext w))" and "gx_counter (app (ext w)) \<noteq> 0" and "gx_data_start (app (ext w)) = 0"
    and "cur_object (hnd w) = Some a" and "objs w a = Some ob" and "\<not> abort_req ob" and "d \<noteq> []"
    and "nat (gx_data_length (app (ext w))) + length d \<le> BUF_SIZE"
  obtains w' ob' where "obex_object_receive_stream (gl_env E C Z (Suc n)) w OBEX_HDR_BODY (d @ rest) (length d) = Some w'"
    "hnd w' = hnd w" "objs w' a = Some ob'" "\<not> abort_req ob'" "suspend ob'"
    "gx_buf (app (ext w')) = d @ drop (length d) (gx_buf (app (ext w)))" "ctx_ok (app (ext w'))"
    "gx_data_length (app (ext w')) = gx_data_length (app (ext w)) + int (length d)" "gx_data_start (app (ext w')) = 0"
    "gx_counter (app (ext w')) = s32 (gx_counter (app (ext w)) + int (length d))"
proof -
  let ?ob = "ob\<lparr>s_buf := Some (d @ rest), s_len := length d\<rparr>"
  let ?w = "w\<lparr>objs := (objs w)(a := Some ?ob)\<rparr>"
  have w: "userdata (hnd ?w) \<noteq> 0" "ctx_ok (app (ext ?w))" "gx_counter (app (ext ?w)) \<noteq> 0" "gx_data_start (app (ext ?w)) = 0"
    "objs ?w a = Some ?ob" "s_buf ?ob = Some (d @ rest)" "s_len ?ob = length d" "d \<noteq> []"
    "nat (gx_data_length (app (ext ?w))) + length d \<le> BUF_SIZE" using assms by simp_all
  have ne: "length d \<noteq> 0" using assms(8) by simp
  show ?thesis
    by (rule readstream_stores [OF w, of "gl_env E C Z n" Z], rule that [where ob' = "?ob\<lparr>suspend := True\<rparr>"])
       (simp_all add: receive_stream_body [OF assms(5-7) ne] assms(7))
qed

text \<open>
  Two body headers in one packet lose data. The second chunk of a GET response that arrives before the user
  has read the first, as when a packet has two body headers, is copied over the first one, but the length grows
  by it: the user then reads the second chunk, followed by what it did not cover, stale bytes at the end.
\<close>

theorem second_chunk_overwrites:
  assumes "userdata (hnd w) \<noteq> 0" and "ctx_ok (app (ext w))" and "gx_data_start (app (ext w)) = 0" and "gx_data_length (app (ext w)) = 0"
    and "cur_object (hnd w) = Some a" and "objs w a = Some ob" and "\<not> abort_req ob" and "d1 \<noteq> []" and "d2 \<noteq> []"
    and "length d1 + length d2 \<le> BUF_SIZE" and "0 < gx_counter (app (ext w))" and "gx_counter (app (ext w)) + int (length d1) < 2147483648"
  shows "\<exists>w1 w2. obex_object_receive_stream (gl_env E C Z (Suc n)) w OBEX_HDR_BODY (d1 @ r1) (length d1) = Some w1
    \<and> held (app (ext w1)) = d1
    \<and> obex_object_receive_stream (gl_env E C Z (Suc n)) w1 OBEX_HDR_BODY (d2 @ r2) (length d2) = Some w2
    \<and> held (app (ext w2)) = d2 @ take (length d1) (drop (length d2) (d1 @ drop (length d1) (gx_buf (app (ext w)))))"
proof -
  have c: "gx_counter (app (ext w)) \<noteq> 0" "nat (gx_data_length (app (ext w))) + length d1 \<le> BUF_SIZE" using assms(4,10,11) by simp_all
  obtain w1 ob1 where r1: "obex_object_receive_stream (gl_env E C Z (Suc n)) w OBEX_HDR_BODY (d1 @ r1) (length d1) = Some w1"
    "hnd w1 = hnd w" "objs w1 a = Some ob1" "\<not> abort_req ob1" "suspend ob1"
    "gx_buf (app (ext w1)) = d1 @ drop (length d1) (gx_buf (app (ext w)))" "ctx_ok (app (ext w1))"
    "gx_data_length (app (ext w1)) = gx_data_length (app (ext w)) + int (length d1)" "gx_data_start (app (ext w1)) = 0"
    "gx_counter (app (ext w1)) = s32 (gx_counter (app (ext w)) + int (length d1))"
    by (rule body_chunk [OF assms(1,2) c(1) assms(3,5,6,7,8) c(2)])
  have l1: "gx_data_length (app (ext w1)) = int (length d1)" using r1(8) assms(4) by simp
  have c1: "gx_counter (app (ext w1)) \<noteq> 0" "nat (gx_data_length (app (ext w1))) + length d2 \<le> BUF_SIZE"
    using r1(10) l1 assms(10-12) by (simp_all add: s32_id)
  have h1: "userdata (hnd w1) \<noteq> 0" "cur_object (hnd w1) = Some a" using assms(1,5) r1(2) by simp_all
  obtain w2 where r2: "obex_object_receive_stream (gl_env E C Z (Suc n)) w1 OBEX_HDR_BODY (d2 @ r2) (length d2) = Some w2"
    "gx_buf (app (ext w2)) = d2 @ drop (length d2) (gx_buf (app (ext w1)))"
    "gx_data_length (app (ext w2)) = gx_data_length (app (ext w1)) + int (length d2)" "gx_data_start (app (ext w2)) = 0"
    by (rule body_chunk [OF h1(1) r1(7) c1(1) r1(9) h1(2) r1(3,4) assms(9) c1(2)])
  have "held (app (ext w1)) = d1" using l1 r1(6,9) by (simp add: held_def)
  moreover have "held (app (ext w2)) = d2 @ take (length d1) (drop (length d2) (d1 @ drop (length d1) (gx_buf (app (ext w)))))"
    using r2 l1 r1(6) by (simp add: held_def nat_int_add)
  ultimately show ?thesis using r1(1) r2(1) by blast
qed

text \<open>An example: an open handle with the object \<open>ob\<close> as the current one.\<close>

definition ex_gl :: "obex_context \<Rightarrow> obex_object \<Rightarrow> unit gl_host world" where
  "ex_gl c ob = (calm_world \<lparr>app = c, os = ()\<rparr>)\<lparr>hnd := ex_handle\<lparr>userdata := 1\<rparr>, objs := (\<lambda>a. if a = 1 then Some ob else None)\<rparr>"

definition no_callback :: "'x gl_callback" where
  "no_callback = \<lparr>connect_cfm = None, disconn_ind = None, progress_ind = None, command_ind = None\<rparr>"

lemma ex_gl_simps [simp]:
  "userdata (hnd (ex_gl c ob)) = 1" "cur_object (hnd (ex_gl c ob)) = Some 1" "ext (ex_gl c ob) = \<lparr>app = c, os = ()\<rparr>"
  "objs (ex_gl c ob) a = (if a = 1 then Some ob else None)"
  by (simp_all add: ex_gl_def calm_world_def ex_handle_def)

theorem second_chunk_overwrites_witness:
  "\<exists>w1 w2. obex_object_receive_stream (gl_env calm_env no_callback (\<lambda>_. 0) 1)
        (ex_gl ((new_context 0 0)\<lparr>gx_counter := 5\<rparr>) obex_object_init) OBEX_HDR_BODY [1, 2] 2 = Some w1
    \<and> held (app (ext w1)) = [1, 2]
    \<and> obex_object_receive_stream (gl_env calm_env no_callback (\<lambda>_. 0) 1) w1 OBEX_HDR_BODY [3] 1 = Some w2
    \<and> held (app (ext w2)) = [3, 2, 0]"
proof -
  let ?w = "ex_gl ((new_context 0 0)\<lparr>gx_counter := 5\<rparr>) obex_object_init"
  have buf: "gx_buf (new_context 0 0) = 0 # replicate 32766 0" "gx_data_start (new_context 0 0) = 0" "gx_data_length (new_context 0 0) = 0"
    by (simp_all add: new_context_def flip: replicate_Suc)
  have ob: "\<not> abort_req obex_object_init" by (simp add: obex_object_init_def obex_object_zero_def obex_object_setrsp_def)
  have d: "drop 2 (gx_buf (new_context 0 0)) = 0 # replicate 32764 0" by (simp add: new_context_def flip: replicate_Suc)
  show ?thesis
    using second_chunk_overwrites [of ?w 1 obex_object_init "[1, 2]" "[3]" calm_env no_callback "\<lambda>_. 0" 0 "[]" "[]"] ob d
    by (simp add: new_context_ok buf numeral_2_eq_2)
qed

section \<open>A closed transfer\<close>

text \<open>
  After \<open>obex_close_transfer\<close> the binding is a source of a stream: it lends chunks until the buffer is empty
  and then says that there is no more.
\<close>

definition gl_serves :: "addr \<Rightarrow> obex \<Rightarrow> bool" where
  "gl_serves a h \<longleftrightarrow> cur_object h = Some a \<and> userdata h \<noteq> 0"

definition closing :: "'x gl_host \<Rightarrow> bool" where
  "closing e \<longleftrightarrow> ctx_ok (app e) \<and> gx_close (app e) \<noteq> 0"

lemma gl_more:
  assumes "closing (ext w)" and "held (app (ext w)) \<noteq> []" and "gl_serves a (hnd w)" and "objs w a = Some ob"
  shows "\<exists>d r e. d \<noteq> [] \<and> length d < 65536 \<and> held (app (ext w)) = d @ held (app e) \<and> closing e
    \<and> obex_deliver_event (gl_env E C Z (Suc n)) w OBEX_EV_STREAMEMPTY 0 0 False
        = Some (given w a (ob\<lparr>s_buf := Some (d @ r), s_len := length d\<rparr>) e)"
proof -
  let ?c = "app (ext w)"
  have c: "ctx_ok ?c" "gx_close ?c \<noteq> 0" "userdata (hnd w) \<noteq> 0" "cur_object (hnd w) = Some a"
    using assms(1,3) by (simp_all add: closing_def gl_serves_def)
  define m where "m = min (nat (gx_tx_max ?c)) (length (held ?c))"
  define d where "d = take m (held ?c)"
  define p where "p = drop (nat (gx_data_start ?c)) (gx_buf ?c)"
  define c' where "c' = (advanced m ?c)\<lparr>gx_counter := s32 (gx_counter ?c + int m)\<rparr>"
  define e where "e = (ext w)\<lparr>app := c'\<rparr>"
  have "0 < length (held ?c)" "length (held ?c) \<le> BUF_SIZE" "0 < nat (gx_tx_max ?c)"
    using c(1) assms(2) by simp (use c(1) length_held [OF c(1)] in \<open>auto simp: ctx_ok_def\<close>)
  then have m: "m \<le> length (held ?c)" "0 < m" "m < 65536" by (simp_all add: m_def)
  have lend: "lend_chunk ?c = Some (p, int m, c')" using lend_chunk_spec [OF c(1)] by (simp add: p_def m_def c'_def)
  have p: "p = d @ drop m p" using lent_bytes [OF c(1) m(1)] by (simp add: d_def flip: p_def) (metis append_take_drop_id)
  have pos: "gx_data_length ?c > 0" using \<open>0 < length (held ?c)\<close> unfolding length_held [OF c(1)] by simp
  have close: "gx_close c' = gx_close ?c" by (simp add: c'_def advanced_def)
  have "u32 (int m) = m" using m(3) by (simp add: u32_id)
  then have "obex_deliver_event (gl_env E C Z (Suc n)) w OBEX_EV_STREAMEMPTY 0 0 False
      = Some (given w a (ob\<lparr>s_buf := Some p, s_len := m\<rparr>) e)"
    using c pos lend assms(4) close
    by (simp add: gl_obex_event_def obex_writestream_def OBEX_ObjectAddHeader_def obex_object_addheader_def hv_bs_def given_def
        upd_app_def e_def)
  moreover have "held ?c = d @ held (app e)" "closing e"
    using advanced_ok [OF c(1) m(1)] c(2) close by (simp_all add: d_def e_def c'_def closing_def)
  moreover have "length d = m" "d \<noteq> []" using m assms(2) by (simp_all add: d_def)
  ultimately show ?thesis using m(3) p by (intro exI [of _ d] exI [of _ "drop m p"] exI [of _ e]) simp
qed

lemma gl_no_more:
  assumes "closing (ext w)" and "held (app (ext w)) = []" and "gl_serves a (hnd w)" and "objs w a = Some ob"
  shows "\<exists>bs e. held (app e) = [] \<and> obex_deliver_event (gl_env E C Z (Suc n)) w OBEX_EV_STREAMEMPTY 0 0 False
        = Some (given w a (ob\<lparr>s_stop := True, s_buf := bs, s_len := 0\<rparr>) e)"
proof -
  have c: "ctx_ok (app (ext w))" "userdata (hnd w) \<noteq> 0" "cur_object (hnd w) = Some a"
    using assms(1,3) by (simp_all add: closing_def gl_serves_def)
  have "\<not> gx_data_length (app (ext w)) > 0" using length_held [OF c(1)] assms(2) by simp
  then have "obex_deliver_event (gl_env E C Z (Suc n)) w OBEX_EV_STREAMEMPTY 0 0 False
      = Some (given w a (ob\<lparr>s_stop := True, s_buf := None, s_len := 0\<rparr>) (ext w))"
    using c assms(4)
    by (simp add: gl_obex_event_def obex_writestream_def OBEX_ObjectAddHeader_def obex_object_addheader_def hv_bs_def given_def)
  then show ?thesis using assms(2) by blast
qed

interpretation closed_transfer: stream_source "gl_env E C Z (Suc n)" a "gl_serves a" closing "\<lambda>e. held (app e)" for E C Z n a
  by unfold_locales (simp add: gl_serves_def, simp add: gl_serves_def, (rule gl_more gl_no_more; assumption)+)

text \<open>
  C22: a closed transfer is sent to its end. Once the user has called \<open>obex_close_transfer\<close>, the library makes
  body fragments of what it was lent and what is still in the buffer: all of it, in order, each fragment filling
  the room in its packet but the last, which carries the code for the end. This takes finitely many packets.
\<close>

theorem closed_transfer_is_sent:
  assumes "generous (env_alloc E)" and "buf_wf tx" and "buf_bytes tx = []" and "n \<le> buf_free_end tx" and "3 < n" and "n < 65536"
    and "gl_serves a (hnd w)" and "objs w a = Some ob" and "stream_ok ob" and "closing (ext w)"
    and "take (s_len ob) (stream_ptr ob) @ held (app (ext w)) = U" and "length U < (n - 3) * k"
  shows "\<exists>fs w'. stream_packets (gl_env E C Z (Suc m)) a p n tx k w = Some (map frame_bytes fs, w')
    \<and> fs = body_frames (n - 3) U \<and> concat (map snd fs) = U"
proof -
  have "length (unsent (\<lambda>e. held (app e)) ob (ext w)) < (n - 3) * k" "unsent (\<lambda>e. held (app e)) ob (ext w) = U"
    using assms(11,12) by (simp_all add: unsent_def)
  with closed_transfer.stream_packets_deliver [OF _ assms(2-9), of E C Z m k p] assms(1,10) body_frames_whole
  show ?thesis by fastforce
qed

theorem closed_transfer_is_sent_witness:
  "\<exists>fs w'. stream_packets (gl_env calm_env no_callback (\<lambda>_. 0) 1) 1 0 8 (buf_holding [] 16) 3
      (ex_gl ((new_context 0 0)\<lparr>gx_buf := [1, 2, 3, 4, 5, 6, 7] @ replicate 32760 0, gx_data_length := 7, gx_close := 1\<rparr>) obex_object_init)
      = Some (map frame_bytes fs, w') \<and> concat (map snd fs) = [1, 2, 3, 4, 5, 6, 7]"
proof -
  let ?c = "(new_context 0 0)\<lparr>gx_buf := [1, 2, 3, 4, 5, 6, 7] @ replicate 32760 0, gx_data_length := 7, gx_close := 1\<rparr>"
  have ob: "stream_ok obex_object_init" "s_len obex_object_init = 0"
    by (simp_all add: stream_ok_def obex_object_init_def obex_object_zero_def obex_object_setrsp_def stream_ptr_def)
  have c: "ctx_ok ?c" "held ?c = [1, 2, 3, 4, 5, 6, 7]" by (simp_all add: ctx_ok_def held_def new_context_def)
  have s: "gl_serves 1 (hnd (ex_gl ?c obex_object_init))" "closing (ext (ex_gl ?c obex_object_init))"
    using c(1) by (simp_all add: gl_serves_def closing_def)
  have b: "generous (env_alloc (calm_env :: unit gl_host env))" "buf_wf (buf_holding [] 16)" "buf_bytes (buf_holding [] 16) = []" "8 \<le> buf_free_end (buf_holding [] 16)"
    by (simp_all add: calm_env_def buf_wf_holding buf_free_end_def)
  show ?thesis
    using closed_transfer_is_sent [OF b _ _ s(1) _ ob(1) s(2), of "[1, 2, 3, 4, 5, 6, 7]" 3 no_callback "\<lambda>_. 0" 0 0] ob(2) c(2)
    by auto
qed

end
