(* ===== verification/Server_Automaton.thy ===== *)
theory Server_Automaton
  imports Frame Packing
begin

text \<open>
  The server of lib/obex_server.c as an automaton over the state and the current object of the handle,
  and what follows from it: one answer for each packet, and a state from which it cannot go on.
\<close>

section \<open>The server as an automaton\<close>

text \<open>
  A configuration is the state of the protocol with the current object; the number is what
  \<open>obex_server\<close> returns.
\<close>

inductive server_move :: "obex_state \<times> addr option \<Rightarrow> int \<Rightarrow> obex_state \<times> addr option \<Rightarrow> bool" where
  refuse: "server_move (STATE_IDLE, ob) (-1) (STATE_IDLE, ob)"
| at_once: "r \<in> {0, -1} \<Longrightarrow> server_move (STATE_IDLE, None) r (STATE_IDLE, None)"
| accept: "s \<in> {STATE_REC, STATE_SEND} \<Longrightarrow> server_move (STATE_IDLE, None) 0 (s, Some a)"
| receive: "server_move (STATE_REC, Some a) 0 (STATE_REC, Some a)"
| respond: "s \<in> {STATE_REC, STATE_SEND} \<Longrightarrow> server_move (s, Some a) 0 (STATE_SEND, Some a)"
| close: "s \<in> {STATE_REC, STATE_SEND} \<Longrightarrow> r \<in> {0, -1} \<Longrightarrow> server_move (s, Some a) r (STATE_IDLE, None)"
| lost: "s' \<in> {STATE_REC, STATE_SEND} \<Longrightarrow> s = STATE_SEND \<longrightarrow> s' = STATE_SEND \<Longrightarrow>
    s = STATE_IDLE \<longleftrightarrow> ob = None \<Longrightarrow> s \<noteq> STATE_START \<Longrightarrow> server_move (s, ob) (-1) (s', None)"

inductive_simps server_move_iff: "server_move (s, ob) r (s', ob')"
inductive_cases server_move_okE: "server_move c 0 c'"

definition server_conf :: "obex_state \<Rightarrow> addr option \<Rightarrow> (obex_mode \<times> obex_state) \<times> addr option \<times> bool option" where
  "server_conf s ob = ((MODE_SRV, s), ob, map_option (\<lambda>_. True) ob)"

lemma server_conf_simps [simp]:
  "server_conf s ob = server_conf s' ob' \<longleftrightarrow> s = s' \<and> ob = ob'"
  "((MODE_SRV, s), None, None) = server_conf s' ob' \<longleftrightarrow> s = s' \<and> ob' = None"
  "((MODE_SRV, s), snd (server_conf s0 ob)) = server_conf s' ob' \<longleftrightarrow> s = s' \<and> ob = ob'"
  by (auto simp: server_conf_def)

lemma viewD:
  "view w = server_conf s ob \<Longrightarrow> state (hnd w) = (MODE_SRV, s)"
  "view w = server_conf s ob \<Longrightarrow> cur_object (hnd w) = ob"
  "view w = server_conf s (Some a) \<Longrightarrow> \<exists>x. objs w a = Some x"
  by (auto simp: view_def server_conf_def)

definition busy :: "obex_state \<Rightarrow> bool" where
  "busy s \<longleftrightarrow> s = STATE_REC \<or> s = STATE_SEND"

text \<open>The configuration of the handle, when an object is being transferred.\<close>

definition server_busy :: "'e world \<Rightarrow> bool" where
  "server_busy w \<longleftrightarrow> (\<exists>s a. busy s \<and> view w = server_conf s (Some a))"

lemma server_busy_simps [simp]:
  "view w = server_conf s (Some a) \<Longrightarrow> server_busy w \<longleftrightarrow> busy s"
  "view w = server_conf s (Some a) \<Longrightarrow> server_busy (w\<lparr>hnd := (hnd w)\<lparr>state := (MODE_SRV, s')\<rparr>\<rparr>) \<longleftrightarrow> busy s'"
  by (auto simp: server_busy_def)

lemma server_moves [simp]:
  "busy s \<Longrightarrow> server_move (s, Some a) 0 (s, Some a)"
  "busy s \<Longrightarrow> server_move (s, Some a) 0 (STATE_SEND, Some a)"
  "busy s \<Longrightarrow> server_move (s, Some a) 0 (STATE_IDLE, None)"
  "busy s \<Longrightarrow> server_move (s, Some a) (-1) (STATE_IDLE, None)"
  "busy s \<Longrightarrow> server_move (s, Some a) (-1) (s, None)"
  "server_move (STATE_IDLE, ob) (-1) (STATE_IDLE, ob)"
  "busy STATE_REC" "busy STATE_SEND" "\<not> busy STATE_IDLE"
  by (auto simp: busy_def server_move_iff)

lemma server_move_after: "server_move (STATE_SEND, Some a) r c \<Longrightarrow> server_move (STATE_REC, Some a) r c"
  by (cases c) (auto simp: server_move_iff)

lemma server_move_open: "server_move (STATE_REC, Some a) r c \<Longrightarrow> server_move (STATE_IDLE, None) r c"
  by (cases c) (auto simp: server_move_iff)

text \<open>
  The outcome of a call: a move of the automaton with at most one write to the transport, and with
  one write when it ends in STATE_IDLE.
\<close>

definition moves :: "('e world \<Rightarrow> 'x) \<Rightarrow> ('x \<Rightarrow> 'x \<Rightarrow> bool) \<Rightarrow> 'x \<Rightarrow> obex_state \<times> addr option
    \<Rightarrow> int \<times> 'e world \<Rightarrow> bool" where
  "moves cnt sends k c = (\<lambda>(r, w'). \<exists>s' ob'. view w' = server_conf s' ob' \<and> server_move c r (s', ob')
     \<and> (sends k (cnt w') \<or> (cnt w' = k \<and> s' \<noteq> STATE_IDLE)))"

lemma moves_simps [simp]:
  "view w' = server_conf s' ob' \<Longrightarrow> moves cnt sends k c (r, w') \<longleftrightarrow>
     server_move c r (s', ob') \<and> (sends k (cnt w') \<or> (cnt w' = k \<and> s' \<noteq> STATE_IDLE))"
  "view w' = ((MODE_SRV, s'), None, None) \<Longrightarrow> moves cnt sends k c (r, w') \<longleftrightarrow>
     server_move c r (s', None) \<and> (sends k (cnt w') \<or> (cnt w' = k \<and> s' \<noteq> STATE_IDLE))"
  by (auto simp: moves_def)

lemma moves_mono:
  "moves cnt sends k c x \<Longrightarrow> (\<And>r c''. server_move c r c'' \<Longrightarrow> server_move c' r c'') \<Longrightarrow> moves cnt sends k c' x"
  by (auto simp: moves_def)

lemma moves_after:
  "moves cnt sends k (STATE_SEND, Some a) x \<Longrightarrow> moves cnt sends k (STATE_REC, Some a) x"
  by (erule moves_mono) (rule server_move_after)

lemma moves_open:
  "moves cnt sends k (STATE_REC, Some a) x \<Longrightarrow> moves cnt sends k (STATE_IDLE, None) x"
  by (erule moves_mono) (rule server_move_open)

lemma view_opened: "view w = server_conf STATE_IDLE None \<Longrightarrow> obex_object_new E w = (Some a, w1)
    \<Longrightarrow> view (upd_hnd w1 (cur_object_update (\<lambda>_. Some a))) = server_conf STATE_IDLE (Some a)"
  by (auto simp: obex_object_new_def view_def server_conf_def split: if_splits)

lemma view_not_opened: "obex_object_new E w = (None, w1) \<Longrightarrow> w1 = w"
  by (auto simp: obex_object_new_def split: if_splits)

lemma cur_object_None_update [simp]: "cur_object h = None \<Longrightarrow> h\<lparr>cur_object := None\<rparr> = h"
  by (cases h) simp

context observer
begin

lemma wp_abort [wp]:
  assumes "polite cnt sends E" "server_busy w"
    "\<And>w'. view w' = server_conf STATE_IDLE None \<Longrightarrow> sends (cnt w) (cnt w') \<Longrightarrow> P (0, w')"
  shows "okres P (server_abort E w c)"
  using assms unfolding server_abort_def Let_def
  by (auto intro!: wp simp: server_conf_def)

lemma wp_bad_request [wp]:
  assumes "polite cnt sends E" "server_busy w"
    "\<And>w'. view w' = server_conf STATE_IDLE None \<Longrightarrow> sends (cnt w) (cnt w') \<Longrightarrow> P (-1, w')"
  shows "okres P (server_bad_request E w c)"
  using assms unfolding server_bad_request_def Let_def
  by (auto intro!: wp simp: server_conf_def)

lemma server_send_moves:
  assumes "polite cnt sends E" "view w = server_conf s (Some a)" "busy s"
  shows "okres (moves cnt sends (cnt w) (s, Some a)) (server_send E w c n)"
  using assms unfolding server_send_def Let_def
  by (auto intro!: wp simp: viewD)

lemma wp_server_send [wp]:
  assumes "polite cnt sends E" "server_busy w"
    and P: "\<And>x. moves cnt sends (cnt w) (snd (state (hnd w)), cur_object (hnd w)) x \<Longrightarrow> P x"
  shows "okres P (server_send E w c n)"
proof -
  from assms(2) obtain s a where s: "busy s" "view w = server_conf s (Some a)" by (auto simp: server_busy_def)
  show ?thesis by (rule okres_weaken [OF server_send_moves [OF assms(1) s(2,1)]]) (simp add: P viewD [OF s(2)])
qed

lemma server_rec_moves:
  assumes "polite cnt sends E" "view w = server_conf STATE_REC (Some a)"
  shows "okres (moves cnt sends (cnt w) (STATE_REC, Some a)) (server_rec E w c n final)"
  using assms unfolding server_rec_def Let_def
  by (auto intro!: wp simp: viewD moves_after)

lemma wp_server_idle [wp]:
  assumes E: "polite cnt sends E" and v: "view w = server_conf STATE_IDLE ob"
    and P: "\<And>w'. view w' = server_conf STATE_IDLE ob \<Longrightarrow> sends (cnt w) (cnt w') \<Longrightarrow> P (Some (-1), w')"
      "\<And>a w'. ob = None \<Longrightarrow> view w' = server_conf STATE_REC (Some a) \<Longrightarrow> cnt w' = cnt w \<Longrightarrow> P (None, w')"
  shows "okres P (server_idle E w c)"
proof (cases ob)
  case None
  have cur: "cur_object (hnd w) = None" using v None by (auto dest: viewD)
  obtain new w1 where new: "obex_object_new E w = (new, w1)" by fastforce
  show ?thesis
  proof (cases new)
    case None': None
    with view_not_opened [of E w w1] new have "w1 = w" by simp
    then show ?thesis using E v new None None' cur
      by (auto simp: server_idle_def intro!: wp P)
  next
    case (Some a)
    define w2 where "w2 = upd_hnd w1 (cur_object_update (\<lambda>_. Some a))"
    have v2: "view w2 = server_conf STATE_IDLE (Some a)"
      using view_opened v new Some None unfolding w2_def by blast
    have c2: "cnt w2 = cnt w" using new
      by (auto simp: w2_def obex_object_new_def cnt_hnd split: if_splits)
    have eq: "server_idle E w c = do {
           w \<leftarrow> upd_cur w2 (\<lambda>ob. ob\<lparr>ob_cmd := c\<rparr>);
           w \<leftarrow> obex_deliver_event E w OBEX_EV_REQHINT c 0 False;
           (ret, w) \<leftarrow>
             (if c = OBEX_CMD_CONNECT
              then do {
                (r, w) \<leftarrow> obex_parse_connect_header w;
                (if r < 0
                 then do {
                   w \<leftarrow> obex_response_request E w OBEX_RSP_BAD_REQUEST;
                   opc \<leftarrow> cur_opcode w;
                   w \<leftarrow> obex_deliver_event E w OBEX_EV_PARSEERR opc 0 True;
                   Some (Some (-1), w) }
                 else do { w \<leftarrow> upd_cur w (\<lambda>ob. ob\<lparr>headeroffset := 4\<rparr>); Some (None, w) }) }
              else if c = OBEX_CMD_SETPATH
              then do { w \<leftarrow> upd_cur w (\<lambda>ob. ob\<lparr>headeroffset := 2\<rparr>); Some (None, w) }
              else Some (None, w));
           (case ret of Some r \<Rightarrow> Some (Some r, w)
            | None \<Rightarrow> Some (None, set_state w (MODE_SRV, STATE_REC))) }"
      using cur new Some by (simp add: server_idle_def w2_def Let_def)
    show ?thesis unfolding eq using E v2 None c2
      by (auto intro!: wp P(1) P(2) [where a = a] simp: viewD)
  qed
next
  case (Some a)
  then show ?thesis using E v by (auto simp: server_idle_def viewD intro!: wp P)
qed

lemma obex_server_moves:
  assumes "polite cnt sends E" "view w = server_conf s ob" "s \<noteq> STATE_START" "ob = None \<longrightarrow> s = STATE_IDLE"
  shows "okres (moves cnt sends (cnt w) (s, ob)) (obex_server E w final)"
proof -
  have st: "state (hnd w) = (MODE_SRV, s)" using assms(2) by (rule viewD)
  have rec: "okres (moves cnt sends (cnt w) (STATE_IDLE, None)) (server_rec E w' c n final)"
    if "view w' = server_conf STATE_REC (Some a)" "cnt w' = cnt w" for w' a c n
    by (rule okres_weaken [OF server_rec_moves [OF assms(1) that(1)]]) (simp add: that(2) moves_open)
  show ?thesis
  proof (cases s)
    case STATE_IDLE
    then show ?thesis using assms st unfolding obex_server_def Let_def
      by (auto intro!: wp rec)
  next
    case STATE_REC
    then show ?thesis using assms st unfolding obex_server_def Let_def
      by (auto intro!: wp server_rec_moves)
  next
    case STATE_SEND
    then show ?thesis using assms st unfolding obex_server_def Let_def
      by (auto intro!: wp server_send_moves)
  qed (use assms in simp)
qed

end
section \<open>The two observers\<close>

text \<open>Nothing but the view; and the packets a custom transport has taken, with the link itself.\<close>

definition unseen :: "'e world \<Rightarrow> bool" where
  "unseen w = False"

interpretation conf: observer unseen "\<lambda>_ _. True"
  by unfold_locales (simp_all add: unseen_def)

definition link :: "('e \<Rightarrow> byte list list) \<Rightarrow> 'e world \<Rightarrow> byte list list \<times> transport \<times> ctrans" where
  "link taken w = (taken (ext w), tport (hnd w), ctrans (hnd w))"

definition is_custom :: "'a \<times> transport \<times> ctrans \<Rightarrow> bool" where
  "is_custom = (\<lambda>(e, t, c). t_type t = OBEX_TRANS_CUSTOM \<and> ct_write c \<noteq> 0)"

definition sends_one :: "byte list list \<times> transport \<times> ctrans \<Rightarrow> byte list list \<times> transport \<times> ctrans \<Rightarrow> bool" where
  "sends_one l l' \<longleftrightarrow> is_custom l \<longrightarrow> (\<exists>d. l' = (fst l @ [d], snd l))"

interpretation lock: observer "link taken" sends_one for taken
  by unfold_locales (simp_all add: link_def)

text \<open>An application that leaves the protocol alone in its callbacks.\<close>

definition quiet_app :: "'e env \<Rightarrow> bool" where
  "quiet_app E \<longleftrightarrow>
     (\<forall>cb w ob r ev c rsp w'. env_event E cb w ob r ev c rsp = Some w' \<longrightarrow> view w' = view w)
     \<and> (\<forall>f w c d r w'. env_ct_write E f w c d = Some (r, w') \<longrightarrow> view w' = view w)"

definition logging_app :: "('e \<Rightarrow> byte list list) \<Rightarrow> 'e env \<Rightarrow> bool" where
  "logging_app taken E \<longleftrightarrow> quiet_app E
     \<and> (\<forall>cb w ob r ev c rsp w'. env_event E cb w ob r ev c rsp = Some w' \<longrightarrow> link taken w' = link taken w)
     \<and> (\<forall>f w c d r w'. env_ct_write E f w c d = Some (r, w') \<longrightarrow>
          link taken w' = (taken (ext w) @ [d], tport (hnd w), ctrans (hnd w)))"

lemmas io_pure = wp_pure okresI [where r = "do_write f m n e" for f m n e]
  okresI [where r = "env_ct_write E f w c d" for E f w c d]

lemma quiet_write:
  assumes "quiet_app E" and ok: "obex_transport_write E w = Some (r, w')"
  shows "view w' = view w"
proof -
  have "okres (\<lambda>(r, w'). view w' = view w) (obex_transport_write E w)"
    using assms(1) unfolding obex_transport_write_def Let_def quiet_app_def
    by (cases "t_type (tport (hnd w))") (auto intro!: io_pure split: prod.splits)
  from okresD [OF this ok] show ?thesis by simp
qed

lemma logging_write:
  "logging_app taken E \<Longrightarrow> obex_transport_write E w = Some (r, w') \<Longrightarrow> is_custom (link taken w) \<Longrightarrow>
   \<exists>d. link taken w' = (taken (ext w) @ [d], tport (hnd w), ctrans (hnd w))"
  unfolding obex_transport_write_def logging_app_def Let_def is_custom_def link_def
  by (fastforce split: trans_type.splits prod.splits if_splits simp: bind_eq_Some_conv)

lemma quiet_polite: "quiet_app E \<Longrightarrow> polite unseen (\<lambda>_ _. True) E"
  using quiet_write [of E] unfolding polite_def quiet_app_def unseen_def by blast

lemma logging_polite: "logging_app taken E \<Longrightarrow> polite (link taken) sends_one E"
  using quiet_write [of E] logging_write [of taken E]
  unfolding polite_def logging_app_def quiet_app_def sends_one_def link_def by fastforce

section \<open>Properties\<close>

definition server_inv :: "'e world \<Rightarrow> bool" where
  "server_inv w \<longleftrightarrow> fst (state (hnd w)) = MODE_SRV \<and> snd (state (hnd w)) \<noteq> STATE_START
     \<and> (case cur_object (hnd w) of None \<Rightarrow> snd (state (hnd w)) = STATE_IDLE | Some a \<Rightarrow> objs w a \<noteq> None)"

definition conf_of :: "'e world \<Rightarrow> obex_state \<times> addr option" where
  "conf_of w = (snd (state (hnd w)), cur_object (hnd w))"

lemma server_inv_view:
  assumes "server_inv w"
  obtains s ob where "view w = server_conf s ob" "s \<noteq> STATE_START" "ob = None \<longrightarrow> s = STATE_IDLE" "conf_of w = (s, ob)"
proof (rule that [of "snd (state (hnd w))" "cur_object (hnd w)"])
  show "view w = server_conf (snd (state (hnd w))) (cur_object (hnd w))"
    using assms by (cases "state (hnd w)") (auto simp: server_inv_def view_def server_conf_def split: option.splits)
qed (use assms in \<open>auto simp: server_inv_def conf_of_def split: option.splits\<close>)

lemma conf_of_view: "view w = server_conf s ob \<Longrightarrow> conf_of w = (s, ob)"
  by (simp add: conf_of_def viewD)

lemma server_inv_conf:
  "view w = server_conf s ob \<Longrightarrow> server_inv w \<longleftrightarrow> s \<noteq> STATE_START \<and> (ob = None \<longrightarrow> s = STATE_IDLE)"
proof -
  assume v: "view w = server_conf s ob"
  have "state (hnd w) = (MODE_SRV, s)" "cur_object (hnd w) = ob" using v by (rule viewD)+
  moreover have "objs w a \<noteq> None" if "ob = Some a" for a using viewD(3) [of w s a] v that by simp
  ultimately show ?thesis by (simp add: server_inv_def split: option.splits)
qed

lemma server_move_ok: "server_move c r (s', ob') \<Longrightarrow> r \<noteq> -1 \<Longrightarrow> s' \<noteq> STATE_START \<and> (ob' = None \<longrightarrow> s' = STATE_IDLE)"
  by (erule server_move.cases) auto

text \<open>An idle server with one packet in its receive buffer, and what it does with an empty PUT.\<close>

definition idle_server :: "byte list \<Rightarrow> byte list list world" where
  "idle_server d = \<lparr>hnd = ex_handle\<lparr>cur_object := None, rx_msg := buf_holding d 0\<rparr>,
     objs = (\<lambda>a. None), next_addr = 2, ext = [], libusb_ctx = CTX_NULL\<rparr>"

lemma ex_handle_state [simp]: "state ex_handle = (MODE_SRV, STATE_IDLE)" "eventcb ex_handle = 1"
  by (simp_all add: ex_handle_def)

lemma idle_server_simps [simp]:
  "hnd (idle_server d) = ex_handle\<lparr>cur_object := None, rx_msg := buf_holding d 0\<rparr>"
  "objs (idle_server d) = (\<lambda>a. None)" "next_addr (idle_server d) = 2" "ext (idle_server d) = []"
  by (simp_all add: idle_server_def)

lemma init_object_simps [simp]:
  "tx_headerq obex_object_init = []" "\<not> suspend obex_object_init" "tx_nonhdr_data obex_object_init = None"
  "headeroffset obex_object_init = 0" "\<not> first_packet_sent obex_object_init"
  "ob_lastopcode obex_object_init = OBEX_RSP_NOT_IMPLEMENTED"
  by (simp_all add: obex_object_init_def obex_object_setrsp_def obex_object_zero_def)

definition link_env :: "int \<Rightarrow> byte list list env" where
  "link_env n = ex_env\<lparr>env_ct_write := (\<lambda>f w c d. Some (n, w\<lparr>ext := ext w @ [d]\<rparr>))\<rparr>"

lemma link_env_simps [simp]:
  "env_alloc (link_env n) = zero_alloc" "env_event (link_env n) cb w ob r ev c rsp = Some w"
  "env_ct_write (link_env n) f w p d = Some (n, w\<lparr>ext := ext w @ [d]\<rparr>)"
  by (simp_all add: link_env_def)

lemma example_answer:
  assumes "tport (hnd w) = tport ex_handle" "ctrans (hnd w) = ctrans ex_handle" "ext w = []"
  obtains msg where "obex_data_request (link_env n) (set_tx w (buf_reuse (buf_holding [] 1024))) c
     = Some (n, w\<lparr>hnd := (hnd w)\<lparr>tx_msg := msg\<rparr>, ext := [[c, 0, 3]]\<rparr>)"
proof -
  define w0 where "w0 = set_tx w (buf_reuse (buf_holding [] 1024))"
  have wf: "buf_wf (tx_msg (hnd w0))" "data_size (tx_msg (hnd w0)) = 0" "buf_bytes (tx_msg (hnd w0)) = []"
    using buf_reuse_laws [OF buf_wf_holding [of "[]" 1024]] by (simp_all add: w0_def)
  have room: "buf_room_begin (env_alloc (link_env n)) (tx_msg (hnd w0)) 3"
    by (simp add: w0_def buf_room_begin_def buf_reuse_def)
  obtain msg where m: "obex_data_request (link_env n) w0 c = obex_transport_write (link_env n) (set_tx w0 msg)"
    "buf_wf msg" "buf_bytes msg = c # be16 (data_size (tx_msg (hnd w0)) + 3) @ buf_bytes (tx_msg (hnd w0))"
    by (rule obex_data_request_packet [OF wf(1) room])
  have b: "buf_bytes msg = [c, 0, 3]" using m(3) wf by (simp add: be16_def)
  have l: "data_size msg = 3" using length_buf_bytes [OF m(2)] b by simp
  then have "mem_read (buf_ptr msg) 0 3 = Some [c, 0, 3]"
    using buf_ptr_ge [OF m(2)] b by (simp add: mem_simps buf_bytes_def)
  then have "obex_data_request (link_env n) w0 c = Some (n, (set_tx w0 msg)\<lparr>ext := [[c, 0, 3]]\<rparr>)"
    using m(1) l assms by (simp add: w0_def obex_transport_write_def)
  then show ?thesis using that [of msg] by (simp add: w0_def)
qed

lemma empty_put_run_any:
  assumes "buf_wf m" and "buf_bytes m = [0x82, 0, 3]"
  shows "\<exists>w'. obex_server (link_env n) (set_rx (idle_server []) m) True = Some (if n < 0 then -1 else 0, w')
     \<and> ext w' = [[0xD1, 0, 3]] \<and> state (hnd w') = (MODE_SRV, if n < 0 then STATE_SEND else STATE_IDLE)
     \<and> cur_object (hnd w') = None \<and> objs w' = (\<lambda>a. None)"
proof -
  have rx: "mem_read (buf_ptr m) 0 3 = Some [0x82, 0, 3]" "data_size m = 3"
    using mem_read_bytes [OF assms(1), of 0 3] length_buf_bytes [OF assms(1)] assms(2) by simp_all
  define w0 where "w0 = set_rx (idle_server []) m"
  define ob where "ob = obex_object_init\<lparr>ob_cmd := 2\<rparr>"
  define w1 where "w1 = w0\<lparr>hnd := (hnd w0)\<lparr>cur_object := Some 2, state := (MODE_SRV, STATE_REC)\<rparr>,
     objs := (\<lambda>a. None)(2 \<mapsto> ob), next_addr := 3\<rparr>"
  let ?E = "link_env n"
  have 1: "server_idle ?E w0 2 = Some (None, w1)"
    by (simp add: server_idle_def obex_object_new_def obex_deliver_event_def w0_def w1_def ob_def)
  define w2 where "w2 = set_rx w1 (buf_remove_begin (rx_msg (hnd w1)) 3)"
  have d: "data_size (rx_msg (hnd w2)) = 0"
    using rx(2) by (simp add: w2_def w1_def w0_def buf_remove_begin_def)
  have w1: "cur_object (hnd w1) = Some 2" "objs w1 2 = Some ob" by (simp_all add: w1_def)
  have w2: "cur_object (hnd w2) = Some 2" "objs w2 2 = Some ob" using w1 by (simp_all add: w2_def)
  have rh: "receive_headers ?E 2 w2 = Some (1, w2)" using d by (simp add: receive_headers.simps)
  have rn: "receive_nonhdr ?E 2 w2 = Some (True, w2)" using w2 by (simp add: receive_nonhdr_def ob_def)
  have 2: "obex_object_receive ?E w1 = Some (1, w2)"
    using w1 rh rn by (simp add: obex_object_receive_def flip: w2_def)
  define w2' where "w2' = set_state w2 (MODE_SRV, STATE_SEND)"
  define w3 where "w3 = w2'\<lparr>objs := (\<lambda>a. None)(2 \<mapsto> ob\<lparr>continue_received := True\<rparr>)\<rparr>"
  have w3: "objs w3 = (\<lambda>a. None)(2 \<mapsto> ob\<lparr>continue_received := True\<rparr>)" "cur_object (hnd w3) = Some 2" "ext w3 = []"
    "tx_msg (hnd w3) = buf_holding [] 1024" "state (hnd w3) = (MODE_SRV, STATE_SEND)"
    "tport (hnd w3) = tport ex_handle" "ctrans (hnd w3) = ctrans ex_handle"
    by (simp_all add: w3_def w2'_def w2_def w1_def w0_def)
  obtain msg where m: "obex_data_request ?E (set_tx w3 (buf_reuse (buf_holding [] 1024))) 0xD1
     = Some (n, w3\<lparr>hnd := (hnd w3)\<lparr>tx_msg := msg\<rparr>, ext := [[0xD1, 0, 3]]\<rparr>)"
    by (rule example_answer [OF w3(6,7,3)])
  define w4 where "w4 = w3\<lparr>hnd := (hnd w3)\<lparr>tx_msg := msg\<rparr>, ext := [[0xD1, 0, 3]]\<rparr>"
  have w4: "cur_object (hnd w4) = Some 2" "objs w4 = (\<lambda>a. None)(2 \<mapsto> ob\<lparr>continue_received := True\<rparr>)"
    "ext w4 = [[0xD1, 0, 3]]" "state (hnd w4) = (MODE_SRV, STATE_SEND)"
    using w3(1,2,5) by (simp_all add: w4_def)
  have 4: "obex_object_send ?E w3 2 True True = Some (if n < 0 then n else 1, w4)"
    using w3(1,4) m by (simp add: obex_object_send_def send_nonhdr_def send_headers.simps send_opcode_def ob_def w4_def)
  have u: "upd_cur w2' (continue_received_update (\<lambda>_. True)) = Some w3" "cur_obj w3 = Some (ob\<lparr>continue_received := True\<rparr>)"
    using w2 w3(1,2) by (simp_all add: w2'_def w3_def w2_def w1_def)
  have 3: "server_send ?E w2' 2 3 =
     (if n < 0 then do { w \<leftarrow> obex_deliver_event ?E w4 OBEX_EV_LINKERR 2 0 True; Some (-1, w) }
      else do { w \<leftarrow> obex_deliver_event ?E (set_state w4 (MODE_SRV, STATE_IDLE)) OBEX_EV_REQDONE 2 0 True; Some (0, w) })"
    using 4 u w3(2) by (simp add: server_send_def ob_def)
  have "obex_server ?E w0 True = server_rec ?E w1 2 3 True"
    using 1 rx by (simp add: obex_server_def w0_def rd16_def)
  also have "\<dots> = server_send ?E w2' 2 3"
    using w1 w2 2 by (simp add: server_rec_def server_check_def obex_deliver_event_def ob_def w2'_def)
  finally show ?thesis
    unfolding 3 w0_def [symmetric] using w4 by (simp add: obex_deliver_event_def obex_object_delete_Some)
qed

lemma empty_put_run:
  "\<exists>w'. obex_server (link_env n) (idle_server [0x82, 0, 3]) True = Some (if n < 0 then -1 else 0, w')
     \<and> ext w' = [[0xD1, 0, 3]] \<and> state (hnd w') = (MODE_SRV, if n < 0 then STATE_SEND else STATE_IDLE)
     \<and> cur_object (hnd w') = None \<and> objs w' = (\<lambda>a. None)"
proof -
  have "idle_server [0x82, 0, 3] = set_rx (idle_server []) (buf_holding [0x82, 0, 3] 0)" by (simp add: idle_server_def)
  then show ?thesis using empty_put_run_any [of "buf_holding [0x82, 0, 3] 0" n] by (simp add: buf_wf_holding)
qed

lemma empty_put_served:
  "\<exists>w'. obex_server (link_env 3) (idle_server [0x82, 0, 3]) True = Some (0, w')
     \<and> ext w' = [[0xD1, 0, 3]] \<and> conf_of w' = (STATE_IDLE, None) \<and> objs w' = (\<lambda>a. None)"
  using empty_put_run [of 3] by (auto simp: conf_of_def)

lemma link_env_quiet [simp]: "quiet_app (link_env n)" "logging_app id (link_env n)"
  by (simp_all add: quiet_app_def logging_app_def view_def link_def)

lemma idle_server_inv [simp]: "server_inv (idle_server d)"
  by (simp add: server_inv_def)

lemma server_step:
  assumes "quiet_app E" and "server_inv w" and "obex_server E w final = Some (r, w')"
  shows "server_move (conf_of w) r (conf_of w')" "fst (state (hnd w')) = MODE_SRV"
    "r \<noteq> -1 \<or> conf_of w' = (STATE_IDLE, None) \<Longrightarrow> server_inv w'"
proof -
  obtain s ob where v: "view w = server_conf s ob" "s \<noteq> STATE_START" "ob = None \<longrightarrow> s = STATE_IDLE" "conf_of w = (s, ob)"
    by (rule server_inv_view [OF assms(2)])
  from okresD [OF conf.obex_server_moves [OF quiet_polite [OF assms(1)] v(1-3)] assms(3)]
  obtain s' ob' where m: "view w' = server_conf s' ob'" "server_move (s, ob) r (s', ob')"
    by (auto simp: moves_def)
  have c: "conf_of w' = (s', ob')" by (rule conf_of_view [OF m(1)])
  show "server_move (conf_of w) r (conf_of w')" unfolding c v(4) by (rule m(2))
  show "fst (state (hnd w')) = MODE_SRV" using viewD(1) [OF m(1)] by simp
  assume "r \<noteq> -1 \<or> conf_of w' = (STATE_IDLE, None)"
  then have "s' \<noteq> STATE_START \<and> (ob' = None \<longrightarrow> s' = STATE_IDLE)"
    unfolding c using server_move_ok [OF m(2)] by blast
  then show "server_inv w'" unfolding server_inv_conf [OF m(1)] .
qed

text \<open>
  C5: whatever arrives, a server moves as the automaton says: it opens an object only when idle, keeps
  the same live object through receiving and sending, never goes back from sending to receiving, and
  drops the object when it goes idle. The only moves that leave a busy state without an object
  (\<open>lost\<close>) return -1; after every other one the handle is in a consistent configuration again.
\<close>

theorem server_follows_automaton:
  assumes "quiet_app E" and "server_inv w" and "obex_server E w final = Some (r, w')"
  shows "server_move (conf_of w) r (conf_of w') \<and> fst (state (hnd w')) = MODE_SRV
     \<and> (r \<noteq> -1 \<or> conf_of w' = (STATE_IDLE, None) \<longrightarrow> server_inv w')"
  using server_step [OF assms] by blast

theorem server_follows_automaton_witness:
  "\<exists>w'. obex_server (link_env 3) (idle_server [0x82, 0, 3]) True = Some (0, w')
     \<and> server_move (STATE_IDLE, None) 0 (conf_of w') \<and> server_inv w' \<and> conf_of w' = (STATE_IDLE, None)"
proof -
  obtain w' where w': "obex_server (link_env 3) (idle_server [0x82, 0, 3]) True = Some (0, w')"
    "conf_of w' = (STATE_IDLE, None)"
    using empty_put_served by blast
  from server_follows_automaton [OF link_env_quiet(1) idle_server_inv w'(1)] w' show ?thesis
    by (simp add: conf_of_def)
qed

text \<open>Any number of packets, each handled without an error.\<close>

inductive server_run :: "'e env \<Rightarrow> 'e world \<Rightarrow> 'e world \<Rightarrow> bool" for E where
  run_none: "server_run E w w"
| run_packet: "server_run E w w1 \<Longrightarrow> obex_server E (set_rx w1 b) final = Some (r, w2) \<Longrightarrow> 0 \<le> r \<Longrightarrow> server_run E w w2"

lemma server_inv_set_rx [simp]: "server_inv (set_rx w b) = server_inv w" "conf_of (set_rx w b) = conf_of w"
  by (simp_all add: server_inv_def conf_of_def split: option.splits)

lemma server_move_keeps_paired:
  "server_move c r c' \<Longrightarrow> 0 \<le> r \<Longrightarrow> snd c = None \<longleftrightarrow> fst c = STATE_IDLE \<Longrightarrow> snd c' = None \<longleftrightarrow> fst c' = STATE_IDLE"
  by (erule server_move.cases) auto



text \<open>
  C14: lock step. With a custom transport, one call sends at most one packet, and it sends exactly one if
  it ends in the idle state: no request is closed without an answer, and no packet is answered twice.
\<close>

theorem server_one_answer:
  assumes "logging_app taken E" and "server_inv w" and "obex_server E w final = Some (r, w')"
    and "t_type (tport (hnd w)) = OBEX_TRANS_CUSTOM" and "ct_write (ctrans (hnd w)) \<noteq> 0"
  shows "\<exists>ps. taken (ext w') = taken (ext w) @ ps \<and> length ps \<le> 1
     \<and> (snd (state (hnd w')) = STATE_IDLE \<longrightarrow> length ps = 1)"
proof -
  obtain s ob where v: "view w = server_conf s ob" "s \<noteq> STATE_START" "ob = None \<longrightarrow> s = STATE_IDLE" "conf_of w = (s, ob)"
    by (rule server_inv_view [OF assms(2)])
  from okresD [OF lock.obex_server_moves [OF logging_polite [OF assms(1)] v(1-3)] assms(3)]
  obtain s' ob' where m: "view w' = server_conf s' ob'"
    "sends_one (link taken w) (link taken w') \<or> (link taken w' = link taken w \<and> s' \<noteq> STATE_IDLE)"
    by (auto simp: moves_def)
  have s': "snd (state (hnd w')) = s'" using viewD(1) [OF m(1)] by simp
  have "is_custom (link taken w)" using assms(4,5) by (simp add: is_custom_def link_def)
  with m(2) s' show ?thesis by (auto simp: sends_one_def link_def)
qed

theorem server_one_answer_witness:
  "\<exists>w' ps. obex_server (link_env 3) (idle_server [0x82, 0, 3]) True = Some (0, w')
     \<and> ext w' = [] @ ps \<and> length ps = 1"
proof -
  obtain w' where w': "obex_server (link_env 3) (idle_server [0x82, 0, 3]) True = Some (0, w')"
    "conf_of w' = (STATE_IDLE, None)"
    using empty_put_served by blast
  from server_one_answer [OF link_env_quiet(2) idle_server_inv w'(1)] w' show ?thesis
    by (auto simp: conf_of_def)
qed

lemma okres_None: "okres (\<lambda>_. False) r \<Longrightarrow> r = None"
  by (simp add: okres_def split: option.splits)

lemma no_object [simp]:
  "view w = (st, None, x) \<Longrightarrow> cur_opcode w = None" "view w = (st, None, x) \<Longrightarrow> cur_obj w = None"
  "view w = (st, None, x) \<Longrightarrow> upd_cur w f = None"
  by (auto simp: view_def cur_opcode_def cur_obj_def upd_cur_def)

text \<open>
  After \<open>lost\<close> the handle cannot be used: a server in STATE_REC or STATE_SEND without an object
  dereferences NULL for every packet, also for ABORT.
\<close>

theorem server_stuck_without_object:
  assumes "quiet_app E" and "fst (state (hnd w)) = MODE_SRV" and "snd (state (hnd w)) \<in> {STATE_REC, STATE_SEND}"
    and "cur_object (hnd w) = None"
  shows "obex_server E w final = None"
proof (rule okres_None)
  have v: "view w = (state (hnd w), None, None)" using assms(4) by (simp add: view_def)
  have pol: "polite unseen (\<lambda>_ _. True) E" by (rule quiet_polite [OF assms(1)])
  have abort: "okres (\<lambda>_. False) (server_abort E w c)" for c
    using v unfolding server_abort_def Let_def by (auto intro!: conf.wp_response_request [OF pol])
  have bad: "okres (\<lambda>_. False) (server_bad_request E w c)" for c
    using v unfolding server_bad_request_def Let_def by (auto intro!: conf.wp_response_request [OF pol])
  have recv: "obex_object_receive E w = None" using assms(4) by (simp add: obex_object_receive_def)
  have send: "okres (\<lambda>_. False) (server_send E w c n)" for c n
    using abort bad recv v by (simp add: server_send_def)
  have rec: "okres (\<lambda>_. False) (server_rec E w c n f)" for c n f
    using abort v by (simp add: server_rec_def)
  show "okres (\<lambda>_. False) (obex_server E w final)"
    using assms(3) send rec unfolding obex_server_def Let_def by (auto intro!: wp_pure)
qed

theorem server_stuck_without_object_witness:
  "\<exists>w'. obex_server (link_env (-1)) (idle_server [0x82, 0, 3]) True = Some (-1, w')
     \<and> obex_server (link_env (-1)) (set_rx w' (buf_holding [0xFF, 0, 3] 0)) True = None"
proof -
  obtain w' where w': "obex_server (link_env (-1)) (idle_server [0x82, 0, 3]) True = Some (-1, w')"
    "state (hnd w') = (MODE_SRV, STATE_SEND)" "cur_object (hnd w') = None"
    using empty_put_run [of "-1"] by auto
  then have "obex_server (link_env (-1)) (set_rx w' (buf_holding [0xFF, 0, 3] 0)) True = None"
    by (intro server_stuck_without_object) simp_all
  with w'(1) show ?thesis by blast
qed

end
