(* ===== verification/Client_Automaton.thy ===== *)
theory Client_Automaton
  imports Server_Automaton
begin

text \<open>The client of lib/obex_client.c as an automaton, in the same way as the server.\<close>

section \<open>The client as an automaton\<close>

type_synonym client_conf = "(obex_mode \<times> obex_state) \<times> addr option"

inductive client_move :: "byte \<Rightarrow> client_conf \<Rightarrow> int \<Rightarrow> client_conf \<Rightarrow> bool" for rsp :: byte where
  nothing: "client_move rsp ((MODE_CLI, STATE_START), None) (-1) ((MODE_CLI, STATE_START), None)"
| idle: "client_move rsp ((MODE_CLI, STATE_IDLE), ob) (-1) ((MODE_CLI, STATE_IDLE), None)"
| request: "s = STATE_START \<or> s = STATE_SEND \<and> rsp \<in> {OBEX_RSP_SUCCESS, OBEX_RSP_CONTINUE}
    \<Longrightarrow> client_move rsp ((MODE_CLI, s), Some a) 0 ((MODE_CLI, STATE_REC), Some a)"
| no_link: "s = STATE_START \<or> s = STATE_SEND \<and> rsp \<in> {OBEX_RSP_SUCCESS, OBEX_RSP_CONTINUE}
    \<Longrightarrow> client_move rsp ((MODE_CLI, s), Some a) 0 ((MODE_CLI, STATE_IDLE), None)"
| refused: "rsp \<notin> {OBEX_RSP_SUCCESS, OBEX_RSP_CONTINUE}
    \<Longrightarrow> client_move rsp ((MODE_CLI, STATE_SEND), Some a) 0 ((MODE_CLI, STATE_SEND), None)"
| continue: "rsp = OBEX_RSP_CONTINUE
    \<Longrightarrow> client_move rsp ((MODE_CLI, STATE_REC), Some a) 0 ((MODE_CLI, STATE_REC), Some a)"
| broken: "rsp = OBEX_RSP_CONTINUE
    \<Longrightarrow> client_move rsp ((MODE_CLI, STATE_REC), Some a) 0 ((MODE_CLI, STATE_REC), None)"
| complete: "rsp \<noteq> OBEX_RSP_CONTINUE
    \<Longrightarrow> client_move rsp ((MODE_CLI, STATE_REC), Some a) 0 ((MODE_SRV, STATE_IDLE), None)"
| garbage: "s \<in> {STATE_SEND, STATE_REC}
    \<Longrightarrow> client_move rsp ((MODE_CLI, s), Some a) (-1) ((MODE_SRV, STATE_IDLE), None)"

text \<open>The response code of the message that is handled, as the code reads it.\<close>

definition response_of :: "'e world \<Rightarrow> bool \<Rightarrow> byte" where
  "response_of w has_msg =
     (if has_msg then buf_ptr (rx_msg (hnd w)) ! 0 AND NOT OBEX_FINAL else OBEX_RSP_BAD_REQUEST)"

inductive_cases client_move_recE: "client_move rsp ((MODE_CLI, STATE_REC), Some a) r c"

definition alive_view :: "obex_mode \<times> obex_state \<Rightarrow> addr option \<Rightarrow> (obex_mode \<times> obex_state) \<times> addr option \<times> bool option" where
  "alive_view st ob = (st, ob, map_option (\<lambda>_. True) ob)"

lemma alive_view_simps [simp]:
  "alive_view st ob = alive_view st' ob' \<longleftrightarrow> st = st' \<and> ob = ob'"
  "(st, None, None) = alive_view st' ob' \<longleftrightarrow> st = st' \<and> ob' = None"
  "(st, snd (alive_view st0 ob)) = alive_view st' ob' \<longleftrightarrow> st = st' \<and> ob = ob'"
  by (auto simp: alive_view_def)

lemma alive_viewD:
  "view w = alive_view st ob \<Longrightarrow> state (hnd w) = st"
  "view w = alive_view st ob \<Longrightarrow> cur_object (hnd w) = ob"
  "view w = alive_view st (Some a) \<Longrightarrow> \<exists>x. objs w a = Some x"
  by (auto simp: view_def alive_view_def)

definition client_moves :: "('e world \<Rightarrow> 'x) \<Rightarrow> ('x \<Rightarrow> 'x \<Rightarrow> bool) \<Rightarrow> 'x \<Rightarrow> byte \<Rightarrow> client_conf
    \<Rightarrow> int \<times> 'e world \<Rightarrow> bool" where
  "client_moves cnt sends k rsp c = (\<lambda>(r, w'). \<exists>st' ob'. view w' = alive_view st' ob' \<and> client_move rsp c r (st', ob')
     \<and> (sends k (cnt w') \<or> cnt w' = k))"

lemma client_moves_simps [simp]:
  "view w' = alive_view st' ob' \<Longrightarrow> client_moves cnt sends k rsp c (r, w') \<longleftrightarrow>
     client_move rsp c r (st', ob') \<and> (sends k (cnt w') \<or> cnt w' = k)"
  "view w' = (st', None, None) \<Longrightarrow> client_moves cnt sends k rsp c (r, w') \<longleftrightarrow>
     client_move rsp c r (st', None) \<and> (sends k (cnt w') \<or> cnt w' = k)"
  by (cases st'; auto simp: client_moves_def)+

context observer
begin

lemma wp_client_parse_error [wp]:
  assumes "polite cnt sends E" "\<And>w'. view w' = ((MODE_SRV, STATE_IDLE), None, None) \<Longrightarrow> cnt w' = cnt w \<Longrightarrow> P (-1, w')"
  shows "okres P (client_parse_error E w)"
  using assms unfolding client_parse_error_def Let_def by (auto intro!: wp)

lemma client_start_moves:
  assumes "polite cnt sends E" "view w = alive_view (MODE_CLI, s) ob" "s = STATE_START \<or> s = STATE_SEND \<and> ob \<noteq> None \<and> rsp \<in> {OBEX_RSP_SUCCESS, OBEX_RSP_CONTINUE}"
  shows "okres (client_moves cnt sends (cnt w) rsp ((MODE_CLI, s), ob)) (client_start E w rsp)"
  using assms unfolding client_start_def Let_def
  by (cases ob) (auto intro!: wp simp: alive_viewD client_move.simps)

lemma client_send_moves:
  assumes "polite cnt sends E" "view w = alive_view (MODE_CLI, STATE_SEND) (Some a)"
  shows "okres (client_moves cnt sends (cnt w) rsp ((MODE_CLI, STATE_SEND), Some a)) (client_send E w rsp len)"
proof -
  have start: "okres (client_moves cnt sends (cnt w) r ((MODE_CLI, STATE_SEND), Some a)) (client_start E w' r)"
    if "view w' = alive_view (MODE_CLI, STATE_SEND) (Some a)" "cnt w' = cnt w"
      "r = OBEX_RSP_SUCCESS \<or> r = OBEX_RSP_CONTINUE" for w' r
    using client_start_moves [OF assms(1) that(1), of r] that(2,3) by simp
  show ?thesis
    using assms unfolding client_send_def Let_def
    by (auto intro!: wp start okresI [where r = len] simp: alive_viewD client_move.simps)
qed

lemma client_continue_moves:
  assumes "polite cnt sends E" "view w = alive_view (MODE_CLI, STATE_REC) (Some a)" "rsp = OBEX_RSP_CONTINUE"
  shows "okres (client_moves cnt sends (cnt w) rsp ((MODE_CLI, STATE_REC), Some a)) (client_continue E w)"
  using assms unfolding client_continue_def Let_def
  by (auto intro!: wp simp: alive_viewD client_move.simps)

lemma client_done_moves:
  assumes "polite cnt sends E" "view w = alive_view (MODE_CLI, STATE_REC) (Some a)" "rsp \<noteq> OBEX_RSP_CONTINUE"
  shows "okres (client_moves cnt sends (cnt w) rsp ((MODE_CLI, STATE_REC), Some a)) (client_done E w rsp)"
  using assms unfolding client_done_def Let_def
  by (auto intro!: wp simp: alive_viewD client_move.simps)

lemma client_rec_moves:
  assumes "polite cnt sends E" "view w = alive_view (MODE_CLI, STATE_REC) (Some a)"
  shows "okres (client_moves cnt sends (cnt w) rsp ((MODE_CLI, STATE_REC), Some a)) (client_rec E w rsp)"
proof -
  note more = client_continue_moves [OF assms(1)] client_done_moves [OF assms(1)]
  have tail: "okres (client_moves cnt sends (cnt w) rsp ((MODE_CLI, STATE_REC), Some a))
      (if r < 0 then client_parse_error E w' else if rsp = OBEX_RSP_CONTINUE then client_continue E w'
       else client_done E w' rsp)"
    if "view w' = alive_view (MODE_CLI, STATE_REC) (Some a)" "cnt w' = cnt w" for w' and r :: int
    using more [OF that(1)] that assms(1)
    by (auto intro!: wp simp: client_move.simps)
  show ?thesis
    using assms unfolding client_rec_def Let_def
    by (auto intro!: wp tail simp: alive_viewD client_move.simps)
qed

lemma obex_client_moves:
  assumes "polite cnt sends E" "view w = alive_view (MODE_CLI, s) ob" "ob = None \<longrightarrow> s = STATE_START \<or> s = STATE_IDLE"
  shows "okres (client_moves cnt sends (cnt w) (response_of w has_msg) ((MODE_CLI, s), ob)) (obex_client E w has_msg)"
proof -
  define rsp where "rsp = response_of w has_msg"
  have run: "okres (client_moves cnt sends (cnt w) rsp ((MODE_CLI, s), ob))
     (case state (hnd w) of
        (MODE_CLI, STATE_SEND) \<Rightarrow> client_send E w rsp len
      | (MODE_CLI, STATE_START) \<Rightarrow> client_start E w rsp
      | (MODE_CLI, STATE_REC) \<Rightarrow> (if has_msg then client_rec E w rsp else None)
      | _ \<Rightarrow> do { w \<leftarrow> obex_deliver_event E w OBEX_EV_PARSEERR rsp 0 True; Some (-1, w) })" for len
  proof (cases s)
    case STATE_IDLE
    then show ?thesis using assms by (auto intro!: wp simp: alive_viewD client_move.simps)
  next
    case STATE_START
    then show ?thesis using assms by (auto intro!: wp client_start_moves simp: alive_viewD)
  next
    case STATE_SEND
    then show ?thesis using assms by (auto intro!: wp client_send_moves simp: alive_viewD)
  next
    case STATE_REC
    then show ?thesis using assms by (auto intro!: wp client_rec_moves simp: alive_viewD)
  qed
  show ?thesis
  proof (cases "has_msg \<and> mem_read (buf_ptr (rx_msg (hnd w))) 0 3 = None")
    case False
    have "\<exists>len. obex_client E w has_msg = (case state (hnd w) of
        (MODE_CLI, STATE_SEND) \<Rightarrow> client_send E w rsp len
      | (MODE_CLI, STATE_START) \<Rightarrow> client_start E w rsp
      | (MODE_CLI, STATE_REC) \<Rightarrow> (if has_msg then client_rec E w rsp else None)
      | _ \<Rightarrow> do { w \<leftarrow> obex_deliver_event E w OBEX_EV_PARSEERR rsp 0 True; Some (-1, w) })"
    proof (cases has_msg)
      case True
      then obtain d where d: "mem_read (buf_ptr (rx_msg (hnd w))) 0 3 = Some d" using False by auto
      then have "d ! 0 AND NOT OBEX_FINAL = rsp" using True by (auto simp: rsp_def response_of_def mem_read_def split: if_splits)
      then show ?thesis unfolding obex_client_def d if_P [OF True] bind.bind_lunit by (intro exI) simp
    next
      case False
      then have "rsp = OBEX_RSP_BAD_REQUEST" by (simp add: rsp_def response_of_def)
      then show ?thesis unfolding obex_client_def \<open>rsp = OBEX_RSP_BAD_REQUEST\<close> using False
        by (intro exI [of _ None]) simp
    qed
    then show ?thesis using run unfolding rsp_def [symmetric] by auto
  qed (simp add: obex_client_def)
qed

end

section \<open>Properties\<close>

definition client_inv :: "'e world \<Rightarrow> bool" where
  "client_inv w \<longleftrightarrow> fst (state (hnd w)) = MODE_CLI
     \<and> (case cur_object (hnd w) of None \<Rightarrow> snd (state (hnd w)) \<in> {STATE_START, STATE_IDLE} | Some a \<Rightarrow> objs w a \<noteq> None)"

definition client_conf_of :: "'e world \<Rightarrow> client_conf" where
  "client_conf_of w = (state (hnd w), cur_object (hnd w))"

lemma client_inv_view:
  assumes "client_inv w"
  obtains s ob where "view w = alive_view (MODE_CLI, s) ob" "ob = None \<longrightarrow> s = STATE_START \<or> s = STATE_IDLE"
    "client_conf_of w = ((MODE_CLI, s), ob)"
proof (rule that [of "snd (state (hnd w))" "cur_object (hnd w)"])
  show "view w = alive_view (MODE_CLI, snd (state (hnd w))) (cur_object (hnd w))"
    using assms by (cases "state (hnd w)") (auto simp: client_inv_def view_def alive_view_def split: option.splits)
qed (use assms in \<open>auto simp: client_inv_def client_conf_of_def prod_eq_iff split: option.splits\<close>)

text \<open>An example: a client about to send an empty PUT.\<close>

definition put_client :: "byte list list world" where
  "put_client = (let w = ex_world (ex_object []) in set_state w (MODE_CLI, STATE_START))"

lemma put_client_inv [simp]: "client_inv put_client"
  by (simp add: client_inv_def put_client_def)

lemma put_client_start:
  "\<exists>w'. obex_client (link_env 3) put_client False = Some (0, w') \<and> ext w' = [[0x82, 0, 3]]
     \<and> client_conf_of w' = ((MODE_CLI, STATE_REC), Some 1) \<and> objs w' 1 \<noteq> None"
proof -
  let ?w = put_client
  have p: "tport (hnd ?w) = tport ex_handle" "ctrans (hnd ?w) = ctrans ex_handle" "ext ?w = []"
    "cur_object (hnd ?w) = Some 1" "objs ?w 1 = Some (ex_object [])" "tx_msg (hnd ?w) = buf_holding [] 1024"
    "state (hnd ?w) = (MODE_CLI, STATE_START)"
    by (simp_all add: put_client_def)
  obtain msg where m: "obex_data_request (link_env 3) (set_tx ?w (buf_reuse (buf_holding [] 1024))) 0x82
     = Some (3, ?w\<lparr>hnd := (hnd ?w)\<lparr>tx_msg := msg\<rparr>, ext := [[0x82, 0, 3]]\<rparr>)"
    by (rule example_answer [OF p(1-3)])
  define w1 where "w1 = ?w\<lparr>hnd := (hnd ?w)\<lparr>tx_msg := msg\<rparr>, ext := [[0x82, 0, 3]]\<rparr>"
  have "obex_object_send (link_env 3) ?w 1 True False = Some (1, w1)"
    using p m by (simp add: obex_object_send_def send_nonhdr_def send_headers.simps send_opcode_def w1_def)
  then have "obex_client (link_env 3) ?w False = Some (0, w1\<lparr>objs := (objs w1)(1 \<mapsto> (ex_object [])\<lparr>first_packet_sent := True\<rparr>),
      hnd := (hnd w1)\<lparr>state := (MODE_CLI, STATE_REC)\<rparr>\<rparr>)"
    using p by (simp add: obex_client_def client_start_def w1_def cur_opcode_def obex_deliver_event_def)
  then show ?thesis using p by (simp add: w1_def client_conf_of_def)
qed

lemma client_step:
  assumes "quiet_app E" and "client_inv w" and "obex_client E w has_msg = Some (r, w')"
  shows "client_move (response_of w has_msg) (client_conf_of w) r (client_conf_of w')
     \<and> (\<forall>a. cur_object (hnd w') = Some a \<longrightarrow> objs w' a \<noteq> None)"
proof -
  obtain s ob where v: "view w = alive_view (MODE_CLI, s) ob" "ob = None \<longrightarrow> s = STATE_START \<or> s = STATE_IDLE"
    "client_conf_of w = ((MODE_CLI, s), ob)"
    by (rule client_inv_view [OF assms(2)])
  from okresD [OF conf.obex_client_moves [OF quiet_polite [OF assms(1)] v(1,2)] assms(3)]
  obtain st' ob' where m: "view w' = alive_view st' ob'" "client_move (response_of w has_msg) ((MODE_CLI, s), ob) r (st', ob')"
    unfolding client_moves_def by blast
  have "client_conf_of w' = (st', ob')" using alive_viewD(1,2) [OF m(1)] by (simp add: client_conf_of_def)
  moreover have "\<forall>a. cur_object (hnd w') = Some a \<longrightarrow> objs w' a \<noteq> None"
    using m(1) by (auto simp: view_def alive_view_def)
  ultimately show ?thesis using m(2) v(3) by simp
qed



text \<open>
  C15: lock step on the client's side: with a custom transport, one call sends at most one packet.
\<close>

theorem client_one_request:
  assumes "logging_app taken E" and "client_inv w" and "obex_client E w has_msg = Some (r, w')"
    and "t_type (tport (hnd w)) = OBEX_TRANS_CUSTOM" and "ct_write (ctrans (hnd w)) \<noteq> 0"
  shows "\<exists>ps. taken (ext w') = taken (ext w) @ ps \<and> length ps \<le> 1"
proof -
  obtain s ob where v: "view w = alive_view (MODE_CLI, s) ob" "ob = None \<longrightarrow> s = STATE_START \<or> s = STATE_IDLE"
    by (rule client_inv_view [OF assms(2)])
  from okresD [OF lock.obex_client_moves [OF logging_polite [OF assms(1)] v] assms(3)]
  have "sends_one (link taken w) (link taken w') \<or> link taken w' = link taken w"
    unfolding client_moves_def by blast
  moreover have "is_custom (link taken w)" using assms(4,5) by (simp add: is_custom_def link_def)
  ultimately show ?thesis by (auto simp: sends_one_def link_def)
qed

theorem client_one_request_witness:
  "\<exists>w' ps. obex_client (link_env 3) put_client False = Some (0, w') \<and> ext w' = [] @ ps \<and> length ps \<le> 1
     \<and> ps = [[0x82, 0, 3]]"
proof -
  obtain w' where w': "obex_client (link_env 3) put_client False = Some (0, w')" "ext w' = [[0x82, 0, 3]]"
    using put_client_start by blast
  from client_one_request [OF link_env_quiet(2) put_client_inv w'(1)] w' show ?thesis
    by (auto simp: put_client_def)
qed

lemma view_reused: "view (w\<lparr>hnd := (hnd w)\<lparr>tx_msg := b, rx_msg := b'\<rparr>\<rparr>) = view w"
  by (simp add: view_def)

text \<open>
  Dropping a request without asking the peer (\<open>nice\<close> is 0) frees the object but leaves a client in
  STATE_REC: the answer to the request, which is still under way, dereferences NULL when it arrives.
\<close>

theorem cancel_leaves_dead_client:
  assumes "quiet_app E" and "state (hnd w) = (MODE_CLI, STATE_REC)" and "cur_object (hnd w) = Some a"
    and "obex_cancelrequest E w False = Some (r, w')"
  shows "r = 1 \<and> state (hnd w') = (MODE_CLI, STATE_REC) \<and> cur_object (hnd w') = None
     \<and> obex_client E (set_rx w' b) True = None"
proof -
  have pol: "polite unseen (\<lambda>_ _. True) E" by (rule quiet_polite [OF assms(1)])
  have "okres (\<lambda>(r, w'). r = 1 \<and> view w' = ((MODE_CLI, STATE_REC), None, None)) (obex_cancelrequest E w False)"
    using assms(2,3) unfolding obex_cancelrequest_def Let_def
    by (auto intro!: conf.wp_event_final [OF pol] conf.wp_event [OF pol] simp: view_reused)
  from okresD [OF this assms(4)]
  have v: "r = 1" "view w' = ((MODE_CLI, STATE_REC), None, None)" by auto
  then have s: "state (hnd w') = (MODE_CLI, STATE_REC)" "cur_object (hnd w') = None"
    by (simp_all add: view_def)
  then have "cur_opcode (set_rx w' b) = None" by (simp add: cur_opcode_def cur_obj_def)
  then have "client_rec E (set_rx w' b) rsp = None" for rsp by (simp add: client_rec_def)
  then have "obex_client E (set_rx w' b) True = None"
    using s(1) by (simp add: obex_client_def bind_eq_None_conv split: option.splits)
  with v(1) s show ?thesis by simp
qed

theorem cancel_leaves_dead_client_witness:
  "\<exists>w1 w2. obex_client (link_env 3) put_client False = Some (0, w1)
     \<and> obex_cancelrequest (link_env 3) w1 False = Some (1, w2)
     \<and> obex_client (link_env 3) (set_rx w2 (buf_holding [0xA0, 0, 3] 0)) True = None"
proof -
  obtain w1 where w1: "obex_client (link_env 3) put_client False = Some (0, w1)"
    "client_conf_of w1 = ((MODE_CLI, STATE_REC), Some 1)" "objs w1 1 \<noteq> None"
    using put_client_start by blast
  then have c: "state (hnd w1) = (MODE_CLI, STATE_REC)" "cur_object (hnd w1) = Some 1"
    by (simp_all add: client_conf_of_def)
  obtain ob where "objs w1 1 = Some ob" using w1(3) by blast
  then obtain w2 where w2: "obex_cancelrequest (link_env 3) w1 False = Some (1, w2)"
    using c by (simp add: obex_cancelrequest_def obex_deliver_event_def obex_object_delete_Some)
  from cancel_leaves_dead_client [OF link_env_quiet(1) c w2] w1(1) w2 show ?thesis by blast
qed

end
