(* ===== verification/Api_Laws.thy ===== *)
theory Api_Laws
  imports Obex_Api Client_Automaton
begin

text \<open>
  What the application interface (lib/obex.c) promises on top of the parts below it: packets are put
  together from any pieces and served once, a new handle is ready, a request is only taken by a handle that is
  not busy, and text survives the conversions to and from Unicode as far as they allow.
\<close>

section \<open>Reassembly of packets\<close>

text \<open>A custom transport appends what it is fed to the receive buffer, as much as is asked for.\<close>

lemma custom_read_appends:
  assumes "t_type (tport (hnd w)) = OBEX_TRANS_CUSTOM" and "buf_wf (rx_msg (hnd w))"
    and "length d < 2147483648" and "min (length d) k \<le> buf_free_end (rx_msg (hnd w))"
  obtains m where "obex_transport_read E w (int k) (Some d) (int (length d)) = Some (int (min (length d) k), set_rx w m)"
    "buf_wf m" "buf_bytes m = buf_bytes (rx_msg (hnd w)) @ take k d"
    "data_size m = data_size (rx_msg (hnd w)) + min (length d) k" "bf_gen m = bf_gen (rx_msg (hnd w))"
    "buf_free_end m = buf_free_end (rx_msg (hnd w)) - min (length d) k"
proof -
  define n where "n = min (length d) k"
  have l: "length (take k d) = n" and asked: "(if int (length d) > int k then int k else int (length d)) = int n"
    by (simp_all add: n_def)
  have u: "u64 (int n) = n" using assms(3) u64_id [of "int n"] by (simp add: n_def)
  have read: "mem_read d 0 n = Some (take k d)" by (simp add: mem_read_def n_def min_def)
  note room = assms(4) [folded n_def]
  obtain off p1 m where m: "buf_reserve_end (env_alloc E) (rx_msg (hnd w)) n = Some (Some off, p1)"
    "buf_store p1 (Some off) (take k d) = Some m" "buf_wf m" "buf_bytes m = buf_bytes (rx_msg (hnd w)) @ take k d"
    "data_size m = data_size (rx_msg (hnd w)) + n"
    "n \<le> buf_free_end (rx_msg (hnd w)) \<Longrightarrow> bf_gen m = bf_gen (rx_msg (hnd w)) \<and> buf_free_end m = buf_free_end (rx_msg (hnd w)) - n"
    by (rule buf_reserve_store_end [OF assms(2), of "env_alloc E" "take k d", unfolded l, OF buf_room_fits [OF assms(2) room]]) blast
  have "obex_transport_read E w (int k) (Some d) (int (length d)) = Some (int n, set_rx w m)"
    unfolding obex_transport_read_def Let_def asked by (simp add: assms(1) u read m(1,2))
  then show ?thesis using m(3-5) m(6) [OF room] by (intro that [of m]) (simp_all add: n_def)
qed

text \<open>A packet as the length field of its header says.\<close>

definition framed :: "byte list \<Rightarrow> bool" where
  "framed p \<longleftrightarrow> 3 \<le> length p \<and> length p < 65536 \<and> rd16 (p ! 1) (p ! 2) = length p"

text \<open>What feeding \<open>d\<close> after \<open>b\<close>, the beginning of the packet \<open>p\<close>, does.\<close>

definition fed :: "'e env \<Rightarrow> 'e world \<Rightarrow> byte list \<Rightarrow> byte list \<Rightarrow> byte list \<Rightarrow> (int \<times> 'e world) option \<Rightarrow> bool" where
  "fed E w p b d res \<longleftrightarrow> (\<exists>m. buf_wf m \<and> buf_bytes m = b @ d
     \<and> length p - length (b @ d) \<le> buf_free_end m
     \<and> (if length (b @ d) = length p then res = indicate_dispatch E (set_rx w m) (p ! 0)
        else \<exists>r \<ge> 0. res = Some (r, set_rx w m)))"

lemma indicate_packet_fed:
  assumes "t_type (tport (hnd w)) = OBEX_TRANS_CUSTOM" and "buf_wf (rx_msg (hnd w))" and "buf_bytes (rx_msg (hnd w)) = b"
    and "b @ d @ rest = p" and "framed p" and "3 \<le> length b" and "length p - length b \<le> buf_free_end (rx_msg (hnd w))"
  shows "fed E w p b d (indicate_packet E w (Some d) (int (length d)))"
proof -
  have size: "data_size (rx_msg (hnd w)) = length b" using length_buf_bytes [OF assms(2)] assms(3) by simp
  have "take 3 b = take 3 p" using assms(4,6) by auto
  then have hdr: "take 3 b ! 1 = p ! 1" "take 3 b ! 2 = p ! 2" by simp_all
  have read: "mem_read (buf_ptr (rx_msg (hnd w))) 0 3 = Some (take 3 b)"
    using mem_read_bytes [OF assms(2), of 0 3] assms(3,6) size by simp
  have p: "rd16 (p ! 1) (p ! 2) = length p" "length p < 65536" using assms(5) by (simp_all add: framed_def)
  have byte0: "mem_read (buf_ptr m) 0 1 = Some [p ! 0]" if "buf_wf m" "buf_bytes m = b @ d" "rest = []" for m
  proof -
    have "buf_bytes m = p" using that assms(4) by simp
    then show ?thesis using mem_read_bytes [OF that(1), of 0 1] length_buf_bytes [OF that(1)] assms(5)
      by (cases p) (auto simp: framed_def)
  qed
  show ?thesis
  proof (cases "length b < length p")
    case False
    then have "d = []" "rest = []" using assms(4) by auto
    then have eq: "p = b" "length d = 0" using assms(4) by simp_all
    have same: "set_rx w (rx_msg (hnd w)) = w" by simp
    have "indicate_packet E w (Some d) (int (length d)) = indicate_dispatch E w (p ! 0)"
      using byte0 [OF assms(2)] \<open>d = []\<close> \<open>rest = []\<close> assms(3) hdr p
      by (simp add: indicate_packet_def read size eq)
    then show ?thesis unfolding fed_def
      by (intro exI [of _ "rx_msg (hnd w)"]) (use same assms(2,3) eq in simp)
  next
    case True
    have k: "int (length p) - int (length b) = int (length p - length b)" using True by simp
    have fit: "length d \<le> length p - length b" using assms(4) by auto
    then have take: "take (length p - length b) d = d" "min (length d) (length p - length b) = length d" by simp_all
    have small: "length d < 2147483648" using fit p(2) by simp
    have room: "min (length d) (length p - length b) \<le> buf_free_end (rx_msg (hnd w))" using assms(7) by simp
    obtain m where m: "obex_transport_read E w (int (length p - length b)) (Some d) (int (length d)) = Some (int (length d), set_rx w m)"
      "buf_wf m" "buf_bytes m = b @ d" "data_size m = length b + length d" "bf_gen m = bf_gen (rx_msg (hnd w))"
      "buf_free_end m = buf_free_end (rx_msg (hnd w)) - length d"
      by (rule custom_read_appends [OF assms(1,2) small room, where E = E, unfolded take assms(3) size])
    have all: "length p = length b + length d + length rest" using assms(4) by auto
    have rxm: "rx_msg (hnd (set_rx w m)) = m" by simp
    have "indicate_packet E w (Some d) (int (length d)) = (if length (b @ d) = length p
        then indicate_dispatch E (set_rx w m) (p ! 0) else Some (int (length (b @ d)), set_rx w m))"
      unfolding indicate_packet_def Let_def read bind.bind_lunit hdr p(1) size if_P [OF True] k m(1) prod.case rxm m(4,5)
      using byte0 [OF m(2,3)] all by simp
    then show ?thesis
      unfolding fed_def by (intro exI [of _ m]) (use m(2,3,6) all assms(7) in auto)
  qed
qed


lemma feed_step:
  assumes "t_type (tport (hnd w)) = OBEX_TRANS_CUSTOM" and "buf_wf (rx_msg (hnd w))" and "buf_bytes (rx_msg (hnd w)) = b"
    and "b @ d @ rest = p" and "framed p" and "length p - length b \<le> buf_free_end (rx_msg (hnd w))"
  shows "fed E w p b d (OBEX_CustomDataFeed E w (Some d) (int (length d)))"
proof (cases "3 \<le> length b")
  case True
  have size: "\<not> data_size (rx_msg (hnd w)) < 3" using length_buf_bytes [OF assms(2)] assms(3) True by simp
  show ?thesis
    using indicate_packet_fed [OF assms(1-5) True assms(6), of E] size
    by (simp add: OBEX_CustomDataFeed_def obex_data_indication_def)
next
  case False
  have size: "data_size (rx_msg (hnd w)) = length b" using length_buf_bytes [OF assms(2)] assms(3) by simp
  have k: "3 - int (length b) = int (3 - length b)" using False by simp
  have all: "length p = length b + length d + length rest" using assms(4) by auto
  have p: "3 \<le> length p" "length p < 65536" using assms(5) by (simp_all add: framed_def)
  have small: "length d < 2147483648" using all p(2) by simp
  define n where "n = min (length d) (3 - length b)"
  have room: "n \<le> buf_free_end (rx_msg (hnd w))" using assms(6) all by (simp add: n_def)
  obtain m where m: "obex_transport_read E w (int (3 - length b)) (Some d) (int (length d)) = Some (int n, set_rx w m)"
      "buf_wf m" "buf_bytes m = b @ take (3 - length b) d" "data_size m = length b + n"
      "buf_free_end m = buf_free_end (rx_msg (hnd w)) - n"
    by (rule custom_read_appends [OF assms(1,2) small, where E = E and k = "3 - length b", folded n_def, OF room, unfolded assms(3) size])
  have rxm: "rx_msg (hnd (set_rx w m)) = m" "nat (int n) = n" "int (length d) - int n = int (length (drop n d))"
    by (simp_all add: n_def)
  have call: "OBEX_CustomDataFeed E w (Some d) (int (length d))
     = (if 3 \<le> length b + n then indicate_packet E (set_rx w m) (Some (drop n d)) (int (length (drop n d)))
        else Some (int n, set_rx w m))"
    unfolding OBEX_CustomDataFeed_def obex_data_indication_def size k m(1) bind.bind_lunit prod.case Let_def rxm m(4)
    using False by simp
  show ?thesis
  proof (cases "3 \<le> length b + n")
    case True
    have bd: "buf_bytes m = b @ take n d" using m(3) by (simp add: n_def min_def)
    have parts: "(b @ take n d) @ drop n d @ rest = p" using assms(4) by (metis append.assoc append_take_drop_id)
    have "fed E (set_rx w m) p (b @ take n d) (drop n d) (indicate_packet E (set_rx w m) (Some (drop n d)) (int (length (drop n d))))"
      by (rule indicate_packet_fed [OF _ _ _ parts assms(5)])
         (use assms(1,6) m(2,5) bd True in \<open>simp_all add: n_def\<close>)
    then show ?thesis unfolding call using True by (auto simp: fed_def)
  next
    case False
    then have "n = length d" "take (3 - length b) d = d" by (auto simp: n_def min_def split: if_splits)
    then show ?thesis unfolding call fed_def using False m(2,3,5) p(1) assms(6)
      by (intro exI [of _ m]) simp
  qed
qed

text \<open>Feeding pieces one after the other, as long as they are accepted.\<close>

fun feed_run :: "'e env \<Rightarrow> byte list list \<Rightarrow> 'e world \<Rightarrow> 'e world option" where
  "feed_run E [] w = Some w"
| "feed_run E (d # ds) w = do {
     (r, w) \<leftarrow> OBEX_CustomDataFeed E w (Some d) (int (length d));
     (if r < 0 then None else feed_run E ds w) }"

lemma feed_run_pieces:
  "t_type (tport (hnd w)) = OBEX_TRANS_CUSTOM \<Longrightarrow> buf_wf (rx_msg (hnd w)) \<Longrightarrow> buf_bytes (rx_msg (hnd w)) = b \<Longrightarrow>
   b @ concat ds @ rest = p \<Longrightarrow> rest \<noteq> [] \<Longrightarrow> framed p \<Longrightarrow> length p - length b \<le> buf_free_end (rx_msg (hnd w)) \<Longrightarrow>
   \<exists>m. feed_run E ds w = Some (set_rx w m) \<and> buf_wf m \<and> buf_bytes m = b @ concat ds
     \<and> length p - length (b @ concat ds) \<le> buf_free_end m"
proof (induction ds arbitrary: w b)
  case Nil
  then show ?case by (intro exI [of _ "rx_msg (hnd w)"]) simp
next
  case (Cons d ds)
  have "fed E w p b d (OBEX_CustomDataFeed E w (Some d) (int (length d)))"
    by (rule feed_step [OF Cons.prems(1-3) _ Cons.prems(6,7), of d "concat ds @ rest"]) (use Cons.prems(4) in simp)
  moreover have "length (b @ d) \<noteq> length p" using Cons.prems(4,5) by auto
  ultimately obtain m r where m: "OBEX_CustomDataFeed E w (Some d) (int (length d)) = Some (r, set_rx w m)" "0 \<le> r"
    "buf_wf m" "buf_bytes m = b @ d" "length p - length (b @ d) \<le> buf_free_end m"
    unfolding fed_def by auto
  have "\<exists>m'. feed_run E ds (set_rx w m) = Some (set_rx (set_rx w m) m') \<and> buf_wf m' \<and> buf_bytes m' = (b @ d) @ concat ds
     \<and> length p - length ((b @ d) @ concat ds) \<le> buf_free_end m'"
    by (rule Cons.IH) (use Cons.prems m in simp_all)
  then show ?case using m(1,2) by simp
qed

lemma reassembled:
  assumes "t_type (tport (hnd w)) = OBEX_TRANS_CUSTOM" and "buf_wf (rx_msg (hnd w))" and "data_size (rx_msg (hnd w)) = 0"
    and "framed p" and "length p \<le> buf_free_end (rx_msg (hnd w))" and "concat ds @ d = p" and "d \<noteq> []"
  shows "\<exists>m m'. feed_run E ds w = Some (set_rx w m) \<and> buf_bytes m = concat ds
    \<and> OBEX_CustomDataFeed E (set_rx w m) (Some d) (int (length d)) = indicate_dispatch E (set_rx w m') (p ! 0)
    \<and> buf_wf m' \<and> buf_bytes m' = p"
proof -
  have b: "buf_bytes (rx_msg (hnd w)) = []" using length_buf_bytes [OF assms(2)] assms(3) by simp
  from feed_run_pieces [OF assms(1,2) b _ assms(7,4), of ds E] assms(5,6) obtain m where m:
    "feed_run E ds w = Some (set_rx w m)" "buf_wf m" "buf_bytes m = concat ds" "length p - length (concat ds) \<le> buf_free_end m"
    by auto
  have "fed E (set_rx w m) p (concat ds) d (OBEX_CustomDataFeed E (set_rx w m) (Some d) (int (length d)))"
    by (rule feed_step [where rest = "[]"]) (use assms m in simp_all)
  then obtain m' where "OBEX_CustomDataFeed E (set_rx w m) (Some d) (int (length d)) = indicate_dispatch E (set_rx (set_rx w m) m') (p ! 0)"
    "buf_wf m'" "buf_bytes m' = p"
    using assms(6) unfolding fed_def by auto
  then show ?thesis using m by auto
qed

text \<open>
  C7: packets are put together again from any pieces. However a packet is cut up on its way, a handle
  with a custom transport that is fed the pieces keeps them and does nothing else until the last one;
  then it handles exactly the packet that was sent, once.
\<close>

theorem pieces_reassemble:
  assumes "t_type (tport (hnd w)) = OBEX_TRANS_CUSTOM" and "buf_wf (rx_msg (hnd w))" and "data_size (rx_msg (hnd w)) = 0"
    and "framed p" and "length p \<le> buf_free_end (rx_msg (hnd w))" and "concat ds @ d = p" and "d \<noteq> []"
  shows "\<exists>m m'. feed_run E ds w = Some (set_rx w m) \<and> buf_bytes m = concat ds
    \<and> OBEX_CustomDataFeed E (set_rx w m) (Some d) (int (length d)) = indicate_dispatch E (set_rx w m') (p ! 0)
    \<and> buf_wf m' \<and> buf_bytes m' = p"
  by (rule reassembled [OF assms])

theorem pieces_reassemble_witness:
  "\<exists>m m'. feed_run (link_env 3) [[0x82], [0]] (set_rx (idle_server []) (buf_holding [] 16)) = Some (set_rx (idle_server []) m)
    \<and> OBEX_CustomDataFeed (link_env 3) (set_rx (idle_server []) m) (Some [3]) 1
        = indicate_dispatch (link_env 3) (set_rx (idle_server []) m') 0x82
    \<and> buf_bytes m' = [0x82, 0, 3]"
proof -
  let ?w = "set_rx (idle_server []) (buf_holding [] 16)"
  have "\<exists>m m'. feed_run (link_env 3) [[0x82], [0]] ?w = Some (set_rx ?w m) \<and> buf_bytes m = concat [[0x82], [0]]
    \<and> OBEX_CustomDataFeed (link_env 3) (set_rx ?w m) (Some [3]) (int (length [3 :: byte]))
      = indicate_dispatch (link_env 3) (set_rx ?w m') ([0x82 :: byte, 0, 3] ! 0) \<and> buf_wf m' \<and> buf_bytes m' = [0x82, 0, 3]"
    by (rule pieces_reassemble)
       (simp_all add: ex_handle_def buf_wf_holding framed_def rd16_def buf_free_end_def)
  then show ?thesis by auto
qed

section \<open>Serving packets that arrive in pieces\<close>

lemma conf_of_set_rx [simp]: "conf_of (set_rx w m) = conf_of w" "server_inv (set_rx w m) = server_inv w"
  by (simp_all add: conf_of_def server_inv_def split: option.splits)

lemma dispatch_to_server:
  assumes "quiet_app E" and "server_inv w" and "data_size (rx_msg (hnd w)) = n" and "n < 65536"
    and "indicate_dispatch E w opc = Some (r, w')"
  shows "\<exists>r0. server_move (conf_of w) r0 (conf_of w') \<and> r = (if r0 < 0 then r0 else int n)
    \<and> (r0 \<noteq> -1 \<longrightarrow> server_inv w') \<and> data_size (rx_msg (hnd w')) = 0"
proof -
  from assms(2) have "fst (state (hnd w)) = MODE_SRV" by (simp add: server_inv_def)
  then obtain r0 w1 where w1: "obex_server E w (opc AND OBEX_FINAL \<noteq> 0) = Some (r0, w1)"
    "r = (if r0 < 0 then r0 else s32 (int (data_size (rx_msg (hnd w)))))" "w' = set_rx w1 (buf_reuse (rx_msg (hnd w1)))"
    using assms(5) by (auto simp: indicate_dispatch_def Let_def split: Option.bind_splits if_splits)
  have "s32 (int (data_size (rx_msg (hnd w)))) = int n" using assms(3,4) by (simp add: s32_id)
  with server_step(1,3) [OF assms(1,2) w1(1)] w1(2,3) show ?thesis
    by (intro exI [of _ r0]) (simp add: buf_reuse_def)
qed

text \<open>
  C26: a request that arrives in pieces is served as one. Feeding an idle or busy server a packet, cut up in any
  way, moves it exactly once, by a move of the server automaton, and leaves the receive buffer empty for
  the next packet; unless the move failed the call returns the length of the packet.
\<close>

theorem pieces_served_once:
  assumes "quiet_app E" and "server_inv w" and "t_type (tport (hnd w)) = OBEX_TRANS_CUSTOM"
    and "buf_wf (rx_msg (hnd w))" and "data_size (rx_msg (hnd w)) = 0"
    and "framed p" and "length p \<le> buf_free_end (rx_msg (hnd w))" and "concat ds @ d = p" and "d \<noteq> []"
    and "feed_run E ds w = Some w1" and "OBEX_CustomDataFeed E w1 (Some d) (int (length d)) = Some (r, w')"
  shows "conf_of w1 = conf_of w \<and> (\<exists>r0. server_move (conf_of w) r0 (conf_of w') \<and> r = (if r0 < 0 then r0 else int (length p))
    \<and> (r0 \<noteq> -1 \<longrightarrow> server_inv w') \<and> data_size (rx_msg (hnd w')) = 0)"
proof -
  obtain m m' where m: "w1 = set_rx w m" "indicate_dispatch E (set_rx w m') (p ! 0) = Some (r, w')"
    "buf_wf m'" "buf_bytes m' = p"
    using reassembled [OF assms(3-9), of E] assms(10,11) by auto
  have n: "data_size (rx_msg (hnd (set_rx w m'))) = length p" "length p < 65536"
    using length_buf_bytes [OF m(3)] m(4) assms(6) by (simp_all add: framed_def)
  have inv: "server_inv (set_rx w m')" using assms(2) by simp
  show ?thesis using dispatch_to_server [OF assms(1) inv n m(2)] m(1) by simp
qed

theorem pieces_served_once_witness:
  "\<exists>w1 w' r0. feed_run (link_env 3) [[0x82], [0]] (set_rx (idle_server []) (buf_holding [] 16)) = Some w1
     \<and> OBEX_CustomDataFeed (link_env 3) w1 (Some [3]) 1 = Some (3, w') \<and> server_move (STATE_IDLE, None) r0 (conf_of w')"
proof -
  let ?E = "link_env 3" and ?w = "set_rx (idle_server []) (buf_holding [] 16)"
  have w: "server_inv ?w" "t_type (tport (hnd ?w)) = OBEX_TRANS_CUSTOM" "buf_wf (rx_msg (hnd ?w))"
    "data_size (rx_msg (hnd ?w)) = 0" "framed [0x82, 0, 3]" "length [0x82, 0, 3 :: byte] \<le> buf_free_end (rx_msg (hnd ?w))"
    "concat [[0x82], [0]] @ [3] = [0x82, 0, 3 :: byte]" "[3 :: byte] \<noteq> []"
    by (simp add: server_inv_def) (simp_all add: ex_handle_def buf_wf_holding framed_def rd16_def buf_free_end_def)
  obtain m m' where m: "feed_run ?E [[0x82], [0]] ?w = Some (set_rx ?w m)"
    "OBEX_CustomDataFeed ?E (set_rx ?w m) (Some [3]) (int (length [3 :: byte]))
       = indicate_dispatch ?E (set_rx ?w m') ([0x82, 0, 3] ! 0)" "buf_wf m'" "buf_bytes m' = [0x82, 0, 3]"
    using reassembled [OF w(2-8), of ?E] by blast
  obtain w1 where w1: "obex_server ?E (set_rx (idle_server []) m') True = Some (0, w1)"
    using empty_put_run_any [OF m(3,4), of 3] by auto
  have "data_size m' = 3" using length_buf_bytes [OF m(3)] m(4) by simp
  then have feed: "OBEX_CustomDataFeed ?E (set_rx ?w m) (Some [3]) (int (length [3 :: byte])) = Some (3, set_rx w1 (buf_reuse (rx_msg (hnd w1))))"
    unfolding m(2) using w1 by (simp add: indicate_dispatch_def s32_id)
  from pieces_served_once [OF link_env_quiet(1) w m(1) feed] m(1) feed show ?thesis
    by (auto simp: conf_of_def)
qed

section \<open>New handles\<close>

text \<open>
  A new handle is ready. \<open>OBEX_Init\<close> makes an idle server without an object and without a link, with an
  empty, well-formed buffer of the announced size for each direction; the packets it sends are at most 255
  bytes long until a peer announces more.
\<close>

theorem init_ready:
  assumes "OBEX_Init A tr cb flags = Some h"
  shows "server_inv (w\<lparr>hnd := h\<rparr>) \<and> conf_of (w\<lparr>hnd := h\<rparr>) = (STATE_IDLE, None) \<and> cb \<noteq> 0 \<and> \<not> t_connected (tport h)
    \<and> buf_wf (rx_msg h) \<and> data_size (rx_msg h) = 0 \<and> buf_cap (rx_msg h) = unat (mtu_rx h)
    \<and> buf_wf (tx_msg h) \<and> data_size (tx_msg h) = 0 \<and> buf_cap (tx_msg h) = unat (mtu_tx_max h)
    \<and> mtu_tx h = 255 \<and> mtu_tx h \<le> mtu_tx_max h"
  using assms
  by (auto simp: OBEX_Init_def Let_def server_inv_def conf_of_def dest!: buf_new_cases split: if_splits Option.bind_splits)

theorem init_ready_witness:
  "\<exists>h. OBEX_Init zero_alloc OBEX_TRANS_CUSTOM 1 0 = Some h \<and> server_inv ((calm_world ())\<lparr>hnd := h\<rparr>)"
proof -
  obtain h where h: "OBEX_Init zero_alloc OBEX_TRANS_CUSTOM 1 0 = Some h"
    using buf_new_generous [OF generous_zero_alloc, of 1024] by (auto simp: OBEX_Init_def zero_alloc_def)
  from init_ready [OF h, of "calm_world ()"] h show ?thesis by simp
qed

section \<open>Requests\<close>

lemma client_move_start:
  "client_move rsp ((MODE_CLI, STATE_START), Some a) r c
   \<Longrightarrow> r = 0 \<and> (c = ((MODE_CLI, STATE_REC), Some a) \<or> c = ((MODE_CLI, STATE_IDLE), None))"
  by (erule client_move.cases) auto

section \<open>Strings\<close>

lemma widen_loop_spec:
  "n \<le> length c \<Longrightarrow> 2 * n \<le> length uc \<Longrightarrow>
   widen_loop c n uc = Some (concat (map (\<lambda>x. [0, x]) (take n c)) @ drop (2 * n) uc)"
proof (induction n arbitrary: uc)
  case (Suc n)
  have w: "mem_write uc (n * 2) [0, c ! n] = Some (take (2 * n) uc @ [0, c ! n] @ drop (2 * Suc n) uc)"
    using Suc.prems by (simp add: mem_write_def mult.commute)
  have "widen_loop c n (take (2 * n) uc @ [0, c ! n] @ drop (2 * Suc n) uc)
      = Some (concat (map (\<lambda>x. [0, x]) (take n c)) @ drop (2 * n) (take (2 * n) uc @ [0, c ! n] @ drop (2 * Suc n) uc))"
    by (rule Suc.IH) (use Suc.prems in simp_all)
  then show ?case using Suc.prems w by (simp add: take_Suc_conv_app_nth)
qed simp

lemma unicode_len_spec:
  "\<forall>x \<in> set cs. snd x \<noteq> 0 \<Longrightarrow> unicode_len (concat (map (\<lambda>(hi, lo). [hi, lo]) cs) @ hi # 0 # rest) = Some (length cs)"
  by (induction cs) auto

lemma unicode_chars_spec:
  "unicode_chars (length cs) (concat (map (\<lambda>(hi, lo). [hi, lo]) cs) @ rest) = map snd cs"
  by (induction cs) auto

text \<open>
  A request is only taken by a handle that is not busy. With a current object, or without one to send,
  the handle is left as it was; otherwise the client starts with the object and waits for the response,
  or is without an object again when the packet could not be sent.
\<close>

theorem request_starts_client:
  assumes "quiet_app E" and "\<And>a. object = Some a \<Longrightarrow> objs w a \<noteq> None" and "OBEX_Request E w object = Some (r, w')"
  shows "if cur_object (hnd w) \<noteq> None then r = - EBUSY \<and> w' = w
    else case object of None \<Rightarrow> r = -1 \<and> w' = w
    | Some a \<Rightarrow> r = 0 \<and> (client_conf_of w' = ((MODE_CLI, STATE_REC), Some a) \<or> client_conf_of w' = ((MODE_CLI, STATE_IDLE), None))"
proof (cases "cur_object (hnd w)")
  case None
  show ?thesis
  proof (cases object)
    case None
    then show ?thesis using assms(3) \<open>cur_object (hnd w) = None\<close> by (simp add: OBEX_Request_def)
  next
    case (Some a)
    define w1 where "w1 = upd_hnd w (\<lambda>h. h\<lparr>cur_object := Some a, state := (MODE_CLI, STATE_START)\<rparr>)"
    have inv: "client_inv w1" "client_conf_of w1 = ((MODE_CLI, STATE_START), Some a)"
      using assms(2) [OF Some] by (simp_all add: w1_def client_inv_def client_conf_of_def)
    have "obex_client E w1 False = Some (r, w')" using assms(3) None Some by (simp add: OBEX_Request_def w1_def)
    from client_step [OF assms(1) inv(1) this] have "client_move (response_of w1 False) ((MODE_CLI, STATE_START), Some a) r (client_conf_of w')"
      unfolding inv(2) by blast
    from client_move_start [OF this] show ?thesis using None Some by simp
  qed
qed (use assms(3) in \<open>simp add: OBEX_Request_def\<close>)

theorem request_starts_client_witness:
  "\<exists>w'. OBEX_Request (link_env 3) (upd_hnd put_client (cur_object_update (\<lambda>_. None))) (Some 1) = Some (0, w')
    \<and> (client_conf_of w' = ((MODE_CLI, STATE_REC), Some 1) \<or> client_conf_of w' = ((MODE_CLI, STATE_IDLE), None))"
proof -
  let ?w = "upd_hnd put_client (cur_object_update (\<lambda>_. None))"
  obtain w' where "obex_client (link_env 3) put_client False = Some (0, w')" using put_client_start by blast
  moreover have "upd_hnd ?w (\<lambda>h. h\<lparr>cur_object := Some 1, state := (MODE_CLI, STATE_START)\<rparr>) = put_client"
    by (simp add: put_client_def ex_world_def ex_handle_def)
  ultimately have w': "OBEX_Request (link_env 3) ?w (Some 1) = Some (0, w')" by (simp add: OBEX_Request_def)
  have "objs ?w a \<noteq> None" if "Some 1 = Some a" for a using that by (auto simp: put_client_def)
  from request_starts_client [OF link_env_quiet(1) this w'] w' show ?thesis by simp
qed

text \<open>A request for a suspended object: nothing is sent, the client waits for a response.\<close>

lemma suspended_request:
  assumes "objs w a = Some ob" and "suspend ob" and "cur_object (hnd w) = None"
    and "\<And>w' c r. userdata (hnd w') = userdata (hnd w) \<Longrightarrow>
      env_event E (eventcb (hnd w)) w' (Some a) OBEX_MODE_CLIENT OBEX_EV_PROGRESS c r = Some w'"
  shows "OBEX_Request E w (Some a) = Some (0, w\<lparr>hnd := (hnd w)\<lparr>cur_object := Some a, state := (MODE_CLI, STATE_REC)\<rparr>,
        objs := (objs w)(a := Some (ob\<lparr>first_packet_sent := True\<rparr>))\<rparr>)"
  using assms
  by (simp add: OBEX_Request_def obex_client_def client_start_def obex_object_send_def cur_opcode_def obex_deliver_event_def)

text \<open>
  A request that is suspended before it is made never starts. \<open>OBEX_Request\<close> sends nothing for a suspended
  object but notes that its first packet has been sent, and waits for the response; \<open>OBEX_ResumeRequest\<close> then
  sends nothing either, because that packet has not been answered. Both return 0, the queued headers stay
  queued, and the handle is busy with a request the peer does not know of.
\<close>

theorem suspended_request_never_starts:
  assumes "objs w a = Some ob" and "suspend ob" and "\<not> continue_received ob" and "cur_object (hnd w) = None"
    and "\<And>w' c r. userdata (hnd w') = userdata (hnd w) \<Longrightarrow>
      env_event E (eventcb (hnd w)) w' (Some a) OBEX_MODE_CLIENT OBEX_EV_PROGRESS c r = Some w'"
  shows "\<exists>w1. OBEX_Request E w (Some a) = Some (0, w1)
    \<and> OBEX_ResumeRequest E w1 = Some (0, w\<lparr>hnd := (hnd w)\<lparr>cur_object := Some a, state := (MODE_CLI, STATE_REC)\<rparr>,
        objs := (objs w)(a := Some (ob\<lparr>first_packet_sent := True, suspend := False\<rparr>))\<rparr>)"
  using assms(2,3) suspended_request [OF assms(1,2,4,5)]
  by (simp add: OBEX_ResumeRequest_def obex_object_resume_def)

theorem suspended_request_never_starts_witness:
  "\<exists>w1 w2. OBEX_Request ex_env (upd_hnd (ex_world (obex_object_init\<lparr>suspend := True\<rparr>)) (cur_object_update (\<lambda>_. None))) (Some 1) = Some (0, w1)
    \<and> OBEX_ResumeRequest ex_env w1 = Some (0, w2) \<and> ext w2 = [] \<and> state (hnd w2) = (MODE_CLI, STATE_REC)"
proof -
  have o: "\<not> continue_received obex_object_init"
    by (simp add: obex_object_init_def obex_object_setrsp_def obex_object_zero_def)
  show ?thesis
    using suspended_request_never_starts [of "upd_hnd (ex_world (obex_object_init\<lparr>suspend := True\<rparr>)) (cur_object_update (\<lambda>_. None))" 1
        "obex_object_init\<lparr>suspend := True\<rparr>" ex_env] o
    by auto
qed

lemma unicode_to_char:
  assumes "\<forall>x \<in> set cs. snd x \<noteq> 0" and "length cs < length c"
  shows "OBEX_UnicodeToChar (Some c) (Some (concat (map (\<lambda>(hi, lo). [hi, lo]) cs) @ hi # 0 # rest)) sz
    = Some (if int (length cs) < sz then (0, Some (map snd cs @ 0 # drop (length cs + 1) c)) else (-1, Some c))"
  using unicode_len_spec [OF assms(1), of hi rest] unicode_chars_spec [of cs "hi # 0 # rest"] assms(2)
  by (simp add: OBEX_UnicodeToChar_def mem_write_def)

text \<open>
  What becomes of Unicode text. Of every character only the low byte is kept, up to the first one whose
  low byte is zero, whatever its high byte: text with such a character is cut off there. A result
  buffer that is too small is left alone.
\<close>

theorem unicode_to_char_low_bytes:
  assumes "\<forall>x \<in> set cs. snd x \<noteq> 0" and "length cs < length c"
  shows "OBEX_UnicodeToChar (Some c) (Some (concat (map (\<lambda>(hi, lo). [hi, lo]) cs) @ hi # 0 # rest)) sz
    = Some (if int (length cs) < sz then (0, Some (map snd cs @ 0 # drop (length cs + 1) c)) else (-1, Some c))"
  by (rule unicode_to_char [OF assms])

theorem unicode_to_char_low_bytes_witness:
  "OBEX_UnicodeToChar (Some [7, 7, 7]) (Some [0, 0x41, 0x01, 0x00, 0, 0x42, 0, 0]) 3 = Some (0, Some [0x41, 0, 7])"
  using unicode_to_char_low_bytes [of "[(0, 0x41)]" "[7, 7, 7]" 1 "[0, 0x42, 0, 0]" 3] by simp

text \<open>
  Text without a zero survives the way to Unicode and back: \<open>OBEX_CharToUnicode\<close> writes each character as
  two bytes, a zero first, with a zero character behind, and \<open>OBEX_UnicodeToChar\<close> returns the text.
\<close>

theorem char_unicode_round_trip:
  assumes "0 \<notin> set s" and "int (length s) * 2 + 2 \<le> sz" and "sz < 2147483648" and "2 * length s + 2 \<le> length m"
    and "length s < length c" and "int (length s) < sz'"
  shows "\<exists>m'. OBEX_CharToUnicode (Some m) (Some (s @ [0])) sz = Some (2 * int (length s) + 2, Some m')
    \<and> m' = concat (map (\<lambda>x. [0, x]) (s @ [0])) @ drop (2 * length s + 2) m
    \<and> OBEX_UnicodeToChar (Some c) (Some m') sz' = Some (0, Some (s @ 0 # drop (length s + 1) c))"
proof -
  have len: "takeWhile (\<lambda>x. x \<noteq> 0) (s @ [0]) = s" using assms(1) by (induction s) auto
  have pairs: "concat (map (\<lambda>x. [0, x]) s) = concat (map (\<lambda>(hi, lo). [hi, lo]) (map (\<lambda>x. (0, x)) s))"
    by (induction s) simp_all
  have "mem_write m (length s * 2) [0, 0] = Some (take (2 * length s) m @ [0, 0] @ drop (2 * length s + 2) m)"
    using assms(4) by (simp add: mem_write_def mult.commute)
  moreover have "widen_loop (s @ [0]) (length s) (take (2 * length s) m @ [0, 0] @ drop (2 * length s + 2) m)
     = Some (concat (map (\<lambda>x. [0, x]) s) @ [0, 0] @ drop (2 * length s + 2) m)"
    using assms(4) by (subst widen_loop_spec) simp_all
  moreover have "s32 (int (length s) * 2 + 2) = 2 * int (length s) + 2" using assms(2,3) by (simp add: s32_id)
  ultimately have there: "OBEX_CharToUnicode (Some m) (Some (s @ [0])) sz
     = Some (2 * int (length s) + 2, Some (concat (map (\<lambda>x. [0, x]) s) @ [0, 0] @ drop (2 * length s + 2) m))"
    using assms(2) by (simp add: OBEX_CharToUnicode_def len Let_def)
  have "map snd (map (\<lambda>x. (0 :: byte, x)) s) = s" by (induction s) simp_all
  then have return: "OBEX_UnicodeToChar (Some c) (Some (concat (map (\<lambda>x. [0, x]) s) @ [0, 0] @ drop (2 * length s + 2) m)) sz'
     = Some (0, Some (s @ 0 # drop (length s + 1) c))"
    using unicode_to_char [of "map (\<lambda>x. (0, x)) s" c 0 "drop (2 * length s + 2) m" sz'] assms(1,5,6)
    unfolding pairs by auto
  show ?thesis by (rule exI, intro conjI, rule there, simp, rule return)
qed

theorem char_unicode_round_trip_witness:
  "\<exists>m'. OBEX_CharToUnicode (Some (replicate 6 7)) (Some [0x4F, 0x4B, 0]) 6 = Some (6, Some m')
    \<and> OBEX_UnicodeToChar (Some [7, 7, 7, 7]) (Some m') 4 = Some (0, Some [0x4F, 0x4B, 0, 7])"
  using char_unicode_round_trip [of "[0x4F, 0x4B]" 6 "replicate 6 7" "[7, 7, 7, 7]" 4] by auto

end
