(* ===== verification/Glib_Requests.thy ===== *)
theory Glib_Requests
  imports Glib_Laws Api_Laws
begin

text \<open>
  What becomes of requests made through the GLib binding: the parts of the functions that build a request are
  followed through the library up to the packet that is sent, or not.
\<close>

section \<open>Building an object\<close>

text \<open>Only the header queue of the object \<open>a\<close> grows.\<close>

definition grows :: "addr \<Rightarrow> 'e world \<Rightarrow> 'e world \<Rightarrow> bool" where
  "grows a w w' \<longleftrightarrow> hnd w' = hnd w \<and> ext w' = ext w
     \<and> (\<exists>ob q t. objs w a = Some ob \<and> objs w' a = Some (ob\<lparr>tx_headerq := q, totallen := t\<rparr>))"

lemma grows_refl: "objs w a = Some ob \<Longrightarrow> grows a w w"
  by (auto simp: grows_def intro!: exI [of _ ob] exI [of _ "tx_headerq ob"] exI [of _ "totallen ob"])

lemma grows_trans: "grows a w w1 \<Longrightarrow> grows a w1 w2 \<Longrightarrow> grows a w w2"
  by (fastforce simp: grows_def)

lemma grows_object: "grows a w w' \<Longrightarrow> objs w a = Some ob \<Longrightarrow> \<exists>ob'. objs w' a = Some ob' \<and> ob_cmd ob' = ob_cmd ob
    \<and> suspend ob' = suspend ob \<and> continue_received ob' = continue_received ob"
  by (auto simp: grows_def)

lemma add_tx_header_grows:
  "add_tx_header E w a el n = Some w' \<Longrightarrow> grows a w w'"
  by (auto simp: add_tx_header_def grows_def upd_obj_def split: Option.bind_splits; blast)

lemma addheader_grows:
  assumes "OBEX_ObjectAddHeader E w (Some a) hi hv n fl = Some (r, w')" and "objs w a = Some ob"
    and "fl AND OBEX_FL_STREAM_DATAEND = 0" and "fl AND OBEX_FL_STREAM_DATA = 0"
  shows "grows a w w'"
  using assms grows_refl [of w a ob]
  by (auto simp: OBEX_ObjectAddHeader_def obex_object_addheader_def Let_def
      dest!: add_tx_header_grows split: if_splits Option.bind_splits)

lemma put_flags [simp]:
  "OBEX_FL_FIT_ONE_PACKET AND OBEX_FL_STREAM_DATAEND = 0" "OBEX_FL_FIT_ONE_PACKET AND OBEX_FL_STREAM_DATA = 0"
  "OBEX_FL_STREAM_START AND OBEX_FL_STREAM_DATAEND = 0" "OBEX_FL_STREAM_START AND OBEX_FL_STREAM_DATA = 0"
  by simp_all

lemma add_connection_grows:
  "add_connection E w (Some a) OBEX_FL_FIT_ONE_PACKET = Some w' \<Longrightarrow> objs w a = Some ob \<Longrightarrow> grows a w w'"
  by (auto simp: add_connection_def intro: grows_refl addheader_grows split: Option.bind_splits if_splits)

lemma add_type_grows: "add_type E w (Some a) ty = Some (r, w') \<Longrightarrow> objs w a = Some ob \<Longrightarrow> grows a w w'"
  by (auto simp: add_type_def intro: grows_refl addheader_grows split: option.splits)

lemma add_opt_name_grows: "add_opt_name E w (Some a) name = Some (r, w') \<Longrightarrow> objs w a = Some ob \<Longrightarrow> grows a w w'"
  by (auto simp: add_opt_name_def add_name_def Let_def intro: grows_refl addheader_grows split: option.splits Option.bind_splits)

lemma add_time_grows: "add_time E w (Some a) = Some w' \<Longrightarrow> objs w a = Some ob \<Longrightarrow> grows a w w'"
  by (auto simp: add_time_def split: Option.bind_splits if_splits)
     (erule grows_refl | (erule addheader_grows, assumption, simp only: zero_and_eq, simp only: zero_and_eq))+

lemma add_length_grows: "add_length E w (Some a) = Some w' \<Longrightarrow> objs w a = Some ob \<Longrightarrow> grows a w w'"
  by (auto simp: add_length_def intro: grows_refl addheader_grows split: Option.bind_splits if_splits)

lemma new_put_object:
  assumes "OBEX_ObjectNew E w OBEX_CMD_PUT = Some (object, w')"
  shows "hnd w' = hnd w \<and> ext w' = ext w \<and> (object = None \<or> (\<exists>a ob. object = Some a \<and> objs w' a = Some ob
    \<and> ob_cmd ob = OBEX_CMD_PUT \<and> \<not> suspend ob \<and> \<not> continue_received ob))"
  using assms
  by (auto simp: OBEX_ObjectNew_def obex_object_new_def obex_object_setcmd_def obex_object_init_def obex_object_setrsp_def
      obex_object_zero_def split: if_splits)

section \<open>An upload that never starts\<close>

text \<open>What the user does with a PUT that \<open>obex_put\<close> has accepted, and the results.\<close>

datatype put_op = Write "byte list" | Flush | Close

fun put_run :: "'x gl_host env \<Rightarrow> put_op list \<Rightarrow> 'x gl_host world \<Rightarrow> (int list \<times> 'x gl_host world) option" where
  "put_run E [] w = Some ([], w)"
| "put_run E (op # ops) w = do {
     (r, w) \<leftarrow> (case op of
        Write d \<Rightarrow> do { (r, _, w) \<leftarrow> obex_write E w d (length d); Some (r, w) }
      | Flush \<Rightarrow> obex_flush E w
      | Close \<Rightarrow> obex_close_transfer E w);
     (rs, w) \<leftarrow> put_run E ops w;
     Some (r # rs, w) }"

text \<open>The client waits for the answer to a first packet that was never sent.\<close>

definition put_stuck :: "addr \<Rightarrow> 'x gl_host world \<Rightarrow> bool" where
  "put_stuck a w \<longleftrightarrow> userdata (hnd w) \<noteq> 0 \<and> ctx_ok (app (ext w)) \<and> cur_object (hnd w) = Some a
     \<and> state (hnd w) = (MODE_CLI, STATE_REC)
     \<and> (\<exists>ob. objs w a = Some ob \<and> ob_cmd ob = OBEX_CMD_PUT \<and> first_packet_sent ob \<and> \<not> continue_received ob)"

lemma stuck_command: "put_stuck a w \<Longrightarrow> cur_command w = Some (int (unat OBEX_CMD_PUT))"
  by (auto simp: put_stuck_def OBEX_ObjectGetCommand_def)

lemma stuck_resume:
  assumes "put_stuck a w"
  shows "\<exists>w'. OBEX_ResumeRequest E w = Some (0, w') \<and> put_stuck a w' \<and> os (ext w') = os (ext w)"
  using assms by (auto simp: put_stuck_def OBEX_ResumeRequest_def obex_object_resume_def)

lemma stuck_maybe_resume:
  assumes "put_stuck a w"
  shows "\<exists>r w'. (if b then OBEX_ResumeRequest E w else Some (0, w)) = Some (r, w') \<and> put_stuck a w' \<and> os (ext w') = os (ext w)"
  using stuck_resume [OF assms, of E] assms by auto

lemma stuck_upd_app: "put_stuck a w \<Longrightarrow> ctx_ok (f (app (ext w))) \<Longrightarrow> put_stuck a (upd_app w f)"
  by (simp add: put_stuck_def)

lemma stuck_refresh:
  assumes "put_stuck a w"
  shows "\<exists>w'. refresh_lent w = Some w' \<and> put_stuck a w' \<and> ext w' = ext w"
  using assms by (auto simp: put_stuck_def refresh_lent_def)

lemma stuck_write:
  assumes "put_stuck a w"
  shows "\<exists>n w'. obex_write E w d (length d) = Some (0, n, w') \<and> put_stuck a w' \<and> os (ext w') = os (ext w)"
proof -
  let ?c = "app (ext w)"
  have c: "ctx_ok ?c" "userdata (hnd w) \<noteq> 0" using assms by (simp_all add: put_stuck_def)
  obtain n resume c' where wr: "write_into ?c d (length d) = Some (n, resume, c')"
    using write_into_defined [OF c(1), of "length d" d] by auto
  have ok: "ctx_ok c'" using write_into_spec [OF c(1) wr] by simp
  obtain w1 where w1: "refresh_lent (upd_app w (\<lambda>_. c')) = Some w1" "put_stuck a w1" "ext w1 = ext (upd_app w (\<lambda>_. c'))"
    using stuck_refresh [OF stuck_upd_app [OF assms, of "\<lambda>_. c'"]] ok by auto
  obtain r w2 where w2: "(if resume then OBEX_ResumeRequest E w1 else Some (0, w1)) = Some (r, w2)" "put_stuck a w2" "os (ext w2) = os (ext w1)"
    using stuck_maybe_resume [OF w1(2), of resume E] by auto
  have "obex_write E w d (length d) = Some (0, n, w2)"
    using c(2) wr w1(1) w2(1) by (simp add: obex_write_def stuck_command [OF assms])
  then show ?thesis using w1(3) w2(2,3) by simp
qed

lemma stuck_flush:
  assumes "put_stuck a w"
  shows "\<exists>w'. obex_flush E w = Some (0, w') \<and> put_stuck a w' \<and> os (ext w') = os (ext w)"
proof -
  have c: "userdata (hnd w) \<noteq> 0" using assms by (simp add: put_stuck_def)
  obtain r w2 where w2: "(if gx_data_length (app (ext w)) \<noteq> 0 then OBEX_ResumeRequest E w else Some (0, w)) = Some (r, w2)"
    "put_stuck a w2" "os (ext w2) = os (ext w)"
    using stuck_maybe_resume [OF assms, of "gx_data_length (app (ext w)) \<noteq> 0" E] by auto
  have "obex_flush E w = Some (0, w2)" using c w2(1) by (simp add: obex_flush_def stuck_command [OF assms])
  then show ?thesis using w2 by simp
qed

lemma stuck_close:
  assumes "put_stuck a w"
  shows "\<exists>w'. obex_close_transfer E w = Some (0, w') \<and> put_stuck a w' \<and> os (ext w') = os (ext w)"
proof -
  let ?w = "upd_app w (\<lambda>c. c\<lparr>gx_close := 1\<rparr>)"
  have c: "userdata (hnd w) \<noteq> 0" "ctx_ok ((app (ext w))\<lparr>gx_close := 1\<rparr>)" using assms by (simp_all add: put_stuck_def ctx_ok_def)
  obtain w2 where w2: "OBEX_ResumeRequest E ?w = Some (0, w2)" "put_stuck a w2" "os (ext w2) = os (ext ?w)"
    using stuck_resume [OF stuck_upd_app [OF assms, of "\<lambda>c. c\<lparr>gx_close := 1\<rparr>", OF c(2)], of E] by auto
  have "obex_close_transfer E w = Some (0, w2)"
    using c(1) w2(1) by (simp add: obex_close_transfer_def stuck_command [OF assms])
  then show ?thesis using w2 by simp
qed

lemma stuck_run:
  "put_stuck a w \<Longrightarrow> \<exists>rs w'. put_run E ops w = Some (rs, w') \<and> set rs \<subseteq> {0} \<and> put_stuck a w' \<and> os (ext w') = os (ext w)"
proof (induction ops arbitrary: w)
  case (Cons op ops)
  obtain w1 where w1: "(case op of
        Write d \<Rightarrow> do { (r, _, w) \<leftarrow> obex_write E w d (length d); Some (r, w) }
      | Flush \<Rightarrow> obex_flush E w
      | Close \<Rightarrow> obex_close_transfer E w) = Some (0, w1)" "put_stuck a w1" "os (ext w1) = os (ext w)"
  proof (cases op)
    case (Write d)
    obtain n w1 where "obex_write E w d (length d) = Some (0, n, w1)" "put_stuck a w1" "os (ext w1) = os (ext w)"
      using stuck_write [OF Cons.prems, of E d] by auto
    then show ?thesis using that Write by simp
  qed (use stuck_flush [OF Cons.prems, of E] stuck_close [OF Cons.prems, of E] that in auto)
  obtain rs w2 where "put_run E ops w1 = Some (rs, w2)" "set rs \<subseteq> {0}" "put_stuck a w2" "os (ext w2) = os (ext w1)"
    using Cons.IH [OF w1(2)] by auto
  then show ?case using w1 by simp
qed simp

text \<open>A progress callback that does nothing.\<close>

definition silent_progress :: "'x gl_callback \<Rightarrow> bool" where
  "silent_progress C \<longleftrightarrow> (\<forall>g p w. progress_ind C = Some g \<longrightarrow> g p w = Some w)"

lemma progress_ignored:
  assumes "silent_progress C" and "userdata (hnd w) \<noteq> 0"
  shows "env_event (gl_env E C Z (Suc n)) cb w object role OBEX_EV_PROGRESS c r = Some w"
  using assms by (auto simp: gl_env.simps gl_obex_event_def obex_progress_def call_user_def silent_progress_def split: option.splits)

lemma put_gets_stuck:
  assumes "silent_progress C" and "userdata (hnd w) \<noteq> 0" and "ctx_ok (app (ext w))" and "cur_object (hnd w) = None"
    and "obex_put (gl_env E C Z (Suc n)) w ty name sz mtime = Some (0, w')"
  shows "\<exists>a. put_stuck a w' \<and> os (ext w') = os (ext w)"
proof -
  let ?E = "gl_env E C Z (Suc n)"
  let ?w = "upd_app w (init_transfer sz mtime)"
  have cmd: "cur_command w = Some (-1)" using assms(4) by (simp add: OBEX_ObjectGetCommand_def)
  obtain object w1 where new: "OBEX_ObjectNew ?E ?w OBEX_CMD_PUT = Some (object, w1)" "object \<noteq> None"
    and rest: "do { w \<leftarrow> add_connection ?E w1 object OBEX_FL_FIT_ONE_PACKET;
             (err, w) \<leftarrow> add_type ?E w object ty;
             (if err < 0 then give_up w object err
              else do {
                (err, w) \<leftarrow> add_opt_name ?E w object name;
                (if err < 0 then give_up w object err
                 else do {
                   w \<leftarrow> add_time ?E w object;
                   w \<leftarrow> add_length ?E w object;
                   (_, w) \<leftarrow> OBEX_ObjectAddHeader ?E w object OBEX_HDR_BODY (BS None) 0 OBEX_FL_STREAM_START;
                   (_, w) \<leftarrow> OBEX_SuspendRequest w object;
                   send_or_delete ?E w object }) }) } = Some (0, w')"
    using assms(2,5) cmd by (auto simp: obex_put_def with_context_def split: if_splits Option.bind_splits)
  obtain a ob where a: "object = Some a" "objs w1 a = Some ob" "ob_cmd ob = OBEX_CMD_PUT" "\<not> suspend ob" "\<not> continue_received ob"
    and w1: "hnd w1 = hnd w" "ext w1 = ext ?w"
    using new_put_object [OF new(1)] new(2) by auto
  obtain w2 e3 w3 e4 w4 w5 w6 r7 w7 w8 where s: "add_connection ?E w1 (Some a) OBEX_FL_FIT_ONE_PACKET = Some w2"
    "add_type ?E w2 (Some a) ty = Some (e3, w3)" "add_opt_name ?E w3 (Some a) name = Some (e4, w4)"
    "add_time ?E w4 (Some a) = Some w5" "add_length ?E w5 (Some a) = Some w6"
    "OBEX_ObjectAddHeader ?E w6 (Some a) OBEX_HDR_BODY (BS None) 0 OBEX_FL_STREAM_START = Some (r7, w7)"
    "obex_object_suspend w7 a = Some (0, w8)" "send_or_delete ?E w8 (Some a) = Some (0, w')"
    using rest unfolding a(1)
    by (auto simp: give_up_def OBEX_SuspendRequest_def obex_object_suspend_def split: if_splits Option.bind_splits)
  have "grows a w1 w7"
  proof -
    note obj = grows_object
    have g2: "grows a w1 w2" by (rule add_connection_grows [OF s(1) a(2)])
    then obtain ob2 where "objs w2 a = Some ob2" using grows_object a(2) by blast
    then have g3: "grows a w1 w3" using add_type_grows [OF s(2)] g2 grows_trans by blast
    then obtain ob3 where "objs w3 a = Some ob3" using grows_object a(2) by blast
    then have g4: "grows a w1 w4" using add_opt_name_grows [OF s(3)] g3 grows_trans by blast
    then obtain ob4 where "objs w4 a = Some ob4" using grows_object a(2) by blast
    then have g5: "grows a w1 w5" using add_time_grows [OF s(4)] g4 grows_trans by blast
    then obtain ob5 where "objs w5 a = Some ob5" using grows_object a(2) by blast
    then have g6: "grows a w1 w6" using add_length_grows [OF s(5)] g5 grows_trans by blast
    then obtain ob6 where "objs w6 a = Some ob6" using grows_object a(2) by blast
    then show ?thesis using addheader_grows [OF s(6) _ put_flags(3,4)] g6 grows_trans by blast
  qed
  then obtain ob7 where ob7: "objs w7 a = Some ob7" "ob_cmd ob7 = OBEX_CMD_PUT" "\<not> continue_received ob7"
    and w7: "hnd w7 = hnd w" "ext w7 = ext ?w"
    using grows_object a w1 by (fastforce simp: grows_def)
  have w8: "w8 = w7\<lparr>objs := (objs w7)(a := Some (ob7\<lparr>suspend := True\<rparr>))\<rparr>"
    using s(7) ob7(1) by (simp add: obex_object_suspend_def)
  have req: "OBEX_Request ?E w8 (Some a) = Some (0, w8\<lparr>hnd := (hnd w8)\<lparr>cur_object := Some a, state := (MODE_CLI, STATE_REC)\<rparr>,
        objs := (objs w8)(a := Some (ob7\<lparr>suspend := True, first_packet_sent := True\<rparr>))\<rparr>)"
    by (rule suspended_request) (use assms(1,2,4) w7 w8 in \<open>simp_all add: progress_ignored\<close>)
  then have "w' = w8\<lparr>hnd := (hnd w8)\<lparr>cur_object := Some a, state := (MODE_CLI, STATE_REC)\<rparr>,
        objs := (objs w8)(a := Some (ob7\<lparr>suspend := True, first_packet_sent := True\<rparr>))\<rparr>"
    using s(8) by (simp add: send_or_delete_def obex_send_or_queue_def)
  moreover have "ctx_ok (init_transfer sz mtime (app (ext w)))" using assms(3) by (simp add: ctx_ok_def init_transfer_def)
  ultimately have "put_stuck a w'" "os (ext w') = os (ext w)"
    using assms(2) ob7 w7 w8 by (simp_all add: put_stuck_def)
  then show ?thesis by blast
qed

text \<open>
  A PUT that had to wait, for the CONNECT before it, gets stuck in the same way when its turn comes; the user is
  told to write.
\<close>

lemma pending_put_gets_stuck:
  assumes "silent_progress C" and "userdata (hnd w) \<noteq> 0" and "ctx_ok (app (ext w))" and "cur_object (hnd w) = None"
    and "gx_pending (app (ext w)) = Some a" and "objs w a = Some ob" and "ob_cmd ob = OBEX_CMD_PUT" and "suspend ob"
    and "\<not> continue_received ob" and "malloc_ok (env_alloc E) 4"
  shows "\<exists>w'. start_pending (gl_env E C Z (Suc n)) w = Some w' \<and> put_stuck a w' \<and> os (ext w') = os (ext w)
    \<and> gx_pending (app (ext w')) = None \<and> gx_events (app (ext w')) = gx_events (app (ext w)) @ [OBEX_EV_STREAMEMPTY]"
proof -
  have req: "OBEX_Request (gl_env E C Z (Suc n)) w (Some a) = Some (0, w\<lparr>hnd := (hnd w)\<lparr>cur_object := Some a, state := (MODE_CLI, STATE_REC)\<rparr>,
        objs := (objs w)(a := Some (ob\<lparr>first_packet_sent := True\<rparr>))\<rparr>)"
    by (rule suspended_request) (use assms in \<open>simp_all add: progress_ignored\<close>)
  show ?thesis
    using assms by (simp add: start_pending_def req OBEX_ObjectGetCommand_def queue_event_def put_stuck_def ctx_ok_def)
qed

text \<open>
  C24: an upload through the GLib binding never starts. \<open>obex_put\<close> suspends the new request before it makes it,
  to wait for data. When it returns 0 on a handle that is not busy, then whatever the user does, writing data,
  flushing, closing the transfer: every call returns 0, nothing is ever written to the link, and the client
  waits for the answer to a packet it has not sent.
\<close>

theorem put_never_sends:
  assumes "silent_progress C" and "userdata (hnd w) \<noteq> 0" and "ctx_ok (app (ext w))" and "cur_object (hnd w) = None"
    and "obex_put (gl_env E C Z (Suc n)) w ty name sz mtime = Some (0, w1)"
  shows "\<exists>rs w2. put_run (gl_env E C Z (Suc n)) ops w1 = Some (rs, w2) \<and> set rs \<subseteq> {0}
    \<and> os (ext w1) = os (ext w) \<and> os (ext w2) = os (ext w) \<and> state (hnd w2) = (MODE_CLI, STATE_REC)"
proof -
  obtain a where "put_stuck a w1" "os (ext w1) = os (ext w)" using put_gets_stuck [OF assms] by blast
  with stuck_run [of a w1 "gl_env E C Z (Suc n)" ops] show ?thesis by (auto simp: put_stuck_def)
qed


definition ex_idle :: "unit gl_host world" where
  "ex_idle = (ex_gl (new_context 0 0) obex_object_init)\<lparr>hnd := ex_handle\<lparr>userdata := 1, cur_object := None\<rparr>, objs := Map.empty\<rparr>"

lemma ex_idle_simps [simp]:
  "userdata (hnd ex_idle) = 1" "cur_object (hnd ex_idle) = None" "ext ex_idle = \<lparr>app = new_context 0 0, os = ()\<rparr>"
  "objs ex_idle = Map.empty" "next_addr ex_idle = 1"
  by (simp_all add: ex_idle_def ex_gl_def calm_world_def)

lemma calm_alloc [simp]: "env_alloc calm_env = zero_alloc"
  by (simp add: calm_env_def)

theorem put_never_sends_witness:
  "\<exists>w1 rs w2. obex_put (gl_env calm_env no_callback (\<lambda>_. 0) 1) ex_idle None None 0 (-1) = Some (0, w1)
    \<and> put_run (gl_env calm_env no_callback (\<lambda>_. 0) 1) [Write [1, 2], Close] w1 = Some (rs, w2) \<and> set rs \<subseteq> {0}"
proof -
  let ?E = "gl_env calm_env no_callback (\<lambda>_. 0) (Suc 0)"
  have q: "silent_progress no_callback" by (simp add: silent_progress_def no_callback_def)
  have "\<exists>w1. obex_put ?E ex_idle None None 0 (-1) = Some (0, w1)"
    by (simp add: obex_put_def with_context_def may_request_def new_context_def OBEX_ObjectGetCommand_def init_transfer_def
        OBEX_ObjectNew_def obex_object_new_def add_connection_def add_type_def add_opt_name_def add_time_def add_length_def
        OBEX_ObjectAddHeader_def obex_object_addheader_def add_tx_header_def OBEX_SuspendRequest_def obex_object_suspend_def
        send_or_delete_def obex_send_or_queue_def suspended_request progress_ignored q)
  then obtain w1 where "obex_put ?E ex_idle None None 0 (-1) = Some (0, w1)" by blast
  with put_never_sends [OF q _ _ _ this, of "[Write [1, 2], Close]"] show ?thesis by (auto simp: new_context_ok)
qed

section \<open>Waiting on a lost link\<close>

text \<open>A handle whose link is gone: there is nothing to wait for, so input fails at once and changes nothing.\<close>

definition link_gone :: "'x gl_host world \<Rightarrow> bool" where
  "link_gone w \<longleftrightarrow> t_type (tport (hnd w)) = OBEX_TRANS_FD \<and> fd (hnd w) = INVALID_SOCKET \<and> serverfd (hnd w) = INVALID_SOCKET"

lemma gone_input: "link_gone w \<Longrightarrow> OBEX_HandleInput E w t = Some (-1, w)"
  by (simp add: link_gone_def OBEX_HandleInput_def obex_transport_handle_input_def handle_select_def select_fds_def)

lemma poll_loop_hangs:
  "poll_loop E st w = Some y \<Longrightarrow> link_gone w \<Longrightarrow> userdata (hnd w) \<noteq> 0 \<Longrightarrow> gx_state (app (ext w)) = st \<Longrightarrow> False"
proof (induction E st w y rule: poll_loop.raw_induct [rotated, consumes 1, case_names step])
  case (step loop E st w y)
  from step.hyps have "loop E st w = Some y" using gone_input [OF step.prems(1), of E] step.prems(2,3) by simp
  then show ?case by (rule step.IH) (use step.prems in simp_all)
qed

text \<open>
  Waiting for a lost link never ends. When the library reports a link error the binding closes the transport but
  keeps the state of the connection. \<open>obex_poll\<close> waits for that state to change and does not look at the result of
  \<open>OBEX_HandleInput\<close>, which now fails at once: it never returns.
\<close>

theorem poll_hangs_after_link_error:
  assumes "userdata (hnd w) \<noteq> 0" and "t_type (tport (hnd w)) = OBEX_TRANS_FD" and "serverfd (hnd w) = INVALID_SOCKET"
  shows "\<exists>w'. gl_obex_event E C Z w object OBEX_EV_LINKERR cmd rsp = Some w' \<and> obex_poll E' C w' = None"
proof -
  obtain w' where w': "gl_obex_event E C Z w object OBEX_EV_LINKERR cmd rsp = Some w'" "link_gone w'" "userdata (hnd w') \<noteq> 0"
    using assms by (simp add: gl_obex_event_def OBEX_TransportDisconnect_def obex_transport_disconnect_request_def link_gone_def)
  then have "poll_loop E' (gx_state (app (ext w'))) w' = None"
    using poll_loop_hangs [of E' "gx_state (app (ext w'))" w'] by (cases "poll_loop E' (gx_state (app (ext w'))) w'") auto
  then show ?thesis using w' by (intro exI [of _ w']) (simp add: obex_poll_def)
qed

theorem poll_hangs_after_link_error_witness:
  "\<exists>w'. gl_obex_event calm_env no_callback (\<lambda>_. 0) (upd_hnd ex_idle (\<lambda>h. h\<lparr>tport := (tport h)\<lparr>t_type := OBEX_TRANS_FD\<rparr>\<rparr>))
      None OBEX_EV_LINKERR 0 0 = Some w' \<and> obex_poll calm_env no_callback w' = None"
  by (rule poll_hangs_after_link_error) (simp_all add: ex_idle_def ex_handle_def)

section \<open>A peer with small packets\<close>

text \<open>
  The size of the chunks is the packet size the peer announces, less 200. A peer that announces less than 200 makes
  it negative; as a number of bytes to send that is close to four billion, lent from a buffer of 32767 bytes.
\<close>

theorem small_packets_overrun:
  assumes "userdata (hnd w) \<noteq> 0" and "ctx_ok (app (ext w))" and "gx_data_length (app (ext w)) > 0"
    and "objs w a = Some con" and "rx_nonhdr_data con = Some b" and "buf_wf b" and "buf_bytes b = [v, f, h, l]" and "rd16 h l < 200"
    and "cur_object (hnd w) = Some p" and "objs w p = Some ob"
  shows "\<exists>w1 w2 ob' m. connect_resize w (Some a) = Some w1 \<and> obex_writestream E w1 (Some p) = Some w2
    \<and> objs w2 p = Some ob' \<and> s_buf ob' = Some m \<and> length m \<le> BUF_SIZE \<and> s_len ob' = 4294967296 + rd16 h l - 200"
proof -
  let ?c = "app (ext w)"
  obtain s n where c: "gx_data_start ?c = int s" "gx_data_length ?c = int n" "s + n \<le> BUF_SIZE" "length (gx_buf ?c) = BUF_SIZE" "0 < gx_tx_max ?c"
    using assms(2) by (auto simp: ctx_ok_def dest!: zero_le_imp_eq_int)
  have b: "data_size b = 4" "mem_read (buf_ptr b) 0 4 = Some [v, f, h, l]"
    using length_buf_bytes [OF assms(6)] mem_read_bytes [OF assms(6), of 0 4] assms(7) by simp_all
  define t where "t = int (rd16 h l) - 200"
  have t: "t < 0" "-200 \<le> t" using assms(8) by (simp_all add: t_def)
  define w1 where "w1 = upd_app w (\<lambda>c. c\<lparr>gx_tx_max := t\<rparr>)"
  have "t < gx_tx_max ?c" using t c(5) by simp
  then have "connect_resize w (Some a) = Some w1"
    using assms(1,4,5) b by (simp add: connect_resize_def OBEX_ObjectGetNonHdrData_def s32_id w1_def upd_app_def t_def)
  moreover have lend: "lend_chunk (app (ext w1)) = Some (drop s (gx_buf ?c), t,
      (app (ext w1))\<lparr>gx_counter := s32 (gx_counter ?c + t), gx_data_length := int n - t, gx_data_start := int s + t\<rparr>)"
    using c t assms(3) by (simp add: lend_chunk_def w1_def buf_index_def s32_id)
  have "u32 t = nat (t + 4294967296)" by (rule u32_neg) (use t in simp_all)
  then have u: "u32 t = 4294967296 + rd16 h l - 200" using assms(8) by (simp add: t_def)
  obtain w2 where "obex_writestream E w1 (Some p) = Some w2"
    "objs w2 p = Some (ob\<lparr>s_buf := Some (drop s (gx_buf ?c)), s_len := u32 t\<rparr>)"
    using assms(1,3,9,10) lend t c(2)
    by (simp add: obex_writestream_def w1_def OBEX_ObjectAddHeader_def obex_object_addheader_def hv_bs_def)
  ultimately show ?thesis using u c(4)
    by (intro exI [of _ w1] exI [of _ w2] exI [of _ "ob\<lparr>s_buf := Some (drop s (gx_buf ?c)), s_len := u32 t\<rparr>"]
        exI [of _ "drop s (gx_buf ?c)"]) simp
qed

section \<open>Aborting\<close>

text \<open>The test \<open>cmd != OBEX_CMD_PUT || cmd != OBEX_CMD_GET\<close> always holds, so no transfer is ever aborted.\<close>

lemma abort_never_aborts: "obex_abort E w = do { _ \<leftarrow> cur_command w; Some (- EINVAL, w) }"
  by (cases "cur_command w") (auto simp: obex_abort_def)

end
