(* ===== verification/Glib_Client.thy ===== *)
theory Glib_Client
  imports Glib_Lowlevel
begin

text \<open>
  glib/obex-client.c and glib/obex-error.c: the object the GLib binding offers. Its private structure lies with
  the state of the system, outside the handle. GLib is a parameter: what the handlers of a signal do, what the
  watch function of the user does, and what the main loop keeps of a source. The bookkeeping of GObject
  (properties, class, reference counts, channels) is not modelled.
\<close>

section \<open>Errors\<close>

datatype obex_error = OBEX_ERROR_NO_MEMORY | OBEX_ERROR_BUSY | OBEX_ERROR_INVALID_PARAMS | OBEX_ERROR_ALREADY_CONNECTED
  | OBEX_ERROR_NOT_CONNECTED | OBEX_ERROR_LINK_FAILURE | OBEX_ERROR_ABORTED | OBEX_ERROR_BAD_REQUEST
  | OBEX_ERROR_UNAUTHORIZED | OBEX_ERROR_PAYMENT_REQUIRED | OBEX_ERROR_FORBIDDEN | OBEX_ERROR_NOT_FOUND
  | OBEX_ERROR_NOT_ALLOWED | OBEX_ERROR_NOT_ACCEPTABLE | OBEX_ERROR_PROXY_AUTH_REQUIRED | OBEX_ERROR_REQUEST_TIME_OUT
  | OBEX_ERROR_CONFLICT | OBEX_ERROR_GONE | OBEX_ERROR_LENGTH_REQUIRED | OBEX_ERROR_PRECONDITION_FAILED
  | OBEX_ERROR_ENTITY_TOO_LARGE | OBEX_ERROR_URL_TOO_LARGE | OBEX_ERROR_UNSUPPORTED_MEDIA_TYPE
  | OBEX_ERROR_INTERNAL_SERVER_ERROR | OBEX_ERROR_NOT_IMPLEMENTED | OBEX_ERROR_BAD_GATEWAY
  | OBEX_ERROR_SERVICE_UNAVAILABLE | OBEX_ERROR_GATEWAY_TIMEOUT | OBEX_ERROR_VERSION_NOT_SUPPORTED
  | OBEX_ERROR_DATABASE_FULL | OBEX_ERROR_DATABASE_LOCKED | OBEX_ERROR_FAILED

abbreviation "EINTR \<equiv> (4 :: int)"

definition err2gerror :: "int \<Rightarrow> obex_error" where
  "err2gerror err =
     (if err = ENOMEM then OBEX_ERROR_NO_MEMORY
      else if err = EBUSY then OBEX_ERROR_BUSY
      else if err = EINVAL then OBEX_ERROR_INVALID_PARAMS
      else if err = EISCONN then OBEX_ERROR_ALREADY_CONNECTED
      else if err = ENOTCONN then OBEX_ERROR_NOT_CONNECTED
      else if err = EINTR then OBEX_ERROR_ABORTED
      else OBEX_ERROR_FAILED)"

definition rsp_errors :: "obex_error list" where
  "rsp_errors = [OBEX_ERROR_BAD_REQUEST, OBEX_ERROR_UNAUTHORIZED, OBEX_ERROR_PAYMENT_REQUIRED, OBEX_ERROR_FORBIDDEN,
     OBEX_ERROR_NOT_FOUND, OBEX_ERROR_NOT_ALLOWED, OBEX_ERROR_NOT_ACCEPTABLE, OBEX_ERROR_PROXY_AUTH_REQUIRED,
     OBEX_ERROR_REQUEST_TIME_OUT, OBEX_ERROR_CONFLICT, OBEX_ERROR_GONE, OBEX_ERROR_LENGTH_REQUIRED,
     OBEX_ERROR_PRECONDITION_FAILED, OBEX_ERROR_ENTITY_TOO_LARGE, OBEX_ERROR_URL_TOO_LARGE,
     OBEX_ERROR_UNSUPPORTED_MEDIA_TYPE, OBEX_ERROR_INTERNAL_SERVER_ERROR, OBEX_ERROR_NOT_IMPLEMENTED,
     OBEX_ERROR_BAD_GATEWAY, OBEX_ERROR_SERVICE_UNAVAILABLE, OBEX_ERROR_GATEWAY_TIMEOUT, OBEX_ERROR_VERSION_NOT_SUPPORTED]"

text \<open>The cases 0x40 to 0x55 follow each other in the order of the list.\<close>

definition rsp2gerror :: "int \<Rightarrow> obex_error" where
  "rsp2gerror rsp =
     (if 0x40 \<le> rsp \<and> rsp \<le> 0x55 then rsp_errors ! nat (rsp - 0x40)
      else if rsp = 0x60 then OBEX_ERROR_DATABASE_FULL
      else if rsp = 0x61 then OBEX_ERROR_DATABASE_LOCKED
      else OBEX_ERROR_FAILED)"

section \<open>The client object\<close>

datatype client_condition = OBEX_CLIENT_COND_IN | OBEX_CLIENT_COND_OUT | OBEX_CLIENT_COND_DONE | OBEX_CLIENT_COND_ERR

datatype client_signal = CONNECTED_SIGNAL | DISCONNECT_SIGNAL | PROGRESS_SIGNAL

text \<open>\<open>watch_func\<close> is \<open>0\<close> for NULL; \<open>idle_source\<close> says whether the main loop has the source.\<close>

record client_private =
  auto_connect :: bool
  connected :: bool
  watch_data :: ptr
  watch_func :: ptr
  watch_destroy :: ptr
  idle_source :: bool

record 'y client_os =
  priv :: client_private
  sys_of :: 'y

type_synonym 'y client_world = "'y client_os gl_host world"

abbreviation cpriv :: "'y client_world \<Rightarrow> client_private" where
  "cpriv w \<equiv> priv (os (ext w))"

definition upd_priv :: "'y client_world \<Rightarrow> (client_private \<Rightarrow> client_private) \<Rightarrow> 'y client_world" where
  "upd_priv w f = w\<lparr>ext := (ext w)\<lparr>os := (os (ext w))\<lparr>priv := f (cpriv w)\<rparr>\<rparr>\<rparr>"

text \<open>What is outside the repository: the handlers of the signals and the user's watch functions.\<close>

record 'y glib =
  g_emit :: "client_signal \<Rightarrow> 'y client_world \<Rightarrow> 'y client_world option"
  g_watch :: "ptr \<Rightarrow> client_condition \<Rightarrow> ptr \<Rightarrow> 'y client_world \<Rightarrow> 'y client_world option"

definition call_watch :: "'y glib \<Rightarrow> client_condition \<Rightarrow> 'y client_world \<Rightarrow> 'y client_world option" where
  "call_watch G cond w = g_watch G (watch_func (cpriv w)) cond (watch_data (cpriv w)) w"

definition obex_connect_cfm :: "'y glib \<Rightarrow> ptr \<Rightarrow> 'y client_world \<Rightarrow> 'y client_world option" where
  "obex_connect_cfm G user_data w = g_emit G CONNECTED_SIGNAL (upd_priv w (\<lambda>p. p\<lparr>connected := True\<rparr>))"

definition obex_disconn_ind :: "'y glib \<Rightarrow> ptr \<Rightarrow> 'y client_world \<Rightarrow> 'y client_world option" where
  "obex_disconn_ind G user_data w = g_emit G DISCONNECT_SIGNAL w"

definition obex_progress_ind :: "'y glib \<Rightarrow> ptr \<Rightarrow> 'y client_world \<Rightarrow> 'y client_world option" where
  "obex_progress_ind G user_data w = g_emit G PROGRESS_SIGNAL w"

definition obex_command_ind :: "'y glib \<Rightarrow> obex_event \<Rightarrow> ptr \<Rightarrow> 'y client_world \<Rightarrow> 'y client_world option" where
  "obex_command_ind G event user_data w =
     (if watch_func (cpriv w) = 0 then Some w
      else case event of
        OBEX_EV_LINKERR \<Rightarrow> call_watch G OBEX_CLIENT_COND_ERR w
      | OBEX_EV_PARSEERR \<Rightarrow> call_watch G OBEX_CLIENT_COND_ERR w
      | OBEX_EV_STREAMAVAIL \<Rightarrow> call_watch G OBEX_CLIENT_COND_IN w
      | OBEX_EV_STREAMEMPTY \<Rightarrow> call_watch G OBEX_CLIENT_COND_OUT w
      | OBEX_EV_ABORT \<Rightarrow> call_watch G OBEX_CLIENT_COND_DONE w
      | OBEX_EV_REQDONE \<Rightarrow> call_watch G OBEX_CLIENT_COND_DONE w
      | _ \<Rightarrow> Some w)"

text \<open>The structure \<open>callback\<close> that \<open>obex_client_attach_fd\<close> passes to \<open>obex_open\<close>.\<close>

definition client_callbacks :: "'y glib \<Rightarrow> 'y client_os gl_callback" where
  "client_callbacks G = \<lparr>connect_cfm = Some (obex_connect_cfm G), disconn_ind = Some (obex_disconn_ind G),
     progress_ind = Some (obex_progress_ind G), command_ind = Some (obex_command_ind G)\<rparr>"

section \<open>The main loop\<close>

text \<open>\<open>err\<close>: the condition has one of the error bits. The result is what the main loop is told.\<close>

definition obex_client_callback ::
    "'y client_os gl_host env \<Rightarrow> 'y glib \<Rightarrow> bool \<Rightarrow> 'y client_world \<Rightarrow> (bool \<times> 'y client_world) option" where
  "obex_client_callback E G err w =
     (if err then Some (False, w)
      else do {
        (r, w) \<leftarrow> OBEX_HandleInput E w 1;
        (if r < 0 then Some (True, w)
         else do { w \<leftarrow> obex_do_callback (client_callbacks G) w; Some (True, w) }) })"

definition obex_client_put_idle :: "'y glib \<Rightarrow> 'y client_world \<Rightarrow> (bool \<times> 'y client_world) option" where
  "obex_client_put_idle G w =
     (let w = upd_priv w (\<lambda>p. p\<lparr>idle_source := False\<rparr>) in
      if watch_func (cpriv w) \<noteq> 0
      then do { w \<leftarrow> call_watch G OBEX_CLIENT_COND_OUT w; Some (False, w) }
      else Some (False, w))"

section \<open>Operations\<close>

definition obex_client_init :: client_private where
  "obex_client_init = \<lparr>auto_connect = True, connected = False, watch_data = 0, watch_func = 0, watch_destroy = 0,
     idle_source = False\<rparr>"

definition obex_client_add_watch_full :: "ptr \<Rightarrow> ptr \<Rightarrow> ptr \<Rightarrow> 'y client_world \<Rightarrow> 'y client_world" where
  "obex_client_add_watch_full func data notify w =
     upd_priv w (\<lambda>p. p\<lparr>watch_data := data, watch_func := func, watch_destroy := notify\<rparr>)"

definition obex_client_add_watch :: "ptr \<Rightarrow> ptr \<Rightarrow> 'y client_world \<Rightarrow> 'y client_world" where
  "obex_client_add_watch func data w = obex_client_add_watch_full func data 0 w"

text \<open>A result is TRUE (\<open>Inr\<close>) or FALSE with the error that is set.\<close>

definition client_result :: "(int \<times> 'w) option \<Rightarrow> ((obex_error + unit) \<times> 'w) option" where
  "client_result r = do { (err, w) \<leftarrow> r; Some (if err < 0 then Inl (err2gerror (- err)) else Inr (), w) }"

definition obex_client_connect ::
    "'y client_os gl_host env \<Rightarrow> byte list option \<Rightarrow> nat \<Rightarrow> 'y client_world \<Rightarrow> ((obex_error + unit) \<times> 'y client_world) option" where
  "obex_client_connect E target sz w = client_result (obex_connect E w target sz)"

definition obex_client_disconnect ::
    "'y client_os gl_host env \<Rightarrow> 'y glib \<Rightarrow> 'y client_world \<Rightarrow> ((obex_error + unit) \<times> 'y client_world) option" where
  "obex_client_disconnect E G w = client_result (obex_disconnect E (client_callbacks G) w)"

definition obex_client_put_object ::
    "'y client_os gl_host env \<Rightarrow> byte list option \<Rightarrow> byte list option \<Rightarrow> int \<Rightarrow> int \<Rightarrow> 'y client_world
     \<Rightarrow> ((obex_error + unit) \<times> 'y client_world) option" where
  "obex_client_put_object E ty name sz mtime w =
     (let add_idle = \<not> (\<not> connected (cpriv w) \<and> auto_connect (cpriv w)) in do {
        (_, w) \<leftarrow> (if add_idle then Some (0, w) else obex_connect E w None 0);
        (r, w) \<leftarrow> client_result (obex_put E w ty name sz mtime);
        Some (r, if r = Inr () \<and> add_idle then upd_priv w (\<lambda>p. p\<lparr>idle_source := True\<rparr>) else w) })"

definition obex_client_get_object ::
    "'y client_os gl_host env \<Rightarrow> byte list option \<Rightarrow> byte list option \<Rightarrow> 'y client_world
     \<Rightarrow> ((obex_error + unit) \<times> 'y client_world) option" where
  "obex_client_get_object E ty name w = do {
     (_, w) \<leftarrow> (if \<not> connected (cpriv w) \<and> auto_connect (cpriv w) then obex_connect E w None 0 else Some (0, w));
     client_result (obex_get E w ty name) }"

definition obex_client_read ::
    "'y client_os gl_host env \<Rightarrow> nat \<Rightarrow> 'y client_world \<Rightarrow> ((obex_error + byte list) \<times> 'y client_world) option" where
  "obex_client_read E count w = do {
     (err, d, w) \<leftarrow> obex_read E w count;
     Some (if err < 0 then Inl (err2gerror (- err)) else Inr d, w) }"

definition obex_client_write ::
    "'y client_os gl_host env \<Rightarrow> byte list \<Rightarrow> nat \<Rightarrow> 'y client_world \<Rightarrow> ((obex_error + nat) \<times> 'y client_world) option" where
  "obex_client_write E buf count w = do {
     (err, n, w) \<leftarrow> obex_write E w buf count;
     Some (if err < 0 then Inl (err2gerror (- err)) else Inr n, w) }"

definition obex_client_flush ::
    "'y client_os gl_host env \<Rightarrow> 'y client_world \<Rightarrow> ((obex_error + unit) \<times> 'y client_world) option" where
  "obex_client_flush E w = client_result (obex_flush E w)"

definition obex_client_abort ::
    "'y client_os gl_host env \<Rightarrow> 'y client_world \<Rightarrow> ((obex_error + unit) \<times> 'y client_world) option" where
  "obex_client_abort E w = client_result (obex_abort E w)"

definition obex_client_close ::
    "'y client_os gl_host env \<Rightarrow> 'y client_world \<Rightarrow> ((obex_error + unit) \<times> 'y client_world) option" where
  "obex_client_close E w = client_result (obex_close_transfer E w)"

definition obex_client_get_error :: "'y client_world \<Rightarrow> ((obex_error + unit) \<times> 'y client_world) option" where
  "obex_client_get_error w = do {
     (rsp, w) \<leftarrow> obex_get_response w;
     Some (if rsp = int (unat OBEX_RSP_SUCCESS) then Inr () else Inl (rsp2gerror rsp), w) }"

definition obex_client_mkdir ::
    "'y client_os gl_host env \<Rightarrow> byte list \<Rightarrow> 'y client_world \<Rightarrow> ((obex_error + unit) \<times> 'y client_world) option" where
  "obex_client_mkdir E path w = client_result (obex_setpath E w path True)"

definition obex_client_chdir ::
    "'y client_os gl_host env \<Rightarrow> byte list \<Rightarrow> 'y client_world \<Rightarrow> ((obex_error + unit) \<times> 'y client_world) option" where
  "obex_client_chdir E path w = client_result (obex_setpath E w path False)"

definition obex_client_delete ::
    "'y client_os gl_host env \<Rightarrow> byte list option \<Rightarrow> 'y client_world \<Rightarrow> ((obex_error + unit) \<times> 'y client_world) option" where
  "obex_client_delete E name w = client_result (obex_delete E w name)"

text \<open>The end of the object: the handle is closed; a second result of \<open>obex_disconnect\<close> is dropped.\<close>

definition obex_client_finalize ::
    "'y client_os gl_host env \<Rightarrow> 'y glib \<Rightarrow> 'y client_world
     \<Rightarrow> ('y client_world + (addr \<Rightarrow> obex_object option) \<times> 'y client_os gl_host \<times> usb_ctx) option" where
  "obex_client_finalize E G w = do {
     (_, w) \<leftarrow> (if connected (cpriv w) \<and> auto_connect (cpriv w)
               then obex_disconnect E (client_callbacks G) w else Some (0, w));
     obex_close E (upd_priv w (\<lambda>p. p\<lparr>idle_source := False\<rparr>)) }"

text \<open>\<open>obex_client_attach_fd\<close> without the channel: \<open>self\<close> is the client, the user data of the context.\<close>

definition obex_client_attach_fd ::
    "'y client_os gl_host env \<Rightarrow> ptr \<Rightarrow> ptr \<Rightarrow> ptr \<Rightarrow> int \<Rightarrow> ptr \<Rightarrow> 'y client_os \<Rightarrow> ('y client_world option \<times> 'y client_os) option" where
  "obex_client_attach_fd E context cb callback filedes self x = obex_open E context cb filedes callback self x"

section \<open>After a disconnection\<close>

text \<open>
  Nothing resets \<open>connected\<close>: a client that was connected once does not connect again by itself, its transfers
  are refused.
\<close>

lemma no_reconnect:
  assumes "userdata (hnd w) \<noteq> 0" and "connected (cpriv w)" and "gx_state (app (ext w)) = OBEX_CLOSED"
  shows "obex_client_put_object E ty name sz mtime w = Some (Inl OBEX_ERROR_NOT_CONNECTED, w)"
    "obex_client_get_object E ty name w = Some (Inl OBEX_ERROR_NOT_CONNECTED, w)"
  using assms
  by (simp_all add: obex_client_put_object_def obex_client_get_object_def client_result_def obex_put_def obex_get_def
      with_context_def gl_context_def OBEX_GetUserData_def may_request_def err2gerror_def)

end
