(* ===== verification/App_Io.thy ===== *)
theory App_Io
  imports Ircp_Io
begin

text \<open>
  apps/obex_io.c: how the example programs read and write files. A name is the list of its bytes without the
  terminating zero; printing is left out. What the programs use of the C library is a record of parameters over the
  state \<open>'x\<close> of the operating system; a program's own variables and that state make up the outside of its handle's
  world (record \<open>host\<close> of Ircp_Io).
\<close>

section \<open>The system\<close>

text \<open>
  \<open>ux_size\<close> is the field \<open>st_size\<close> of the structure after \<open>stat\<close>, which is not checked and leaves anything there when
  it fails. \<open>ux_open\<close> is \<open>open(_, O_RDONLY, 0)\<close>, \<open>ux_create\<close> is \<open>open(_, O_RDWR | O_CREAT, DEFFILEMODE)\<close>.
  \<open>ux_word\<close> is \<open>scanf\<close> with \<open>%s\<close>: the next word of the input, or nothing at its end. \<open>ux_lookup\<close> is \<open>getaddrinfo\<close>
  with the address of its first answer. The calls on a serial line: \<open>ux_tty_open\<close> is \<open>open\<close> with
  \<open>O_RDWR | O_NONBLOCK | O_NOCTTY\<close>, \<open>ux_tty_setup\<close> sets speed and mode, \<open>ux_tty_break\<close> sends a break.
\<close>

record 'x unix =
  ux_size :: "byte list \<Rightarrow> 'x \<Rightarrow> int \<times> 'x"
  ux_open :: "byte list \<Rightarrow> 'x \<Rightarrow> int \<times> 'x"
  ux_create :: "byte list \<Rightarrow> 'x \<Rightarrow> int \<times> 'x"
  ux_read :: "int \<Rightarrow> nat \<Rightarrow> 'x \<Rightarrow> (int \<times> byte list) \<times> 'x"
  ux_write :: "int \<Rightarrow> byte list \<Rightarrow> 'x \<Rightarrow> int \<times> 'x"
  ux_close :: "int \<Rightarrow> 'x \<Rightarrow> int \<times> 'x"
  ux_select :: "int \<Rightarrow> int \<Rightarrow> 'x \<Rightarrow> int \<times> 'x"
  ux_word :: "'x \<Rightarrow> byte list option \<times> 'x"
  ux_lookup :: "byte list \<Rightarrow> 'x \<Rightarrow> (int \<times> saddr) \<times> 'x"
  ux_tty_open :: "byte list \<Rightarrow> 'x \<Rightarrow> int \<times> 'x"
  ux_tty_setup :: "int \<Rightarrow> 'x \<Rightarrow> 'x"
  ux_tty_break :: "int \<Rightarrow> 'x \<Rightarrow> int \<times> 'x"

text \<open>A system in which every call fails; examples replace what they need.\<close>

definition dead_unix :: "'x unix" where
  "dead_unix = \<lparr>ux_size = (\<lambda>_ x. (0, x)), ux_open = (\<lambda>_ x. (-1, x)), ux_create = (\<lambda>_ x. (-1, x)),
     ux_read = (\<lambda>_ _ x. ((-1, []), x)), ux_write = (\<lambda>_ _ x. (-1, x)), ux_close = (\<lambda>_ x. (-1, x)),
     ux_select = (\<lambda>_ _ x. (-1, x)), ux_word = (\<lambda>x. (None, x)), ux_lookup = (\<lambda>_ x. ((-1, SA_NONE), x)),
     ux_tty_open = (\<lambda>_ x. (-1, x)), ux_tty_setup = (\<lambda>_ x. x), ux_tty_break = (\<lambda>_ x. (-1, x))\<rparr>"

definition bytes_of :: "string \<Rightarrow> byte list" where
  "bytes_of s = map (\<lambda>c. word_of_nat (of_char c)) s"

text \<open>What follows the first \<open>c\<close> in \<open>s\<close>: \<open>strchr(s, c) + 1\<close>, \<open>None\<close> for NULL.\<close>

definition strchr_after :: "byte list \<Rightarrow> byte \<Rightarrow> byte list option" where
  "strchr_after s c = (case dropWhile (\<lambda>d. d \<noteq> c) s of [] \<Rightarrow> None | _ # r \<Rightarrow> Some r)"

section \<open>Files\<close>

definition get_filesize :: "'x unix \<Rightarrow> byte list \<Rightarrow> 'x \<Rightarrow> int \<times> 'x" where
  "get_filesize U filename x = (let (n, x) = ux_size U filename x in (s32 n, x))"

text \<open>The buffer and \<open>*file_size\<close>. A size below 0 is a huge request, which \<open>malloc\<close> denies.\<close>

definition easy_readfile ::
    "alloc \<Rightarrow> 'x unix \<Rightarrow> byte list \<Rightarrow> 'x \<Rightarrow> ((mem option \<times> int) \<times> 'x) option" where
  "easy_readfile A U filename x =
     (let (file_size, x) = get_filesize U filename x; (fd, x) = ux_open U filename x in
      if fd = -1 then Some ((None, file_size), x)
      else case malloc A (u64 file_size) of None \<Rightarrow> Some ((None, file_size), x)
      | Some buf \<Rightarrow>
          (let ((actual, d), x) = ux_read U fd (u64 file_size) x in do {
             buf \<leftarrow> (if actual > 0 then mem_write buf 0 d else Some buf);
             (let (_, x) = ux_close U fd x in Some ((Some buf, actual), x)) }))"

abbreviation "HEADER_CREATOR_ID \<equiv> (0xcf :: byte)"
abbreviation "ADDRESS_BOOK \<equiv> (0x61646472 :: 32 word)"
abbreviation "MEMO_PAD \<equiv> (0x6d656d6f :: 32 word)"
abbreviation "DATE_BOOK \<equiv> (0x64617465 :: 32 word)"
abbreviation "PILOT_RESOURCE \<equiv> (0x6c6e6368 :: 32 word)"
abbreviation "OBEX_PROTOCOL_GENERIC \<equiv> (0 :: int)"
abbreviation "OBEX_PROTOCOL_WIN95_IRXFER \<equiv> (1 :: int)"

definition creator_for :: "byte list \<Rightarrow> 32 word \<Rightarrow> 32 word" where
  "creator_for filename creator_id =
     (let creator_id = (if creator_id = 0 then MEMO_PAD else creator_id) in
      case strchr_after filename DOT of None \<Rightarrow> creator_id
      | Some name \<Rightarrow>
          (if name = bytes_of ''vcf'' then ADDRESS_BOOK
           else if name = bytes_of ''vcs'' then DATE_BOOK
           else if name = bytes_of ''txt'' then MEMO_PAD
           else if name = bytes_of ''prc'' then PILOT_RESOURCE
           else creator_id))"

text \<open>
  \<open>build_object_from_file\<close>. The array \<open>unicode_buf\<close> has 200 bytes; a name that does not fit gives the length -1, which
  is not looked at. \<open>protocol\<close> is the variable \<open>obex_protocol_type\<close>.
\<close>

definition object_from_file ::
    "('s, 'x) host env \<Rightarrow> 'x unix \<Rightarrow> int \<Rightarrow> ('s, 'x) host world \<Rightarrow> byte list \<Rightarrow> 32 word
     \<Rightarrow> (addr option \<times> ('s, 'x) host world) option" where
  "object_from_file E U protocol w filename creator_id = do {
     ((buf, file_size), x) \<leftarrow> easy_readfile (env_alloc E) U filename (os (ext w));
     (let w = w\<lparr>ext := (ext w)\<lparr>os := x\<rparr>\<rparr> in
      case buf of None \<Rightarrow> Some (None, w)
      | Some buf \<Rightarrow> do {
          (object, w) \<leftarrow> OBEX_ObjectNew E w OBEX_CMD_PUT;
          (namebuf_len, uc) \<leftarrow> OBEX_CharToUnicode (Some (replicate 200 0)) (Some (filename @ [0])) 200;
          (_, w) \<leftarrow> OBEX_ObjectAddHeader E w object OBEX_HDR_NAME (BS uc) (u32 namebuf_len) 0;
          (_, w) \<leftarrow> OBEX_ObjectAddHeader E w object OBEX_HDR_LENGTH (BQ4 (word_of_int file_size)) 4 0;
          (_, w) \<leftarrow> (if protocol \<noteq> 1
             then OBEX_ObjectAddHeader E w object HEADER_CREATOR_ID (BQ4 (creator_for filename creator_id)) 4 0
             else Some (0, w));
          (_, w) \<leftarrow> OBEX_ObjectAddHeader E w object OBEX_HDR_BODY (BS (Some buf)) (u32 file_size) 0;
          Some (object, w) }) }"

text \<open>
  The path is removed from the name, and the rest cut to 250 characters. No flag of \<open>open\<close> cuts the file, so what an
  older and longer file holds behind the new bytes stays.
\<close>

definition saved_name :: "byte list \<Rightarrow> byte list" where
  "saved_name name = take 250 (case strrchr_after name SLASH of None \<Rightarrow> name | Some s \<Rightarrow> s)"

definition safe_save_file :: "'x unix \<Rightarrow> byte list \<Rightarrow> mem \<Rightarrow> int \<Rightarrow> 'x \<Rightarrow> (int \<times> 'x) option" where
  "safe_save_file U name buf len x =
     (let (fd, x) = ux_create U (saved_name name) x in
      if fd < 0 then Some (-1, x)
      else do {
        d \<leftarrow> mem_read buf 0 (u64 len);
        (let (actual, x) = ux_write U fd d x; (_, x) = ux_close U fd x in Some (actual, x)) })"

section \<open>Received headers\<close>

text \<open>
  The loop over the headers of an object: \<open>f\<close> is its body, on the variables \<open>v\<close> of the caller, and says whether the
  loop goes on. A NULL object gives -1, which keeps the loop running on variables that were never set.
\<close>

partial_function (option) for_headers ::
    "'e env \<Rightarrow> ('v \<Rightarrow> byte \<Rightarrow> obex_headerdata \<Rightarrow> nat \<Rightarrow> ('v \<times> bool) option) \<Rightarrow> 'v \<Rightarrow> 'e world \<Rightarrow> addr option
     \<Rightarrow> ('v \<times> 'e world) option" where
  "for_headers E f v w object = do {
     (r, h, w) \<leftarrow> OBEX_ObjectGetNextHeader E w object;
     (if r = 0 then Some (v, w)
      else do {
        (hi, hv, hlen) \<leftarrow> h;
        (v, more) \<leftarrow> f v hi hv hlen;
        (if more then for_headers E f v w object else Some (v, w)) }) }"

text \<open>
  The name of a request. The block has half the length of the header, but \<open>OBEX_UnicodeToChar\<close> is told the whole length.
  Without memory the name found before stays.
\<close>

definition name_header :: "alloc \<Rightarrow> mem option \<Rightarrow> obex_headerdata \<Rightarrow> nat \<Rightarrow> mem option option" where
  "name_header A name hv hlen =
     (case malloc A (hlen div 2) of None \<Rightarrow> Some name
      | Some namebuf \<Rightarrow> do {
          bs \<leftarrow> hv_bs hv;
          (_, namebuf) \<leftarrow> OBEX_UnicodeToChar (Some namebuf) bs (s32 (int hlen));
          Some namebuf })"

text \<open>The variables \<open>body\<close>, \<open>body_len\<close> and \<open>name\<close> of the functions that serve a PUT.\<close>

record put_vars =
  pv_body :: "mem option"
  pv_body_len :: int
  pv_name :: "mem option"

definition put_header ::
    "alloc \<Rightarrow> put_vars \<Rightarrow> byte \<Rightarrow> obex_headerdata \<Rightarrow> nat \<Rightarrow> (put_vars \<times> bool) option" where
  "put_header A v hi hv hlen =
     (if hi = OBEX_HDR_BODY
      then do { bs \<leftarrow> hv_bs hv; Some (v\<lparr>pv_body := bs, pv_body_len := s32 (int hlen)\<rparr>, True) }
      else if hi = OBEX_HDR_NAME
      then do { name \<leftarrow> name_header A (pv_name v) hv hlen; Some (v\<lparr>pv_name := name\<rparr>, True) }
      else Some (v, True))"

text \<open>\<open>put_done\<close> of obex_put_common.c, and \<open>put_server\<close> of obex_test_server.c.\<close>

definition put_done ::
    "('s, 'x) host env \<Rightarrow> 'x unix \<Rightarrow> ('s, 'x) host world \<Rightarrow> addr option \<Rightarrow> ('s, 'x) host world option" where
  "put_done E U w object = do {
     (v, w) \<leftarrow> for_headers E (put_header (env_alloc E)) \<lparr>pv_body = None, pv_body_len = 0, pv_name = None\<rparr> w object;
     (case pv_body v of None \<Rightarrow> Some w
      | Some body \<Rightarrow> do {
          name \<leftarrow> (case pv_name v of None \<Rightarrow> Some (bytes_of ''OBEX_PUT_Unknown_object'') | Some m \<Rightarrow> c_str m);
          (_, x) \<leftarrow> safe_save_file U name body (pv_body_len v) (os (ext w));
          Some (w\<lparr>ext := (ext w)\<lparr>os := x\<rparr>\<rparr>) }) }"

end
