(* ===== verification/Put_Programs.thy ===== *)
theory Put_Programs
  imports App_Io
begin

text \<open>
  apps/obex_put_common.c and the three programs made of it, irobex_palm3.c, irxfer.c and obex_tcp.c: without a
  file on the command line they wait for files, with one they send it. A program that ends returns its exit value.
\<close>

section \<open>Events\<close>

text \<open>The variables \<open>finished\<close>, \<open>last_rsp\<close> and \<open>obex_protocol_type\<close>.\<close>

record put_app =
  pa_finished :: bool
  pa_last_rsp :: int
  pa_protocol :: int

type_synonym 'x put_host = "(put_app, 'x) host"

definition put_server_request ::
    "'x put_host env \<Rightarrow> 'x unix \<Rightarrow> 'x put_host world \<Rightarrow> addr option \<Rightarrow> byte \<Rightarrow> 'x put_host world option" where
  "put_server_request E U w object cmd =
     (if cmd = OBEX_CMD_SETPATH
      then do { (_, w) \<leftarrow> OBEX_ObjectSetRsp w object OBEX_RSP_CONTINUE OBEX_RSP_SUCCESS; Some w }
      else if cmd = OBEX_CMD_PUT
      then do { (_, w) \<leftarrow> OBEX_ObjectSetRsp w object OBEX_RSP_CONTINUE OBEX_RSP_SUCCESS; put_done E U w object }
      else if cmd = OBEX_CMD_CONNECT \<or> cmd = OBEX_CMD_DISCONNECT
      then do { (_, w) \<leftarrow> OBEX_ObjectSetRsp w object OBEX_RSP_SUCCESS OBEX_RSP_SUCCESS; Some w }
      else do { (_, w) \<leftarrow> OBEX_ObjectSetRsp w object OBEX_RSP_NOT_IMPLEMENTED OBEX_RSP_NOT_IMPLEMENTED; Some w })"

definition put_server_done :: "'x put_host world \<Rightarrow> byte \<Rightarrow> 'x put_host world" where
  "put_server_done w cmd = (if cmd = OBEX_CMD_DISCONNECT then upd_app w (\<lambda>s. s\<lparr>pa_finished := True\<rparr>) else w)"

definition put_client_done :: "'x put_host world \<Rightarrow> byte \<Rightarrow> 'x put_host world" where
  "put_client_done w rsp = upd_app w (\<lambda>s. s\<lparr>pa_last_rsp := int (unat rsp), pa_finished := True\<rparr>)"

definition put_event ::
    "'x put_host env \<Rightarrow> 'x unix \<Rightarrow> 'x put_host world \<Rightarrow> addr option \<Rightarrow> obex_role \<Rightarrow> obex_event \<Rightarrow> byte \<Rightarrow> byte
     \<Rightarrow> 'x put_host world option" where
  "put_event E U w object mode event cmd rsp =
     (case event of
        OBEX_EV_REQDONE \<Rightarrow> Some (if mode = OBEX_MODE_CLIENT then put_client_done w rsp else put_server_done w cmd)
      | OBEX_EV_REQHINT \<Rightarrow>
          (if cmd = OBEX_CMD_PUT \<or> cmd = OBEX_CMD_CONNECT \<or> cmd = OBEX_CMD_DISCONNECT
           then do { (_, w) \<leftarrow> OBEX_ObjectSetRsp w object OBEX_RSP_CONTINUE OBEX_RSP_SUCCESS; Some w }
           else do { (_, w) \<leftarrow> OBEX_ObjectSetRsp w object OBEX_RSP_NOT_IMPLEMENTED OBEX_RSP_NOT_IMPLEMENTED; Some w })
      | OBEX_EV_REQ \<Rightarrow> put_server_request E U w object cmd
      | OBEX_EV_LINKERR \<Rightarrow> Some (upd_app w (\<lambda>s. s\<lparr>pa_finished := True\<rparr>))
      | _ \<Rightarrow> Some w)"

text \<open>The library functions the callback calls deliver no events themselves.\<close>

definition put_env :: "'x put_host env \<Rightarrow> 'x unix \<Rightarrow> 'x put_host env" where
  "put_env E U = E\<lparr>env_event := (\<lambda>cb w object mode event cmd rsp. put_event E U w object mode event cmd rsp)\<rparr>"

section \<open>Requests\<close>

partial_function (option) wait_for_rsp ::
    "'x put_host env \<Rightarrow> 'x unix \<Rightarrow> 'x put_host world \<Rightarrow> (int \<times> 'x put_host world) option" where
  "wait_for_rsp E U w =
     (if \<not> pa_finished (app (ext w))
      then do {
        (ret, w) \<leftarrow> OBEX_HandleInput (put_env E U) w 10;
        (if ret < 0 then Some (ret, w) else wait_for_rsp E U w) }
      else Some (pa_last_rsp (app (ext w)), w))"

text \<open>The result of \<open>OBEX_Request\<close> is not looked at, and \<open>last_rsp\<close> keeps the answer to the request before.\<close>

definition do_sync_request ::
    "'x put_host env \<Rightarrow> 'x unix \<Rightarrow> 'x put_host world \<Rightarrow> addr option \<Rightarrow> (int \<times> 'x put_host world) option" where
  "do_sync_request E U w object = do {
     (_, w) \<leftarrow> OBEX_Request (put_env E U) w object;
     (ret, w) \<leftarrow> wait_for_rsp E U w;
     Some (ret, upd_app w (\<lambda>s. s\<lparr>pa_finished := False\<rparr>)) }"

text \<open>A request without headers.\<close>

definition plain_request ::
    "'x put_host env \<Rightarrow> 'x unix \<Rightarrow> 'x put_host world \<Rightarrow> byte \<Rightarrow> (int \<times> 'x put_host world) option" where
  "plain_request E U w cmd = do {
     (object, w) \<leftarrow> OBEX_ObjectNew (put_env E U) w cmd;
     do_sync_request E U w object }"

section \<open>The programs\<close>

text \<open>The handle, with the address of \<open>obex_event\<close>; \<open>main\<close> goes on with NULL when there is none.\<close>

definition put_start :: "'x put_host env \<Rightarrow> trans_type \<Rightarrow> ptr \<Rightarrow> int \<Rightarrow> 'x \<Rightarrow> 'x put_host world option" where
  "put_start E tr cb protocol x = do {
     h \<leftarrow> OBEX_Init (env_alloc E) tr cb 0;
     Some \<lparr>hnd = h, objs = Map.empty, next_addr = 1,
           ext = \<lparr>app = \<lparr>pa_finished = False, pa_last_rsp = int (unat OBEX_RSP_BAD_REQUEST), pa_protocol = protocol\<rparr>, os = x\<rparr>,
           libusb_ctx = CTX_NULL\<rparr> }"

partial_function (option) serve_files :: "'x put_host env \<Rightarrow> 'x unix \<Rightarrow> 'x put_host world \<Rightarrow> 'x put_host world option" where
  "serve_files E U w =
     (if \<not> pa_finished (app (ext w))
      then do { (_, w) \<leftarrow> OBEX_HandleInput (put_env E U) w 1; serve_files E U w }
      else Some w)"

partial_function (option) serve_tcp :: "'x put_host env \<Rightarrow> 'x unix \<Rightarrow> 'x put_host world \<Rightarrow> 'x put_host world option" where
  "serve_tcp E U w =
     (if \<not> pa_finished (app (ext w))
      then do {
        (ret, w) \<leftarrow> OBEX_HandleInput (put_env E U) w 10;
        (if ret \<le> 0 then Some w else serve_tcp E U w) }
      else Some w)"

abbreviation "EXIT_SUCCESS \<equiv> (0 :: int)"
abbreviation "EXIT_FAILURE \<equiv> (1 :: int)"

text \<open>irobex_palm3.c: the test after each request, with \<open>last_rsp\<close> and the result.\<close>

definition failed :: "int \<Rightarrow> 'x put_host world \<Rightarrow> bool" where
  "failed ret w \<longleftrightarrow> pa_last_rsp (app (ext w)) \<noteq> int (unat OBEX_RSP_SUCCESS) \<or> ret < 0"

definition palm3_send ::
    "'x put_host env \<Rightarrow> 'x unix \<Rightarrow> 'x put_host world \<Rightarrow> byte list option \<Rightarrow> 32 word \<Rightarrow> (int \<times> 'x put_host world) option" where
  "palm3_send E U w filename creator_id = do {
     (ret, w) \<leftarrow> IrOBEX_TransportConnect (put_env E U) w (Some (bytes_of ''OBEX'' @ [0]));
     (if ret < 0 then Some (EXIT_FAILURE, w)
      else do {
        (ret, w) \<leftarrow> plain_request E U w OBEX_CMD_CONNECT;
        (if failed ret w then Some (EXIT_FAILURE, w)
         else do {
           filename \<leftarrow> filename;
           (object, w) \<leftarrow> object_from_file (put_env E U) U (pa_protocol (app (ext w))) w filename creator_id;
           (exitval, w) \<leftarrow>
             (if object = None then Some (EXIT_FAILURE, w)
              else do {
                (ret, w) \<leftarrow> do_sync_request E U w object;
                Some (if failed ret w then EXIT_FAILURE else EXIT_SUCCESS, w) });
           (ret, w) \<leftarrow> plain_request E U w OBEX_CMD_DISCONNECT;
           Some (if failed ret w then EXIT_FAILURE else exitval, w) }) }) }"

text \<open>The four characters of a creator; shifting one that is negative is undefined.\<close>

definition creator_of :: "byte list \<Rightarrow> 32 word option" where
  "creator_of s =
     (if s ! 0 < 128 \<and> s ! 1 < 128 \<and> s ! 2 < 128
      then Some (push_bit 24 (ucast (s ! 0)) OR push_bit 16 (ucast (s ! 1)) OR push_bit 8 (ucast (s ! 2)) OR scast (s ! 3))
      else None)"

text \<open>With a creator and no file name, the name is the NULL behind the arguments.\<close>

definition palm3_main :: "'x put_host env \<Rightarrow> 'x unix \<Rightarrow> ptr \<Rightarrow> byte list list \<Rightarrow> 'x \<Rightarrow> (int \<times> 'x put_host world option) option" where
  "palm3_main E U cb argv x =
     (if length argv < 1 \<or> length argv > 4 then Some (-1, None)
      else do {
        w \<leftarrow> put_start E OBEX_TRANS_IRDA cb OBEX_PROTOCOL_GENERIC x;
        (if length argv = 1
         then do {
           (_, w) \<leftarrow> IrOBEX_ServerRegister (put_env E U) w (Some (bytes_of ''OBEX'' @ [0]));
           w \<leftarrow> serve_files E U w;
           Some (EXIT_SUCCESS, Some w) }
         else if length argv > 2 \<and> (argv ! 1 \<noteq> bytes_of ''-h'' \<or> length (argv ! 2) \<noteq> 4) then Some (-1, Some w)
         else do {
           creator_id \<leftarrow> (if length argv > 2 then creator_of (argv ! 2) else Some 0);
           (let k = (if creator_id \<noteq> 0 then 3 else 1) in do {
             (r, w) \<leftarrow> palm3_send E U w (if k < length argv then Some (argv ! k) else None) creator_id;
             Some (r, Some w) }) }) })"

text \<open>irxfer.c and obex_tcp.c do not look at any result of a request.\<close>

definition send_file ::
    "'x put_host env \<Rightarrow> 'x unix \<Rightarrow> 'x put_host world \<Rightarrow> byte list \<Rightarrow> 'x put_host world option" where
  "send_file E U w filename = do {
     (_, w) \<leftarrow> plain_request E U w OBEX_CMD_CONNECT;
     (object, w) \<leftarrow> object_from_file (put_env E U) U (pa_protocol (app (ext w))) w filename 0;
     (_, w) \<leftarrow> (if object \<noteq> None then do_sync_request E U w object else Some (0, w));
     (_, w) \<leftarrow> plain_request E U w OBEX_CMD_DISCONNECT;
     Some w }"

definition irxfer_main :: "'x put_host env \<Rightarrow> 'x unix \<Rightarrow> ptr \<Rightarrow> byte list list \<Rightarrow> 'x \<Rightarrow> (int \<times> 'x put_host world option) option" where
  "irxfer_main E U cb argv x =
     (if length argv < 1 \<or> length argv > 2 then Some (-1, None)
      else do {
        w \<leftarrow> put_start E OBEX_TRANS_IRDA cb OBEX_PROTOCOL_WIN95_IRXFER x;
        (if length argv = 1
         then do {
           (_, w) \<leftarrow> IrOBEX_ServerRegister (put_env E U) w (Some (OBEX_IRXFER @ [0]));
           w \<leftarrow> serve_files E U w;
           Some (0, Some w) }
         else do {
           (ret, w) \<leftarrow> IrOBEX_TransportConnect (put_env E U) w (Some (OBEX_IRXFER @ [0]));
           (if ret < 0 then Some (ret, Some w)
            else do { w \<leftarrow> send_file E U w (argv ! 1); Some (0, Some w) }) }) })"

definition tcp_main :: "'x put_host env \<Rightarrow> 'x unix \<Rightarrow> ptr \<Rightarrow> byte list list \<Rightarrow> 'x \<Rightarrow> (int \<times> 'x put_host world option) option" where
  "tcp_main E U cb argv x =
     (if length argv \<noteq> 3 \<and> length argv \<noteq> 1 then Some (-1, None)
      else do {
        w \<leftarrow> put_start E OBEX_TRANS_INET cb OBEX_PROTOCOL_GENERIC x;
        (if length argv = 1
         then do {
           (ret, w) \<leftarrow> TcpOBEX_ServerRegister (put_env E U) w None;
           (if ret < 0 then Some (ret, Some w)
            else do { w \<leftarrow> serve_tcp E U w; Some (0, Some w) }) }
         else (let ((ret, peer), w) = sys_os (ux_lookup U (argv ! 2)) w in
           if ret \<noteq> 0 then Some (1, Some w)
           else do {
             (ret, w) \<leftarrow> TcpOBEX_TransportConnect (put_env E U) w (Some peer);
             (if ret < 0 then Some (1, Some w)
              else do { w \<leftarrow> send_file E U w (argv ! 1); Some (0, Some w) }) })) })"

end
