(* ===== verification/Put_Laws.thy ===== *)
theory Put_Laws
  imports Put_Programs Sockets
begin

text \<open>
  The programs of obex_put_common.c as clients: how they learn that a request is over.
\<close>

section \<open>A peer that has said all it has to say\<close>

text \<open>A program of the socket kind whose \<open>select\<close> times out every time.\<close>

definition silent_peer :: "'x put_host env \<Rightarrow> bool" where
  "silent_peer E \<longleftrightarrow> (\<forall>fds t e. \<exists>x. env_select E fds t e = ((0, []), e\<lparr>os := x\<rparr>))"

definition listening :: "'x put_host world \<Rightarrow> bool" where
  "listening w \<longleftrightarrow> t_type (tport (hnd w)) \<in> {OBEX_TRANS_IRDA, OBEX_TRANS_INET} \<and> select_fds (hnd w) \<noteq> [] \<and> \<not> pa_finished (app (ext w))"

lemma silence_continues:
  assumes "silent_peer E" and "listening w"
  obtains w' where "OBEX_HandleInput (put_env E U) w t = Some (0, w')" "listening w'"
proof -
  have "env_select (put_env E U) = env_select E" by (simp add: put_env_def)
  moreover obtain x where "env_select E (select_fds (hnd w)) t (ext w) = ((0, []), (ext w)\<lparr>os := x\<rparr>)"
    using assms(1) unfolding silent_peer_def by blast
  ultimately have "OBEX_HandleInput (put_env E U) w t = Some (0, w\<lparr>ext := (ext w)\<lparr>os := x\<rparr>\<rparr>)"
    using assms(2) by (auto simp: OBEX_HandleInput_def obex_transport_handle_input_def handle_select_def listening_def sys_def)
  moreover have "listening (w\<lparr>ext := (ext w)\<lparr>os := x\<rparr>\<rparr>)" using assms(2) by (simp add: listening_def)
  ultimately show ?thesis by (rule that)
qed

lemma silence_hangs: "wait_for_rsp E U w = Some y \<Longrightarrow> silent_peer E \<Longrightarrow> \<not> listening w"
proof (induction E U w y rule: wait_for_rsp.raw_induct [rotated, consumes 1, case_names step])
  case (step f E U w y)
  show ?case
  proof
    assume l: "listening w"
    obtain w' where w': "OBEX_HandleInput (put_env E U) w 10 = Some (0, w')" "listening w'"
      by (rule silence_continues [OF step.prems l])
    have "\<not> pa_finished (app (ext w))" using l by (simp add: listening_def)
    then have "f E U w' = Some y" using step.hyps w'(1) by simp
    then show False using step.IH step.prems w'(2) by blast
  qed
qed

section \<open>The end of a request\<close>

lemma put_client_done_event:
  assumes "cur_obj w = Some ob" and "\<not> abort_req ob" and "ob_opcode ob \<noteq> OBEX_CMD_DISCONNECT"
  obtains w' where "client_done (put_env E U) w rsp = Some (0, w')" "ext w' = ext w" "tport (hnd w') = tport (hnd w)" 
    "select_fds (hnd w') = select_fds (hnd w)"
proof -
  obtain a where a: "cur_object (hnd w) = Some a" "objs w a = Some ob" using assms(1) by (auto simp: cur_obj_def bind_eq_Some_conv)
  let ?w = "w\<lparr>hnd := (hnd w)\<lparr>state := (MODE_SRV, STATE_IDLE), cur_object := None\<rparr>, objs := (objs w)(a := None)\<rparr>"
  have "client_done (put_env E U) w rsp = Some (0, ?w)"
    using a assms(2,3)
    by (simp add: client_done_def obex_deliver_event_def put_env_def put_event_def put_server_done_def obex_object_delete_Some)
  then show ?thesis by (rule that) (simp_all add: select_fds_def)
qed

text \<open>
  C36: the programs of obex_put_common.c never learn that a request other than DISCONNECT has been answered. The library
  changes to the server's mode before it reports the end, so \<open>obex_event\<close> takes it for the end of a request it served:
  \<open>client_done\<close>, which would set \<open>finished\<close>, is not called. If the peer then waits for the next request, as it should,
  \<open>wait_for_rsp\<close> does not return.
\<close>

theorem put_program_waits_forever:
  assumes "cur_obj w = Some ob" and "\<not> abort_req ob" and "ob_opcode ob \<noteq> OBEX_CMD_DISCONNECT" and "silent_peer E" and "listening w"
  shows "\<exists>w'. client_done (put_env E U) w rsp = Some (0, w') \<and> app (ext w') = app (ext w) \<and> wait_for_rsp E U w' = None"
proof -
  obtain w' where w': "client_done (put_env E U) w rsp = Some (0, w')" "ext w' = ext w" "tport (hnd w') = tport (hnd w)"
    "select_fds (hnd w') = select_fds (hnd w)"
    by (rule put_client_done_event [OF assms(1-3)])
  have "listening w'" using assms(5) w' by (simp add: listening_def)
  then have "wait_for_rsp E U w' = None" using silence_hangs [OF _ assms(4)] by (cases "wait_for_rsp E U w'") blast+
  then show ?thesis using w'(1,2) by (intro exI [of _ w'] conjI) simp_all
qed

definition asking_world :: "unit put_host world" where
  "asking_world = \<lparr>hnd = ex_handle\<lparr>fd := 5, tport := \<lparr>t_type = OBEX_TRANS_INET, t_connected = True, t_mtu = 1024, t_self = SA_NONE, t_peer = SA_NONE\<rparr>,
       state := (MODE_CLI, STATE_REC)\<rparr>,
     objs = [1 \<mapsto> obex_object_setcmd obex_object_init OBEX_CMD_CONNECT (OBEX_CMD_CONNECT OR OBEX_FINAL)], next_addr = 2,
     ext = \<lparr>app = \<lparr>pa_finished = False, pa_last_rsp = 0, pa_protocol = 0\<rparr>, os = ()\<rparr>, libusb_ctx = CTX_NULL\<rparr>"

theorem put_program_waits_forever_witness:
  "\<exists>w'. client_done (put_env calm_env dead_unix) asking_world OBEX_RSP_SUCCESS = Some (0, w')
    \<and> wait_for_rsp calm_env (dead_unix :: unit unix) w' = None"
proof -
  have "cur_obj asking_world = Some (obex_object_setcmd obex_object_init OBEX_CMD_CONNECT (OBEX_CMD_CONNECT OR OBEX_FINAL))"
    by (simp add: asking_world_def cur_obj_def ex_handle_def)
  from put_program_waits_forever [OF this, of calm_env "dead_unix :: unit unix" OBEX_RSP_SUCCESS] show ?thesis
    by (auto simp: silent_peer_def calm_env_def listening_def asking_world_def select_fds_def ex_handle_def
        obex_object_setcmd_def obex_object_init_def obex_object_setrsp_def obex_object_zero_def)
qed

section \<open>Where files are saved\<close>

lemma strrchr_after_no: "strrchr_after s c = Some r \<Longrightarrow> c \<notin> set r" "strrchr_after s c = None \<Longrightarrow> c \<notin> set s"
  by (induction s arbitrary: r) (auto split: option.splits if_splits)

lemma saved_name_plain: "SLASH \<notin> set (saved_name n)" "length (saved_name n) \<le> 250"
  using strrchr_after_no [of n SLASH] by (auto simp: saved_name_def dest: in_set_takeD split: option.splits)

text \<open>
  C40: whatever names the peer sends, \<open>put_done\<close> opens files in the working directory only, with names of at most 250
  characters: what the system does with other names makes no difference.
\<close>

theorem put_stays_in_directory:
  "put_done E (U\<lparr>ux_create := (\<lambda>n x. if SLASH \<in> set n \<or> 250 < length n then elsewhere n x else ux_create U n x)\<rparr>) w object = put_done E U w object"
proof -
  let ?U = "U\<lparr>ux_create := (\<lambda>n x. if SLASH \<in> set n \<or> 250 < length n then elsewhere n x else ux_create U n x)\<rparr>"
  have "ux_create ?U (saved_name n) = ux_create U (saved_name n)" for n
    using saved_name_plain [of n] by (simp add: fun_eq_iff)
  moreover have "ux_write ?U = ux_write U" "ux_close ?U = ux_close U" by simp_all
  ultimately have "safe_save_file ?U n = safe_save_file U n" for n by (intro ext) (simp only: safe_save_file_def)
  then show ?thesis by (simp only: put_done_def)
qed

end
