(* ===== verification/Fresh_Headers.thy ===== *)
theory Fresh_Headers
  imports Roundtrip Api_Laws
begin

text \<open>
  The addresses of received headers: unpacking gives every header element an address of its own, which is what
  \<open>obex_object_getnextheader\<close> relies on when it removes one from the queue.
\<close>

section \<open>Headers with addresses of their own\<close>

text \<open>The elements of the receive queue have different addresses, all below the next one.\<close>

definition fresh_queue :: "obex_object \<Rightarrow> addr \<Rightarrow> bool" where
  "fresh_queue ob n \<longleftrightarrow> \<not> s_srv ob \<and> distinct (map fst (rx_headerq ob)) \<and> (\<forall>x \<in> set (rx_headerq ob). fst x < n)"

definition fresh_headers :: "'e world \<Rightarrow> addr \<Rightarrow> bool" where
  "fresh_headers w a \<longleftrightarrow> (case objs w a of None \<Rightarrow> False | Some ob \<Rightarrow> fresh_queue ob (next_addr w))"

lemma fresh_headers_simps [simp]:
  "objs w a = Some ob \<Longrightarrow> fresh_headers w a = fresh_queue ob (next_addr w)"
  by (simp add: fresh_headers_def)

lemma fresh_headersE: "fresh_headers w a \<Longrightarrow> (\<And>ob. objs w a = Some ob \<Longrightarrow> fresh_queue ob (next_addr w) \<Longrightarrow> thesis) \<Longrightarrow> thesis"
  by (simp add: fresh_headers_def split: option.splits)

lemma fresh_queue_simps [simp]:
  "fresh_queue (ob\<lparr>rx_body := b\<rparr>) n = fresh_queue ob n" "fresh_queue (ob\<lparr>hinted_body_len := l\<rparr>) n = fresh_queue ob n"
  "fresh_queue (ob\<lparr>headeroffset := k\<rparr>) n = fresh_queue ob n" "fresh_queue (ob\<lparr>rx_nonhdr_data := d\<rparr>) n = fresh_queue ob n"
  "fresh_queue (ob\<lparr>rx_headerq := rx_headerq ob\<rparr>) n = fresh_queue ob n"
  "fresh_queue (ob\<lparr>hinted_body_len := l, rx_headerq := q\<rparr>) n = fresh_queue (ob\<lparr>rx_headerq := q\<rparr>) n"
  by (simp_all add: fresh_queue_def)

lemma fresh_queue_Suc: "fresh_queue ob n \<Longrightarrow> fresh_queue ob (Suc n)"
  by (auto simp: fresh_queue_def less_Suc_eq)

lemma fresh_queue_append:
  "slist_append A (rx_headerq ob) (n, el) = Some q \<Longrightarrow> fresh_queue ob n \<Longrightarrow> fresh_queue (ob\<lparr>rx_headerq := q\<rparr>) (Suc n)"
  by (auto simp: fresh_queue_def slist_append_def less_Suc_eq split: if_splits)

lemma fresh_srv: "fresh_queue ob n \<Longrightarrow> \<not> s_srv ob"
  by (simp add: fresh_queue_def)

lemma body_buffer_fresh:
  assumes "receive_body_buffer A ob len = Some (ok, ob')" and "fresh_queue ob n"
  shows "fresh_queue ob' n"
  using assms by (auto simp: receive_body_buffer_def Let_def split: option.splits if_splits Option.bind_splits)

lemma receive_body_fresh:
  assumes "obex_object_receive_body E w a hi source len = Some (r, w')" and "fresh_headers w a"
  shows "fresh_headers w' a"
proof -
  obtain ob where ob: "objs w a = Some ob" "fresh_queue ob (next_addr w)" using assms(2) by (rule fresh_headersE)
  show ?thesis
    using assms(1) ob
    by (auto simp: obex_object_receive_body_def Let_def simp del: slist_append_Some split: if_splits Option.bind_splits
        dest!: body_buffer_fresh [OF _ ob(2)]) (erule (1) fresh_queue_append | erule fresh_queue_Suc)+
qed

lemma receive_decode_fresh:
  assumes "receive_decode E w a hi = Some (src, len, hlen, err, w')" and "fresh_headers w a"
  shows "fresh_headers w' a"
  using assms fresh_srv
  by (auto simp: receive_decode_def Let_def elim!: fresh_headersE split: if_splits Option.bind_splits dest: receive_body_fresh)

lemma receive_header_fresh:
  assumes "receive_header E a w = Some (err, hlen, w')" and "fresh_headers w a"
  shows "fresh_headers w' a"
proof -
  obtain h0 src len hlen' err' w1 where d: "mem_read (buf_ptr (rx_msg (hnd w))) 0 1 = Some h0" "receive_decode E w a (h0 ! 0) = Some (src, len, hlen', err', w1)"
    using assms(1) by (auto simp: receive_header_def Let_def split: Option.bind_splits)
  have "fresh_headers w1 a" by (rule receive_decode_fresh [OF d(2) assms(2)])
  then obtain ob where ob: "objs w1 a = Some ob" "fresh_queue ob (next_addr w1)" by (rule fresh_headersE)
  show ?thesis
    using assms(1) d ob
    by (auto simp: receive_header_def Let_def simp del: slist_append_Some split: if_splits Option.bind_splits option.splits
        intro: fresh_queue_append)
qed

lemma fresh_set_rx [simp]: "fresh_headers (set_rx w m) a = fresh_headers w a"
  by (simp add: fresh_headers_def cong: option.case_cong)

lemma receive_headers_fresh: "receive_headers E a w = Some y \<Longrightarrow> fresh_headers w a \<Longrightarrow> fresh_headers (snd y) a"
proof (induction E a w y rule: receive_headers.raw_induct [rotated, consumes 1, case_names step])
  case (step f E a w y)
  show ?case
  proof (cases "data_size (rx_msg (hnd w)) = 0")
    case True
    then show ?thesis using step.hyps step.prems by auto
  next
    case False
    then obtain err n w1 where h: "receive_header E a w = Some (err, n, w1)"
      and r: "(if err then Some (-1, w1) else f E a (set_rx w1 (buf_remove_begin (rx_msg (hnd w1)) n))) = Some y"
      using step.hyps by (auto split: Option.bind_splits)
    have "fresh_headers w1 a" by (rule receive_header_fresh [OF h step.prems])
    with r step.IH show ?thesis by (cases err) auto
  qed
qed

lemma receive_fresh:
  assumes "obex_object_receive E w = Some (r, w')" and "cur_object (hnd w) = Some a" and "fresh_headers w a"
  shows "fresh_headers w' a"
proof -
  let ?w = "set_rx w (buf_remove_begin (rx_msg (hnd w)) 3)"
  have "fresh_headers ?w a" using assms(3) by simp
  moreover have "fresh_headers w1 a" if "receive_nonhdr E a ?w = Some (ok, w1)" for ok w1
    using that assms(3)
    by (auto simp: receive_nonhdr_def elim!: fresh_headersE split: if_splits Option.bind_splits option.splits)
  moreover have "fresh_headers w' a" if "receive_headers E a w1 = Some (r, w')" "fresh_headers w1 a" for w1
    using receive_headers_fresh [OF that] by simp
  ultimately show ?thesis
    using assms(1,2) by (auto simp: obex_object_receive_def split: if_splits Option.bind_splits)
qed

end
