(* ===== verification/Conversation.thy ===== *)
theory Conversation
  imports Fresh_Headers
begin

text \<open>
  Client and server together. Two handles are connected by a link that carries whole packets: what one hands to its
  transport is given to the other. A client makes a PUT request; the application of the server accepts it and takes
  what it finds in the object when the request is complete. What both sides need of their transport and of their
  application are locales; Cable_Transfer interprets them for the program obex_test.
\<close>

section \<open>Two stations\<close>

text \<open>A packet arrives complete in the receive buffer; that pieces come together there is shown in Api_Laws.\<close>

definition deliver :: "'e env \<Rightarrow> byte list \<Rightarrow> 'e world \<Rightarrow> 'e world option" where
  "deliver E p w = map_option snd (indicate_dispatch E (set_rx w (buf_holding p 0)) (p ! 0))"

text \<open>
  One packet of the client and the answer to it, as long as the client waits for one. \<open>oc\<close> and \<open>os\<close> are the packets
  that have left the client and the server.
\<close>

fun converse :: "nat \<Rightarrow> 'c env \<Rightarrow> ('c \<Rightarrow> byte list list) \<Rightarrow> 's env \<Rightarrow> ('s \<Rightarrow> byte list list) \<Rightarrow> 'c world \<Rightarrow> 's world
    \<Rightarrow> ('c world \<times> 's world) option" where
  "converse 0 Ec outc Es outs c s = Some (c, s)"
| "converse (Suc n) Ec outc Es outs c s =
     (if fst (state (hnd c)) = MODE_SRV then Some (c, s)
      else do {
        s \<leftarrow> deliver Es (last (outc (ext c))) s;
        c \<leftarrow> deliver Ec (last (outs (ext s))) c;
        converse n Ec outc Es outs c s })"

section \<open>The interface to the link and to the applications\<close>

text \<open>
  A custom transport that takes every packet as long as it is \<open>up\<close>: \<open>posted\<close> is what that does to the state outside,
  \<open>out\<close> the packets that have left, and \<open>view\<close> what sending leaves alone.
\<close>

locale link_end =
  fixes E :: "'e env" and up :: "'e \<Rightarrow> bool" and out :: "'e \<Rightarrow> byte list list" and posted :: "byte list \<Rightarrow> 'e \<Rightarrow> 'e"
    and view :: "'e \<Rightarrow> 'v"
  assumes alloc: "up e \<Longrightarrow> generous (env_alloc E)"
    and ct_write: "up (ext w) \<Longrightarrow> env_ct_write E f w c d = Some (int (length d), w\<lparr>ext := posted d (ext w)\<rparr>)"
    and posted_up: "up e \<Longrightarrow> up (posted d e)"
    and posted_out: "up e \<Longrightarrow> out (posted d e) = out e @ [d]"
    and posted_view: "up e \<Longrightarrow> view (posted d e) = view e"

text \<open>An object that has been received and will be answered with an empty success.\<close>

definition received :: "obex_object \<Rightarrow> bool" where
  "received ob \<longleftrightarrow> distinct (map fst (rx_headerq ob)) \<and> (\<forall>m \<in> set (rx_headerq ob). rx_elem_ok m)"

definition answering :: "obex_object \<Rightarrow> bool" where
  "answering ob \<longleftrightarrow> tx_headerq ob = [] \<and> tx_nonhdr_data ob = None \<and> \<not> suspend ob \<and> ob_lastopcode ob = OBEX_RSP_SUCCESS"

text \<open>
  An application that serves PUT: it accepts a request before anything of it is read, and takes the headers of a
  complete one if it can make sense of them (\<open>accepts\<close>).
\<close>

locale put_acceptor = link_end +
  fixes accepts :: "(byte \<times> byte list) list \<Rightarrow> bool" and keep :: "(byte \<times> byte list) list \<Rightarrow> 'e \<Rightarrow> 'e"
  assumes hint: "up (ext w) \<Longrightarrow> objs w a = Some ob \<Longrightarrow>
      env_event E cb w (Some a) OBEX_MODE_SERVER OBEX_EV_REQHINT OBEX_CMD_PUT r
        = Some (w\<lparr>objs := (objs w)(a := Some (obex_object_setrsp ob OBEX_RSP_CONTINUE OBEX_RSP_SUCCESS))\<rparr>)"
    and req: "up (ext w) \<Longrightarrow> objs w a = Some ob \<Longrightarrow> received ob \<Longrightarrow> answering ob \<Longrightarrow> accepts (snd (rx_state ob)) \<Longrightarrow>
      \<exists>ob'. env_event E cb w (Some a) OBEX_MODE_SERVER OBEX_EV_REQ OBEX_CMD_PUT r
        = Some (w\<lparr>objs := (objs w)(a := Some ob'), ext := keep (snd (rx_state ob)) (ext w)\<rparr>) \<and> answering ob'"
    and other_event: "up (ext w) \<Longrightarrow> ev \<in> {OBEX_EV_PROGRESS, OBEX_EV_REQCHECK, OBEX_EV_REQDONE} \<Longrightarrow>
      env_event E cb w (Some a) OBEX_MODE_SERVER ev OBEX_CMD_PUT r = Some w"
    and keep_up: "up e \<Longrightarrow> accepts hs \<Longrightarrow> up (keep hs e)"
    and keep_out: "up e \<Longrightarrow> accepts hs \<Longrightarrow> out (keep hs e) = out e"

text \<open>
  An application that makes a PUT request. The library changes to the server's mode before it reports the end of a
  request, so the client is told of it as if it were the server.
\<close>

locale put_requester = link_end +
  fixes told :: "byte \<Rightarrow> 'e \<Rightarrow> 'e"
  assumes progress: "up (ext w) \<Longrightarrow> env_event E cb w object OBEX_MODE_CLIENT OBEX_EV_PROGRESS OBEX_CMD_PUT r = Some w"
    and ended: "up (ext w) \<Longrightarrow> env_event E cb w object OBEX_MODE_SERVER OBEX_EV_REQDONE OBEX_CMD_PUT r
      = Some (w\<lparr>ext := told r (ext w)\<rparr>)"

section \<open>Handles on the link\<close>

definition serving :: "('e \<Rightarrow> bool) \<Rightarrow> 'e world \<Rightarrow> bool" where
  "serving up w \<longleftrightarrow> up (ext w) \<and> t_type (tport (hnd w)) = OBEX_TRANS_CUSTOM \<and> ct_write (ctrans (hnd w)) \<noteq> 0
     \<and> buf_wf (tx_msg (hnd w)) \<and> buf_cap (tx_msg (hnd w)) < 4611686018427387904"

definition ready_server :: "('e \<Rightarrow> bool) \<Rightarrow> 'e world \<Rightarrow> bool" where
  "ready_server up w \<longleftrightarrow> serving up w \<and> state (hnd w) = (MODE_SRV, STATE_IDLE) \<and> cur_object (hnd w) = None"

text \<open>A PUT of which \<open>k\<close> bytes may still come.\<close>

definition open_put :: "('e \<Rightarrow> bool) \<Rightarrow> 'e world \<Rightarrow> addr \<Rightarrow> obex_object \<Rightarrow> nat \<Rightarrow> bool" where
  "open_put up w b rob k \<longleftrightarrow> serving up w \<and> state (hnd w) = (MODE_SRV, STATE_REC) \<and> cur_object (hnd w) = Some b
     \<and> objs w b = Some rob \<and> ob_cmd rob = OBEX_CMD_PUT \<and> ob_opcode rob = OBEX_RSP_CONTINUE \<and> answering rob
     \<and> rx_ready rob k \<and> fresh_queue rob (next_addr w) \<and> headeroffset rob = 0 \<and> \<not> first_packet_sent rob"

text \<open>Between two packets: nothing yet, or an open request with what has come of it.\<close>

definition awaits :: "('e \<Rightarrow> bool) \<Rightarrow> 'e world \<Rightarrow> nat \<Rightarrow> rx_state \<Rightarrow> bool" where
  "awaits up w k st \<longleftrightarrow> (ready_server up w \<and> st = ([], []) \<and> k < 1300000000) \<or> (\<exists>b rob. open_put up w b rob k \<and> rx_state rob = st)"

text \<open>A PUT request of which nothing has been answered finally; it waits for an answer.\<close>

definition put_request :: "'e env \<Rightarrow> ('e \<Rightarrow> bool) \<Rightarrow> 'e world \<Rightarrow> addr \<Rightarrow> obex_object \<Rightarrow> bool" where
  "put_request E up w a ob \<longleftrightarrow> sendable E w a ob \<and> serving up w \<and> ob_opcode ob = OBEX_CMD_PUT
     \<and> ob_lastopcode ob = OBEX_CMD_PUT OR OBEX_FINAL \<and> tx_nonhdr_data ob = None
     \<and> headeroffset ob = 0 \<and> rx_ready ob 0 \<and> \<not> abort_req ob"

definition waiting :: "'e env \<Rightarrow> ('e \<Rightarrow> bool) \<Rightarrow> 'e world \<Rightarrow> addr \<Rightarrow> obex_object \<Rightarrow> bool" where
  "waiting E up w a ob \<longleftrightarrow> put_request E up w a ob \<and> state (hnd w) = (MODE_CLI, STATE_REC) \<and> cur_object (hnd w) = Some a"

definition sent_opcode :: "(tx_item \<times> bool) list \<Rightarrow> byte" where
  "sent_opcode items = (if items = [] then 0x82 else 0x02)"

definition bytes_left :: "(tx_item \<times> bool) list \<Rightarrow> nat" where
  "bytes_left items = items_bytes items + 6 * (to_send items + 1)"

abbreviation post :: "(byte list \<Rightarrow> 'e \<Rightarrow> 'e) \<Rightarrow> byte list \<Rightarrow> 'e world \<Rightarrow> 'e world" where
  "post p d w \<equiv> w\<lparr>ext := p d (ext w)\<rparr>"

lemma set_rx_server [simp]:
  "serving up (set_rx w m) = serving up w" "ready_server up (set_rx w m) = ready_server up w"
  "open_put up (set_rx w m) b rob k = open_put up w b rob k" "awaits up (set_rx w m) k st = awaits up w k st"
  by (simp_all add: serving_def ready_server_def open_put_def awaits_def)

lemma waiting_set_rx [simp]: "waiting E up (set_rx w m) a ob = waiting E up w a ob"
  by (simp add: waiting_def put_request_def sendable_def serving_def)

lemma open_put_simps:
  assumes "open_put up w b rob k"
  shows "serving up w" "state (hnd w) = (MODE_SRV, STATE_REC)" "cur_object (hnd w) = Some b" "objs w b = Some rob"
    "ob_cmd rob = OBEX_CMD_PUT" "ob_opcode rob = OBEX_RSP_CONTINUE" "ob_lastopcode rob = OBEX_RSP_SUCCESS"
    "tx_headerq rob = []" "tx_nonhdr_data rob = None" "\<not> suspend rob" "\<not> first_packet_sent rob" "up (ext w)" "answering rob"
  using assms by (simp_all add: open_put_def answering_def serving_def)

lemma packet_read:
  assumes "buf_wf m" and "buf_bytes m = packet opc d"
  obtains x y where "mem_read (buf_ptr m) 0 3 = Some [opc, x, y]"
proof -
  obtain x y where "be16 (length d + 3) = [x, y]" using be16_split by blast
  then have "take 3 (buf_bytes m) = [opc, x, y]" using assms(2) by (simp add: packet_def)
  then show ?thesis using mem_read_bytes [OF assms(1), of 0 3] length_buf_bytes [OF assms(1)] assms(2)
    by (intro that) simp
qed

section \<open>Sending\<close>

context link_end
begin

lemma transport_write_posts:
  assumes "serving up w"
  shows "obex_transport_write E w = Some (int (data_size (tx_msg (hnd w))), post posted (buf_bytes (tx_msg (hnd w))) w)"
proof -
  have wf: "buf_wf (tx_msg (hnd w))" using assms by (simp add: serving_def)
  have "mem_read (buf_ptr (tx_msg (hnd w))) 0 (data_size (tx_msg (hnd w))) = Some (buf_bytes (tx_msg (hnd w)))"
    using buf_ptr_ge [OF wf] by (simp add: mem_simps buf_bytes_def)
  then show ?thesis using assms length_buf_bytes [OF wf]
    by (simp add: obex_transport_write_def serving_def ct_write Let_def)
qed

lemma serving_put [simp]:
  assumes "serving up w" and "buf_wf msg" and "buf_cap msg < 4611686018427387904"
  shows "serving up (put w a msg ob)" "serving up (post posted d (put w a msg ob))"
  using assms by (simp_all add: serving_def put_def posted_up)

text \<open>One packet of an object that can be sent.\<close>

lemma send_posts:
  assumes "sendable E w a ob" and "serving up w"
    and "pack (unat (mtu_tx (hnd w))) (send_tx_left (hnd w)) (map item_of (tx_headerq ob)) = Some (ws, items, False, True)"
  obtains msg ob' where
    "obex_object_send E w a allow force = Some (snd (send_opcode ob' allow force),
       post posted (packet (fst (send_opcode ob' allow force)) (nonhdr_bytes ob @ wires_bytes ws)) (put w a msg ob'))"
    "ob' = ob\<lparr>tx_nonhdr_data := None, suspend := False, tx_headerq := tx_headerq ob'\<rparr>"
    "map item_of (tx_headerq ob') = items" "buf_wf msg" "buf_cap msg < 4611686018427387904"
    "sendable E (post posted d (put w a msg ob')) a ob'"
proof -
  obtain q' tx' msg ob' where s:
    "obex_object_send E w a allow force = (if \<not> True then Some (-1, put w a tx' ob')
       else do { (actual, w) \<leftarrow> obex_transport_write E (put w a msg ob');
                 Some (if actual < 0 then actual else snd (send_opcode ob' allow force), w) })"
    "ob' = ob\<lparr>tx_nonhdr_data := None, suspend := False, tx_headerq := q'\<rparr>"
    "queue_ok q'" "map item_of q' = items" "buf_wf msg"
    "buf_bytes msg = packet (fst (send_opcode ob' allow force)) (nonhdr_bytes ob @ wires_bytes ws)"
    "buf_cap msg < 4611686018427387904"
    by (rule obex_object_send_packs [OF assms(1,3)]) blast
  have t: "obex_transport_write E (put w a msg ob') = Some (int (data_size msg), post posted (buf_bytes msg) (put w a msg ob'))"
    using transport_write_posts [OF serving_put(1) [OF assms(2) s(5,7)], of a ob'] by (simp add: put_def)
  have len: "items_bytes items \<le> items_bytes (map item_of (tx_headerq ob))" by (rule pack_items_le [OF assms(3)])
  have "sendable E (post posted d (put w a msg ob')) a ob'" using assms(1) s len by (simp add: sendable_def nonhdr_bytes_def put_def)
  then show ?thesis using that [of ob' msg] s t by simp
qed

text \<open>An object without headers answers with one empty packet.\<close>

lemma empty_answer:
  assumes "serving up w" and "objs w b = Some rob" and "answering rob"
  obtains msg where "obex_object_send E w b allow True = Some (if allow then 1 else 0,
      post posted (packet ((if allow then OBEX_RSP_SUCCESS else ob_opcode rob) OR OBEX_FINAL) []) (put w b msg rob))"
    "buf_wf msg" "buf_cap msg < 4611686018427387904"
proof -
  have rob: "tx_headerq rob = []" "tx_nonhdr_data rob = None" "\<not> suspend rob" "ob_lastopcode rob = OBEX_RSP_SUCCESS"
    using assms(3) by (simp_all add: answering_def)
  have ok: "sendable E w b rob" using assms(1,2) rob alloc [of "ext w"] by (simp add: sendable_def serving_def queue_ok_def nonhdr_bytes_def)
  have "pack (unat (mtu_tx (hnd w))) (send_tx_left (hnd w)) (map item_of (tx_headerq rob)) = Some ([], [], False, True)"
    by (simp add: rob)
  from send_posts [OF ok assms(1) this, of allow True]
  obtain msg ob' where s: "obex_object_send E w b allow True = Some (snd (send_opcode ob' allow True),
       post posted (packet (fst (send_opcode ob' allow True)) (nonhdr_bytes rob @ wires_bytes [])) (put w b msg ob'))"
    "ob' = rob\<lparr>tx_nonhdr_data := None, suspend := False, tx_headerq := tx_headerq ob'\<rparr>" "map item_of (tx_headerq ob') = []"
    "buf_wf msg" "buf_cap msg < 4611686018427387904"
    by metis
  have "ob' = rob" using s(2,3) rob by (cases rob) simp
  then show ?thesis using s(1) rob
    by (intro that [OF _ s(4,5)]) (simp add: send_opcode_def nonhdr_bytes_def)
qed

end

section \<open>The server\<close>

context put_acceptor
begin

lemma server_event:
  assumes "serving up w" and "cur_object (hnd w) = Some b" and "fst (state (hnd w)) = MODE_SRV"
    and "ev \<in> {OBEX_EV_PROGRESS, OBEX_EV_REQCHECK}"
  shows "obex_deliver_event E w ev OBEX_CMD_PUT r False = Some w"
  using assms by (auto simp: obex_deliver_event_def serving_def other_event)

text \<open>The packet, unpacked into the open request.\<close>

lemma open_put_receives:
  assumes "open_put up w b rob (length (enc_headers hs) + k)" and "buf_wf (rx_msg (hnd w))"
    and "buf_bytes (rx_msg (hnd w)) = packet opc (enc_headers hs)" and "list_all hdr_ok hs" and "length (enc_headers hs) < 65533"
  obtains w' rob' where "obex_object_receive E w = Some (1, w')" "open_put up w' b rob' k"
    "rx_state rob' = foldl rx_step (rx_state rob) hs" "ext w' = ext w"
proof -
  obtain x y where xy: "be16 (length (enc_headers hs) + 3) = [x, y]" using be16_split by blast
  have bytes: "buf_bytes (rx_msg (hnd w)) = [opc, x, y] @ [] @ enc_headers hs" using assms(3) xy by (simp add: packet_def)
  have size: "data_size (rx_msg (hnd w)) < 65536"
    using length_buf_bytes [OF assms(2)] assms(3,5) by simp
  have o: "cur_object (hnd w) = Some b" "objs w b = Some rob" "headeroffset rob = length ([] :: byte list)"
    "rx_ready rob (length (enc_headers hs) + k)"
    using assms(1) by (simp_all add: open_put_def)
  have A: "generous (env_alloc E)" using assms(1) alloc [of "ext w"] by (simp add: open_put_def serving_def)
  obtain rx' nd ob' na' where r: "obex_object_receive E w = Some (1, rput w b rx' ob' na')"
    "rx_state ob' = foldl rx_step (rx_state rob) hs" "rx_ready ob' k"
    "rx_same (rob\<lparr>rx_nonhdr_data := nd, headeroffset := 0\<rparr>) ob'"
    by (rule obex_object_receive_spec [OF A o(1-3) assms(2) bytes assms(4) size o(4)]) blast
  have "fresh_headers w b" using assms(1) by (simp add: open_put_def)
  then have "fresh_headers (rput w b rx' ob' na') b" by (rule receive_fresh [OF r(1) o(1)])
  then have fresh: "fresh_queue ob' na'" by simp
  note same = arg_cong [OF r(4) [unfolded rx_same_def]]
  have "open_put up (rput w b rx' ob' na') b ob' k"
    using assms(1) r(3) fresh same [of ob_cmd] same [of ob_opcode] same [of ob_lastopcode] same [of headeroffset]
      same [of tx_headerq] same [of tx_nonhdr_data] same [of suspend] same [of first_packet_sent]
    by (simp add: open_put_def serving_def answering_def rput_def)
  then show ?thesis using that r(1,2) by (simp add: rput_def)
qed

lemma open_put_more:
  assumes "open_put up w b rob (length (enc_headers hs) + k)" and "buf_wf (rx_msg (hnd w))"
    and "buf_bytes (rx_msg (hnd w)) = packet opc (enc_headers hs)" and "list_all hdr_ok hs" and "length (enc_headers hs) < 65533"
  obtains w' rob' where "\<And>len. server_rec E w OBEX_CMD_PUT len False = Some (0, w')" "open_put up w' b rob' k"
    "rx_state rob' = foldl rx_step (rx_state rob) hs" "ext w' = posted (packet 0x90 []) (ext w)"
proof -
  obtain w1 ob1 where r: "obex_object_receive E w = Some (1, w1)" "open_put up w1 b ob1 k"
    "rx_state ob1 = foldl rx_step (rx_state rob) hs" "ext w1 = ext w"
    by (rule open_put_receives [OF assms])
  note o = open_put_simps [OF assms(1)] and o1 = open_put_simps [OF r(2)]
  define ob2 where "ob2 = ob1\<lparr>checked := True\<rparr>"
  define w2 where "w2 = w1\<lparr>objs := (objs w1)(b := Some ob2)\<rparr>"
  have w2: "open_put up w2 b ob2 k"
    using r(2) by (simp add: open_put_def w2_def ob2_def serving_def answering_def rx_ready_def fresh_queue_def)
  note o2 = open_put_simps [OF w2]
  have same: "w2 = w1" if "checked ob1"
  proof -
    have "ob2 = ob1" using that by (cases ob1) (simp add: ob2_def)
    then have "(objs w1)(b := Some ob2) = objs w1" using o1(4) by (simp add: fun_upd_idem)
    then show ?thesis by (simp add: w2_def)
  qed
  have ev: "obex_deliver_event E w1 OBEX_EV_REQCHECK OBEX_CMD_PUT 0 False = Some w1"
    using server_event [OF o1(1,3)] o1(2) by simp
  have upd: "upd_cur w1 (checked_update (\<lambda>_. True)) = Some w2" using o1(3,4) by (simp add: w2_def ob2_def)
  have check: "server_check E w1 OBEX_CMD_PUT False = Some (False, False, w2)"
    using o1(3,4,6) o2(3,4,6) same by (cases "checked ob1") (simp_all add: server_check_def cur_opcode_def ev upd)
  obtain msg where s: "obex_object_send E w2 b False True = Some (0, post posted (packet 0x90 []) (put w2 b msg ob2))"
    "buf_wf msg" "buf_cap msg < 4611686018427387904"
    using empty_answer [OF o2(1,4,13), of False] o2(6) by auto
  define w3 where "w3 = post posted (packet 0x90 []) (put w2 b msg ob2)"
  have w3: "open_put up w3 b ob2 k" using w2 s(2,3) by (simp add: w3_def open_put_def serving_def put_def posted_up)
  note o3 = open_put_simps [OF w3]
  have "server_rec E w OBEX_CMD_PUT len False = Some (0, w3)" for len
    using o r(1) check o2(3) s(1) server_event [OF o3(1,3), of OBEX_EV_PROGRESS 0] o3(2)
    by (simp add: server_rec_def flip: w3_def)
  from that [OF this w3] show ?thesis using r(3,4) by (simp add: ob2_def w3_def w2_def put_def rx_state_def)
qed

lemma open_put_final:
  assumes "open_put up w b rob (length (enc_headers hs) + k)" and "buf_wf (rx_msg (hnd w))"
    and "buf_bytes (rx_msg (hnd w)) = packet opc (enc_headers hs)" and "list_all hdr_ok hs" and "length (enc_headers hs) < 65533"
    and "accepts (snd (foldl rx_step (rx_state rob) hs))"
  obtains w' where "\<And>len. server_rec E w OBEX_CMD_PUT len True = Some (0, w')" "ready_server up w'"
    "ext w' = posted (packet 0xA0 []) (keep (snd (foldl rx_step (rx_state rob) hs)) (ext w))"
proof -
  obtain w1 ob1 where r: "obex_object_receive E w = Some (1, w1)" "open_put up w1 b ob1 k"
    "rx_state ob1 = foldl rx_step (rx_state rob) hs" "ext w1 = ext w"
    by (rule open_put_receives [OF assms(1-5)])
  note o = open_put_simps [OF assms(1)] and o1 = open_put_simps [OF r(2)]
  have acc: "accepts (snd (rx_state ob1))" using assms(6) r(3) by simp
  have "received ob1" using r(2) by (simp add: open_put_def received_def rx_ready_def fresh_queue_def)
  from req [OF o1(12,4) this o1(13) acc, of "eventcb (hnd w1)" 0]
  obtain ob2 where ob2: "env_event E (eventcb (hnd w1)) w1 (Some b) OBEX_MODE_SERVER OBEX_EV_REQ OBEX_CMD_PUT 0
      = Some (w1\<lparr>objs := (objs w1)(b := Some ob2), ext := keep (snd (rx_state ob1)) (ext w1)\<rparr>)" "answering ob2"
    by blast
  define w2 where "w2 = w1\<lparr>objs := (objs w1)(b := Some ob2), ext := keep (snd (rx_state ob1)) (ext w1)\<rparr>"
  have req': "obex_deliver_event E w1 OBEX_EV_REQ OBEX_CMD_PUT 0 False = Some w2"
    using o1(1-4) ob2(1) by (simp add: obex_deliver_event_def w2_def)
  define ob3 where "ob3 = ob2\<lparr>continue_received := True\<rparr>"
  define w3 where "w3 = w2\<lparr>hnd := (hnd w2)\<lparr>state := (MODE_SRV, STATE_SEND)\<rparr>, objs := (objs w2)(b := Some ob3)\<rparr>"
  have w3: "serving up w3" "objs w3 b = Some ob3" "cur_object (hnd w3) = Some b" "state (hnd w3) = (MODE_SRV, STATE_SEND)"
    "answering ob3"
    using o1 ob2(2) keep_up [OF o1(12) acc] by (simp_all add: w3_def w2_def ob3_def serving_def answering_def)
  have ns: "\<not> suspend ob3" using w3(5) by (simp add: answering_def)
  obtain msg where s: "obex_object_send E w3 b True True = Some (1, post posted (packet 0xA0 []) (put w3 b msg ob3))"
    "buf_wf msg" "buf_cap msg < 4611686018427387904"
    using empty_answer [OF w3(1,2,5), of True] by auto
  define w4 where "w4 = set_state (post posted (packet 0xA0 []) (put w3 b msg ob3)) (MODE_SRV, STATE_IDLE)"
  have w4: "serving up w4" "cur_object (hnd w4) = Some b" "state (hnd w4) = (MODE_SRV, STATE_IDLE)" "objs w4 b = Some ob3"
    using w3 s(2,3) by (simp_all add: w4_def serving_def put_def posted_up)
  define w5 where "w5 = w4\<lparr>hnd := (hnd w4)\<lparr>cur_object := None\<rparr>, objs := (objs w4)(b := None)\<rparr>"
  have fin: "obex_deliver_event E w4 OBEX_EV_REQDONE OBEX_CMD_PUT 0 True = Some w5"
    using w4 by (simp add: obex_deliver_event_def serving_def other_event obex_object_delete_Some w5_def)
  have "server_send E (set_state w2 (MODE_SRV, STATE_SEND)) OBEX_CMD_PUT 3 = Some (0, w5)"
  proof -
    have "upd_cur (set_state w2 (MODE_SRV, STATE_SEND)) (continue_received_update (\<lambda>_. True)) = Some w3"
      using o1(3,4) by (simp add: w3_def w2_def ob3_def)
    moreover have "obex_deliver_event E ((post posted (packet 0xA0 []) (put w3 b msg ob3))\<lparr>hnd := (hnd (put w3 b msg ob3))\<lparr>state := (MODE_SRV, STATE_IDLE)\<rparr>\<rparr>)
        OBEX_EV_REQDONE OBEX_CMD_PUT 0 True = Some w5" using fin by (simp add: w4_def)
    ultimately show ?thesis using w3(2,3) ns s(1) by (simp add: server_send_def)
  qed
  moreover have "cur_obj w1 = Some ob1" "\<not> first_packet_sent ob1" using o1 by simp_all
  ultimately have "server_rec E w OBEX_CMD_PUT len True = Some (0, w5)" for len
    using o r(1) req' by (simp add: server_rec_def server_check_def)
  moreover have "ready_server up w5" using w4 by (simp add: ready_server_def w5_def serving_def)
  moreover have "ext w5 = posted (packet 0xA0 []) (keep (snd (foldl rx_step (rx_state rob) hs)) (ext w))"
    using r(3,4) by (simp add: w5_def w4_def w3_def w2_def put_def)
  ultimately show ?thesis by (rule that)
qed

text \<open>The first packet opens the request.\<close>

lemma idle_opens:
  assumes "ready_server up w" and "k < 1300000000"
  obtains w' b rob where "server_idle E w OBEX_CMD_PUT = Some (None, w')" "open_put up w' b rob k" "rx_state rob = ([], [])"
    "ext w' = ext w" "rx_msg (hnd w') = rx_msg (hnd w)"
proof -
  have w: "serving up w" "state (hnd w) = (MODE_SRV, STATE_IDLE)" "cur_object (hnd w) = None" "malloc_ok (env_alloc E) 120" "up (ext w)"
    using assms(1) alloc [of "ext w"] by (simp_all add: ready_server_def serving_def)
  define b where "b = next_addr w"
  define rob where "rob = obex_object_setrsp (obex_object_init\<lparr>ob_cmd := OBEX_CMD_PUT\<rparr>) OBEX_RSP_CONTINUE OBEX_RSP_SUCCESS"
  define w' where "w' = w\<lparr>hnd := (hnd w)\<lparr>cur_object := Some b, state := (MODE_SRV, STATE_REC)\<rparr>, objs := (objs w)(b := Some rob),
    next_addr := Suc b\<rparr>"
  have "server_idle E w OBEX_CMD_PUT = Some (None, w')"
    using w by (simp add: server_idle_def obex_object_new_def obex_deliver_event_def hint w'_def b_def rob_def)
  moreover have "open_put up w' b rob k" "rx_state rob = ([], [])"
    using w(1) assms(2)
    by (simp_all add: open_put_def serving_def answering_def fresh_queue_def w'_def rob_def obex_object_setrsp_def rx_ready_def rx_state_def
        obex_object_init_def obex_object_zero_def)
  ultimately show ?thesis by (rule that) (simp_all add: w'_def)
qed

lemma deliver_server:
  assumes "awaits up w (length (enc_headers hs) + k) st" and "list_all hdr_ok hs" and "length (enc_headers hs) < 65533"
    and "opc AND NOT OBEX_FINAL = OBEX_CMD_PUT"
  obtains w1 b rob where "open_put up w1 b rob (length (enc_headers hs) + k)" "rx_state rob = st" "ext w1 = ext w"
    "buf_wf (rx_msg (hnd w1))" "buf_bytes (rx_msg (hnd w1)) = packet opc (enc_headers hs)"
    "\<And>len r w'. (\<And>len. server_rec E w1 OBEX_CMD_PUT len (opc AND OBEX_FINAL \<noteq> 0) = Some (r, w'))
       \<Longrightarrow> deliver E (packet opc (enc_headers hs)) w = Some (set_rx w' (buf_reuse (rx_msg (hnd w'))))"
proof -
  define p where "p = packet opc (enc_headers hs)"
  define w0 where "w0 = set_rx w (buf_holding p 0)"
  have p: "length p < 9223372036854775808" "p ! 0 = opc" using assms(3) by (simp_all add: p_def packet_def)
  have m: "buf_wf (rx_msg (hnd w0))" "buf_bytes (rx_msg (hnd w0)) = packet opc (enc_headers hs)"
    using p(1) by (simp_all add: w0_def buf_wf_holding) (simp add: p_def)
  have at: "awaits up w0 (length (enc_headers hs) + k) st" using assms(1) by (simp add: w0_def)
  obtain x y where rd: "mem_read (buf_ptr (rx_msg (hnd w0))) 0 3 = Some [opc, x, y]" by (rule packet_read [OF m])
  have srv: "fst (state (hnd w0)) = MODE_SRV"
    using at by (auto simp: awaits_def ready_server_def open_put_def)
  have dispatch: "deliver E p w = map_option snd (do {
       (ret, w) \<leftarrow> obex_server E w0 (opc AND OBEX_FINAL \<noteq> 0);
       (let w = set_rx w (buf_reuse (rx_msg (hnd w))) in
        Some (if ret < 0 then ret else s32 (int (data_size (rx_msg (hnd w0)))), w)) })"
    unfolding deliver_def w0_def [symmetric] p(2) by (simp add: indicate_dispatch_def srv)
  show ?thesis
  proof (cases "ready_server up w0")
    case True
    then have st: "st = ([], [])" "length (enc_headers hs) + k < 1300000000"
      using at by (auto simp: awaits_def ready_server_def open_put_def)
    obtain w1 b rob where i: "server_idle E w0 OBEX_CMD_PUT = Some (None, w1)" "open_put up w1 b rob (length (enc_headers hs) + k)"
      "rx_state rob = ([], [])" "ext w1 = ext w0" "rx_msg (hnd w1) = rx_msg (hnd w0)"
      by (rule idle_opens [OF True st(2)])
    have "snd (state (hnd w0)) = STATE_IDLE" using True by (simp add: ready_server_def)
    then have "obex_server E w0 final = server_rec E w1 OBEX_CMD_PUT (rd16 x y) final" for final
      using rd assms(4) i(1) by (simp add: obex_server_def)
    then show ?thesis using i(2-5) st m dispatch
      by (intro that [of w1 b rob]) (simp_all add: w0_def p_def)
  next
    case False
    then obtain b rob where o: "open_put up w0 b rob (length (enc_headers hs) + k)" "rx_state rob = st"
      using at by (auto simp: awaits_def)
    have "obex_server E w0 final = server_rec E w0 OBEX_CMD_PUT (rd16 x y) final" for final
      using rd assms(4) o(1) by (simp add: obex_server_def open_put_def)
    then show ?thesis using o m dispatch by (intro that [of w0 b rob]) (simp_all add: w0_def p_def)
  qed
qed

lemma deliver_more:
  assumes "awaits up w (length (enc_headers hs) + k) st" and "list_all hdr_ok hs" and "length (enc_headers hs) < 65533"
  obtains w' where "deliver E (packet 0x02 (enc_headers hs)) w = Some w'" "awaits up w' k (foldl rx_step st hs)"
    "ext w' = posted (packet 0x90 []) (ext w)"
proof -
  obtain w1 b rob where o: "open_put up w1 b rob (length (enc_headers hs) + k)" "rx_state rob = st" "ext w1 = ext w"
    "buf_wf (rx_msg (hnd w1))" "buf_bytes (rx_msg (hnd w1)) = packet 0x02 (enc_headers hs)"
    and d: "\<And>r w'. (\<And>len. server_rec E w1 OBEX_CMD_PUT len False = Some (r, w'))
       \<Longrightarrow> deliver E (packet 0x02 (enc_headers hs)) w = Some (set_rx w' (buf_reuse (rx_msg (hnd w'))))"
    by (rule deliver_server [OF assms, of "0x02"]) simp_all
  obtain w2 rob2 where s: "\<And>len. server_rec E w1 OBEX_CMD_PUT len False = Some (0, w2)" "open_put up w2 b rob2 k"
    "rx_state rob2 = foldl rx_step st hs" "ext w2 = posted (packet 0x90 []) (ext w)"
    by (rule open_put_more [OF o(1,4,5) assms(2,3)]) (use o(2,3) in simp)
  show ?thesis by (rule that [OF d [OF s(1)]]) (use s(2-4) in \<open>auto simp: awaits_def\<close>)
qed

lemma deliver_final:
  assumes "awaits up w (length (enc_headers hs) + k) st" and "list_all hdr_ok hs" and "length (enc_headers hs) < 65533"
    and "accepts (snd (foldl rx_step st hs))"
  obtains w' where "deliver E (packet 0x82 (enc_headers hs)) w = Some w'" "ready_server up w'"
    "ext w' = posted (packet 0xA0 []) (keep (snd (foldl rx_step st hs)) (ext w))"
proof -
  obtain w1 b rob where o: "open_put up w1 b rob (length (enc_headers hs) + k)" "rx_state rob = st" "ext w1 = ext w"
    "buf_wf (rx_msg (hnd w1))" "buf_bytes (rx_msg (hnd w1)) = packet 0x82 (enc_headers hs)"
    and d: "\<And>r w'. (\<And>len. server_rec E w1 OBEX_CMD_PUT len True = Some (r, w'))
       \<Longrightarrow> deliver E (packet 0x82 (enc_headers hs)) w = Some (set_rx w' (buf_reuse (rx_msg (hnd w'))))"
    by (rule deliver_server [OF assms(1-3), of "0x82"]) simp_all
  obtain w2 where s: "\<And>len. server_rec E w1 OBEX_CMD_PUT len True = Some (0, w2)" "ready_server up w2"
    "ext w2 = posted (packet 0xA0 []) (keep (snd (foldl rx_step st hs)) (ext w))"
    by (rule open_put_final [OF o(1,4,5) assms(2,3)]) (use o(2,3) assms(4) in simp_all)
  show ?thesis by (rule that [OF d [OF s(1)]]) (use s(2,3) in simp_all)
qed

end

section \<open>The client\<close>

lemma put_requestD:
  assumes "put_request E up w a ob"
  shows "sendable E w a ob" "serving up w" "generous (env_alloc E)" "objs w a = Some ob" "\<not> suspend ob"
    "ob_opcode ob = OBEX_CMD_PUT" "ob_lastopcode ob = OBEX_CMD_PUT OR OBEX_FINAL" "tx_nonhdr_data ob = None" "headeroffset ob = 0"
    "rx_ready ob 0" "\<not> abort_req ob" "up (ext w)"
  using assms by (simp_all add: put_request_def sendable_def serving_def)

text \<open>Marks on the object that sending does not look at.\<close>

lemma put_request_marks:
  assumes "put_request E up w a ob"
  shows "put_request E up (w\<lparr>hnd := (hnd w)\<lparr>state := st, cur_object := cur, rx_msg := m\<rparr>,
      objs := (objs w)(a := Some (ob\<lparr>first_packet_sent := x, continue_received := y\<rparr>))\<rparr>) a (ob\<lparr>first_packet_sent := x, continue_received := y\<rparr>)"
  using assms by (simp add: put_request_def sendable_def serving_def nonhdr_bytes_def rx_ready_def)

lemma send_tx_left_handle [simp]:
  "send_tx_left (h\<lparr>state := st\<rparr>) = send_tx_left h" "send_tx_left (h\<lparr>cur_object := c\<rparr>) = send_tx_left h"
  "send_tx_left (h\<lparr>rx_msg := m\<rparr>) = send_tx_left h" "send_tx_left (h\<lparr>tx_msg := m\<rparr>) = send_tx_left h"
  by (simp_all add: send_tx_left_def Let_def cong: trans_type.case_cong)

context put_requester
begin

lemma put_request_send:
  assumes "put_request E up w a ob"
    and "pack (unat (mtu_tx (hnd w))) (send_tx_left (hnd w)) (map item_of (tx_headerq ob)) = Some (ws, items, False, True)"
  obtains msg ob' r where "obex_object_send E w a True False
      = Some (r, post posted (packet (sent_opcode items) (wires_bytes ws)) (put w a msg ob'))"
    "0 \<le> r" "map item_of (tx_headerq ob') = items"
    "put_request E up (post posted (packet (sent_opcode items) (wires_bytes ws)) (put w a msg ob')) a ob'"
proof -
  note p = put_requestD [OF assms(1)]
  obtain msg ob' where s: "obex_object_send E w a True False = Some (snd (send_opcode ob' True False),
       post posted (packet (fst (send_opcode ob' True False)) (nonhdr_bytes ob @ wires_bytes ws)) (put w a msg ob'))"
    "ob' = ob\<lparr>tx_nonhdr_data := None, suspend := False, tx_headerq := tx_headerq ob'\<rparr>"
    "map item_of (tx_headerq ob') = items" "buf_wf msg" "buf_cap msg < 4611686018427387904"
    "sendable E (post posted (packet (sent_opcode items) (wires_bytes ws)) (put w a msg ob')) a ob'"
    by (rule send_posts [OF p(1,2) assms(2), where d = "packet (sent_opcode items) (wires_bytes ws)"])
  note same = arg_cong [OF s(2)]
  have ob': "ob_opcode ob' = OBEX_CMD_PUT" "ob_lastopcode ob' = OBEX_CMD_PUT OR OBEX_FINAL" "tx_nonhdr_data ob' = None" "headeroffset ob' = 0"
    "rx_ready ob' 0" "\<not> abort_req ob'"
    using p same [of ob_opcode] same [of ob_lastopcode] same [of tx_nonhdr_data] same [of headeroffset]
      same [of "\<lambda>ob. rx_ready ob 0"] same [of abort_req]
    by (simp_all add: rx_ready_def)
  have opc: "fst (send_opcode ob' True False) = sent_opcode items" "nonhdr_bytes ob = []" "0 \<le> snd (send_opcode ob' True False)"
    using s(3) ob' p(8) by (auto simp: send_opcode_def sent_opcode_def nonhdr_bytes_def)
  have "put_request E up (post posted (packet (sent_opcode items) (wires_bytes ws)) (put w a msg ob')) a ob'"
    using s(6) ob' serving_put(2) [OF p(2) s(4,5)] by (simp add: put_request_def)
  then show ?thesis using that s(1,3) opc by simp
qed

lemma progress_event:
  assumes "up (ext w)" and "fst (state (hnd w)) = MODE_CLI"
  shows "obex_deliver_event E w OBEX_EV_PROGRESS OBEX_CMD_PUT r False = Some w"
  using assms by (simp add: obex_deliver_event_def progress)

lemma request_started:
  assumes "put_request E up w a ob" and "cur_object (hnd w) = None"
    and "pack (unat (mtu_tx (hnd w))) (send_tx_left (hnd w)) (map item_of (tx_headerq ob)) = Some (ws, items, False, True)"
  obtains w' ob' where "OBEX_Request E w (Some a) = Some (0, w')" "waiting E up w' a ob'" "map item_of (tx_headerq ob') = items"
    "ext w' = posted (packet (sent_opcode items) (wires_bytes ws)) (ext w)" "mtu_tx (hnd w') = mtu_tx (hnd w)"
    "send_tx_left (hnd w') = send_tx_left (hnd w)"
proof -
  define w1 where "w1 = upd_hnd w (\<lambda>h. h\<lparr>cur_object := Some a, state := (MODE_CLI, STATE_START)\<rparr>)"
  have w1: "put_request E up w1 a ob" "send_tx_left (hnd w1) = send_tx_left (hnd w)" "mtu_tx (hnd w1) = mtu_tx (hnd w)"
    using assms(1) by (simp_all add: w1_def put_request_def sendable_def serving_def)
  let ?d = "packet (sent_opcode items) (wires_bytes ws)"
  obtain msg ob' r where s: "obex_object_send E w1 a True False = Some (r, post posted ?d (put w1 a msg ob'))" "0 \<le> r"
    "map item_of (tx_headerq ob') = items" "put_request E up (post posted ?d (put w1 a msg ob')) a ob'"
    by (rule put_request_send [OF w1(1)]) (use assms(3) w1(2,3) in auto)
  define w2 where "w2 = post posted ?d (put w1 a msg ob')"
  define w2' where "w2' = w2\<lparr>objs := (objs w2)(a := Some (ob'\<lparr>first_packet_sent := True\<rparr>))\<rparr>"
  define w3 where "w3 = w2\<lparr>hnd := (hnd w2)\<lparr>state := (MODE_CLI, STATE_REC), cur_object := Some a\<rparr>,
    objs := (objs w2)(a := Some (ob'\<lparr>first_packet_sent := True\<rparr>))\<rparr>"
  have cur: "cur_object (hnd w2) = Some a" "objs w2 a = Some ob'" "fst (state (hnd w2)) = MODE_CLI" by (simp_all add: w2_def w1_def put_def)
  have up2: "up (ext w2)" using put_requestD(12) [OF s(4)] by (simp add: w2_def)
  have ev: "obex_deliver_event E w2' OBEX_EV_PROGRESS OBEX_CMD_PUT 0 False = Some w2'"
    by (rule progress_event) (use up2 cur(3) in \<open>simp_all add: w2'_def\<close>)
  have "OBEX_Request E w (Some a) = obex_client E w1 False" using assms(2) by (simp add: OBEX_Request_def w1_def)
  also have "\<dots> = client_start E w1 OBEX_RSP_BAD_REQUEST" by (simp add: obex_client_def w1_def)
  also have "\<dots> = Some (0, w3)"
    using s(1,2) cur ev put_requestD(6) [OF s(4)]
    by (simp add: client_start_def w1_def [THEN arg_cong, of "\<lambda>w. cur_object (hnd w)"] cur_opcode_def w3_def w2'_def flip: w2_def)
  finally have run: "OBEX_Request E w (Some a) = Some (0, w3)" .
  have "put_request E up w3 a (ob'\<lparr>first_packet_sent := True\<rparr>)"
    using put_request_marks [OF s(4), where st = "(MODE_CLI, STATE_REC)" and cur = "Some a" and m = "rx_msg (hnd w2)"
        and x = True and y = "continue_received ob'"]
    by (simp add: w3_def w2_def)
  then have "waiting E up w3 a (ob'\<lparr>first_packet_sent := True\<rparr>)" by (simp add: waiting_def w3_def)
  moreover have "send_tx_left (hnd w3) = send_tx_left (hnd w)" "mtu_tx (hnd w3) = mtu_tx (hnd w)" "ext w3 = posted ?d (ext w)"
    by (simp_all add: w3_def w2_def w1_def put_def)
  ultimately show ?thesis using that [OF run] s(3) by simp
qed

text \<open>An answer without headers is unpacked.\<close>

lemma answer_received:
  assumes "waiting E up w a ob"
  obtains w1 ob1 where "obex_client E (set_rx w (buf_holding (packet opc []) 0)) True
      = (if opc AND NOT OBEX_FINAL = OBEX_RSP_CONTINUE then client_continue E w1 else client_done E w1 (opc AND NOT OBEX_FINAL))"
    "waiting E up w1 a ob1" "map item_of (tx_headerq ob1) = map item_of (tx_headerq ob)" "ext w1 = ext w"
    "mtu_tx (hnd w1) = mtu_tx (hnd w)" "send_tx_left (hnd w1) = send_tx_left (hnd w)"
proof -
  define w0 where "w0 = set_rx w (buf_holding (packet opc []) 0)"
  have p: "put_request E up w a ob" "state (hnd w0) = (MODE_CLI, STATE_REC)" "cur_object (hnd w0) = Some a" "objs w0 a = Some ob"
    using assms put_requestD(4) by (auto simp: waiting_def w0_def)
  note pd = put_requestD [OF p(1)]
  have m: "buf_wf (rx_msg (hnd w0))" "buf_bytes (rx_msg (hnd w0)) = packet opc []"
    by (simp_all add: w0_def buf_wf_holding)
  obtain x y where rd: "mem_read (buf_ptr (rx_msg (hnd w0))) 0 3 = Some [opc, x, y]" by (rule packet_read [OF m])
  obtain u v where bytes: "buf_bytes (rx_msg (hnd w0)) = [opc, u, v] @ [] @ enc_headers []"
    using m(2) be16_split [of 3] by (auto simp: packet_def)
  have size: "data_size (rx_msg (hnd w0)) < 65536" using length_buf_bytes [OF m(1)] m(2) by simp
  have none: "list_all hdr_ok []" by simp
  have off: "headeroffset ob = length ([] :: byte list)" and ready: "rx_ready ob (length (enc_headers []) + 0)"
    using pd(9,10) by simp_all
  obtain rx' nd ob1 na' where r: "obex_object_receive E w0 = Some (1, rput w0 a rx' ob1 na')"
    "rx_ready ob1 0" "rx_same (ob\<lparr>rx_nonhdr_data := nd, headeroffset := 0\<rparr>) ob1"
    by (rule obex_object_receive_spec [OF pd(3) p(3,4) off m(1) bytes none size ready]) blast
  define w1 where "w1 = rput w0 a rx' ob1 na'"
  note eq = arg_cong [OF r(3) [unfolded rx_same_def]]
  have same: "ob_opcode ob1 = OBEX_CMD_PUT" "ob_lastopcode ob1 = OBEX_CMD_PUT OR OBEX_FINAL" "tx_nonhdr_data ob1 = None" "headeroffset ob1 = 0"
    "\<not> abort_req ob1" "\<not> suspend ob1" "tx_headerq ob1 = tx_headerq ob"
    using pd eq [of ob_opcode] eq [of ob_lastopcode] eq [of tx_nonhdr_data] eq [of headeroffset]
      eq [of abort_req] eq [of suspend] eq [of tx_headerq] by simp_all
  have "waiting E up w1 a ob1"
    using assms p(2,3) r(2) same
    by (simp add: waiting_def put_request_def sendable_def serving_def nonhdr_bytes_def w1_def rput_def w0_def)
  moreover have "obex_client E w0 True
      = (if opc AND NOT OBEX_FINAL = OBEX_RSP_CONTINUE then client_continue E w1 else client_done E w1 (opc AND NOT OBEX_FINAL))"
    using rd p(2-4) r(1) pd(6) by (simp add: obex_client_def client_rec_def cur_opcode_def w1_def)
  moreover have "ext w1 = ext w" "mtu_tx (hnd w1) = mtu_tx (hnd w)" "send_tx_left (hnd w1) = send_tx_left (hnd w)"
    by (simp_all add: w1_def rput_def w0_def)
  ultimately show ?thesis using that [of w1 ob1] same(7) unfolding w0_def by simp
qed

lemma deliver_client:
  assumes "waiting E up w a ob"
  shows "deliver E (packet opc []) w
     = map_option (\<lambda>(_, w). set_rx w (buf_reuse (rx_msg (hnd w)))) (obex_client E (set_rx w (buf_holding (packet opc []) 0)) True)"
  using assms
  by (simp add: deliver_def indicate_dispatch_def waiting_def packet_def Let_def map_option_case split: option.splits)

lemma answer_continue:
  assumes "waiting E up w a ob"
    and "pack (unat (mtu_tx (hnd w))) (send_tx_left (hnd w)) (map item_of (tx_headerq ob)) = Some (ws, items, False, True)"
  obtains w' ob' where "deliver E (packet 0x90 []) w = Some w'" "waiting E up w' a ob'" "map item_of (tx_headerq ob') = items"
    "ext w' = posted (packet (sent_opcode items) (wires_bytes ws)) (ext w)" "mtu_tx (hnd w') = mtu_tx (hnd w)"
    "send_tx_left (hnd w') = send_tx_left (hnd w)"
proof -
  obtain w1 ob1 where r: "obex_client E (set_rx w (buf_holding (packet 0x90 []) 0)) True = client_continue E w1"
    "waiting E up w1 a ob1" "map item_of (tx_headerq ob1) = map item_of (tx_headerq ob)" "ext w1 = ext w"
    "mtu_tx (hnd w1) = mtu_tx (hnd w)" "send_tx_left (hnd w1) = send_tx_left (hnd w)"
    by (rule answer_received [OF assms(1), of "0x90"]) simp
  have p1: "put_request E up w1 a ob1" "cur_object (hnd w1) = Some a" "state (hnd w1) = (MODE_CLI, STATE_REC)"
    using r(2) by (simp_all add: waiting_def)
  note pd = put_requestD [OF p1(1)]
  define ob2 where "ob2 = ob1\<lparr>continue_received := True\<rparr>"
  define w2 where "w2 = w1\<lparr>objs := (objs w1)(a := Some ob2)\<rparr>"
  have p2: "put_request E up w2 a ob2"
    using put_request_marks [OF p1(1), where st = "state (hnd w1)" and cur = "cur_object (hnd w1)" and m = "rx_msg (hnd w1)"
        and x = "first_packet_sent ob1" and y = True] by (simp add: w2_def ob2_def)
  let ?d = "packet (sent_opcode items) (wires_bytes ws)"
  obtain msg ob3 k where s: "obex_object_send E w2 a True False = Some (k, post posted ?d (put w2 a msg ob3))" "0 \<le> k"
    "map item_of (tx_headerq ob3) = items" "put_request E up (post posted ?d (put w2 a msg ob3)) a ob3"
    by (rule put_request_send [OF p2]) (use assms(2) r(3,5,6) in \<open>auto simp: w2_def ob2_def\<close>)
  define w3 where "w3 = post posted ?d (put w2 a msg ob3)"
  have w3: "cur_object (hnd w3) = Some a" "objs w3 a = Some ob3" "state (hnd w3) = (MODE_CLI, STATE_REC)"
    using p1 by (simp_all add: w3_def w2_def put_def)
  have ev: "obex_deliver_event E w3 OBEX_EV_PROGRESS OBEX_CMD_PUT 0 False = Some w3"
    by (rule progress_event) (use put_requestD(12) [OF s(4)] w3(3) in \<open>simp_all add: w3_def\<close>)
  define ob4 where "ob4 = ob3\<lparr>continue_received := False\<rparr>"
  define w4 where "w4 = w3\<lparr>objs := (objs w3)(a := Some ob4)\<rparr>"
  have "upd_cur w1 (continue_received_update (\<lambda>_. True)) = Some w2" "objs w2 a = Some ob2" "cur_object (hnd w2) = Some a"
    using p1(2) pd(4) by (simp_all add: w2_def ob2_def)
  then have run: "client_continue E w1 = Some (0, w4)"
    using s(1,2) w3 pd ev put_requestD(6) [OF s(4)]
    by (simp add: client_continue_def cur_opcode_def ob2_def w4_def ob4_def flip: w3_def)
  have "put_request E up w4 a ob4"
    using put_request_marks [OF s(4), where st = "state (hnd w3)" and cur = "cur_object (hnd w3)" and m = "rx_msg (hnd w3)"
        and x = "first_packet_sent ob3" and y = False] by (simp add: w4_def ob4_def w3_def)
  then have "waiting E up w4 a ob4" using w3(1,3) by (simp add: waiting_def w4_def)
  moreover have "ext w4 = posted ?d (ext w)" "mtu_tx (hnd w4) = mtu_tx (hnd w)" "send_tx_left (hnd w4) = send_tx_left (hnd w)"
    using r(4-6) by (simp_all add: w4_def w3_def w2_def put_def)
  moreover have "deliver E (packet 0x90 []) w = Some (set_rx w4 (buf_reuse (rx_msg (hnd w4))))"
    by (simp add: deliver_client [OF assms(1)] r(1) run)
  ultimately show ?thesis using s(3) by (intro that [of "set_rx w4 (buf_reuse (rx_msg (hnd w4)))" ob4]) (simp_all add: ob4_def)
qed

lemma answer_success:
  assumes "waiting E up w a ob"
  obtains w' where "deliver E (packet 0xA0 []) w = Some w'" "state (hnd w') = (MODE_SRV, STATE_IDLE)" "cur_object (hnd w') = None"
    "objs w' a = None" "ext w' = told OBEX_RSP_SUCCESS (ext w)"
proof -
  obtain w1 ob1 where r: "obex_client E (set_rx w (buf_holding (packet 0xA0 []) 0)) True = client_done E w1 OBEX_RSP_SUCCESS"
    "waiting E up w1 a ob1" "ext w1 = ext w"
    by (rule answer_received [OF assms(1), of "0xA0"]) simp
  have p1: "put_request E up w1 a ob1" "cur_object (hnd w1) = Some a" using r(2) by (simp_all add: waiting_def)
  note pd = put_requestD [OF p1(1)]
  define w2 where "w2 = w1\<lparr>hnd := (hnd w1)\<lparr>state := (MODE_SRV, STATE_IDLE), cur_object := None\<rparr>, objs := (objs w1)(a := None),
    ext := told OBEX_RSP_SUCCESS (ext w1)\<rparr>"
  have "client_done E w1 OBEX_RSP_SUCCESS = Some (0, w2)"
    using p1(2) pd(4,6,11,12) by (simp add: client_done_def obex_deliver_event_def ended obex_object_delete_Some w2_def)
  then show ?thesis
    using r(3) by (intro that [of "set_rx w2 (buf_reuse (rx_msg (hnd w2)))"]) (simp_all add: deliver_client [OF assms(1)] r(1), simp_all add: w2_def)
qed

end


section \<open>The conversation\<close>

lemma pack_bytes_left:
  assumes "pack mtu left items = Some (ws, items', False, True)" and "plains_le left items" and "4 \<le> left"
  shows "length (wires_bytes ws) + bytes_left items' \<le> bytes_left items"
proof (cases "items = []")
  case False
  have "length (wires_bytes ws) + items_bytes items' \<le> items_bytes items + 3" by (rule pack_wires_length [OF assms(1)])
  moreover have "to_send items' < to_send items" by (rule pack_progress [OF assms(1) False]) (use assms in simp_all)
  ultimately show ?thesis by (simp add: bytes_left_def)
qed (use assms(1) in simp)

lemma wires_to_headers:
  assumes "\<forall>x \<in> set ws. wire_ok is_plain_enc left x" and "left < 65536"
  obtains hs where "wires_bytes ws = enc_headers hs" "list_all hdr_ok hs"
    "\<And>acc out. foldl rx_step (acc, map content_hdr out) hs
       = (fst (foldl absorb (acc, out) ws), map content_hdr (snd (foldl absorb (acc, out) ws)))"
proof -
  obtain hs where hs: "list_all2 wire_hdr ws hs" using wire_hdrs_exist [OF assms] by blast
  from wire_hdrs_bytes [OF hs] absorb_rx_steps [OF hs] show ?thesis by (intro that [of hs]) simp_all
qed

text \<open>A client and a server on the two ends of a link.\<close>

locale put_link = cl: put_requester Ec upc outc postedc viewc told + sv: put_acceptor Es ups outs posteds views accepts keep
  for Ec :: "'c env" and upc outc postedc and viewc :: "'c \<Rightarrow> 'u" and told
    and Es :: "'s env" and ups outs posteds and views :: "'s \<Rightarrow> 'v" and accepts keep

text \<open>Both have finished: the client's object is gone, the server has taken the headers \<open>hs\<close>.\<close>

definition put_complete :: "('s \<Rightarrow> bool) \<Rightarrow> (byte list \<Rightarrow> 's \<Rightarrow> 's) \<Rightarrow> ('s \<Rightarrow> 'v) \<Rightarrow> ((byte \<times> byte list) list \<Rightarrow> 's \<Rightarrow> 's) \<Rightarrow> ('c \<Rightarrow> bool)
    \<Rightarrow> ('c \<Rightarrow> 'u) \<Rightarrow> (byte \<Rightarrow> 'c \<Rightarrow> 'c) \<Rightarrow> addr \<Rightarrow> (byte \<times> byte list) list \<Rightarrow> 'c \<Rightarrow> 's \<Rightarrow> 'c world \<Rightarrow> 's world \<Rightarrow> bool" where
  "put_complete ups posteds views keep upc viewc told a hs ec es c' s' \<longleftrightarrow>
     state (hnd c') = (MODE_SRV, STATE_IDLE) \<and> cur_object (hnd c') = None \<and> objs c' a = None \<and> ready_server ups s'
     \<and> (\<exists>e. upc e \<and> viewc e = viewc ec \<and> ext c' = told OBEX_RSP_SUCCESS e)
     \<and> (\<exists>e. ups e \<and> views e = views es \<and> ext s' = posteds (packet 0xA0 []) (keep hs e))"

context put_link
begin

abbreviation complete where
  "complete \<equiv> put_complete ups posteds views keep upc viewc told"

lemma complete_views:
  assumes "complete a hs ec es c' s'" and "viewc ec = viewc ec0" and "views es = views es0"
  shows "complete a hs ec0 es0 c' s'"
  using assms by (simp add: put_complete_def)

lemma conversation_from:
  assumes "waiting Ec upc c a ob" and "map item_of (tx_headerq ob) = items"
    and "last (outc (ext c)) = packet (sent_opcode items) (wires_bytes ws)"
    and "awaits ups s (length (wires_bytes ws) + bytes_left items) (acc, map content_hdr out)"
    and "foldl absorb (acc, out) ws = (acc1, out1)"
    and "\<forall>x \<in> set ws. wire_ok is_plain_enc left x" and "length (wires_bytes ws) \<le> left + 3"
    and "send_tx_left (hnd c) = left" and "left \<le> unat (mtu_tx (hnd c))" and "4 \<le> left" and "left + 3 < 65533"
    and "safe_queue left items" and "plains_le left items" and "unsuspended items" and "plains_ok is_plain_enc items"
    and "accepts (map content_hdr (out1 @ contents acc1 items))"
  shows "\<exists>n c' s'. converse n Ec outc Es outs c s = Some (c', s')
    \<and> complete a (map content_hdr (out1 @ contents acc1 items)) (ext c) (ext s) c' s'"
  using assms(1-9,12-16)
proof (induction "to_send items" arbitrary: items c ob s ws acc out acc1 out1 rule: less_induct)
  case less
  note p = less.prems
  have small: "left < 65536" using assms(11) by simp
  obtain hs where hs: "wires_bytes ws = enc_headers hs" "list_all hdr_ok hs"
    "foldl rx_step (acc, map content_hdr out) hs = (acc1, map content_hdr out1)"
    using wires_to_headers [OF p(6) small] p(5) by (metis fst_conv snd_conv)
  have len: "length (enc_headers hs) < 65533" using p(7) hs(1) assms(11) by simp
  have cli: "fst (state (hnd c)) = MODE_CLI" "upc (ext c)" using p(1) by (simp_all add: waiting_def put_request_def serving_def)
  have srv: "ups (ext s)" using p(4) by (auto simp: awaits_def ready_server_def open_put_def serving_def)
  have at: "awaits ups s (length (enc_headers hs) + bytes_left items) (acc, map content_hdr out)" using p(4) hs(1) by simp
  show ?case
  proof (cases "items = []")
    case True
    have acc: "accepts (map content_hdr out1)" using p(14) True by simp
    obtain s' where s': "deliver Es (packet 0x82 (enc_headers hs)) s = Some s'" "ready_server ups s'"
      "ext s' = posteds (packet 0xA0 []) (keep (map content_hdr out1) (ext s))"
      by (rule sv.deliver_final [OF at hs(2) len]) (use hs(3) acc in simp_all)
    obtain c' where c': "deliver Ec (packet 0xA0 []) c = Some c'" "state (hnd c') = (MODE_SRV, STATE_IDLE)"
      "cur_object (hnd c') = None" "objs c' a = None" "ext c' = told OBEX_RSP_SUCCESS (ext c)"
      by (rule cl.answer_success [OF p(1)])
    have "last (outs (ext s')) = packet 0xA0 []" using s'(3) sv.posted_out [OF sv.keep_up [OF srv acc]] by simp
    then have "converse (Suc 0) Ec outc Es outs c s = Some (c', s')"
      using cli p(3) True hs(1) s'(1) c'(1) by (simp add: sent_opcode_def)
    then show ?thesis using c'(2-5) s'(2,3) True cli(2) srv
      by (intro exI [of _ "Suc 0"] exI [of _ c'] exI [of _ s']) (auto simp: put_complete_def)
  next
    case False
    obtain s1 where s1: "deliver Es (packet 0x02 (enc_headers hs)) s = Some s1" "awaits ups s1 (bytes_left items) (acc1, map content_hdr out1)"
      "ext s1 = posteds (packet 0x90 []) (ext s)"
      by (rule sv.deliver_more [OF at hs(2) len]) (use hs(3) in simp)
    define mtu where "mtu = unat (mtu_tx (hnd c))"
    obtain ws1 items' where pk: "pack mtu left items = Some (ws1, items', False, True)"
      and q': "safe_queue left items'" "plains_le left items'" "unsuspended items'"
      using safe_pack [of left items left mtu left] p(9-12) assms(10) by (auto simp: mtu_def)
    have here: "length (wires_bytes ws1) \<le> left + 3" "\<forall>x \<in> set ws1. wire_ok is_plain_enc left x" "plains_ok is_plain_enc items'"
      using pack_safe_fits [OF pk] pack_wires_ok [OF pk, of is_plain_enc] p(10,13) by simp_all
    obtain c1 ob1 where c1: "deliver Ec (packet 0x90 []) c = Some c1" "waiting Ec upc c1 a ob1" "map item_of (tx_headerq ob1) = items'"
      "ext c1 = postedc (packet (sent_opcode items') (wires_bytes ws1)) (ext c)" "mtu_tx (hnd c1) = mtu_tx (hnd c)"
      "send_tx_left (hnd c1) = send_tx_left (hnd c)"
      by (rule cl.answer_continue [OF p(1)]) (use pk p(2,8) in \<open>auto simp: mtu_def\<close>)
    have prog: "to_send items' < to_send items"
      by (rule pack_progress [OF pk False]) (use p assms(10) in \<open>simp_all add: mtu_def\<close>)
    have "length (wires_bytes ws1) + bytes_left items' \<le> bytes_left items"
      by (rule pack_bytes_left [OF pk]) (use p(11) assms(10) in simp_all)
    then have at1: "awaits ups s1 (length (wires_bytes ws1) + bytes_left items') (acc1, map content_hdr out1)"
      using s1(2) rx_ready_less by (fastforce simp: awaits_def open_put_def)
    obtain acc2 out2 where f: "foldl absorb (acc1, out1) ws1 = (acc2, out2)" by fastforce
    have cons: "out2 @ contents acc2 items' = out1 @ contents acc1 items" by (rule pack_conserves [OF pk f])
    have sent: "last (outc (ext c1)) = packet (sent_opcode items') (wires_bytes ws1)"
      using c1(4) cl.posted_out [OF cli(2)] by simp
    have same: "send_tx_left (hnd c1) = left" "left \<le> unat (mtu_tx (hnd c1))" using c1(5,6) p(8,9) by simp_all
    have acc: "accepts (map content_hdr (out2 @ contents acc2 items'))" using p(14) cons by simp
    obtain n c' s' where ih: "converse n Ec outc Es outs c1 s1 = Some (c', s')"
      "complete a (map content_hdr (out2 @ contents acc2 items')) (ext c1) (ext s1) c' s'"
      using less.hyps [OF prog c1(2,3) sent at1 f here(2,1) same q' here(3) acc] by (elim exE conjE) (rule that)
    have "last (outs (ext s1)) = packet 0x90 []" using s1(3) sv.posted_out [OF srv] by simp
    then have "converse (Suc n) Ec outc Es outs c s = Some (c', s')"
      using cli p(3) False hs(1) s1(1) c1(1) ih(1) by (simp add: sent_opcode_def)
    moreover have "complete a (map content_hdr (out1 @ contents acc1 items)) (ext c) (ext s) c' s'"
      by (rule complete_views [OF ih(2) [unfolded cons]]) (use c1(4) s1(3) cl.posted_view [OF cli(2)] sv.posted_view [OF srv] in simp_all)
    ultimately show ?thesis by (intro exI [of _ "Suc n"] exI [of _ c'] exI [of _ s'] conjI)
  qed
qed

lemma conversation:
  assumes "put_request Ec upc c a ob" and "cur_object (hnd c) = None" and "ready_server ups s"
    and "map item_of (tx_headerq ob) = map hdr_item xs" and "list_all (\<lambda>x. fst x = OBEX_HDR_BODY \<or> plain_hdr x) xs"
    and "7 \<le> unat (mtu_tx (hnd c))" and "unat (mtu_tx (hnd c)) < 65533"
    and "safe_queue (unat (mtu_tx (hnd c)) - 3) (map hdr_item xs)"
    and "plains_le (unat (mtu_tx (hnd c)) - 3) (map hdr_item xs)"
    and "bytes_left (map hdr_item xs) < 1300000000"
    and "accepts (map (\<lambda>x. (fst x, value_bytes (snd x))) xs)"
  shows "\<exists>c0 n c' s'. OBEX_Request Ec c (Some a) = Some (0, c0) \<and> converse n Ec outc Es outs c0 s = Some (c', s')
    \<and> complete a (map (\<lambda>x. (fst x, value_bytes (snd x))) xs) (ext c) (ext s) c' s'"
proof -
  define left where "left = unat (mtu_tx (hnd c)) - 3"
  define items where "items = map hdr_item xs"
  have up: "t_type (tport (hnd c)) = OBEX_TRANS_CUSTOM" "upc (ext c)" using assms(1) by (simp_all add: put_request_def serving_def)
  then have left: "send_tx_left (hnd c) = left" using assms(6) unfolding left_def by (intro send_tx_left_plain) simp_all
  have four: "4 \<le> left" "left \<le> unat (mtu_tx (hnd c))" "left + 3 < 65533" using assms(6,7) by (simp_all add: left_def)
  have q: "safe_queue left items" "plains_le left items" using assms(8,9) by (simp_all add: left_def items_def)
  have ok: "plains_ok is_plain_enc items" "unsuspended items"
    using assms(5) unfolding items_def by (induction xs) (auto simp: hdr_item_def is_plain_encI)
  obtain ws items' where pk: "pack (unat (mtu_tx (hnd c))) left items = Some (ws, items', False, True)"
    and q': "safe_queue left items'" "plains_le left items'" "unsuspended items'"
    using safe_pack [of left items left "unat (mtu_tx (hnd c))" left] q ok four by auto
  have here: "length (wires_bytes ws) \<le> left + 3" "\<forall>x \<in> set ws. wire_ok is_plain_enc left x" "plains_ok is_plain_enc items'"
    using pack_safe_fits [OF pk q(1)] pack_wires_ok [OF pk ok(1)] by simp_all
  obtain c0 ob0 where c0: "OBEX_Request Ec c (Some a) = Some (0, c0)" "waiting Ec upc c0 a ob0" "map item_of (tx_headerq ob0) = items'"
    "ext c0 = postedc (packet (sent_opcode items') (wires_bytes ws)) (ext c)" "mtu_tx (hnd c0) = mtu_tx (hnd c)"
    "send_tx_left (hnd c0) = send_tx_left (hnd c)"
    by (rule cl.request_started [OF assms(1,2)]) (use pk left assms(4) in \<open>auto simp: items_def\<close>)
  have "length (wires_bytes ws) + bytes_left items' \<le> bytes_left items"
    by (rule pack_bytes_left [OF pk]) (use q four ok in simp_all)
  then have at: "awaits ups s (length (wires_bytes ws) + bytes_left items') ([], map content_hdr [])"
    using assms(3,10) by (simp add: awaits_def items_def)
  have sent: "last (outc (ext c0)) = packet (sent_opcode items') (wires_bytes ws)"
    by (simp add: c0(4) cl.posted_out [OF up(2)])
  have same: "send_tx_left (hnd c0) = left" "left \<le> unat (mtu_tx (hnd c0))" using c0(5,6) left four(2) by simp_all
  obtain acc1 out1 where f: "foldl absorb ([], []) ws = (acc1, out1)" by fastforce
  have "out1 @ contents acc1 items' = [] @ contents [] items" by (rule pack_conserves [OF pk f])
  then have eq: "map content_hdr (out1 @ contents acc1 items') = map (\<lambda>x. (fst x, value_bytes (snd x))) xs"
    using contents_hdr_items [OF assms(5)] by (simp add: items_def)
  have acc: "accepts (map content_hdr (out1 @ contents acc1 items'))" using assms(11) eq by simp
  obtain n c' s' where run: "converse n Ec outc Es outs c0 s = Some (c', s')"
    "complete a (map content_hdr (out1 @ contents acc1 items')) (ext c0) (ext s) c' s'"
    using conversation_from [OF c0(2,3) sent at f here(2,1) same four(1,3) q' here(3) acc] by (elim exE conjE) (rule that)
  have fin: "complete a (map (\<lambda>x. (fst x, value_bytes (snd x))) xs) (ext c) (ext s) c' s'"
    by (rule complete_views [OF run(2) [unfolded eq]]) (use c0(4) cl.posted_view [OF up(2)] in simp_all)
  show ?thesis by (intro exI [of _ c0] exI [of _ n] exI [of _ c'] exI [of _ s'] conjI c0(1) run(1) fin)
qed

end

end
