(* ===== verification/Cable.thy ===== *)
theory Cable
  imports App_Io
begin

text \<open>
  apps/obex_test_cable.c: OBEX over a serial line, a custom transport of the program obex_test; and the variables of
  that program. The branches for Windows are left out, and so is the commented-out \<open>TTBT\<close>.
\<close>

section \<open>State\<close>

text \<open>The settings of the line, which are only set, are part of the system.\<close>

record cobex_context =
  co_portname :: "byte list"
  co_ttyfd :: int
  co_inputbuf :: mem
  co_r320 :: bool

text \<open>
  \<open>struct context\<close> of obex_test.h, the static \<open>buffer\<close> and \<open>fileDesc\<close> of obex_test_client.c and the context of the cable,
  which \<open>customdata\<close> points to. \<open>get_name\<close> is \<open>None\<close> when it points to no living array.
\<close>

record test_app =
  ta_serverdone :: bool
  ta_clientdone :: bool
  ta_get_name :: "mem option"
  ta_buffer :: mem
  ta_fileDesc :: int
  ta_cable :: cobex_context

type_synonym 'x test_host = "(test_app, 'x) host"

abbreviation cable_of :: "'x test_host world \<Rightarrow> cobex_context" where
  "cable_of w \<equiv> ta_cable (app (ext w))"

section \<open>Modem commands\<close>

abbreviation "LF \<equiv> (10 :: byte)"
abbreviation "CR \<equiv> (13 :: byte)"

text \<open>\<open>index(s, '\n')\<close> in a string that ends with a zero or with what has been read.\<close>

definition newline_at :: "byte list \<Rightarrow> nat option" where
  "newline_at s = (let n = length (takeWhile (\<lambda>c. c \<noteq> LF \<and> c \<noteq> 0) s) in
     if n < length s \<and> s ! n = LF then Some n else None)"

text \<open>The ends of the first and of the second line: \<open>answer\<close> and \<open>answer_end\<close>.\<close>

definition answer_at :: "byte list \<Rightarrow> (nat \<times> nat) option" where
  "answer_at s = do { a \<leftarrow> newline_at s; e \<leftarrow> newline_at (drop (Suc a) s); Some (a, Suc a + e) }"

text \<open>
  The loop that reads until there are two lines. \<open>got\<close> is what \<open>tmpbuf\<close>, an array of 100 bytes, holds. The result is
  an error or the bytes read.
\<close>

partial_function (option) at_read ::
    "'x unix \<Rightarrow> int \<Rightarrow> int \<Rightarrow> byte list \<Rightarrow> 'x \<Rightarrow> ((int + byte list) \<times> 'x) option" where
  "at_read U f timeout got x =
     (let (r, x) = ux_select U f timeout x in
      if r = 0 then Some (Inl (-1), x)
      else let ((actual, d), x) = ux_read U f (100 - length got) x in
        if actual < 0 then Some (Inl actual, x)
        else let got = got @ take (nat actual) d in
          if length got = 100 then Some (Inl (-1), x)
          else if answer_at got \<noteq> None then Some (Inr got, x)
          else at_read U f timeout got x)"

text \<open>
  Where the answer starts and how long it is, with a carriage return or a newline removed twice at either end. The
  length is computed from pointers that may have passed each other.
\<close>

definition line_end :: "byte \<Rightarrow> bool" where
  "line_end c \<longleftrightarrow> c = CR \<or> c = LF"

definition answer_range :: "byte list \<Rightarrow> nat \<Rightarrow> nat \<Rightarrow> nat \<times> int" where
  "answer_range s answer answer_end =
     (let e = int answer_end;
          e = (if line_end (s ! nat e) then e - 1 else e);
          e = (if line_end (s ! nat e) then e - 1 else e);
          a = (if line_end (s ! answer) then Suc answer else answer);
          a = (if line_end (s ! a) then Suc a else a)
      in (a, e - int a + 1))"

text \<open>
  The result with \<open>rspbuf\<close> (\<open>None\<close> when it is not filled). A negative length is a huge one for \<open>strncpy\<close>, which then
  writes over the end of \<open>rspbuf\<close>.
\<close>

definition at_copy :: "byte list \<Rightarrow> int \<Rightarrow> (int \<times> byte list option) option" where
  "at_copy got rspbuflen = do {
     (answer, answer_end) \<leftarrow> answer_at got;
     (let (a, answer_size) = answer_range got answer answer_end in
      if answer_size \<ge> rspbuflen then Some (-1, None)
      else if answer_size < 0 then None
      else Some (0, Some (take (nat answer_size) (drop a got)))) }"

definition cobex_do_at_cmd ::
    "'x unix \<Rightarrow> cobex_context \<Rightarrow> byte list option \<Rightarrow> int \<Rightarrow> int \<Rightarrow> 'x \<Rightarrow> ((int \<times> byte list option) \<times> 'x) option" where
  "cobex_do_at_cmd U gt cmd rspbuflen timeout x =
     (let fd = co_ttyfd gt in
      if fd < 0 then Some ((-1, None), x)
      else let (r, x) = (case cmd of None \<Rightarrow> (0, x) | Some c \<Rightarrow> ux_write U fd c x) in
        if r < (case cmd of None \<Rightarrow> 0 | Some c \<Rightarrow> int (length c)) then Some ((-1, None), x)
        else do {
          (res, x) \<leftarrow> at_read U fd timeout [] x;
          (case res of Inl e \<Rightarrow> Some ((e, None), x)
           | Inr got \<Rightarrow> do { r \<leftarrow> at_copy got rspbuflen; Some (r, x) }) })"

text \<open>\<open>strcasecmp(s, t) == 0\<close>.\<close>

definition lower :: "byte \<Rightarrow> byte" where
  "lower c = (if 65 \<le> c \<and> c \<le> 90 then c + 32 else c)"

definition same_text :: "byte list \<Rightarrow> byte list \<Rightarrow> bool" where
  "same_text s t \<longleftrightarrow> map lower s = map lower t"

section \<open>The line\<close>

definition cobex_cleanup :: "'x unix \<Rightarrow> cobex_context \<Rightarrow> bool \<Rightarrow> 'x \<Rightarrow> cobex_context \<times> 'x" where
  "cobex_cleanup U gt force x =
     (let x = (if force then snd (ux_tty_break U (co_ttyfd gt) x) else x);
          (_, x) = ux_close U (co_ttyfd gt) x
      in (gt\<lparr>co_ttyfd := -1\<rparr>, x))"

text \<open>A command of \<open>cobex_init\<close> and the answer it must have.\<close>

definition at_expect :: "'x unix \<Rightarrow> cobex_context \<Rightarrow> string \<Rightarrow> string \<Rightarrow> 'x \<Rightarrow> (bool \<times> 'x) option" where
  "at_expect U gt cmd answer x = do {
     ((r, rsp), x) \<leftarrow> cobex_do_at_cmd U gt (Some (bytes_of cmd @ [CR])) 200 1 x;
     Some (r \<ge> 0 \<and> (case rsp of None \<Rightarrow> False | Some s \<Rightarrow> same_text (bytes_of answer) s), x) }"

definition cobex_init :: "'x unix \<Rightarrow> cobex_context \<Rightarrow> 'x \<Rightarrow> (int \<times> cobex_context \<times> 'x) option" where
  "cobex_init U gt x =
     (let (fd, x) = ux_tty_open U (co_portname gt) x; gt = gt\<lparr>co_ttyfd := fd\<rparr> in
      if fd < 0 then Some (-1, gt, x)
      else let x = ux_tty_setup U fd x in
        if \<not> co_r320 gt then Some (1, gt, x)
        else do {
          (ok, x) \<leftarrow> at_expect U gt ''ATZ'' ''OK'' x;
          (ok, x) \<leftarrow> (if ok then at_expect U gt ''AT*EOBEX'' ''CONNECT'' x else Some (False, x));
          Some (if ok then (1, gt, x) else (-1, cobex_cleanup U gt True x)) })"

definition cobex_open :: "alloc \<Rightarrow> byte list \<Rightarrow> bool \<Rightarrow> cobex_context option" where
  "cobex_open A port r320 =
     (if malloc_ok A 640
      then Some \<lparr>co_portname = port, co_ttyfd = -1, co_inputbuf = replicate 500 0, co_r320 = r320\<rparr>
      else None)"

definition cobex_connect :: "'x unix \<Rightarrow> 'x test_host world \<Rightarrow> (int \<times> 'x test_host world) option" where
  "cobex_connect U w =
     (if co_ttyfd (cable_of w) \<ge> 0 then Some (1, w)
      else do {
        (r, gt, x) \<leftarrow> cobex_init U (cable_of w) (os (ext w));
        Some (if r < 0 then -1 else 1, w\<lparr>ext := \<lparr>app = (app (ext w))\<lparr>ta_cable := gt\<rparr>, os = x\<rparr>\<rparr>) })"

text \<open>What the phone answers to the end of the connection is waited for and not looked at.\<close>

definition cobex_disconnect :: "'x unix \<Rightarrow> 'x test_host world \<Rightarrow> (int \<times> 'x test_host world) option" where
  "cobex_disconnect U w = do {
     (_, x) \<leftarrow> (if co_r320 (cable_of w) then cobex_do_at_cmd U (cable_of w) None 20 1 (os (ext w))
               else Some ((0, None), os (ext w)));
     (let (gt, x) = cobex_cleanup U (cable_of w) False x in
      Some (1, w\<lparr>ext := \<lparr>app = (app (ext w))\<lparr>ta_cable := gt\<rparr>, os = x\<rparr>\<rparr>)) }"

definition cobex_write :: "'x unix \<Rightarrow> 'x test_host world \<Rightarrow> byte list \<Rightarrow> int \<times> 'x test_host world" where
  "cobex_write U w d = sys_os (ux_write U (co_ttyfd (cable_of w)) d) w"

text \<open>The result of \<open>OBEX_CustomDataFeed\<close> is not looked at.\<close>

definition cobex_handle_input ::
    "'x test_host env \<Rightarrow> 'x unix \<Rightarrow> 'x test_host world \<Rightarrow> int \<Rightarrow> (int \<times> 'x test_host world) option" where
  "cobex_handle_input E U w timeout =
     (let fd = co_ttyfd (cable_of w) in
      if fd < 0 then Some (-1, w)
      else let (ret, w) = sys_os (ux_select U fd timeout) w in
        if ret < 1 then Some (ret, w)
        else let ((actual, d), w) = sys_os (ux_read U fd 500) w in
          if actual \<le> 0 then Some (actual, w)
          else do {
            buf \<leftarrow> mem_write (co_inputbuf (cable_of w)) 0 d;
            (let w = upd_app w (\<lambda>s. s\<lparr>ta_cable := (ta_cable s)\<lparr>co_inputbuf := buf\<rparr>\<rparr>) in do {
              (_, w) \<leftarrow> OBEX_CustomDataFeed E w (Some buf) actual;
              Some (actual, w) }) })"

text \<open>The transport, registered with the library.\<close>

definition cable_env :: "'x test_host env \<Rightarrow> 'x unix \<Rightarrow> 'x test_host env" where
  "cable_env E U = E\<lparr>
     env_ct_connect := (\<lambda>f w c. cobex_connect U w),
     env_ct_listen := (\<lambda>f w c. cobex_connect U w),
     env_ct_disconnect := (\<lambda>f w c. cobex_disconnect U w),
     env_ct_write := (\<lambda>f w c d. Some (cobex_write U w d))\<rparr>"

end
