(* ===== verification/Test_Program.thy ===== *)
theory Test_Program
  imports Cable
begin

text \<open>
  apps/obex_test_server.c, obex_test_client.c and obex_test.c: an interactive client and server. The user's words
  come from the system; what is printed is left out.
\<close>

abbreviation "OBEX_HDR_WHO \<equiv> (0x4a :: byte)"
abbreviation "OBEX_RSP_NOT_FOUND \<equiv> (0x44 :: byte)"

type_synonym 'x test_world = "'x test_host world"

section \<open>The server\<close>

definition ask_name ::
    "alloc \<Rightarrow> mem option \<Rightarrow> byte \<Rightarrow> obex_headerdata \<Rightarrow> nat \<Rightarrow> (mem option \<times> bool) option" where
  "ask_name A name hi hv hlen =
     (if hi = OBEX_HDR_NAME then do { name \<leftarrow> name_header A name hv hlen; Some (name, True) } else Some (name, True))"

text \<open>\<open>put_server\<close> is \<open>put_done\<close> of obex_put_common.c, with other messages.\<close>

definition put_server :: "'x test_host env \<Rightarrow> 'x unix \<Rightarrow> 'x test_world \<Rightarrow> addr option \<Rightarrow> 'x test_world option" where
  "put_server E U w object = put_done E U w object"

text \<open>The name is opened as it comes, whatever path it has.\<close>

definition get_server :: "'x test_host env \<Rightarrow> 'x unix \<Rightarrow> 'x test_world \<Rightarrow> addr option \<Rightarrow> 'x test_world option" where
  "get_server E U w object = do {
     (name, w) \<leftarrow> for_headers E (ask_name (env_alloc E)) None w object;
     (case name of
        None \<Rightarrow> do { (_, w) \<leftarrow> OBEX_ObjectSetRsp w object OBEX_RSP_NOT_FOUND OBEX_RSP_NOT_FOUND; Some w }
      | Some m \<Rightarrow> do {
          name \<leftarrow> c_str m;
          ((buf, file_size), x) \<leftarrow> easy_readfile (env_alloc E) U name (os (ext w));
          (let w = w\<lparr>ext := (ext w)\<lparr>os := x\<rparr>\<rparr> in
           if buf = None
           then do { (_, w) \<leftarrow> OBEX_ObjectSetRsp w object OBEX_RSP_NOT_FOUND OBEX_RSP_NOT_FOUND; Some w }
           else do {
             (_, w) \<leftarrow> OBEX_ObjectSetRsp w object OBEX_RSP_CONTINUE OBEX_RSP_SUCCESS;
             (_, w) \<leftarrow> OBEX_ObjectAddHeader E w object OBEX_HDR_BODY (BS buf) (u32 file_size) 0;
             (_, w) \<leftarrow> OBEX_ObjectAddHeader E w object OBEX_HDR_LENGTH (BQ4 (word_of_int file_size)) 4 0;
             Some w }) }) }"

text \<open>Who the client says it is only decides what is printed; reading the headers marks them as read.\<close>

definition who_header ::
    "mem option \<times> int \<Rightarrow> byte \<Rightarrow> obex_headerdata \<Rightarrow> nat \<Rightarrow> ((mem option \<times> int) \<times> bool) option" where
  "who_header v hi hv hlen =
     (if hi = OBEX_HDR_WHO then do { bs \<leftarrow> hv_bs hv; Some ((bs, s32 (int hlen)), True) } else Some (v, True))"

definition connect_server :: "'x test_host env \<Rightarrow> 'x test_world \<Rightarrow> addr option \<Rightarrow> 'x test_world option" where
  "connect_server E w object = do {
     ((who, who_len), w) \<leftarrow> for_headers E who_header (None, 0) w object;
     (_, w) \<leftarrow> OBEX_ObjectSetRsp w object OBEX_RSP_SUCCESS OBEX_RSP_SUCCESS;
     Some w }"

definition test_server_request ::
    "'x test_host env \<Rightarrow> 'x unix \<Rightarrow> 'x test_world \<Rightarrow> addr option \<Rightarrow> byte \<Rightarrow> 'x test_world option" where
  "test_server_request E U w object cmd =
     (if cmd = OBEX_CMD_CONNECT then connect_server E w object
      else if cmd = OBEX_CMD_DISCONNECT
      then do { (_, w) \<leftarrow> OBEX_ObjectSetRsp w object OBEX_RSP_SUCCESS OBEX_RSP_SUCCESS; Some w }
      else if cmd = OBEX_CMD_GET then get_server E U w object
      else if cmd = OBEX_CMD_PUT
      then do { (_, w) \<leftarrow> OBEX_ObjectSetRsp w object OBEX_RSP_CONTINUE OBEX_RSP_SUCCESS; put_server E U w object }
      else if cmd = OBEX_CMD_SETPATH
      then do { (_, w) \<leftarrow> OBEX_ObjectSetRsp w object OBEX_RSP_CONTINUE OBEX_RSP_SUCCESS; Some w }
      else do { (_, w) \<leftarrow> OBEX_ObjectSetRsp w object OBEX_RSP_NOT_IMPLEMENTED OBEX_RSP_NOT_IMPLEMENTED; Some w })"

definition test_server_done :: "'x test_host env \<Rightarrow> 'x test_world \<Rightarrow> byte \<Rightarrow> 'x test_world option" where
  "test_server_done E w cmd =
     (if cmd = OBEX_CMD_DISCONNECT
      then do { (_, w) \<leftarrow> OBEX_TransportDisconnect E w; Some (upd_app w (\<lambda>s. s\<lparr>ta_serverdone := True\<rparr>)) }
      else Some w)"

section \<open>The client: answers\<close>

definition body_header ::
    "mem option \<times> int \<Rightarrow> byte \<Rightarrow> obex_headerdata \<Rightarrow> nat \<Rightarrow> ((mem option \<times> int) \<times> bool) option" where
  "body_header v hi hv hlen =
     (if hi = OBEX_HDR_BODY then do { bs \<leftarrow> hv_bs hv; Some ((bs, s32 (int hlen)), False) } else Some (v, True))"

definition get_client_done ::
    "'x test_host env \<Rightarrow> 'x unix \<Rightarrow> 'x test_world \<Rightarrow> addr option \<Rightarrow> byte \<Rightarrow> mem option \<Rightarrow> 'x test_world option" where
  "get_client_done E U w object rsp name =
     (if rsp \<noteq> OBEX_RSP_SUCCESS then Some w
      else do {
        ((body, body_len), w) \<leftarrow> for_headers E body_header (None, 0) w object;
        (case body of None \<Rightarrow> Some w
         | Some body \<Rightarrow> do {
             m \<leftarrow> name;
             name \<leftarrow> c_str m;
             (_, x) \<leftarrow> safe_save_file U name body body_len (os (ext w));
             Some (w\<lparr>ext := (ext w)\<lparr>os := x\<rparr>\<rparr>) }) })"

text \<open>The functions for the other commands only print.\<close>

definition test_client_done ::
    "'x test_host env \<Rightarrow> 'x unix \<Rightarrow> 'x test_world \<Rightarrow> addr option \<Rightarrow> byte \<Rightarrow> byte \<Rightarrow> 'x test_world option" where
  "test_client_done E U w object cmd rsp = do {
     w \<leftarrow> (if cmd = OBEX_CMD_DISCONNECT then do { (_, w) \<leftarrow> OBEX_TransportDisconnect E w; Some w }
          else if cmd = OBEX_CMD_GET then get_client_done E U w object rsp (ta_get_name (app (ext w)))
          else Some w);
     Some (upd_app w (\<lambda>s. s\<lparr>ta_clientdone := True\<rparr>)) }"

definition close_fileDesc :: "'x unix \<Rightarrow> 'x test_world \<Rightarrow> 'x test_world" where
  "close_fileDesc U w =
     (let (_, w) = sys_os (ux_close U (ta_fileDesc (app (ext w)))) w in upd_app w (\<lambda>s. s\<lparr>ta_fileDesc := -1\<rparr>))"

definition test_fillstream ::
    "'x test_host env \<Rightarrow> 'x unix \<Rightarrow> 'x test_world \<Rightarrow> addr option \<Rightarrow> (int \<times> 'x test_world) option" where
  "test_fillstream E U w object =
     (let ((actual, d), w) = sys_os (ux_read U (ta_fileDesc (app (ext w))) 4096) w in
      if actual > 0
      then do {
        buf \<leftarrow> mem_write (ta_buffer (app (ext w))) 0 d;
        (_, w) \<leftarrow> OBEX_ObjectAddHeader E (upd_app w (\<lambda>s. s\<lparr>ta_buffer := buf\<rparr>)) object OBEX_HDR_BODY (BS (Some buf)) (nat actual)
                  OBEX_FL_STREAM_DATA;
        Some (actual, w) }
      else if actual = 0
      then do {
        (_, w) \<leftarrow> OBEX_ObjectAddHeader E (close_fileDesc U w) object OBEX_HDR_BODY (BS (Some (ta_buffer (app (ext w))))) 0
                  OBEX_FL_STREAM_DATAEND;
        Some (actual, w) }
      else do {
        (_, w) \<leftarrow> OBEX_ObjectAddHeader E (close_fileDesc U w) object OBEX_HDR_BODY (BS None) 0 OBEX_FL_STREAM_DATA;
        Some (actual, w) })"

section \<open>Events\<close>

definition test_event ::
    "'x test_host env \<Rightarrow> 'x unix \<Rightarrow> 'x test_world \<Rightarrow> addr option \<Rightarrow> obex_role \<Rightarrow> obex_event \<Rightarrow> byte \<Rightarrow> byte
     \<Rightarrow> 'x test_world option" where
  "test_event E U w object mode event cmd rsp =
     (case event of
        OBEX_EV_REQDONE \<Rightarrow> (if mode = OBEX_MODE_CLIENT then test_client_done E U w object cmd rsp
                            else test_server_done E w cmd)
      | OBEX_EV_REQHINT \<Rightarrow> do { (_, w) \<leftarrow> OBEX_ObjectSetRsp w object OBEX_RSP_CONTINUE OBEX_RSP_SUCCESS; Some w }
      | OBEX_EV_REQ \<Rightarrow> test_server_request E U w object cmd
      | OBEX_EV_LINKERR \<Rightarrow> do { (_, w) \<leftarrow> OBEX_TransportDisconnect E w; Some w }
      | OBEX_EV_STREAMEMPTY \<Rightarrow> do { (_, w) \<leftarrow> test_fillstream E U w object; Some w }
      | _ \<Rightarrow> Some w)"

text \<open>
  The library functions the callback calls deliver no events themselves; the one that reads from the cable does, and
  is only called by \<open>OBEX_HandleInput\<close>.
\<close>

definition feed_env :: "'x test_host env \<Rightarrow> 'x unix \<Rightarrow> 'x test_host env" where
  "feed_env E U = (cable_env E U)\<lparr>
     env_event := (\<lambda>cb w object mode event cmd rsp. test_event (cable_env E U) U w object mode event cmd rsp)\<rparr>"

definition test_env :: "'x test_host env \<Rightarrow> 'x unix \<Rightarrow> 'x test_host env" where
  "test_env E U = (feed_env E U)\<lparr>
     env_ct_handleinput := (\<lambda>f w c timeout. cobex_handle_input (feed_env E U) U w timeout)\<rparr>"

partial_function (option) server_do :: "'x test_host env \<Rightarrow> 'x unix \<Rightarrow> 'x test_world \<Rightarrow> 'x test_world option" where
  "server_do E U w =
     (if \<not> ta_serverdone (app (ext w))
      then do {
        (ret, w) \<leftarrow> OBEX_HandleInput (test_env E U) w 10;
        (if ret \<le> 0 then Some w else server_do E U w) }
      else Some w)"

section \<open>The client: requests\<close>

partial_function (option) syncwait_loop :: "'x test_host env \<Rightarrow> 'x unix \<Rightarrow> 'x test_world \<Rightarrow> 'x test_world option" where
  "syncwait_loop E U w =
     (if \<not> ta_clientdone (app (ext w))
      then do {
        (ret, w) \<leftarrow> OBEX_HandleInput (test_env E U) w 10;
        (if ret < 0 then Some w
         else if ret = 0 then do { (_, w) \<leftarrow> OBEX_CancelRequest (test_env E U) w False; Some w }
         else syncwait_loop E U w) }
      else Some w)"

definition test_request :: "'x test_host env \<Rightarrow> 'x unix \<Rightarrow> 'x test_world \<Rightarrow> addr option \<Rightarrow> 'x test_world option" where
  "test_request E U w object = do {
     (_, w) \<leftarrow> OBEX_Request (test_env E U) w object;
     w \<leftarrow> syncwait_loop E U w;
     Some (upd_app w (\<lambda>s. s\<lparr>ta_clientdone := False\<rparr>)) }"

definition connect_client :: "'x test_host env \<Rightarrow> 'x unix \<Rightarrow> 'x test_world \<Rightarrow> 'x test_world option" where
  "connect_client E U w = do {
     (object, w) \<leftarrow> OBEX_ObjectNew (test_env E U) w OBEX_CMD_CONNECT;
     (if object = None then Some w
      else do {
        (r, w) \<leftarrow> OBEX_ObjectAddHeader (test_env E U) w object OBEX_HDR_WHO (BS (Some (bytes_of ''Linux'' @ [0]))) 6
                    OBEX_FL_FIT_ONE_PACKET;
        (if r < 0 then do { (_, w) \<leftarrow> OBEX_ObjectDelete w object; Some w }
         else test_request E U w object) }) }"

definition disconnect_client :: "'x test_host env \<Rightarrow> 'x unix \<Rightarrow> 'x test_world \<Rightarrow> 'x test_world option" where
  "disconnect_client E U w = do {
     (object, w) \<leftarrow> OBEX_ObjectNew (test_env E U) w OBEX_CMD_DISCONNECT;
     (if object = None then Some w else test_request E U w object) }"

text \<open>
  A word of the user in an array of \<open>n\<close> characters, as the string and as the array. \<open>scanf\<close> is given no limit, and at the
  end of the input the array was never written.
\<close>

definition scan_word :: "'x unix \<Rightarrow> nat \<Rightarrow> 'x test_world \<Rightarrow> ((byte list \<times> mem) \<times> 'x test_world) option" where
  "scan_word U n w =
     (let (s, w) = sys_os (ux_word U) w in do {
        s \<leftarrow> s;
        (if length s < n then Some ((s, s @ replicate (n - length s) 0), w) else None) })"

text \<open>\<open>basename\<close> and what it leaves of its argument: slashes at the end are cut off.\<close>

definition file_basename :: "byte list \<Rightarrow> byte list \<times> byte list" where
  "file_basename fname =
     (let s = rev (dropWhile (\<lambda>c. c = SLASH) (rev fname)) in
      if s = [] then ([SLASH], fname)
      else (case strrchr_after s SLASH of None \<Rightarrow> s | Some r \<Rightarrow> r, s))"

text \<open>The file is read into memory, too, for its size.\<close>

definition push_client :: "'x test_host env \<Rightarrow> 'x unix \<Rightarrow> 'x test_world \<Rightarrow> 'x test_world option" where
  "push_client E U w = do {
     ((word, _), w) \<leftarrow> scan_word U 200 w;
     (let (bfname, fname) = file_basename word in do {
        ((buf, file_size), x) \<leftarrow> easy_readfile (env_alloc E) U fname (os (ext w));
        (let w = w\<lparr>ext := (ext w)\<lparr>os := x\<rparr>\<rparr> in
         if buf = None then Some w
         else let (f, w) = sys_os (ux_open U fname) w; w = upd_app w (\<lambda>s. s\<lparr>ta_fileDesc := f\<rparr>) in
           if f < 0 then Some w
           else do {
             (object, w) \<leftarrow> OBEX_ObjectNew (test_env E U) w OBEX_CMD_PUT;
             (let uname_size = (length bfname + 1) * 2 in do {
                (_, uname) \<leftarrow> OBEX_CharToUnicode (malloc (env_alloc E) uname_size) (Some (bfname @ [0])) (int uname_size);
                (_, w) \<leftarrow> OBEX_ObjectAddHeader (test_env E U) w object OBEX_HDR_NAME (BS uname) uname_size 0;
                (_, w) \<leftarrow> OBEX_ObjectAddHeader (test_env E U) w object OBEX_HDR_LENGTH (BQ4 (word_of_int file_size)) 4 0;
                (_, w) \<leftarrow> OBEX_ObjectAddHeader (test_env E U) w object OBEX_HDR_BODY (BS None) 0 OBEX_FL_STREAM_START;
                test_request E U w object }) }) }) }"

text \<open>
  \<open>OBEX_CharToUnicode\<close> called with the same array as source and destination, which its documentation forbids: the
  function of obex.c with every read from the array that is being written.
\<close>

fun widen_here :: "nat \<Rightarrow> mem \<Rightarrow> mem option" where
  "widen_here 0 m = Some m"
| "widen_here (Suc n) m = do { c \<leftarrow> mem_read m n 1; m \<leftarrow> mem_write m (n * 2) [0, c ! 0]; widen_here n m }"

definition CharToUnicode_here :: "mem \<Rightarrow> int \<Rightarrow> (int \<times> mem) option" where
  "CharToUnicode_here m sz =
     (if 0 \<notin> set m then None
      else let n = length (takeWhile (\<lambda>x. x \<noteq> 0) m) in
        if \<not> int n * 2 + 2 \<le> sz then Some (-1, m)
        else do {
          m \<leftarrow> mem_write m (n * 2) [0, 0];
          m \<leftarrow> widen_here n m;
          Some (s32 (int n * 2 + 2), m) })"

text \<open>
  The first part of \<open>put_client\<close> makes the object; \<open>None\<close> when the file cannot be read. That there may be no memory for
  the object is not looked at.
\<close>

definition put_client_object ::
    "'x test_host env \<Rightarrow> 'x unix \<Rightarrow> 'x test_world \<Rightarrow> (addr option option \<times> 'x test_world) option" where
  "put_client_object E U w = do {
     ((lname, _), w) \<leftarrow> scan_word U 200 w;
     ((_, rname), w) \<leftarrow> scan_word U 200 w;
     ((buf, file_size), x) \<leftarrow> easy_readfile (env_alloc E) U lname (os (ext w));
     (let w = w\<lparr>ext := (ext w)\<lparr>os := x\<rparr>\<rparr> in
      if buf = None then Some (None, w)
      else do {
        (object, w) \<leftarrow> OBEX_ObjectNew (test_env E U) w OBEX_CMD_PUT;
        (rname_size, rname) \<leftarrow> CharToUnicode_here rname 200;
        (_, w) \<leftarrow> OBEX_ObjectAddHeader (test_env E U) w object OBEX_HDR_LENGTH (BQ4 (word_of_int file_size)) 4 0;
        (_, w) \<leftarrow> OBEX_ObjectAddHeader (test_env E U) w object OBEX_HDR_NAME (BS (Some rname)) (u32 rname_size) 0;
        (_, w) \<leftarrow> OBEX_ObjectAddHeader (test_env E U) w object OBEX_HDR_BODY (BS buf) (u32 file_size) 0;
        Some (Some object, w) }) }"

definition put_client :: "'x test_host env \<Rightarrow> 'x unix \<Rightarrow> 'x test_world \<Rightarrow> 'x test_world option" where
  "put_client E U w = do {
     (made, w) \<leftarrow> put_client_object E U w;
     (case made of None \<Rightarrow> Some w | Some object \<Rightarrow> test_request E U w object) }"

text \<open>The array \<open>req_name\<close>, to which \<open>get_name\<close> points, is gone when the function returns.\<close>

definition get_client :: "'x test_host env \<Rightarrow> 'x unix \<Rightarrow> 'x test_world \<Rightarrow> 'x test_world option" where
  "get_client E U w = do {
     ((_, req_name), w) \<leftarrow> scan_word U 200 w;
     (object, w) \<leftarrow> OBEX_ObjectNew (test_env E U) w OBEX_CMD_GET;
     (if object = None then Some w
      else do {
        (rname_size, rname) \<leftarrow> OBEX_CharToUnicode (Some (replicate 200 0)) (Some req_name) 200;
        (_, w) \<leftarrow> OBEX_ObjectAddHeader (test_env E U) w object OBEX_HDR_NAME (BS rname) (u32 rname_size) OBEX_FL_FIT_ONE_PACKET;
        w \<leftarrow> test_request E U (upd_app w (\<lambda>s. s\<lparr>ta_get_name := Some req_name\<rparr>)) object;
        Some (upd_app w (\<lambda>s. s\<lparr>ta_get_name := None\<rparr>)) }) }"

definition setpath_client :: "'x test_host env \<Rightarrow> 'x unix \<Rightarrow> 'x test_world \<Rightarrow> 'x test_world option" where
  "setpath_client E U w = do {
     ((_, path), w) \<leftarrow> scan_word U 200 w;
     (object, w) \<leftarrow> OBEX_ObjectNew (test_env E U) w OBEX_CMD_SETPATH;
     (if object = None then Some w
      else do {
        (path_size, path) \<leftarrow> CharToUnicode_here path 200;
        (_, w) \<leftarrow> OBEX_ObjectAddHeader (test_env E U) w object OBEX_HDR_NAME (BS (Some path)) (u32 path_size) OBEX_FL_FIT_ONE_PACKET;
        (_, w) \<leftarrow> OBEX_ObjectSetNonHdrData (test_env E U) w object (Some [0, 0]) 2;
        test_request E U w object }) }"

end
