(* ===== verification/Cable_Laws.thy ===== *)
theory Cable_Laws
  imports Cable Test_Program
begin

text \<open>The answers to modem commands, and the names the programs send.\<close>

section \<open>Answers\<close>

text \<open>The line delivers these pieces, whatever is asked for at a time.\<close>

fun arrives :: "'x unix \<Rightarrow> int \<Rightarrow> byte list list \<Rightarrow> 'x \<Rightarrow> bool" where
  "arrives U f [] x = True"
| "arrives U f (p # ps) x = (\<exists>x1 x2. (\<forall>t. ux_select U f t x = (1, x1))
     \<and> (\<forall>n. length p \<le> n \<longrightarrow> ux_read U f n x1 = ((int (length p), p), x2)) \<and> arrives U f ps x2)"

lemma newline_at_append: "newline_at s = Some n \<Longrightarrow> newline_at (s @ t) = Some n"
proof -
  assume n: "newline_at s = Some n"
  let ?P = "\<lambda>c. c \<noteq> LF \<and> c \<noteq> 0"
  have "length (takeWhile ?P s) = n" "n < length s" "s ! n = LF"
    using n by (simp_all add: newline_at_def Let_def split: if_splits)
  moreover have "\<exists>c \<in> set s. \<not> ?P c" using calculation nth_mem [of n s] by (intro bexI [of _ "s ! n"]) simp_all
  then have "takeWhile ?P (s @ t) = takeWhile ?P s" by (auto simp: takeWhile_append)
  ultimately show ?thesis by (simp add: newline_at_def nth_append)
qed

lemma newline_at_less: "newline_at s = Some n \<Longrightarrow> n < length s \<and> s ! n = LF"
  by (simp add: newline_at_def Let_def split: if_splits)

lemma newline_at_line: "LF \<notin> set l \<Longrightarrow> 0 \<notin> set l \<Longrightarrow> newline_at (l @ LF # r) = Some (length l)"
proof -
  assume "LF \<notin> set l" "0 \<notin> set l"
  then have "takeWhile (\<lambda>c. c \<noteq> LF \<and> c \<noteq> 0) (l @ LF # r) = l" by (induction l) auto
  then show ?thesis by (simp add: newline_at_def)
qed

lemma answer_at_less: "answer_at s = Some (a, e) \<Longrightarrow> a < e \<and> e < length s"
  by (auto simp: answer_at_def split: Option.bind_splits dest!: newline_at_less)

lemma answer_at_append: "answer_at s = Some (a, e) \<Longrightarrow> answer_at (s @ t) = Some (a, e)"
proof -
  assume "answer_at s = Some (a, e)"
  then obtain k where k: "newline_at s = Some a" "newline_at (drop (Suc a) s) = Some k" "e = Suc a + k"
    by (auto simp: answer_at_def split: Option.bind_splits)
  have "Suc a \<le> length s" using newline_at_less [OF k(1)] by simp
  then have "newline_at (drop (Suc a) (s @ t)) = Some k" using newline_at_append [OF k(2), of t] by simp
  then show ?thesis using newline_at_append [OF k(1)] k(3) by (simp add: answer_at_def)
qed

lemma answer_range_append:
  assumes "a < e" and "e < length s"
  shows "answer_range (s @ t) a e = answer_range s a e" and "snd (answer_range s a e) \<le> int e - int (fst (answer_range s a e)) + 1"
proof -
  have same: "(s @ t) ! i = s ! i" if "i \<le> e" for i using that assms(2) by (simp add: nth_append)
  show "answer_range (s @ t) a e = answer_range s a e"
    using assms(1) by (simp add: answer_range_def Let_def same nat_diff_distrib)
  show "snd (answer_range s a e) \<le> int e - int (fst (answer_range s a e)) + 1"
    by (simp add: answer_range_def Let_def)
qed

lemma at_copy_append:
  assumes "answer_at s \<noteq> None"
  shows "at_copy (s @ t) n = at_copy s n"
proof -
  obtain a e where ae: "answer_at s = Some (a, e)" using assms by auto
  note l = answer_at_less [OF ae]
  define b k where "b = fst (answer_range s a e)" and "k = snd (answer_range s a e)"
  have "answer_range s a e = (b, k)" by (simp add: b_def k_def)
  moreover have "answer_range (s @ t) a e = (b, k)" using answer_range_append(1) [OF conjunct1 [OF l] conjunct2 [OF l], of t] calculation by simp
  moreover have "k \<le> int e - int b + 1" using answer_range_append(2) [OF conjunct1 [OF l] conjunct2 [OF l]] by (simp add: b_def k_def)
  then have "take (nat k) (drop b (s @ t)) = take (nat k) (drop b s)" if "k \<ge> 0"
  proof -
    have "b + nat k \<le> length s" using \<open>k \<le> _\<close> that l by linarith
    then show ?thesis by simp
  qed
  ultimately show ?thesis using ae answer_at_append [OF ae] by (auto simp: at_copy_def)
qed

lemma at_read_arrives:
  assumes "arrives U f ps x" and "answer_at got = None" and "got @ concat ps = s" and "answer_at s \<noteq> None" and "length s < 100"
  shows "\<exists>got' rest x'. at_read U f timeout got x = Some (Inr got', x') \<and> s = got' @ rest \<and> answer_at got' \<noteq> None"
  using assms
proof (induction ps arbitrary: got x)
  case Nil
  then show ?case by simp
next
  case (Cons p ps)
  have len: "length got + length p < 100" using Cons.prems(3,5) by auto
  obtain x1 x2 where x: "ux_select U f timeout x = (1, x1)" "ux_read U f (100 - length got) x1 = ((int (length p), p), x2)"
    "arrives U f ps x2"
    using Cons.prems(1) len by auto
  have step: "at_read U f timeout got x = (if answer_at (got @ p) \<noteq> None then Some (Inr (got @ p), x2) else at_read U f timeout (got @ p) x2)"
    using x(1,2) len by (subst at_read.simps) simp
  show ?case
  proof (cases "answer_at (got @ p)")
    case None
    with Cons.IH [OF x(3) None] Cons.prems(3-5) step show ?thesis by simp
  next
    case (Some r)
    with step Cons.prems(3) show ?thesis by (intro exI [of _ "got @ p"] exI [of _ "concat ps"] exI [of _ x2]) simp
  qed
qed

lemma do_at_cmd_arrives:
  assumes "co_ttyfd gt \<ge> 0" and "ux_write U (co_ttyfd gt) cmd x = (int (length cmd), x1)" and "arrives U (co_ttyfd gt) ps x1"
    and "answer_at (concat ps) \<noteq> None" and "length (concat ps) < 100"
  shows "\<exists>x'. cobex_do_at_cmd U gt (Some cmd) n timeout x = map_option (\<lambda>r. (r, x')) (at_copy (concat ps) n)"
proof -
  have "answer_at [] = None" by (simp add: answer_at_def newline_at_def)
  with assms(3-5)
  have "\<exists>got rest x'. at_read U (co_ttyfd gt) timeout [] x1 = Some (Inr got, x') \<and> concat ps = got @ rest \<and> answer_at got \<noteq> None"
    by (intro at_read_arrives) simp_all
  then obtain got rest x' where g: "at_read U (co_ttyfd gt) timeout [] x1 = Some (Inr got, x')" "concat ps = got @ rest" "answer_at got \<noteq> None"
    by (elim exE conjE)
  show ?thesis
    using assms(1,2) g(1) at_copy_append [OF g(3), of rest n] g(2)
    by (intro exI [of _ x']) (simp add: cobex_do_at_cmd_def map_conv_bind_option comp_def)
qed

lemma answer_at_lines:
  assumes "LF \<notin> set echo" and "0 \<notin> set echo" and "LF \<notin> set line" and "0 \<notin> set line"
  shows "answer_at (echo @ LF # line @ LF # rest) = Some (length echo, Suc (length echo + length line))"
  using newline_at_line [OF assms(1,2), of "line @ LF # rest"] newline_at_line [OF assms(3,4), of rest]
  by (simp add: answer_at_def)

lemma line_end_LF: "line_end LF" "line_end CR"
  by (simp_all add: line_end_def)

lemma answer_range_line:
  assumes "s ! a = LF" and "\<not> line_end (s ! Suc a)" and "s ! Suc e = LF" and "s ! e = CR"
  shows "answer_range s a (Suc e) = (Suc a, int e - int (Suc a))"
proof -
  have "nat (int (Suc e)) = Suc e" "nat (int (Suc e) - 1) = e" by simp_all
  then show ?thesis using assms by (simp only: answer_range_def Let_def line_end_LF if_True if_False) simp
qed

lemma answer_range_blank:
  assumes "s ! a = LF" and "s ! Suc a = CR" and "s ! Suc (Suc a) = LF"
  shows "answer_range s a (Suc (Suc a)) = (Suc (Suc a), - 1)"
  using assms by (simp add: answer_range_def Let_def line_end_LF nat_add_distrib)

text \<open>
  C37: the answer to a modem command is the second line that arrives, without its line end, into whatever pieces the
  serial line cuts it; what comes behind it is dropped. Echo, answer and the rest must fit into the 100 bytes of the
  buffer and the answer into the caller's.
\<close>

theorem at_answer_second_line:
  assumes "co_ttyfd gt \<ge> 0" and "ux_write U (co_ttyfd gt) cmd x = (int (length cmd), x1)" and "arrives U (co_ttyfd gt) ps x1"
    and "concat ps = echo @ LF # answer @ CR # LF # rest" and "length (concat ps) < 100" and "int (length answer) < n"
    and "LF \<notin> set echo" and "0 \<notin> set echo" and "answer \<noteq> []" and "set answer \<inter> {CR, LF, 0} = {}"
  shows "\<exists>x'. cobex_do_at_cmd U gt (Some cmd) n timeout x = Some ((0, Some answer), x')"
proof -
  let ?s = "echo @ LF # answer @ CR # LF # rest"
  have at: "answer_at ?s = Some (length echo, Suc (length echo + Suc (length answer)))"
    using answer_at_lines [OF assms(7,8), of "answer @ [CR]" rest] assms(10) by auto
  define m where "m = length answer - 1"
  have m: "length answer = Suc m" using assms(9) by (simp add: m_def)
  have "answer ! 0 \<in> set answer" using m by simp
  then have start: "\<not> line_end (answer ! 0)" using assms(10) by (auto simp: line_end_def)
  have "answer_range ?s (length echo) (Suc (length echo + Suc (length answer)))
      = (Suc (length echo), int (length echo + Suc (length answer)) - int (Suc (length echo)))"
    by (rule answer_range_line) (use start m in \<open>simp_all add: nth_append\<close>)
  then have "at_copy ?s n = Some (0, Some answer)" using at assms(6) by (simp add: at_copy_def)
  with do_at_cmd_arrives [OF assms(1-3) _ assms(5), of n timeout] at show ?thesis unfolding assms(4) by auto
qed

text \<open>A phone that gives its answer in pieces; the state is the pieces that are still to come.\<close>

definition phone :: "byte list list unix" where
  "phone = dead_unix\<lparr>ux_write := (\<lambda>_ d x. (int (length d), x)), ux_select := (\<lambda>_ _ x. (1, x)),
     ux_read := (\<lambda>_ n x. case x of [] \<Rightarrow> ((0, []), []) | p # ps \<Rightarrow> ((int (length p), p), ps))\<rparr>"

definition phone_line :: cobex_context where
  "phone_line = \<lparr>co_portname = [], co_ttyfd = 3, co_inputbuf = [], co_r320 = True\<rparr>"

lemma phone_arrives: "arrives phone f ps ps"
proof (induction ps)
  case (Cons p ps)
  then show ?case by (auto simp: phone_def intro!: exI [of _ "p # ps"] exI [of _ ps])
qed simp

theorem at_answer_second_line_witness:
  "\<exists>x'. cobex_do_at_cmd phone phone_line (Some [65, 84, 90, 13]) 200 1 [[65, 84], [90, 13, 13, 10, 79], [75, 13, 10]]
     = Some ((0, Some [79, 75]), x')"
  by (rule at_answer_second_line [OF _ _ phone_arrives [of _ "[[65, 84], [90, 13, 13, 10, 79], [75, 13, 10]]"], where echo = "[65, 84, 90, 13, 13]" and rest = "[]"])
    (simp_all add: phone_line_def phone_def)

text \<open>
  C38: an empty second line overruns the caller's buffer: both line ends are taken off twice, the length of what is
  left is negative, and \<open>strncpy\<close> takes it for a huge number.
\<close>

theorem blank_answer_overruns:
  assumes "co_ttyfd gt \<ge> 0" and "ux_write U (co_ttyfd gt) cmd x = (int (length cmd), x1)" and "arrives U (co_ttyfd gt) ps x1"
    and "concat ps = echo @ [LF, CR, LF] @ rest" and "length (concat ps) < 100" and "0 < n"
    and "LF \<notin> set echo" and "0 \<notin> set echo"
  shows "cobex_do_at_cmd U gt (Some cmd) n timeout x = None"
proof -
  let ?s = "echo @ LF # [CR] @ LF # rest"
  have at: "answer_at ?s = Some (length echo, Suc (length echo + 1))"
    using answer_at_lines [OF assms(7,8), of "[CR]" rest] by simp
  have "answer_range ?s (length echo) (Suc (Suc (length echo))) = (Suc (Suc (length echo)), - 1)"
    by (rule answer_range_blank) (simp_all add: nth_append)
  then have "at_copy ?s n = None" using at assms(6) by (simp add: at_copy_def)
  with do_at_cmd_arrives [OF assms(1-3) _ assms(5), of n timeout] at show ?thesis unfolding assms(4) by auto
qed

theorem blank_answer_overruns_witness:
  "cobex_do_at_cmd phone phone_line (Some [65, 84, 90, 13]) 200 1 [[65, 84, 90, 13, 10], [13, 10]] = None"
  by (rule blank_answer_overruns [OF _ _ phone_arrives [of _ "[[65, 84, 90, 13, 10], [13, 10]]"], where echo = "[65, 84, 90, 13]" and rest = "[]"])
    (simp_all add: phone_line_def phone_def)

section \<open>Names converted in place\<close>

lemma widen_here_loop: "(\<forall>i < n. m ! i = c ! i) \<Longrightarrow> widen_here n m = widen_loop c n m"
proof (induction n arbitrary: m)
  case (Suc n)
  show ?case
  proof (cases "n * 2 + 2 \<le> length m")
    case True
    then have rd: "mem_read m n 1 = Some [c ! n]" using Suc.prems by (simp add: mem_read_def take_Suc_conv_app_nth hd_drop_conv_nth take_Suc)
    define m' where "m' = take (n * 2) m @ [0, c ! n] @ drop (n * 2 + 2) m"
    have wr: "mem_write m (n * 2) [0, c ! n] = Some m'" using True by (simp add: mem_write_def m'_def)
    have "\<forall>i < n. m' ! i = c ! i" using Suc.prems True by (simp add: m'_def nth_append)
    from Suc.IH [OF this] show ?thesis using rd wr by simp
  next
    case False
    then have "mem_write m (n * 2) [0, d] = None" for d by (simp add: mem_write_def)
    then show ?thesis by (cases "mem_read m n 1") simp_all
  qed
qed simp

text \<open>
  C39: obex_test converts names in place, although \<open>OBEX_CharToUnicode\<close> is documented for buffers that do not overlap.
  The loop runs backwards and never reads what it has written: the result is that of converting from a copy.
\<close>

theorem conversion_in_place:
  "OBEX_CharToUnicode (Some m) (Some m) sz = map_option (\<lambda>(r, m). (r, Some m)) (CharToUnicode_here m sz)"
proof -
  define n where "n = length (takeWhile (\<lambda>x. x \<noteq> 0) m)"
  have "widen_here n m' = widen_loop m n m'" if "mem_write m (n * 2) [0, 0] = Some m'" for m'
    using that by (intro widen_here_loop) (auto simp: mem_write_def nth_append split: if_splits)
  then show ?thesis
    by (auto simp: OBEX_CharToUnicode_def CharToUnicode_here_def Let_def n_def [symmetric] split: Option.bind_splits)
qed

end
