(* ===== verification/Usb0.thy ===== *)
theory Usb0
  imports Usb
begin

text \<open>
  lib/usbobex.c: the USB transport for libusb 0.1, built in place of usb1obex.c where libusb 1 is missing. Its
  functions on descriptors (\<open>find_eps\<close>, \<open>find_obex_data_interface\<close>, \<open>check_intf\<close>) are the same text as in
  usb1obex.c and keep their definitions; its own are prefixed \<open>usb0\<close>. An adapter shows each operation of libusb 1
  that the other transport uses in terms of libusb 0.1, and what was proved there is carried over.
\<close>

section \<open>libusb 0.1\<close>

text \<open>
  The tree of busses, devices and configurations libusb builds in memory, and its calls. A device whose
  descriptors could not be read has no configurations (NULL), whatever their number. \<open>usb_open\<close> returns NULL when
  it fails. An alternate setting is chosen for the interface claimed last.
\<close>

record usb0_device =
  d0_descriptor :: usb_device
  d0_num_configurations :: nat
  d0_config :: "usb_config list option"
  d0_filename :: string

record usb0_bus =
  b0_dirname :: string
  b0_devices :: "(ptr \<times> usb0_device) list"

datatype usb0_call = SetConfiguration nat | ClaimInterface nat | SetAltInterface nat | ReleaseInterface nat
  | ClearHalt nat | CloseDevice

record 'e usb0 =
  u0_init :: "'e \<Rightarrow> 'e"
  u0_find_busses :: "'e \<Rightarrow> int \<times> 'e"
  u0_find_devices :: "'e \<Rightarrow> int \<times> 'e"
  u0_busses :: "'e \<Rightarrow> usb0_bus list"
  u0_string :: "ptr \<Rightarrow> nat \<Rightarrow> 'e \<Rightarrow> string \<times> 'e"
  u0_open :: "ptr \<Rightarrow> 'e \<Rightarrow> ptr \<times> 'e"
  u0_call :: "usb0_call \<Rightarrow> ptr \<Rightarrow> 'e \<Rightarrow> int \<times> 'e"
  u0_bulk_write :: "ptr \<Rightarrow> nat \<Rightarrow> byte list \<Rightarrow> 'e \<Rightarrow> int \<times> 'e"
  u0_bulk_read :: "ptr \<Rightarrow> nat \<Rightarrow> nat \<Rightarrow> 'e \<Rightarrow> (int \<times> byte list) \<times> 'e"

text \<open>A call on an open device; on NULL it is undefined.\<close>

definition usb0_do :: "'e usb0 \<Rightarrow> usb0_call \<Rightarrow> ptr \<Rightarrow> 'e world \<Rightarrow> (int \<times> 'e world) option" where
  "usb0_do U c h w = (if h = 0 then None else Some (sys (u0_call U c h) w))"

text \<open>\<open>atoi\<close>: white space, a sign, digits. A number out of range is undefined.\<close>

definition isspace :: "char \<Rightarrow> bool" where
  "isspace c \<longleftrightarrow> c = CHR '' '' \<or> (9 \<le> (of_char c :: nat) \<and> (of_char c :: nat) \<le> 13)"

definition isdigit :: "char \<Rightarrow> bool" where
  "isdigit c \<longleftrightarrow> 48 \<le> (of_char c :: nat) \<and> (of_char c :: nat) \<le> 57"

definition digits_value :: "string \<Rightarrow> int" where
  "digits_value s = fold (\<lambda>c n. 10 * n + (int (of_char c) - 48)) (takeWhile isdigit s) 0"

definition atoi :: "string \<Rightarrow> int option" where
  "atoi s =
     (let n = (case dropWhile isspace s of
                 [] \<Rightarrow> 0
               | c # r \<Rightarrow> (if c = CHR ''-'' then - digits_value r else if c = CHR ''+'' then digits_value r
                           else digits_value (c # r)))
      in if -2147483648 \<le> n \<and> n \<le> 2147483647 then Some n else None)"

section \<open>Discovery\<close>

definition all_devices :: "usb0_bus list \<Rightarrow> (ptr \<times> string \<times> usb0_device) list" where
  "all_devices bs = concat (map (\<lambda>b. map (\<lambda>(p, d). (p, b0_dirname b, d)) (b0_devices b)) bs)"

fun usb0_configs ::
    "alloc \<Rightarrow> ptr \<Rightarrow> usb0_device \<Rightarrow> nat list \<Rightarrow> usb_intf list \<Rightarrow> usb_intf list option" where
  "usb0_configs A p d [] current = Some current"
| "usb0_configs A p d (c # cs) current = do {
     confs \<leftarrow> d0_config d;
     conf \<leftarrow> (if c < length confs then Some (confs ! c) else None);
     current \<leftarrow> check_settings A p conf (concat (uc_interfaces conf)) current;
     usb0_configs A p d cs current }"

fun usb0_devices ::
    "alloc \<Rightarrow> (ptr \<times> string \<times> usb0_device) list \<Rightarrow> usb_intf list \<Rightarrow> usb_intf list option" where
  "usb0_devices A [] current = Some current"
| "usb0_devices A ((p, _, d) # ds) current = do {
     current \<leftarrow> usb0_configs A p d [0..<d0_num_configurations d] current;
     usb0_devices A ds current }"

definition usb0_get_intf_string ::
    "alloc \<Rightarrow> 'e usb0 \<Rightarrow> ptr \<Rightarrow> nat \<Rightarrow> 'e world \<Rightarrow> (string option \<times> 'e world) option" where
  "usb0_get_intf_string A U usb_handle k w =
     (if k \<noteq> 0 \<and> malloc_ok A 256
      then (if usb_handle = 0 then None
            else let (s, w) = sys (u0_string U usb_handle k) w in Some (Some s, w))
      else Some (None, w))"

text \<open>The device behind a pointer is looked up in the tree; a number is stored in an \<open>unsigned int\<close>.\<close>

definition usb0_describe ::
    "alloc \<Rightarrow> 'e usb0 \<Rightarrow> (ptr \<times> string \<times> usb0_device) list \<Rightarrow> usb_intf \<Rightarrow> 'e world \<Rightarrow> (usb_interface \<times> 'e world) option" where
  "usb0_describe A U ds c w = (let (h, w) = sys (u0_open U (ui_device c)) w in do {
     (dirname, d) \<leftarrow> map_of ds (ui_device c);
     let desc = d0_descriptor d;
     (manufacturer, w) \<leftarrow> usb0_get_intf_string A U h (ud_manufacturer desc) w;
     (product, w) \<leftarrow> usb0_get_intf_string A U h (ud_product desc) w;
     (serial, w) \<leftarrow> usb0_get_intf_string A U h (ud_serial desc) w;
     (configuration, w) \<leftarrow> usb0_get_intf_string A U h (ui_configuration_desc c) w;
     (control, w) \<leftarrow> usb0_get_intf_string A U h (ui_control_desc c) w;
     (idle, w) \<leftarrow> usb0_get_intf_string A U h (ui_idle_desc c) w;
     (active, w) \<leftarrow> usb0_get_intf_string A U h (ui_active_desc c) w;
     bus \<leftarrow> atoi dirname;
     address \<leftarrow> atoi (d0_filename d);
     service \<leftarrow> find_obex_service_descriptor A (ui_extra c) (ui_extra_len c) None;
     (_, w) \<leftarrow> usb0_do U CloseDevice h w;
     Some ((interface_blank c)\<lparr>if_manufacturer := manufacturer, if_product := product, if_serial := serial,
       if_configuration := configuration, if_control := control, if_idle := idle, if_active := active,
       if_service := service, if_vendor := ud_vendor desc, if_product_id := ud_product_id desc,
       if_bus := u32 bus, if_address := u32 address, if_number := ui_control_interface c\<rparr>, w) })"

fun usb0_describe_all ::
    "alloc \<Rightarrow> 'e usb0 \<Rightarrow> (ptr \<times> string \<times> usb0_device) list \<Rightarrow> usb_intf list \<Rightarrow> 'e world
     \<Rightarrow> (usb_interface list \<times> 'e world) option" where
  "usb0_describe_all A U ds [] w = Some ([], w)"
| "usb0_describe_all A U ds (c # cs) w = do {
     (i, w) \<leftarrow> usb0_describe A U ds c w; (rest, w) \<leftarrow> usb0_describe_all A U ds cs w; Some (i # rest, w) }"

definition usb0_find_interfaces ::
    "alloc \<Rightarrow> 'e usb0 \<Rightarrow> 'e world \<Rightarrow> (int \<times> usb_interface list option \<times> 'e world) option" where
  "usb0_find_interfaces A U w =
     (let w = w\<lparr>ext := u0_init U (ext w)\<rparr>;
          (_, w) = sys (u0_find_busses U) w;
          (_, w) = sys (u0_find_devices U) w;
          ds = all_devices (u0_busses U (ext w)) in do {
       current \<leftarrow> usb0_devices A ds [];
       (if \<not> malloc_ok A (length current * 96) then Some (0, None, w)
        else do {
          (arr, w) \<leftarrow> usb0_describe_all A U ds current w;
          Some (int (length current), Some arr, w) }) })"

section \<open>Opening and closing\<close>

definition usb0_err1 :: "'e usb0 \<Rightarrow> usb_intf \<Rightarrow> int \<Rightarrow> 'e world \<Rightarrow> (int \<times> 'e world) option" where
  "usb0_err1 U i ret w = do { (_, w) \<leftarrow> usb0_do U CloseDevice (ui_dev i) w; Some (ret, w) }"

definition usb0_err2 :: "'e usb0 \<Rightarrow> usb_intf \<Rightarrow> int \<Rightarrow> 'e world \<Rightarrow> (int \<times> 'e world) option" where
  "usb0_err2 U i ret w = do {
     (_, w) \<leftarrow> usb0_do U (ReleaseInterface (ui_control_interface i)) (ui_dev i) w; usb0_err1 U i ret w }"

definition usb0_err3 :: "'e usb0 \<Rightarrow> usb_intf \<Rightarrow> int \<Rightarrow> 'e world \<Rightarrow> (int \<times> 'e world) option" where
  "usb0_err3 U i ret w = do {
     (_, w) \<leftarrow> usb0_do U (ReleaseInterface (ui_data_interface i)) (ui_dev i) w; usb0_err2 U i ret w }"

definition usb0_connect_request :: "'e usb0 \<Rightarrow> 'e world \<Rightarrow> (int \<times> 'e world) option" where
  "usb0_connect_request U w = do {
     i \<leftarrow> usb_of (t_self (tport (hnd w)));
     let (dev, w) = sys (u0_open U (ui_device i)) w;
     let i = i\<lparr>ui_dev := dev\<rparr>;
     let w = set_trans w (t_self_update (\<lambda>_. SA_USB i));
     (_, w) \<leftarrow> usb0_do U (SetConfiguration (ui_configuration i)) dev w;
     (ret, w) \<leftarrow> usb0_do U (ClaimInterface (ui_control_interface i)) dev w;
     if ret < 0 then usb0_err1 U i ret w
     else do {
       (ret, w) \<leftarrow> usb0_do U (SetAltInterface (ui_control_setting i)) dev w;
       if ret < 0 then usb0_err2 U i ret w
       else do {
         (ret, w) \<leftarrow> usb0_do U (ClaimInterface (ui_data_interface i)) dev w;
         if ret < 0 then usb0_err2 U i ret w
         else do {
           (ret, w) \<leftarrow> usb0_do U (SetAltInterface (ui_active_setting i)) dev w;
           if ret < 0 then usb0_err3 U i ret w
           else Some (1, set_trans w (t_mtu_update (\<lambda>_. OBEX_MAXIMUM_MTU))) } } } }"

text \<open>The result is that of \<open>usb_close\<close>, where usb1obex.c returns 1.\<close>

definition usb0_disconnect_request :: "'e usb0 \<Rightarrow> 'e world \<Rightarrow> (int \<times> 'e world) option" where
  "usb0_disconnect_request U w =
     (if \<not> t_connected (tport (hnd w)) then Some (0, w)
      else do {
        i \<leftarrow> usb_of (t_self (tport (hnd w)));
        (_, w) \<leftarrow> usb0_do U (ClearHalt (ui_endpoint_read i)) (ui_dev i) w;
        (_, w) \<leftarrow> usb0_do U (ClearHalt (ui_endpoint_write i)) (ui_dev i) w;
        (_, w) \<leftarrow> usb0_do U (SetAltInterface (ui_idle_setting i)) (ui_dev i) w;
        (_, w) \<leftarrow> usb0_do U (ReleaseInterface (ui_data_interface i)) (ui_dev i) w;
        (_, w) \<leftarrow> usb0_do U (ReleaseInterface (ui_control_interface i)) (ui_dev i) w;
        usb0_do U CloseDevice (ui_dev i) w })"

text \<open>The branches of \<open>obex_transport_write\<close> and \<open>obex_transport_read\<close> in a build with libusb 0.1.\<close>

definition usb0_write :: "'e usb0 \<Rightarrow> 'e world \<Rightarrow> (int \<times> 'e world) option" where
  "usb0_write U w =
     (if \<not> t_connected (tport (hnd w)) then Some (-1, w)
      else do {
        i \<leftarrow> usb_of (t_self (tport (hnd w)));
        d \<leftarrow> mem_read (buf_ptr (tx_msg (hnd w))) 0 (data_size (tx_msg (hnd w)));
        Some (sys (u0_bulk_write U (ui_dev i) (ui_endpoint_write i) d) w) })"

definition usb0_read :: "alloc \<Rightarrow> 'e usb0 \<Rightarrow> 'e world \<Rightarrow> (int \<times> 'e world) option" where
  "usb0_read A U w =
     (if \<not> t_connected (tport (hnd w)) then Some (-1, w)
      else do {
        i \<leftarrow> usb_of (t_self (tport (hnd w)));
        let n = unat (mtu_rx (hnd w));
        (dest, msg) \<leftarrow> buf_reserve_end A (rx_msg (hnd w)) n;
        let ((actual, bytes), e) = u0_bulk_read U (ui_dev i) (ui_endpoint_read i) n (ext w);
        msg \<leftarrow> buf_store msg dest (take n bytes);
        Some (actual, set_ext (set_rx w (buf_remove_end msg (u64 (int n - actual)))) e) })"

section \<open>The adapter\<close>

text \<open>
  libusb 1 in terms of libusb 0.1, for the devices \<open>ds\<close>: listing the devices looks for them, a device has the
  first of its configurations, a failing \<open>usb_open\<close> is an error, and \<open>setup\<close> is done to every device that has
  been opened.
\<close>

definition usb0_scan :: "'e usb0 \<Rightarrow> 'e \<Rightarrow> 'e" where
  "usb0_scan U e = snd (u0_find_devices U (snd (u0_find_busses U (u0_init U e))))"

definition as_usb1 ::
    "'e usb0 \<Rightarrow> (ptr \<times> string \<times> usb0_device) list \<Rightarrow> (ptr \<Rightarrow> 'e \<Rightarrow> 'e) \<Rightarrow> 'e usb" where
  "as_usb1 U ds setup = \<lparr>lu_init = Pair 0, lu_exit = id,
     lu_devices = (\<lambda>e. (Some (map fst ds), usb0_scan U e)),
     lu_config = (\<lambda>p e. (case map_of ds p of Some (_, d) \<Rightarrow> Option.bind (d0_config d) (\<lambda>cs. if cs = [] then None else Some (hd cs))
                                           | None \<Rightarrow> None, e)),
     lu_descriptor = (\<lambda>p e. (map_option (\<lambda>(_, d). d0_descriptor d) (map_of ds p), e)),
     lu_bus = (\<lambda>p. case map_of ds p of Some (b, _) \<Rightarrow> u32 (the (atoi b)) | None \<Rightarrow> 0),
     lu_address = (\<lambda>p. case map_of ds p of Some (_, d) \<Rightarrow> u32 (the (atoi (d0_filename d))) | None \<Rightarrow> 0),
     lu_string = u0_string U,
     lu_open = (\<lambda>p e. let (h, e) = u0_open U p e in if h = 0 then ((-1, 0), e) else ((0, h), setup h e)),
     lu_call = (\<lambda>c h. case c of
         UsbClaim n \<Rightarrow> u0_call U (ClaimInterface n) h
       | UsbAltSetting n a \<Rightarrow> u0_call U (SetAltInterface a) h
       | UsbRelease n \<Rightarrow> u0_call U (ReleaseInterface n) h
       | UsbClearHalt p \<Rightarrow> u0_call U (ClearHalt p) h
       | UsbClose \<Rightarrow> u0_call U CloseDevice h)\<rparr>"

lemma as_usb1_simps [simp]:
  "lu_devices (as_usb1 U ds f) = (\<lambda>e. (Some (map fst ds), usb0_scan U e))"
  "lu_string (as_usb1 U ds f) = u0_string U"
  "lu_call (as_usb1 U ds f) (UsbClaim n) = u0_call U (ClaimInterface n)"
  "lu_call (as_usb1 U ds f) (UsbAltSetting n a) = u0_call U (SetAltInterface a)"
  "lu_call (as_usb1 U ds f) (UsbRelease n) = u0_call U (ReleaseInterface n)"
  "lu_call (as_usb1 U ds f) (UsbClearHalt p) = u0_call U (ClearHalt p)"
  "lu_call (as_usb1 U ds f) UsbClose = u0_call U CloseDevice"
  by (simp_all add: as_usb1_def)

lemma usb0_do_Some: "usb0_do U c h w = Some p \<longleftrightarrow> h \<noteq> 0 \<and> p = sys (u0_call U c h) w"
  by (auto simp: usb0_do_def)

lemma usb0_string_Some:
  "usb0_get_intf_string (env_alloc E) U h k w = Some p \<Longrightarrow> get_intf_string (E\<lparr>env_usb := as_usb1 U ds f\<rparr>) h k w = p"
  by (auto simp: usb0_get_intf_string_def get_intf_string_def split: if_splits prod.splits)

section \<open>Discovery through the adapter\<close>

lemma adapter_devices:
  assumes "distinct (map fst ds)" and "\<forall>(p, b, d) \<in> set ds. d0_num_configurations d = 1"
  shows "usb0_devices (env_alloc E) ds' current = Some r \<Longrightarrow> set ds' \<subseteq> set ds
    \<Longrightarrow> check_devices (E\<lparr>env_usb := as_usb1 U ds f\<rparr>) (map fst ds') current w = Some (r, w)"
proof (induction ds' arbitrary: current)
  case (Cons x ds')
  obtain p b d where x: "x = (p, b, d)" by (cases x)
  from Cons.prems(2) have mem: "(p, b, d) \<in> set ds" by (simp add: x)
  then have look: "map_of ds p = Some (b, d)" using assms(1) by (simp add: map_of_eq_Some_iff)
  have n: "d0_num_configurations d = 1" using assms(2) mem by auto
  from Cons.prems(1) obtain cs cur where cs: "d0_config d = Some cs" "cs \<noteq> []"
    "check_settings (env_alloc E) p (hd cs) (concat (uc_interfaces (hd cs))) current = Some cur"
    and rest: "usb0_devices (env_alloc E) ds' cur = Some r"
    by (auto simp: x n hd_conv_nth split: Option.bind_splits if_splits)
  show ?case
    using Cons.IH [OF rest] Cons.prems(2) cs by (simp add: x as_usb1_def look sys_def)
qed simp

lemma adapter_describe:
  assumes "usb0_describe (env_alloc E) U ds c w = Some r"
  shows "describe_interface (E\<lparr>env_usb := as_usb1 U ds (\<lambda>_ e. e)\<rparr>) c w = Some r"
proof -
  let ?E = "E\<lparr>env_usb := as_usb1 U ds (\<lambda>_ e. e)\<rparr>"
  obtain h w1 where o: "sys (u0_open U (ui_device c)) w = (h, w1)" by fastforce
  note str = usb0_string_Some [of E U h _ _ _ ds "\<lambda>_ e. e"]
  obtain b d m w2 pr w3 se w4 co w5 ct w6 idl w7 ac w8 bus ad sv where look: "map_of ds (ui_device c) = Some (b, d)"
    and s: "usb0_get_intf_string (env_alloc E) U h (ud_manufacturer (d0_descriptor d)) w1 = Some (m, w2)"
      "usb0_get_intf_string (env_alloc E) U h (ud_product (d0_descriptor d)) w2 = Some (pr, w3)"
      "usb0_get_intf_string (env_alloc E) U h (ud_serial (d0_descriptor d)) w3 = Some (se, w4)"
      "usb0_get_intf_string (env_alloc E) U h (ui_configuration_desc c) w4 = Some (co, w5)"
      "usb0_get_intf_string (env_alloc E) U h (ui_control_desc c) w5 = Some (ct, w6)"
      "usb0_get_intf_string (env_alloc E) U h (ui_idle_desc c) w6 = Some (idl, w7)"
      "usb0_get_intf_string (env_alloc E) U h (ui_active_desc c) w7 = Some (ac, w8)"
    and at: "atoi b = Some bus" "atoi (d0_filename d) = Some ad"
    and sv: "find_obex_service_descriptor (env_alloc E) (ui_extra c) (ui_extra_len c) None = Some sv"
    and h: "h \<noteq> 0"
    and r: "r = ((interface_blank c)\<lparr>if_manufacturer := m, if_product := pr, if_serial := se,
       if_configuration := co, if_control := ct, if_idle := idl, if_active := ac,
       if_service := sv, if_vendor := ud_vendor (d0_descriptor d), if_product_id := ud_product_id (d0_descriptor d),
       if_bus := u32 bus, if_address := u32 ad, if_number := ui_control_interface c\<rparr>,
       snd (sys (u0_call U CloseDevice h) w8))"
    using assms unfolding usb0_describe_def o
    by (auto simp: usb0_do_Some Let_def split: Option.bind_splits prod.splits)
  have "sys (lu_open (env_usb ?E) (ui_device c)) w = ((0, h), w1)"
    using o h by (auto simp: as_usb1_def sys_def split: prod.splits)
  moreover have "sys (lu_descriptor (env_usb ?E) (ui_device c)) w1 = (Some (d0_descriptor d), w1)"
    by (simp add: as_usb1_def look sys_def)
  moreover have "lu_bus (env_usb ?E) (ui_device c) = u32 bus" "lu_address (env_usb ?E) (ui_device c) = u32 ad"
    by (simp_all add: as_usb1_def look at)
  ultimately show ?thesis
    by (simp add: describe_interface_def read_strings_def s [THEN str] sv r split_def interface_blank_def)
qed

lemma adapter_describe_all:
  "usb0_describe_all (env_alloc E) U ds cs w = Some r
   \<Longrightarrow> describe_interfaces (E\<lparr>env_usb := as_usb1 U ds (\<lambda>_ e. e)\<rparr>) cs w = Some r"
  by (induction cs arbitrary: w r) (auto split: Option.bind_splits dest!: adapter_describe)

text \<open>
  C21: both USB transports discover the same. On a system where every device has one configuration, whatever
  usbobex.c reports over libusb 0.1, usb1obex.c reports over the same devices seen through the adapter: the same
  interfaces in the same order, with the same settings, endpoints, texts, numbers and services, and it leaves
  the system in the same state.
\<close>

theorem usb_discovery_agrees:
  assumes "usb0_find_interfaces (env_alloc E) U w = Some r"
    and "ds = all_devices (u0_busses U (usb0_scan U (ext w)))" and "distinct (map fst ds)"
    and "\<forall>(p, b, d) \<in> set ds. d0_num_configurations d = 1" and "libusb_ctx w = CTX_LIVE"
  shows "usbobex_find_interfaces (E\<lparr>env_usb := as_usb1 U ds (\<lambda>_ e. e)\<rparr>) w = Some r"
proof -
  let ?w = "w\<lparr>ext := usb0_scan U (ext w)\<rparr>"
  have "usb0_find_interfaces (env_alloc E) U w = do {
       current \<leftarrow> usb0_devices (env_alloc E) ds [];
       (if \<not> malloc_ok (env_alloc E) (length current * 96) then Some (0, None, ?w)
        else do {
          (arr, w) \<leftarrow> usb0_describe_all (env_alloc E) U ds current ?w;
          Some (int (length current), Some arr, w) }) }"
    unfolding usb0_find_interfaces_def assms(2) sys_fst_snd usb0_scan_def Let_def split_def by (simp cong: if_cong)
  then obtain cur where cur: "usb0_devices (env_alloc E) ds [] = Some cur"
    and rest: "(if \<not> malloc_ok (env_alloc E) (length cur * 96) then Some (0, None, ?w)
        else do {
          (arr, w) \<leftarrow> usb0_describe_all (env_alloc E) U ds cur ?w;
          Some (int (length cur), Some arr, w) }) = Some r"
    using assms(1) by (cases "usb0_devices (env_alloc E) ds []") simp_all
  note dev = adapter_devices [OF assms(3,4) cur order_refl]
  have "usbobex_find_interfaces (E\<lparr>env_usb := as_usb1 U ds (\<lambda>_ e. e)\<rparr>) w
      = (if \<not> malloc_ok (env_alloc E) (length cur * 96) then Some (0, None, ?w)
         else do {
           (arr, w) \<leftarrow> describe_interfaces (E\<lparr>env_usb := as_usb1 U ds (\<lambda>_ e. e)\<rparr>) cur ?w;
           Some (int (length cur), Some arr, w) })"
    by (simp add: usbobex_find_interfaces_def assms(5) sys_def dev)
  with rest show ?thesis by (auto split: if_splits Option.bind_splits dest!: adapter_describe_all)
qed

section \<open>Opening and closing through the adapter\<close>

text \<open>
  What libusb 0.1 promises, of a view of its state: as \<open>usb_contract\<close>, and a setting is chosen for the interface
  claimed last through the handle.
\<close>

record usb0_view =
  handles :: "ptr set"
  claims :: "(ptr \<times> nat) set"
  last_claim :: "ptr \<Rightarrow> nat"
  settings :: "ptr \<Rightarrow> nat \<Rightarrow> nat"

definition usb0_step :: "usb0_call \<Rightarrow> ptr \<Rightarrow> int \<Rightarrow> usb0_view \<Rightarrow> usb0_view \<Rightarrow> bool" where
  "usb0_step c h r s s' = (case c of
       SetConfiguration k \<Rightarrow> handles s' = handles s \<and> claims s' = claims s
     | ClaimInterface n \<Rightarrow> s' = (if r < 0 then s else s\<lparr>claims := insert (h, n) (claims s), last_claim := (last_claim s)(h := n)\<rparr>)
     | SetAltInterface a \<Rightarrow> s' = (if r < 0 then s else s\<lparr>settings := (settings s)(h := (settings s h)(last_claim s h := a))\<rparr>)
     | ReleaseInterface n \<Rightarrow> s' = s\<lparr>claims := claims s - {(h, n)}\<rparr>
     | ClearHalt p \<Rightarrow> s' = s
     | CloseDevice \<Rightarrow> s' = s\<lparr>handles := handles s - {h}, claims := {c \<in> claims s. fst c \<noteq> h}\<rparr>)"

definition usb0_contract :: "('e \<Rightarrow> usb0_view) \<Rightarrow> 'e usb0 \<Rightarrow> bool" where
  "usb0_contract v U \<longleftrightarrow>
     (\<forall>d e. case u0_open U d e of (h, e') \<Rightarrow>
        (if h = 0 then handles (v e') = handles (v e)
         else h \<notin> handles (v e) \<and> handles (v e') = insert h (handles (v e))) \<and> claims (v e') = claims (v e))
     \<and> (\<forall>c h e. case u0_call U c h e of (r, e') \<Rightarrow> usb0_step c h r (v e) (v e'))"

lemma usb0_contract_call: "usb0_contract v U \<Longrightarrow> u0_call U c h e = (r, e') \<Longrightarrow> usb0_step c h r (v e) (v e')"
  unfolding usb0_contract_def by (metis (mono_tags, lifting) case_prod_conv)

lemma usb0_contract_open:
  "usb0_contract v U \<Longrightarrow> u0_open U d e = (h, e') \<Longrightarrow> claims (v e') = claims (v e)
    \<and> (if h = 0 then handles (v e') = handles (v e) else h \<notin> handles (v e) \<and> handles (v e') = insert h (handles (v e)))"
  unfolding usb0_contract_def by (metis (mono_tags, lifting) case_prod_conv)

abbreviation "with_config U k \<equiv> as_usb1 U [] (\<lambda>h e. snd (u0_call U (SetConfiguration k) h e))"

abbreviation "opened_and_claimed v \<equiv> (\<lambda>e. (handles (v e), claims (v e)))"

lemma adapter_contract:
  assumes "usb0_contract v U"
  shows "usb_contract (opened_and_claimed v) (with_config U k)"
proof -
  note call = usb0_contract_call [OF assms]
  have claim: "case u0_call U (ClaimInterface n) h e of (r, e') \<Rightarrow>
      opened_and_claimed v e' = (if r < 0 then opened_and_claimed v e else (handles (v e), insert (h, n) (claims (v e))))" for n h e
    using call [of "ClaimInterface n" h e] by (auto simp: usb0_step_def split: prod.splits)
  have steps: "usb0_step c h (fst (u0_call U c h e)) (v e) (v (snd (u0_call U c h e)))" for c h e
    using call by simp
  have "case lu_open (with_config U k) d e of ((r, h), e') \<Rightarrow>
        (if r = 0 then h \<notin> handles (v e) \<and> opened_and_claimed v e' = (insert h (handles (v e)), claims (v e))
         else r < 0 \<and> opened_and_claimed v e' = opened_and_claimed v e)" for d e
  proof -
    obtain h e1 where o: "u0_open U d e = (h, e1)" by fastforce
    show ?thesis using usb0_contract_open [OF assms o] steps [of "SetConfiguration k" h e1]
      by (simp add: as_usb1_def o usb0_step_def)
  qed
  then show ?thesis
    using claim steps [of "ReleaseInterface _"] steps [of "SetAltInterface _"] steps [of "ClearHalt _"] steps [of CloseDevice]
    by (simp add: usb_contract_def usb0_step_def case_prod_unfold)
qed

lemma adapter_errs:
  assumes "ui_dev i \<noteq> 0"
  shows "usb0_err1 U i r w = Some (usb_err1 (E\<lparr>env_usb := as_usb1 U ds f\<rparr>) i r w)"
    "usb0_err2 U i r w = Some (usb_err2 (E\<lparr>env_usb := as_usb1 U ds f\<rparr>) i r w)"
    "usb0_err3 U i r w = Some (usb_err3 (E\<lparr>env_usb := as_usb1 U ds f\<rparr>) i r w)"
  using assms by (simp_all add: usb0_err1_def usb0_err2_def usb0_err3_def usb_err1_def usb_err2_def usb_err3_def usb0_do_def sys_fst_snd)

lemma adapter_connect:
  assumes "usb0_connect_request U w = Some r" and "t_self (tport (hnd w)) = SA_USB i"
  shows "usbobex_connect_request (E\<lparr>env_usb := with_config U (ui_configuration i)\<rparr>) w = Some r"
proof -
  let ?E = "E\<lparr>env_usb := with_config U (ui_configuration i)\<rparr>"
  obtain h w1 where o: "sys (u0_open U (ui_device i)) w = (h, w1)" by fastforce
  have h: "h \<noteq> 0" using assms o by (cases "h = 0") (simp_all add: usb0_connect_request_def usb_of_def usb0_do_def Let_def)
  define j where "j = i\<lparr>ui_dev := h\<rparr>"
  have j: "ui_dev j \<noteq> 0" "ui_configuration j = ui_configuration i" "ui_control_interface j = ui_control_interface i"
    "ui_control_setting j = ui_control_setting i" "ui_data_interface j = ui_data_interface i"
    "ui_active_setting j = ui_active_setting i" by (simp_all add: j_def h)
  define w2 where "w2 = set_trans w1 (t_self_update (\<lambda>_. SA_USB j))"
  obtain q0 w3 where c0: "sys (u0_call U (SetConfiguration (ui_configuration i)) h) w2 = (q0, w3)" by fastforce
  obtain q1 w4 where c1: "sys (u0_call U (ClaimInterface (ui_control_interface i)) h) w3 = (q1, w4)" by fastforce
  obtain q2 w5 where c2: "sys (u0_call U (SetAltInterface (ui_control_setting i)) h) w4 = (q2, w5)" by fastforce
  obtain q3 w6 where c3: "sys (u0_call U (ClaimInterface (ui_data_interface i)) h) w5 = (q3, w6)" by fastforce
  obtain q4 w7 where c4: "sys (u0_call U (SetAltInterface (ui_active_setting i)) h) w6 = (q4, w7)" by fastforce
  have "usb0_connect_request U w = (if q1 < 0 then usb0_err1 U j q1 w4 else if q2 < 0 then usb0_err2 U j q2 w5 else if q3 < 0 then usb0_err2 U j q3 w6
      else if q4 < 0 then usb0_err3 U j q4 w7 else Some (1, set_trans w7 (t_mtu_update (\<lambda>_. OBEX_MAXIMUM_MTU))))"
    using assms(2) h
    by (simp add: usb0_connect_request_def usb_of_def o Let_def j_def [symmetric] w2_def [symmetric] usb0_do_def j c0 c1 c2 c3 c4)
  with assms(1) have "Some r = (if q1 < 0 then usb0_err1 U j q1 w4 else if q2 < 0 then usb0_err2 U j q2 w5 else if q3 < 0 then usb0_err2 U j q3 w6
      else if q4 < 0 then usb0_err3 U j q4 w7 else Some (1, set_trans w7 (t_mtu_update (\<lambda>_. OBEX_MAXIMUM_MTU))))" by simp
  moreover have "sys (lu_open (env_usb ?E) (ui_device i)) w = ((0, h), snd (sys (u0_call U (SetConfiguration (ui_configuration i)) h) w1))"
    using o h by (auto simp: as_usb1_def sys_fst_snd split_def)
  moreover have "set_trans (snd (sys (u0_call U (SetConfiguration (ui_configuration i)) h) w1)) (t_self_update (\<lambda>_. SA_USB j)) = w3"
    using c0 by (auto simp: w2_def sys_fst_snd)
  ultimately show ?thesis
    by (simp add: usbobex_connect_request_def usb_of_def assms(2) j_def [symmetric] j c1 c2 c3 c4
        adapter_errs [OF j(1), where E = E and ds = "[]" and f = "\<lambda>h e. snd (u0_call U (SetConfiguration (ui_configuration i)) h e)"])
qed

text \<open>A call inside a world.\<close>

lemma usb0_do_step:
  assumes "usb0_contract v U" and "usb0_do U c h w = Some (r, w')"
  shows "usb0_step c h r (v (ext w)) (v (ext w'))" and "hnd w' = hnd w"
  using assms usb0_contract_call [OF assms(1), of c h "ext w" r "ext w'"] by (auto simp: usb0_do_def sys_fst_snd split: if_splits)

lemma usb0_connect_settings:
  assumes ct: "usb0_contract v U" and "usb0_connect_request U w = Some (1, w')" and i: "t_self (tport (hnd w)) = SA_USB i"
  shows "\<exists>h. h \<noteq> 0 \<and> t_self (tport (hnd w')) = SA_USB (i\<lparr>ui_dev := h\<rparr>) \<and> last_claim (v (ext w')) h = ui_data_interface i
    \<and> settings (v (ext w')) h (ui_data_interface i) = ui_active_setting i
    \<and> (ui_control_interface i \<noteq> ui_data_interface i \<longrightarrow> settings (v (ext w')) h (ui_control_interface i) = ui_control_setting i)"
proof -
  note step = usb0_do_step [OF ct]
  have pos: "usb0_err1 U j q u = Some (1, u') \<Longrightarrow> q = 1" "usb0_err2 U j q u = Some (1, u') \<Longrightarrow> q = 1"
    "usb0_err3 U j q u = Some (1, u') \<Longrightarrow> q = 1" for j q u u'
    by (auto simp: usb0_err1_def usb0_err2_def usb0_err3_def split: Option.bind_splits)
  obtain h w1 where o: "sys (u0_open U (ui_device i)) w = (h, w1)" by fastforce
  define w2 where "w2 = set_trans w1 (t_self_update (\<lambda>_. SA_USB (i\<lparr>ui_dev := h\<rparr>)))"
  obtain q0 w3 q1 w4 q2 w5 q3 w6 q4 w7 where c:
    "usb0_do U (SetConfiguration (ui_configuration i)) h w2 = Some (q0, w3)"
    "usb0_do U (ClaimInterface (ui_control_interface i)) h w3 = Some (q1, w4)" "\<not> q1 < 0"
    "usb0_do U (SetAltInterface (ui_control_setting i)) h w4 = Some (q2, w5)" "\<not> q2 < 0"
    "usb0_do U (ClaimInterface (ui_data_interface i)) h w5 = Some (q3, w6)" "\<not> q3 < 0"
    "usb0_do U (SetAltInterface (ui_active_setting i)) h w6 = Some (q4, w7)" "\<not> q4 < 0"
    "w' = set_trans w7 (t_mtu_update (\<lambda>_. OBEX_MAXIMUM_MTU))"
    using assms(2) by (auto simp: usb0_connect_request_def usb_of_def i o Let_def w2_def split: Option.bind_splits if_splits dest!: pos)
  have "hnd w7 = hnd w2" using c step(2) by metis
  then have "t_self (tport (hnd w')) = SA_USB (i\<lparr>ui_dev := h\<rparr>)" by (simp add: c(10) w2_def)
  moreover have "h \<noteq> 0" using c(1) by (simp add: usb0_do_def split: if_splits)
  moreover note step(1) [OF c(2)] step(1) [OF c(4)] step(1) [OF c(6)] step(1) [OF c(8)]
  ultimately show ?thesis using c(3,5,7,9,10) by (intro exI [of _ h]) (simp add: usb0_step_def)
qed

text \<open>Bulk transfers: libusb 0.1 returns the number of bytes or an error, libusb 1 both apart.\<close>

definition bulk_as_usb1 :: "'e usb0 \<Rightarrow> 'e env \<Rightarrow> 'e env" where
  "bulk_as_usb1 U E = E\<lparr>
     env_bulk_write := (\<lambda>a d e. case usb_of a of None \<Rightarrow> ((0, 0), e) | Some i \<Rightarrow>
       (let (r, e) = u0_bulk_write U (ui_dev i) (ui_endpoint_write i) d e in ((min r 0, r), e))),
     env_bulk_read := (\<lambda>a n e. case usb_of a of None \<Rightarrow> (((0, 0), []), e) | Some i \<Rightarrow>
       (let ((r, d), e) = u0_bulk_read U (ui_dev i) (ui_endpoint_read i) n e in (((min r 0, r), d), e)))\<rparr>"

lemma usb0_transfers_agree:
  assumes "t_type (tport (hnd w)) = OBEX_TRANS_USB" and "t_self (tport (hnd w)) = SA_USB i"
  shows "usb0_write U w = obex_transport_write (bulk_as_usb1 U E) w"
    and "usb0_read (env_alloc E) U w = obex_transport_read (bulk_as_usb1 U E) w maxn buf buflen"
proof -
  have min0: "(if min r 0 \<noteq> 0 then min r 0 else r) = r" for r :: int by (simp add: min_def)
  note defs = usb_of_def bulk_as_usb1_def sys_def split_def Let_def
  show "usb0_write U w = obex_transport_write (bulk_as_usb1 U E) w"
    using assms by (simp add: usb0_write_def obex_transport_write_def defs min0 cong: if_cong)
  show "usb0_read (env_alloc E) U w = obex_transport_read (bulk_as_usb1 U E) w maxn buf buflen"
    using assms by (simp add: usb0_read_def obex_transport_read_def defs min0 cong: if_cong)
qed

lemma usb0_disconnect_ok:
  assumes ct: "usb0_contract v U" and "t_self (tport (hnd w)) = SA_USB i" and "t_connected (tport (hnd w))" and "ui_dev i \<noteq> 0"
  shows "\<exists>q w'. usb0_disconnect_request U w = Some (q, w') \<and> handles (v (ext w')) = handles (v (ext w)) - {ui_dev i}
    \<and> claims (v (ext w')) = {c \<in> claims (v (ext w)). fst c \<noteq> ui_dev i}"
proof -
  have do_ok: "\<exists>q u'. usb0_do U c (ui_dev i) u = Some (q, u') \<and> usb0_step c (ui_dev i) q (v (ext u)) (v (ext u'))" for c u
    using assms(4) usb0_contract_call [OF ct, of c "ui_dev i" "ext u"] by (auto simp: usb0_do_def sys_fst_snd)
  obtain q1 w1 where 1: "usb0_do U (ClearHalt (ui_endpoint_read i)) (ui_dev i) w = Some (q1, w1)" "v (ext w1) = v (ext w)"
    using do_ok by (fastforce simp: usb0_step_def)
  obtain q2 w2 where 2: "usb0_do U (ClearHalt (ui_endpoint_write i)) (ui_dev i) w1 = Some (q2, w2)" "v (ext w2) = v (ext w1)"
    using do_ok by (fastforce simp: usb0_step_def)
  obtain q3 w3 where 3: "usb0_do U (SetAltInterface (ui_idle_setting i)) (ui_dev i) w2 = Some (q3, w3)"
    "opened_and_claimed v (ext w3) = opened_and_claimed v (ext w2)"
    using do_ok [of "SetAltInterface (ui_idle_setting i)" w2] by (auto simp: usb0_step_def split: if_splits)
  obtain q4 w4 where 4: "usb0_do U (ReleaseInterface (ui_data_interface i)) (ui_dev i) w3 = Some (q4, w4)"
    "opened_and_claimed v (ext w4) = (handles (v (ext w3)), claims (v (ext w3)) - {(ui_dev i, ui_data_interface i)})"
    using do_ok [of "ReleaseInterface (ui_data_interface i)" w3] by (fastforce simp: usb0_step_def)
  obtain q5 w5 where 5: "usb0_do U (ReleaseInterface (ui_control_interface i)) (ui_dev i) w4 = Some (q5, w5)"
    "opened_and_claimed v (ext w5) = (handles (v (ext w4)), claims (v (ext w4)) - {(ui_dev i, ui_control_interface i)})"
    using do_ok [of "ReleaseInterface (ui_control_interface i)" w4] by (fastforce simp: usb0_step_def)
  obtain q6 w6 where 6: "usb0_do U CloseDevice (ui_dev i) w5 = Some (q6, w6)"
    "opened_and_claimed v (ext w6) = (handles (v (ext w5)) - {ui_dev i}, {c \<in> claims (v (ext w5)). fst c \<noteq> ui_dev i})"
    using do_ok [of CloseDevice w5] by (fastforce simp: usb0_step_def)
  have "usb0_disconnect_request U w = Some (q6, w6)"
    using assms(2,3) by (simp add: usb0_disconnect_request_def usb_of_def 1(1) 2(1) 3(1) 4(1) 5(1) 6(1))
  then show ?thesis using 1(2) 2(2) 3(2) 4(2) 5(2) 6(2) by auto
qed

text \<open>
  C20: opening over libusb 0.1 is all or nothing too, and closing undoes it. When the connection fails the device is
  closed and nothing stays claimed; when it succeeds, one handle is open with both interfaces claimed and, though
  libusb 0.1 takes the interface of a setting from the claim before, each in its own setting, and the disconnect
  that follows leaves the handles and claims as they were.
\<close>

theorem usb0_connect_then_disconnect:
  assumes "usb0_contract v U" and "t_self (tport (hnd w)) = SA_USB i" and "fst ` claims (v (ext w)) \<subseteq> handles (v (ext w))"
    and "usb0_connect_request U w = Some (r, w')"
  shows "if r < 0 then opened_and_claimed v (ext w') = opened_and_claimed v (ext w)
     else r = 1 \<and> (\<exists>h q w''. h \<notin> handles (v (ext w)) \<and> handles (v (ext w')) = insert h (handles (v (ext w)))
       \<and> claims (v (ext w')) = {(h, ui_control_interface i), (h, ui_data_interface i)} \<union> claims (v (ext w))
       \<and> settings (v (ext w')) h (ui_data_interface i) = ui_active_setting i
       \<and> (ui_control_interface i \<noteq> ui_data_interface i \<longrightarrow> settings (v (ext w')) h (ui_control_interface i) = ui_control_setting i)
       \<and> usb0_disconnect_request U (set_trans w' (t_connected_update (\<lambda>_. True))) = Some (q, w'')
       \<and> opened_and_claimed v (ext w'') = opened_and_claimed v (ext w))"
proof -
  let ?E = "calm_env\<lparr>env_usb := with_config U (ui_configuration i)\<rparr>"
  have inj: "a = b" if "i\<lparr>ui_dev := a\<rparr> = i\<lparr>ui_dev := b\<rparr>" for a b using arg_cong [OF that, of ui_dev] by simp
  have ok: "usb_ok (opened_and_claimed v) i w (r, w')"
    by (rule usb_connect_ok [of _ ?E])
       (use adapter_contract [OF assms(1)] assms(2,3) adapter_connect [OF assms(4,2)] in simp_all)
  show ?thesis
  proof (cases "r < 0")
    case True
    then show ?thesis using ok by (simp add: usb_ok_def)
  next
    case False
    then obtain h where h: "r = 1" "h \<notin> handles (v (ext w))" "t_self (tport (hnd w')) = SA_USB (i\<lparr>ui_dev := h\<rparr>)"
      "handles (v (ext w')) = insert h (handles (v (ext w)))"
      "claims (v (ext w')) = {(h, ui_control_interface i), (h, ui_data_interface i)} \<union> claims (v (ext w))"
      using ok by (auto simp: usb_ok_def)
    obtain k where k: "k \<noteq> 0" "t_self (tport (hnd w')) = SA_USB (i\<lparr>ui_dev := k\<rparr>)"
      "settings (v (ext w')) k (ui_data_interface i) = ui_active_setting i"
      "ui_control_interface i \<noteq> ui_data_interface i \<longrightarrow> settings (v (ext w')) k (ui_control_interface i) = ui_control_setting i"
      using usb0_connect_settings [OF assms(1) assms(4) [unfolded h(1)] assms(2)] by blast
    have "k = h" using k(2) h(3) by (intro inj) simp
    note set = k(1,3,4) [unfolded this]
    obtain q w'' where disc: "usb0_disconnect_request U (set_trans w' (t_connected_update (\<lambda>_. True))) = Some (q, w'')"
      "handles (v (ext w'')) = handles (v (ext w')) - {h}" "claims (v (ext w'')) = {c \<in> claims (v (ext w')). fst c \<noteq> h}"
      using usb0_disconnect_ok [OF assms(1), of "set_trans w' (t_connected_update (\<lambda>_. True))" "i\<lparr>ui_dev := h\<rparr>"] h(3) set(1)
      by auto
    have "fst c \<noteq> h" if "c \<in> claims (v (ext w))" for c using that h(2) assms(3) by blast
    then have "opened_and_claimed v (ext w'') = opened_and_claimed v (ext w)"
      unfolding disc(2,3) h(4,5) using h(2) by (intro prod_eqI) auto
    with disc(1) h set False show ?thesis by auto
  qed
qed

text \<open>A device that cannot be opened: \<open>usb_open\<close> returns NULL, which is passed on.\<close>

lemma usb0_open_failure_undefined:
  assumes "fst (u0_open U (ui_device i) (ext w)) = 0" and "t_self (tport (hnd w)) = SA_USB i"
  shows "usb0_connect_request U w = None"
  using assms by (simp add: usb0_connect_request_def usb_of_def sys_fst_snd usb0_do_def Let_def)

section \<open>A device on a bus\<close>

text \<open>An outside with one bus and one device; it counts the handles it has given out and keeps what is open.\<close>

definition stick :: usb0_device where
  "stick = \<lparr>d0_descriptor = \<lparr>ud_vendor = 0x421, ud_product_id = 7, ud_manufacturer = 1, ud_product = 0, ud_serial = 0\<rparr>,
     d0_num_configurations = 1, d0_config = Some [obex_device], d0_filename = ''012''\<rparr>"

type_synonym usb0_state = "ptr list \<times> (ptr \<times> nat) list \<times> (ptr \<Rightarrow> nat) \<times> (ptr \<Rightarrow> nat \<Rightarrow> nat)"

definition stick_usb :: "usb0_state usb0" where
  "stick_usb = \<lparr>u0_init = id, u0_find_busses = Pair 1, u0_find_devices = Pair 1,
     u0_busses = (\<lambda>_. [\<lparr>b0_dirname = ''001'', b0_devices = [(77, stick)]\<rparr>]),
     u0_string = (\<lambda>h k e. (''Acme'', e)),
     u0_open = (\<lambda>d (hs, cs, l, s). (1 + sum_list hs, ((1 + sum_list hs) # hs, cs, l, s))),
     u0_call = (\<lambda>c h (hs, cs, l, s). (0, case c of
         ClaimInterface n \<Rightarrow> (hs, (h, n) # cs, l(h := n), s)
       | SetAltInterface a \<Rightarrow> (hs, cs, l, s(h := (s h)(l h := a)))
       | ReleaseInterface n \<Rightarrow> (hs, removeAll (h, n) cs, l, s)
       | CloseDevice \<Rightarrow> (removeAll h hs, filter (\<lambda>c. fst c \<noteq> h) cs, l, s)
       | _ \<Rightarrow> (hs, cs, l, s))),
     u0_bulk_write = (\<lambda>h p d e. (int (length d), e)), u0_bulk_read = (\<lambda>h p n e. ((0, []), e))\<rparr>"

lemma stick_bus:
  "u0_init stick_usb = id" "u0_find_busses stick_usb = Pair 1" "u0_find_devices stick_usb = Pair 1"
  "u0_busses stick_usb e = [\<lparr>b0_dirname = ''001'', b0_devices = [(77, stick)]\<rparr>]"
  by (simp_all add: stick_usb_def)

definition stick_view :: "usb0_state \<Rightarrow> usb0_view" where
  "stick_view = (\<lambda>(hs, cs, l, s). \<lparr>handles = set hs, claims = set cs, last_claim = l, settings = s\<rparr>)"

lemma stick_contract: "usb0_contract stick_view stick_usb"
proof -
  have "1 + sum_list hs \<notin> set hs" for hs :: "nat list" using member_le_sum_list [of "1 + sum_list hs" hs] by auto
  then show ?thesis
    by (auto simp: usb0_contract_def usb0_step_def stick_usb_def stick_view_def split: usb0_call.splits)
qed

abbreviation "stick_start \<equiv> ([], [], \<lambda>_. 0, \<lambda>_ _. 0) :: usb0_state"

theorem usb0_connect_then_disconnect_witness:
  "\<exists>w'. usb0_connect_request stick_usb (set_trans (calm_world stick_start) (t_self_update (\<lambda>_. SA_USB (intf_blank\<lparr>ui_data_interface := 1, ui_active_setting := 1\<rparr>))))
     = Some (1, w') \<and> handles (stick_view (ext w')) = {1} \<and> claims (stick_view (ext w')) = {(1, 0), (1, 1)}
     \<and> settings (stick_view (ext w')) 1 1 = 1"
proof -
  let ?i = "intf_blank\<lparr>ui_data_interface := 1, ui_active_setting := 1\<rparr>"
  let ?w = "set_trans (calm_world stick_start) (t_self_update (\<lambda>_. SA_USB ?i))"
  have w: "t_self (tport (hnd ?w)) = SA_USB ?i" "ext ?w = stick_start" by (simp_all add: calm_world_def)
  obtain w' where w': "usb0_connect_request stick_usb ?w = Some (1, w')" "fst (ext w') = [1]"
    by (simp add: usb0_connect_request_def usb_of_def sys_def usb0_do_def stick_usb_def calm_world_def)
  have "fst ` claims (stick_view (ext ?w)) \<subseteq> handles (stick_view (ext ?w))" by (simp add: calm_world_def stick_view_def)
  from usb0_connect_then_disconnect [OF stick_contract w(1) this w'(1)]
  obtain h where "h \<notin> {}" "handles (stick_view (ext w')) = insert h {}"
    "claims (stick_view (ext w')) = {(h, 0), (h, 1)}" "settings (stick_view (ext w')) h 1 = 1"
    by (auto simp: calm_world_def stick_view_def intf_blank_def)
  moreover have "handles (stick_view (ext w')) = {1}" using w'(2) by (auto simp: stick_view_def split: prod.splits)
  ultimately show ?thesis using w'(1) by auto
qed

abbreviation "obex_extra \<equiv> [5, 0x24, 0, 0x10, 1, 5, 0x24, 6, 0, 1 :: byte]"

lemma obex_device_found:
  "find_obex_data_interface (Some obex_extra) 10 obex_device j = Some (0, j\<lparr>ui_data_interface := 1,
     ui_idle_setting := 0, ui_idle_desc := 0, ui_active_setting := 1, ui_active_desc := 0, ui_endpoint_read := 0x81, ui_endpoint_write := 2\<rparr>)"
proof -
  have "union_scan obex_extra 10 None = Some (Some [5, 0x24, 6, 0, 1])"
    using union_scan_block [of "[[5, 0x24, 0, 0x10, 1], [5, 0x24, 6, 0, 1]]" None] by (simp add: desc_ok_def is_union_def)
  then show ?thesis
    by (simp add: find_obex_data_interface_def mem_read_def obex_device_def find_eps_def take_eps_def ep_in_def ep_bulk_def)
qed

lemma obex_service_none: "find_obex_service_descriptor A (Some obex_extra) 10 None = Some None"
  using service_scan_block [of "[[5, 0x24, 0, 0x10, 1], [5, 0x24, 6, 0, 1]]" A "[]" "[]" None]
  by (simp add: find_obex_service_descriptor_def desc_ok_def is_service_def service_step_def)

definition stick_intf :: usb_intf where
  "stick_intf = intf_blank\<lparr>ui_device := 77, ui_configuration := 1, ui_extra := Some obex_extra, ui_extra_len := 10,
     ui_data_interface := 1, ui_active_setting := 1, ui_endpoint_read := 0x81, ui_endpoint_write := 2\<rparr>"

lemma stick_settings: "check_settings zero_alloc 77 obex_device (concat (uc_interfaces obex_device)) [] = Some [stick_intf]"
proof -
  define s where "s = hd (hd (uc_interfaces obex_device))"
  have s: "as_class s = 2" "as_subclass s = 11" "as_extra s = Some obex_extra" "as_number s = 0" "as_setting s = 0" "as_desc s = 0"
    by (simp_all add: s_def obex_device_def)
  have c: "uc_value obex_device = 1" "uc_desc obex_device = 0" "concat (uc_interfaces obex_device) = s # concat (tl (uc_interfaces obex_device))"
    by (simp_all add: s_def obex_device_def)
  have "check_intf zero_alloc 77 obex_device s [] = Some [stick_intf]"
    by (simp add: check_intf_def s c obex_device_found zero_alloc_def) (simp add: stick_intf_def intf_blank_def)
  moreover have "check_settings A p d ss cur = Some cur" if "\<forall>s \<in> set ss. as_class s \<noteq> 2" for A p d ss cur
    using that by (induction ss) (simp_all add: check_intf_def)
  moreover have "\<forall>s \<in> set (concat (tl (uc_interfaces obex_device))). as_class s \<noteq> 2" by (simp add: obex_device_def)
  ultimately show ?thesis by (simp add: c)
qed

lemma stick_described:
  "\<exists>i w'. usb0_describe zero_alloc stick_usb [(77, ''001'', stick)] stick_intf (calm_world stick_start\<lparr>libusb_ctx := CTX_LIVE\<rparr>) = Some (i, w')
    \<and> if_bus i = 1 \<and> if_address i = 12 \<and> if_manufacturer i = Some ''Acme'' \<and> ui_endpoint_read (if_intf i) = 0x81"
proof -
  have num: "atoi ''001'' = Some 1" "atoi ''012'' = Some 12"
    by (simp_all add: atoi_def isspace_def isdigit_def digits_value_def)
  have c: "ui_device stick_intf = 77" "ui_extra stick_intf = Some obex_extra" "ui_extra_len stick_intf = 10"
    "ui_configuration_desc stick_intf = 0" "ui_control_desc stick_intf = 0" "ui_idle_desc stick_intf = 0"
    "ui_active_desc stick_intf = 0" "ui_endpoint_read stick_intf = 0x81"
    by (simp_all add: stick_intf_def intf_blank_def)
  show ?thesis
    by (simp add: usb0_describe_def c stick_def num obex_service_none usb0_get_intf_string_def usb0_do_def sys_def stick_usb_def
        calm_world_def interface_blank_def u32_def)
qed

theorem usb_discovery_agrees_witness:
  "\<exists>i w'. usbobex_find_interfaces (calm_env\<lparr>env_usb := as_usb1 stick_usb [(77, ''001'', stick)] (\<lambda>_ e. e)\<rparr>)
      ((calm_world stick_start)\<lparr>libusb_ctx := CTX_LIVE\<rparr>) = Some (1, Some [i], w')
    \<and> if_bus i = 1 \<and> if_address i = 12 \<and> if_manufacturer i = Some ''Acme'' \<and> ui_endpoint_read (if_intf i) = 0x81"
proof -
  let ?w = "(calm_world stick_start)\<lparr>libusb_ctx := CTX_LIVE\<rparr>"
  have ds: "[(77, ''001'', stick)] = all_devices (u0_busses stick_usb (usb0_scan stick_usb (ext ?w)))"
    by (simp add: all_devices_def stick_usb_def)
  have "usb0_devices zero_alloc [(77, ''001'', stick)] [] = Some [stick_intf]"
    using stick_settings by (simp add: stick_def)
  then have "\<exists>i w'. usb0_find_interfaces (env_alloc (calm_env :: usb0_state env)) stick_usb ?w = Some (1, Some [i], w')
    \<and> if_bus i = 1 \<and> if_address i = 12 \<and> if_manufacturer i = Some ''Acme'' \<and> ui_endpoint_read (if_intf i) = 0x81"
    using stick_described
    by (auto simp: usb0_find_interfaces_def sys_def calm_env_def stick_bus all_devices_def calm_world_def zero_alloc_def)
  then obtain i w' where run: "usb0_find_interfaces (env_alloc (calm_env :: usb0_state env)) stick_usb ?w = Some (1, Some [i], w')"
    "if_bus i = 1" "if_address i = 12" "if_manufacturer i = Some ''Acme''" "ui_endpoint_read (if_intf i) = 0x81" by blast
  have "usbobex_find_interfaces (calm_env\<lparr>env_usb := as_usb1 stick_usb [(77, ''001'', stick)] (\<lambda>_ e. e)\<rparr>) ?w = Some (1, Some [i], w')"
    by (rule usb_discovery_agrees [OF run(1) ds]) (simp_all add: stick_def)
  then show ?thesis using run by blast
qed

end
