(* ===== verification/Test_Main.thy ===== *)
theory Test_Main
  imports Test_Program Usb0
begin

text \<open>
  \<open>main\<close> of apps/obex_test.c, in a build with all transports: the options, and the loop over the user's commands.
  \<open>str2ba\<close> of the Bluetooth library is a parameter.
\<close>

section \<open>Options\<close>

text \<open>The flags of \<open>main\<close>, with the Bluetooth address and channel and the USB interface.\<close>

record test_mode =
  tm_cobex :: bool
  tm_tcpobex :: bool
  tm_btobex :: bool
  tm_usbobex :: bool
  tm_bdaddr :: "byte list"
  tm_channel :: byte
  tm_intf :: "usb_interface option"

definition atoi_arg :: "byte list \<Rightarrow> int option" where
  "atoi_arg s = atoi (map (\<lambda>b. char_of (unat b)) s)"

text \<open>The address and the channel; any other number of arguments ends the program.\<close>

definition bt_option :: "(byte list \<Rightarrow> byte list) \<Rightarrow> byte list list \<Rightarrow> (byte list \<times> byte) option option" where
  "bt_option str2ba argv =
     (if length argv = 4
      then do { c \<leftarrow> atoi_arg (argv ! 3); Some (Some (str2ba (argv ! 2), word_of_int c)) }
      else if length argv = 3
      then (let bdaddr = str2ba (argv ! 2) in
            if bdaddr = BDADDR_ANY then do { c \<leftarrow> atoi_arg (argv ! 2); Some (Some (bdaddr, word_of_int c)) }
            else Some (Some (bdaddr, 4)))
      else if length argv = 2 then Some (Some (BDADDR_ANY, 4))
      else Some None)"

definition has_option :: "byte list list \<Rightarrow> string \<Rightarrow> bool" where
  "has_option argv s \<longleftrightarrow> length argv \<ge> 2 \<and> argv ! 1 = bytes_of s"

definition parse_mode :: "byte list list \<Rightarrow> test_mode \<times> bool" where
  "parse_mode argv =
     (let few = length argv = 2 \<or> length argv = 3 in
      (\<lparr>tm_cobex = few \<and> (has_option argv ''-s'' \<or> has_option argv ''-r''),
        tm_tcpobex = length argv = 2 \<and> has_option argv ''-i'', tm_btobex = has_option argv ''-b'',
        tm_usbobex = has_option argv ''-u'', tm_bdaddr = BDADDR_ANY, tm_channel = 0, tm_intf = None\<rparr>,
       few \<and> has_option argv ''-r''))"

section \<open>The handle\<close>

text \<open>The program's variables at the start; without a cable its context is not there, and nothing refers to it.\<close>

definition test_vars :: "cobex_context \<Rightarrow> test_app" where
  "test_vars gt = \<lparr>ta_serverdone = False, ta_clientdone = False, ta_get_name = None, ta_buffer = replicate 4096 0,
     ta_fileDesc = 0, ta_cable = gt\<rparr>"

definition no_cable :: cobex_context where
  "no_cable = \<lparr>co_portname = [], co_ttyfd = -1, co_inputbuf = replicate 500 0, co_r320 = False\<rparr>"

definition test_world_of :: "obex \<Rightarrow> cobex_context \<Rightarrow> 'x \<Rightarrow> 'x test_world" where
  "test_world_of h gt x = \<lparr>hnd = h, objs = Map.empty, next_addr = 1, ext = \<lparr>app = test_vars gt, os = x\<rparr>, libusb_ctx = CTX_NULL\<rparr>"

text \<open>The addresses of the functions of the cable and of its context are not NULL.\<close>

definition cable_custfunc :: ctrans where
  "cable_custfunc = \<lparr>ct_connect = 1, ct_disconnect = 1, ct_listen = 1, ct_write = 1, ct_handleinput = 1, ct_customdata = 1\<rparr>"

definition cable_handle ::
    "'x test_host env \<Rightarrow> ptr \<Rightarrow> byte list list \<Rightarrow> bool \<Rightarrow> 'x \<Rightarrow> (int + 'x test_world) option" where
  "cable_handle E cb argv r320 x =
     (case cobex_open (env_alloc E) (if length argv = 3 then argv ! 2 else bytes_of ''/dev/ttyS0'') r320 of
        None \<Rightarrow> Some (Inl (-1))
      | Some gt \<Rightarrow>
          (case OBEX_Init (env_alloc E) OBEX_TRANS_CUSTOM cb 0 of
             None \<Rightarrow> Some (Inl (-1))
           | Some h \<Rightarrow> Some (Inr (snd (OBEX_RegisterCTransport (test_world_of h gt x) (Some cable_custfunc))))))"

definition plain_handle :: "'x test_host env \<Rightarrow> trans_type \<Rightarrow> ptr \<Rightarrow> 'x \<Rightarrow> 'x test_world option" where
  "plain_handle E tr cb x = map_option (\<lambda>h. test_world_of h no_cable x) (OBEX_Init (env_alloc E) tr cb 0)"

text \<open>With no number the interfaces are listed, and the program ends.\<close>

definition usb_option ::
    "'x test_host env \<Rightarrow> ptr \<Rightarrow> byte list list \<Rightarrow> 'x \<Rightarrow> (int + usb_interface option \<times> 'x test_world) option" where
  "usb_option E cb argv x =
     (if length argv = 2
      then (case plain_handle E OBEX_TRANS_USB cb x of None \<Rightarrow> Some (Inl 0)
            | Some w \<Rightarrow> do { (_, w) \<leftarrow> OBEX_EnumerateInterfaces E w; _ \<leftarrow> OBEX_Cleanup E w; Some (Inl 0) })
      else if length argv = 3
      then do {
        intf_num \<leftarrow> atoi_arg (argv ! 2);
        (case plain_handle E OBEX_TRANS_USB cb x of None \<Rightarrow> Some (Inl 0)
         | Some w \<Rightarrow> do {
             (n, w) \<leftarrow> OBEX_EnumerateInterfaces E w;
             (if intf_num \<ge> n then Some (Inl 0)
              else do { i \<leftarrow> OBEX_GetInterfaceByIndex w intf_num; Some (Inr (i, w)) }) }) }
      else Some (Inl 0))"

definition test_init ::
    "'x test_host env \<Rightarrow> 'x unix \<Rightarrow> (byte list \<Rightarrow> byte list) \<Rightarrow> ptr \<Rightarrow> byte list list \<Rightarrow> 'x \<Rightarrow> (int + test_mode \<times> 'x test_world) option" where
  "test_init E U str2ba cb argv x =
     (let (m, r320) = parse_mode argv;
          start = (\<lambda>tr m. case plain_handle E tr cb x of None \<Rightarrow> Some (Inl 0) | Some w \<Rightarrow> Some (Inr (m, w)))
      in if tm_cobex m
         then map_option (case_sum Inl (\<lambda>w. Inr (m, w))) (cable_handle E cb argv r320 x)
         else if tm_tcpobex m then start OBEX_TRANS_INET m
         else if tm_btobex m
         then do {
           o_bt \<leftarrow> bt_option str2ba argv;
           (case o_bt of None \<Rightarrow> Some (Inl 0)
            | Some (a, c) \<Rightarrow> start OBEX_TRANS_BLUETOOTH (m\<lparr>tm_bdaddr := a, tm_channel := c\<rparr>)) }
         else if tm_usbobex m
         then map_option (case_sum Inl (\<lambda>(i, w). Inr (m\<lparr>tm_intf := i\<rparr>, w))) (usb_option E cb argv x)
         else start OBEX_TRANS_IRDA m)"

section \<open>Commands\<close>

text \<open>Connecting and registering: the result says whether to go on.\<close>

definition test_connect ::
    "'x test_host env \<Rightarrow> 'x unix \<Rightarrow> test_mode \<Rightarrow> 'x test_world \<Rightarrow> (bool \<times> 'x test_world) option" where
  "test_connect E U m w =
     (let ok = map_option (\<lambda>(r, w). (r \<ge> 0, w)) in
      if tm_tcpobex m then ok (TcpOBEX_TransportConnect (test_env E U) w None)
      else if tm_cobex m then ok (OBEX_TransportConnect (test_env E U) w (Some SA_NONE) 0)
      else if tm_btobex m
      then (if tm_bdaddr m = BDADDR_ANY then Some (False, w)
            else ok (BtOBEX_TransportConnect (test_env E U) w (Some BDADDR_ANY) (Some (tm_bdaddr m)) (tm_channel m)))
      else if tm_usbobex m then ok (OBEX_InterfaceConnect (test_env E U) w (tm_intf m))
      else ok (IrOBEX_TransportConnect (test_env E U) w (Some (bytes_of ''OBEX'' @ [0]))))"

definition test_listen ::
    "'x test_host env \<Rightarrow> 'x unix \<Rightarrow> test_mode \<Rightarrow> 'x test_world \<Rightarrow> (bool \<times> 'x test_world) option" where
  "test_listen E U m w =
     (let ok = map_option (\<lambda>(r, w). (r \<ge> 0, w)) in
      if tm_tcpobex m then ok (TcpOBEX_ServerRegister (test_env E U) w None)
      else if tm_cobex m then ok (OBEX_ServerRegister (test_env E U) w (Some SA_NONE) 0)
      else if tm_btobex m then ok (BtOBEX_ServerRegister (test_env E U) w (Some BDADDR_ANY) (tm_channel m))
      else if tm_usbobex m then Some (True, w)
      else ok (IrOBEX_ServerRegister (test_env E U) w (Some (bytes_of ''OBEX'' @ [0]))))"

definition test_command ::
    "'x test_host env \<Rightarrow> 'x unix \<Rightarrow> test_mode \<Rightarrow> byte \<Rightarrow> 'x test_world \<Rightarrow> 'x test_world option" where
  "test_command E U m c w =
     (if c = 103 then get_client E U w
      else if c = 116 then setpath_client E U w
      else if c = 112 then put_client E U w
      else if c = 120 then push_client E U w
      else if c = 99 then do { (ok, w) \<leftarrow> test_connect E U m w; (if ok then connect_client E U w else Some w) }
      else if c = 100 then disconnect_client E U w
      else if c = 115
      then do {
        (ok, w) \<leftarrow> test_listen E U m w;
        (if ok then server_do E U (upd_app w (\<lambda>s. s\<lparr>ta_serverdone := False\<rparr>)) else Some w) }
      else Some w)"

text \<open>
  The array \<open>cmd\<close> has ten characters and no limit is given. At the end of the input it keeps the word before;
  before the first word it was never written.
\<close>

partial_function (option) test_loop ::
    "'x test_host env \<Rightarrow> 'x unix \<Rightarrow> test_mode \<Rightarrow> byte list option \<Rightarrow> 'x test_world \<Rightarrow> 'x test_world option" where
  "test_loop E U m cmd w =
     (let (s, w) = sys_os (ux_word U) w in do {
        cmd \<leftarrow> (case s of None \<Rightarrow> cmd | Some s \<Rightarrow> (if length s < 10 then Some s else None));
        (let c = (case cmd of [] \<Rightarrow> 0 | c # _ \<Rightarrow> c) OR 0x20 in
         if c = 113 then Some w
         else do { w \<leftarrow> test_command E U m c w; test_loop E U m (Some cmd) w }) })"

definition test_main ::
    "'x test_host env \<Rightarrow> 'x unix \<Rightarrow> (byte list \<Rightarrow> byte list) \<Rightarrow> ptr \<Rightarrow> byte list list \<Rightarrow> 'x \<Rightarrow> (int \<times> 'x test_world option) option" where
  "test_main E U str2ba cb argv x = do {
     r \<leftarrow> test_init E U str2ba cb argv x;
     (case r of Inl n \<Rightarrow> Some (n, None)
      | Inr (m, w) \<Rightarrow> do { w \<leftarrow> test_loop E U m None (OBEX_SetUserData w 1); Some (0, Some w) }) }"

end
