(* ===== verification/Cable_Transfer.thy ===== *)
theory Cable_Transfer
  imports Conversation Inbox Cable_Laws Test_Main
begin

text \<open>
  What the programs save: the loop over the headers of a PUT request (obex_put_common.c, obex_test_server.c), and the
  file that is written. The file system is seen as a map from names to contents.
\<close>

section \<open>The loop over the headers\<close>

lemma unicode_prefix:
  "unicode_len u = Some n \<Longrightarrow> unicode_len (u @ r) = Some n \<and> unicode_chars n (u @ r) = unicode_chars n u \<and> 2 * n + 2 \<le> length u"
  by (induction u arbitrary: n rule: unicode_len.induct) (auto split: if_splits)

text \<open>Names that end in their header, and sizes that an \<open>int\<close> can hold.\<close>

definition readable :: "byte \<times> byte list \<Rightarrow> bool" where
  "readable x \<longleftrightarrow> length (snd x) < 2147483648 \<and> (fst x = OBEX_HDR_NAME \<longrightarrow> unicode_len (snd x) \<noteq> None)"

text \<open>The text of a name is made of the low bytes of its characters.\<close>

definition name_chars :: "byte list \<Rightarrow> byte list" where
  "name_chars d = (case unicode_len d of None \<Rightarrow> [] | Some n \<Rightarrow> unicode_chars n d)"

text \<open>The body and the name found: the last one counts.\<close>

definition put_found :: "byte list option \<times> byte list option \<Rightarrow> byte \<times> byte list \<Rightarrow> byte list option \<times> byte list option" where
  "put_found s x = (if fst x = OBEX_HDR_BODY then (Some (snd x), snd s)
     else if fst x = OBEX_HDR_NAME then (fst s, Some (name_chars (snd x))) else s)"

definition put_holds :: "put_vars \<Rightarrow> byte list option \<times> byte list option \<Rightarrow> bool" where
  "put_holds v s \<longleftrightarrow>
     (case fst s of None \<Rightarrow> pv_body v = None
      | Some d \<Rightarrow> pv_body_len v = int (length d) \<and> length d < 2147483648
          \<and> (\<exists>m. pv_body v = Some m \<and> length d \<le> length m \<and> take (length d) m = d))
     \<and> (case snd s of None \<Rightarrow> pv_name v = None | Some t \<Rightarrow> \<exists>m. pv_name v = Some m \<and> c_str m = Some t)"

lemma name_header_spec:
  assumes A: "generous A" and u: "unicode_len d = Some n" and m: "length d \<le> length m" "take (length d) m = d"
    and size: "length d < 2147483648"
  shows "\<exists>m'. name_header A name (BS (Some m)) (length d) = Some (Some m') \<and> c_str m' = Some (name_chars d)"
proof -
  obtain mm where mm: "malloc A (length d div 2) = Some mm" "length mm = length d div 2"
    using malloc_generous [OF A, of "length d div 2"] le_less_trans [OF div_le_dividend, of "length d" 2147483648 2] size by auto
  define t where "t = unicode_chars n d"
  have t: "length t = n" "0 \<notin> set t" using unicode_chars_nonzero [OF u] by (simp_all add: t_def)
  have md: "m = d @ drop (length d) m" using append_take_drop_id [of "length d" m] m(2) by simp
  have um: "unicode_len m = Some n" "unicode_chars n m = t" "2 * n + 2 \<le> length d"
    using unicode_prefix [OF u, of "drop (length d) m"] md by (simp_all add: t_def)
  have "OBEX_UnicodeToChar (Some mm) (Some m) (s32 (int (length d))) = Some (0, Some (t @ 0 # drop (Suc n) mm))"
    using um t mm(2) size by (simp add: OBEX_UnicodeToChar_def s32_id mem_simps)
  then show ?thesis using mm(1) c_str_text [OF t(2)] u by (simp add: name_header_def hv_bs_def name_chars_def flip: t_def)
qed

lemma put_header_spec:
  assumes "generous A" and "rx_elem_ok (p, h)" and "readable (rx_elem (p, h))" and "header_value h = Some hv" and "put_holds v s"
  shows "\<exists>v'. put_header A v (h_hi h) hv (h_length h) = Some (v', True) \<and> put_holds v' (put_found s (rx_elem (p, h)))"
proof -
  obtain b where b: "h_buf h = Some b" "buf_wf b" "data_size b = h_length h"
    using assms(2) by (auto simp: rx_elem_ok_def)
  have e: "rx_elem (p, h) = (h_hi h, buf_bytes b)" using b(1) by (simp add: rx_elem_def)
  have d: "length (buf_bytes b) = h_length h" "take (h_length h) (buf_ptr b) = buf_bytes b" "h_length h \<le> length (buf_ptr b)"
    using length_buf_bytes [OF b(2)] buf_ptr_ge [OF b(2)] b(3) by (simp_all add: buf_bytes_def)
  have small: "h_length h < 2147483648" using assms(3) d(1) by (simp add: readable_def e)
  consider "h_hi h = OBEX_HDR_BODY" | "h_hi h = OBEX_HDR_NAME" | "h_hi h \<noteq> OBEX_HDR_BODY" "h_hi h \<noteq> OBEX_HDR_NAME" by blast
  then show ?thesis
  proof cases
    case 1
    then have "hv = BS (Some (buf_ptr b))" using assms(4) b(1) by (simp add: header_value_def)
    then show ?thesis using 1 assms(5) d small by (auto simp: put_header_def hv_bs_def put_holds_def put_found_def e s32_id split: option.splits)
  next
    case 2
    then have hv: "hv = BS (Some (buf_ptr b))" using assms(4) b(1) by (simp add: header_value_def)
    obtain n where n: "unicode_len (buf_bytes b) = Some n" using assms(3) 2 by (auto simp: readable_def e)
    obtain m' where "name_header A (pv_name v) (BS (Some (buf_ptr b))) (h_length h) = Some (Some m')"
      "c_str m' = Some (name_chars (buf_bytes b))"
      using name_header_spec [OF assms(1) n, of "buf_ptr b" "pv_name v"] d small by auto
    then show ?thesis using 2 assms(5) hv by (auto simp: put_header_def put_holds_def put_found_def e split: option.splits)
  next
    case 3
    then show ?thesis using assms(5) by (simp add: put_header_def put_found_def e)
  qed
qed

lemma put_loop_spec:
  assumes A: "generous (env_alloc E)"
  shows "objs w a = Some ob \<Longrightarrow> rx_headerq ob = q \<Longrightarrow> distinct (map fst q) \<Longrightarrow>
    \<forall>m \<in> set q. rx_elem_ok m \<and> readable (rx_elem m) \<Longrightarrow> put_holds v s \<Longrightarrow>
    \<exists>v'. for_headers E (put_header (env_alloc E)) v w (Some a) = Some (v', read_all w a ob)
      \<and> put_holds v' (foldl put_found s (map rx_elem q))"
proof (induction q arbitrary: w ob v s)
  case Nil
  then have "ob\<lparr>rx_headerq := [], rx_headerq_rm := rx_headerq_rm ob @ rx_headerq ob\<rparr> = ob" by (cases ob) simp
  then have "read_all w a ob = w" using Nil(1) by (simp add: read_all_def fun_upd_idem)
  then show ?case using Nil
    by (subst for_headers.simps) (simp add: next_header_object obex_object_getnextheader_def)
next
  case (Cons m q)
  obtain p h where m: "m = (p, h)" by fastforce
  define ob1 where "ob1 = ob\<lparr>rx_headerq := q, rx_headerq_rm := rx_headerq_rm ob @ [(p, h)]\<rparr>"
  define w1 where "w1 = w\<lparr>objs := (objs w)(a := Some ob1)\<rparr>"
  have ok: "rx_elem_ok (p, h)" "readable (rx_elem (p, h))" using Cons.prems(4) by (auto simp: m)
  obtain hv where hv: "header_value h = Some hv"
    and g: "obex_object_getnextheader E w a = Some (Some (h_hi h, hv, h_length h), w1)"
    unfolding w1_def ob1_def
    by (rule getnextheader_Cons [OF A Cons.prems(1), of p h q]) (use Cons.prems ok m in auto)
  have all: "read_all w1 a ob1 = read_all w a ob"
    using Cons.prems(2) by (simp add: read_all_def w1_def ob1_def m)
  obtain v1 where v1: "put_header (env_alloc E) v (h_hi h) hv (h_length h) = Some (v1, True)"
    "put_holds v1 (put_found s (rx_elem (p, h)))"
    using put_header_spec [OF A ok hv Cons.prems(5)] by blast
  have step: "for_headers E (put_header (env_alloc E)) v w (Some a)
      = for_headers E (put_header (env_alloc E)) v1 w1 (Some a)"
    by (subst for_headers.simps) (simp add: next_header_object g v1(1))
  show ?case unfolding step
    using Cons.IH [of w1 ob1 v1 "put_found s (rx_elem (p, h))"] Cons.prems(3,4) v1(2) unfolding all by (simp add: w1_def ob1_def m)
qed

section \<open>What is saved\<close>

definition put_parts :: "(byte \<times> byte list) list \<Rightarrow> byte list option \<times> byte list option" where
  "put_parts hs = foldl put_found (None, None) hs"

definition put_name :: "(byte \<times> byte list) list \<Rightarrow> byte list" where
  "put_name hs = saved_name (case snd (put_parts hs) of None \<Rightarrow> bytes_of ''OBEX_PUT_Unknown_object'' | Some t \<Rightarrow> t)"

text \<open>The three calls that write a file.\<close>

definition write_out :: "'x unix \<Rightarrow> byte list \<Rightarrow> byte list \<Rightarrow> 'x \<Rightarrow> 'x" where
  "write_out U n d x = (let (f, x) = ux_create U n x in snd (ux_close U f (snd (ux_write U f d x))))"

definition put_saved :: "'x unix \<Rightarrow> (byte \<times> byte list) list \<Rightarrow> 'x \<Rightarrow> 'x" where
  "put_saved U hs x = (case fst (put_parts hs) of None \<Rightarrow> x | Some d \<Rightarrow> write_out U (put_name hs) d x)"

lemma safe_save_file_writes:
  assumes "0 \<le> fst (ux_create U (saved_name n) x)" and "length d \<le> length m" and "take (length d) m = d"
    and "length d < 2147483648"
  shows "\<exists>r. safe_save_file U n m (int (length d)) x = Some (r, write_out U (saved_name n) d x)"
  using assms by (auto simp: safe_save_file_def write_out_def mem_read_def u64_id Let_def split: prod.splits)

lemma put_done_saves:
  assumes "generous (env_alloc E)" and "objs w a = Some ob" and "distinct (map fst (rx_headerq ob))"
    and "\<forall>m \<in> set (rx_headerq ob). rx_elem_ok m \<and> readable (rx_elem m)"
    and "fst (put_parts (snd (rx_state ob))) \<noteq> None \<Longrightarrow> 0 \<le> fst (ux_create U (put_name (snd (rx_state ob))) (os (ext w)))"
  shows "put_done E U w (Some a) = Some ((read_all w a ob)\<lparr>ext := (ext w)\<lparr>os := put_saved U (snd (rx_state ob)) (os (ext w))\<rparr>\<rparr>)"
proof -
  define hs where "hs = snd (rx_state ob)"
  have start: "put_holds \<lparr>pv_body = None, pv_body_len = 0, pv_name = None\<rparr> (None, None)" by (simp add: put_holds_def)
  obtain v where v: "for_headers E (put_header (env_alloc E)) \<lparr>pv_body = None, pv_body_len = 0, pv_name = None\<rparr> w (Some a)
      = Some (v, read_all w a ob)" "put_holds v (put_parts hs)"
    using put_loop_spec [OF assms(1,2) refl assms(3,4) start] by (auto simp: put_parts_def hs_def rx_state_def)
  have same: "ext (read_all w a ob) = ext w" by (simp add: read_all_def)
  show ?thesis
  proof (cases "fst (put_parts hs)")
    case None
    then have "put_saved U hs x = x" for x by (simp add: put_saved_def)
    moreover have "(read_all w a ob)\<lparr>ext := ext w\<rparr> = read_all w a ob" using same by simp
    ultimately show ?thesis using v None by (simp add: put_done_def put_holds_def flip: hs_def)
  next
    case (Some d)
    obtain m where m: "pv_body v = Some m" "pv_body_len v = int (length d)" "length d < 2147483648" "length d \<le> length m"
      "take (length d) m = d"
      using v(2) Some by (auto simp: put_holds_def)
    obtain n where n: "(case pv_name v of None \<Rightarrow> Some (bytes_of ''OBEX_PUT_Unknown_object'') | Some m \<Rightarrow> c_str m) = Some n"
      "saved_name n = put_name hs"
      using v(2) by (auto simp: put_holds_def put_name_def split: option.splits)
    obtain r where "safe_save_file U n m (int (length d)) (os (ext w)) = Some (r, put_saved U hs (os (ext w)))"
      using safe_save_file_writes [of U n "os (ext w)" d m] assms(5) m n(2) Some by (auto simp: hs_def put_saved_def)
    then show ?thesis using v(1) m n(1) same by (simp add: put_done_def flip: hs_def)
  qed
qed

section \<open>The program obex_test on a serial line\<close>

text \<open>What is left of an old file stays behind the new contents, as no flag of \<open>open\<close> cuts it.\<close>

definition written_over :: "byte list option \<Rightarrow> byte list \<Rightarrow> byte list" where
  "written_over old d = d @ drop (length d) (case old of None \<Rightarrow> [] | Some s \<Rightarrow> s)"

definition file_name :: "byte list \<Rightarrow> bool" where
  "file_name n \<longleftrightarrow> n \<noteq> [] \<and> n \<noteq> [DOT] \<and> n \<noteq> [DOT, DOT] \<and> length n \<le> 250 \<and> SLASH \<notin> set n \<and> 0 \<notin> set n"

text \<open>
  The system as long as it is \<open>ready\<close>: the descriptor \<open>l\<close> is a line that takes whole packets and nothing else is written
  to; a file with a proper name can be opened and takes what is written.
\<close>

definition serial_os :: "'x unix \<Rightarrow> int \<Rightarrow> ('x \<Rightarrow> bool) \<Rightarrow> ('x \<Rightarrow> byte list list) \<Rightarrow> ('x \<Rightarrow> byte list \<Rightarrow> byte list option) \<Rightarrow> bool" where
  "serial_os U l ready sent files \<longleftrightarrow>
     (\<forall>d x. ready x \<longrightarrow> fst (ux_write U l d x) = int (length d) \<and> ready (snd (ux_write U l d x))
        \<and> sent (snd (ux_write U l d x)) = sent x @ [d] \<and> files (snd (ux_write U l d x)) = files x)
     \<and> (\<forall>n d x. ready x \<and> file_name n \<longrightarrow> 0 \<le> fst (ux_create U n x) \<and> ready (write_out U n d x) \<and> sent (write_out U n d x) = sent x
        \<and> files (write_out U n d x) = (files x)(n := Some (written_over (files x n) d)))"

definition cable_up :: "'x test_host env \<Rightarrow> 'x unix \<Rightarrow> int \<Rightarrow> ('x \<Rightarrow> bool) \<Rightarrow> ('x \<Rightarrow> byte list list)
    \<Rightarrow> ('x \<Rightarrow> byte list \<Rightarrow> byte list option) \<Rightarrow> 'x test_host \<Rightarrow> bool" where
  "cable_up E U l ready sent files e \<longleftrightarrow>
     generous (env_alloc E) \<and> serial_os U l ready sent files \<and> co_ttyfd (ta_cable (app e)) = l \<and> ready (os e)"

definition cable_posted :: "'x unix \<Rightarrow> int \<Rightarrow> byte list \<Rightarrow> 'x test_host \<Rightarrow> 'x test_host" where
  "cable_posted U l d e = e\<lparr>os := snd (ux_write U l d (os e))\<rparr>"

definition cable_sent :: "('x \<Rightarrow> byte list list) \<Rightarrow> 'x test_host \<Rightarrow> byte list list" where
  "cable_sent sent e = sent (os e)"

definition cable_files :: "('x \<Rightarrow> byte list \<Rightarrow> byte list option) \<Rightarrow> 'x test_host \<Rightarrow> test_app \<times> (byte list \<Rightarrow> byte list option)" where
  "cable_files files e = (app e, files (os e))"

definition cable_accepts :: "(byte \<times> byte list) list \<Rightarrow> bool" where
  "cable_accepts hs \<longleftrightarrow> (\<forall>x \<in> set hs. readable x) \<and> file_name (put_name hs)"

definition cable_keep :: "'x unix \<Rightarrow> (byte \<times> byte list) list \<Rightarrow> 'x test_host \<Rightarrow> 'x test_host" where
  "cable_keep U hs e = e\<lparr>os := put_saved U hs (os e)\<rparr>"

lemma test_env_simps [simp]:
  "env_alloc (test_env E U) = env_alloc E" "env_alloc (cable_env E U) = env_alloc E"
  "env_event (test_env E U) cb w object mode ev c r = test_event (cable_env E U) U w object mode ev c r"
  "env_ct_write (test_env E U) f w k d = Some (cobex_write U w d)"
  by (simp_all add: test_env_def feed_env_def cable_env_def)

lemma serial_osD:
  assumes "serial_os U l ready sent files" and "ready x"
  shows "fst (ux_write U l d x) = int (length d)" "ready (snd (ux_write U l d x))" "sent (snd (ux_write U l d x)) = sent x @ [d]"
    "files (snd (ux_write U l d x)) = files x"
    "file_name n \<Longrightarrow> 0 \<le> fst (ux_create U n x)" "file_name n \<Longrightarrow> ready (write_out U n d x)"
    "file_name n \<Longrightarrow> sent (write_out U n d x) = sent x"
    "file_name n \<Longrightarrow> files (write_out U n d x) = (files x)(n := Some (written_over (files x n) d))"
  using assms by (simp_all add: serial_os_def)

lemma cable_upD:
  assumes "cable_up E U l ready sent files e"
  shows "generous (env_alloc E)" "co_ttyfd (ta_cable (app e)) = l"
    "fst (ux_write U l d (os e)) = int (length d)" "cable_up E U l ready sent files (cable_posted U l d e)"
    "sent (snd (ux_write U l d (os e))) = sent (os e) @ [d]" "files (snd (ux_write U l d (os e))) = files (os e)"
    "cable_accepts hs \<Longrightarrow> 0 \<le> fst (ux_create U (put_name hs) (os e))"
    "cable_accepts hs \<Longrightarrow> cable_up E U l ready sent files (cable_keep U hs e)"
    "cable_accepts hs \<Longrightarrow> sent (put_saved U hs (os e)) = sent (os e)"
    "cable_accepts hs \<Longrightarrow> files (put_saved U hs (os e)) = (case fst (put_parts hs) of None \<Rightarrow> files (os e)
       | Some d \<Rightarrow> (files (os e))(put_name hs := Some (written_over (files (os e) (put_name hs)) d)))"
proof -
  have os: "serial_os U l ready sent files" "ready (os e)" using assms by (simp_all add: cable_up_def)
  note o = serial_osD [OF os]
  show "generous (env_alloc E)" "co_ttyfd (ta_cable (app e)) = l" using assms by (simp_all add: cable_up_def)
  show "fst (ux_write U l d (os e)) = int (length d)" "cable_up E U l ready sent files (cable_posted U l d e)"
    "sent (snd (ux_write U l d (os e))) = sent (os e) @ [d]" "files (snd (ux_write U l d (os e))) = files (os e)"
    using assms o by (simp_all add: cable_up_def cable_posted_def)
  assume "cable_accepts hs"
  then have n: "file_name (put_name hs)" by (simp add: cable_accepts_def)
  note o = serial_osD(5-8) [OF os n]
  show "0 \<le> fst (ux_create U (put_name hs) (os e))" by (rule o(1))
  show "cable_up E U l ready sent files (cable_keep U hs e)" "sent (put_saved U hs (os e)) = sent (os e)"
    "files (put_saved U hs (os e)) = (case fst (put_parts hs) of None \<Rightarrow> files (os e)
       | Some d \<Rightarrow> (files (os e))(put_name hs := Some (written_over (files (os e) (put_name hs)) d)))"
    using assms o by (simp_all add: cable_up_def cable_keep_def put_saved_def split: option.splits)
qed

lemma cable_write_posts:
  assumes "cable_up E U l ready sent files (ext w)"
  shows "cobex_write U w d = (int (length d), w\<lparr>ext := cable_posted U l d (ext w)\<rparr>)"
  using cable_upD(2) [OF assms] cable_upD(3) [OF assms, of d]
  by (cases "ux_write U l d (os (ext w))") (simp add: cobex_write_def sys_os_def cable_posted_def)

interpretation cable: link_end "test_env E U" "cable_up E U l ready sent files" "cable_sent sent" "cable_posted U l" "cable_files files"
  for E :: "'x test_host env" and U l ready sent files
  by unfold_locales (simp_all add: cable_write_posts cable_upD, simp_all add: cable_posted_def cable_sent_def cable_files_def cable_upD)

lemma test_serves_put:
  assumes "cable_up E U l ready sent files (ext w)" and "objs w a = Some ob" and "received ob" and "answering ob"
    and "cable_accepts (snd (rx_state ob))"
  shows "\<exists>ob'. test_event (cable_env E U) U w (Some a) OBEX_MODE_SERVER OBEX_EV_REQ OBEX_CMD_PUT r
      = Some (w\<lparr>objs := (objs w)(a := Some ob'), ext := cable_keep U (snd (rx_state ob)) (ext w)\<rparr>) \<and> answering ob'"
proof -
  define ob1 where "ob1 = obex_object_setrsp ob OBEX_RSP_CONTINUE OBEX_RSP_SUCCESS"
  define w1 where "w1 = w\<lparr>objs := (objs w)(a := Some ob1)\<rparr>"
  define ob2 where "ob2 = ob1\<lparr>rx_headerq := [], rx_headerq_rm := rx_headerq_rm ob1 @ rx_headerq ob1\<rparr>"
  note up = cable_upD [OF assms(1)]
  have same: "rx_headerq ob1 = rx_headerq ob" "rx_state ob1 = rx_state ob"
    by (simp_all add: ob1_def obex_object_setrsp_def rx_state_def)
  have ok: "\<forall>m \<in> set (rx_headerq ob1). rx_elem_ok m \<and> readable (rx_elem m)" "distinct (map fst (rx_headerq ob1))"
    using assms(3,5) same(1) by (auto simp: received_def cable_accepts_def rx_state_def)
  have "0 \<le> fst (ux_create U (put_name (snd (rx_state ob1))) (os (ext w1)))"
    using up(7) [OF assms(5)] same(2) by (simp add: w1_def)
  then have "put_done (cable_env E U) U w1 (Some a)
      = Some ((read_all w1 a ob1)\<lparr>ext := (ext w1)\<lparr>os := put_saved U (snd (rx_state ob1)) (os (ext w1))\<rparr>\<rparr>)"
    using put_done_saves [of "cable_env E U" w1 a ob1 U] up(1) ok by (simp add: w1_def)
  then have "put_done (cable_env E U) U w1 (Some a)
      = Some (w\<lparr>objs := (objs w)(a := Some ob2), ext := cable_keep U (snd (rx_state ob)) (ext w)\<rparr>)"
    by (simp add: read_all_def w1_def ob2_def cable_keep_def same(2))
  moreover have "answering ob2" using assms(4) by (simp add: ob2_def ob1_def answering_def obex_object_setrsp_def)
  moreover have "test_event (cable_env E U) U w (Some a) OBEX_MODE_SERVER OBEX_EV_REQ OBEX_CMD_PUT r = put_done (cable_env E U) U w1 (Some a)"
    using assms(2) by (simp add: test_event_def test_server_request_def put_server_def OBEX_ObjectSetRsp_def w1_def ob1_def)
  ultimately show ?thesis by auto
qed

interpretation cable_server: put_acceptor "test_env E U" "cable_up E U l ready sent files" "cable_sent sent" "cable_posted U l"
    "cable_files files" cable_accepts "cable_keep U"
  for E :: "'x test_host env" and U l ready sent files
proof (unfold_locales, goal_cases)
  case (1 w a ob cb r)
  then show ?case by (simp add: test_event_def OBEX_ObjectSetRsp_def)
next
  case (2 w a ob cb r)
  then show ?case using test_serves_put by simp
next
  case (3 w ev cb a r)
  then show ?case by (auto simp: test_event_def test_server_done_def)
next
  case (4 e hs)
  then show ?case by (rule cable_upD(8))
next
  case (5 e hs)
  then show ?case by (simp add: cable_keep_def cable_sent_def cable_upD(9))
qed

interpretation cable_client: put_requester "test_env E U" "cable_up E U l ready sent files" "cable_sent sent" "cable_posted U l"
    "cable_files files" "\<lambda>r e. e"
  for E :: "'x test_host env" and U l ready sent files
  by unfold_locales (simp_all add: test_event_def test_server_done_def)

interpretation cable_link: put_link "test_env Ec Uc" "cable_up Ec Uc lc readyc sentc filesc" "cable_sent sentc" "cable_posted Uc lc"
    "cable_files filesc" "\<lambda>r e. e" "test_env Es Us" "cable_up Es Us ls readys sents filess" "cable_sent sents" "cable_posted Us ls"
    "cable_files filess" cable_accepts "cable_keep Us"
  for Ec :: "'x test_host env" and Uc lc readyc sentc filesc and Es :: "'y test_host env" and Us ls readys sents filess
  by unfold_locales

section \<open>The object of a PUT\<close>

lemma addheader_prefix:
  assumes "n \<le> length m" and "n < 2147483648"
  shows "obex_object_addheader E w a hi (BS (Some m)) n 0 = obex_object_addheader E w a hi (BS (Some (take n m))) n 0"
proof -
  have "mem_read m 0 n = mem_read (take n m) 0 n" using assms(1) by (simp add: mem_read_def)
  then have "insert_unicode_header A b hi (Some m) (s32 (int n)) = insert_unicode_header A b hi (Some (take n m)) (s32 (int n))"
    "insert_byte_stream_header A b hi (Some m) (s32 (int n)) = insert_byte_stream_header A b hi (Some (take n m)) (s32 (int n))" for A b
    using assms(2) by (simp_all add: s32_id u64_id insert_unicode_header_def insert_byte_stream_header_def cong: if_cong)
  then have "addheader_encode A hi (BS (Some m)) n = addheader_encode A hi (BS (Some (take n m))) n" for A
    by (simp add: addheader_encode_def hv_bq4_def hv_bq1_def hv_bs_def split: option.split)
  then show ?thesis by (simp add: obex_object_addheader_def Let_def cong: if_cong)
qed

text \<open>An object in the making, with the headers \<open>xs\<close> so far, which was made in the world \<open>w0\<close>.\<close>

definition making :: "'e world \<Rightarrow> 'e world \<Rightarrow> addr \<Rightarrow> obex_object \<Rightarrow> (byte \<times> hdr_value) list \<Rightarrow> bool" where
  "making w0 w a ob xs \<longleftrightarrow> hnd w = hnd w0 \<and> ext w = ext w0 \<and> objs w a = Some ob
     \<and> ob\<lparr>tx_headerq := [], totallen := 0\<rparr> = obex_object_setcmd obex_object_init OBEX_CMD_PUT (OBEX_CMD_PUT OR OBEX_FINAL)
     \<and> map item_of (tx_headerq ob) = map hdr_item xs \<and> queue_ok (tx_headerq ob) \<and> (\<forall>m \<in> set (tx_headerq ob). fst m < next_addr w)"

lemma making_start:
  assumes "generous (env_alloc E)"
  obtains w' ob where "OBEX_ObjectNew E w OBEX_CMD_PUT = Some (Some (next_addr w), w')" "making w w' (next_addr w) ob []"
proof -
  let ?ob = "obex_object_setcmd obex_object_init OBEX_CMD_PUT (OBEX_CMD_PUT OR OBEX_FINAL)"
  let ?w = "w\<lparr>objs := (objs w)(next_addr w := Some ?ob), next_addr := Suc (next_addr w)\<rparr>"
  have "malloc_ok (env_alloc E) 120" using assms by simp
  then have "OBEX_ObjectNew E w OBEX_CMD_PUT = Some (Some (next_addr w), ?w)"
    by (simp add: OBEX_ObjectNew_def obex_object_new_def)
  moreover have "making w ?w (next_addr w) ?ob []"
    by (simp add: making_def obex_object_setcmd_def obex_object_init_def obex_object_setrsp_def obex_object_zero_def queue_ok_def)
  ultimately show ?thesis by (rule that)
qed

lemma queued_item:
  assumes "buf_wf b" and "buf_bytes b = enc_header hi v" and "hi \<noteq> OBEX_HDR_EMPTY" and "hdr_size_ok hi v"
  shows "item_of (p, queued_element hi v 0 b) = hdr_item (hi, v)" "elem_ok (queued_element hi v 0 b)"
proof -
  have len: "data_size b = length (enc_header hi v)" using length_buf_bytes [OF assms(1)] assms(2) by simp
  show "item_of (p, queued_element hi v 0 b) = hdr_item (hi, v)"
    using assms by (cases v) (auto simp: item_of_def elem_item_def elem_susp_def queued_element_def hdr_item_def enc_header_def value_bytes_def hdr_size_ok_def)
  show "elem_ok (queued_element hi v 0 b)"
    using assms len by (cases v) (auto simp: elem_ok_def queued_element_def length_enc_header hdr_size_ok_def)
qed

lemma making_add:
  assumes "making w0 w a ob xs" and "generous (env_alloc E)" and "hdr_size_ok hi v" and "hi \<noteq> OBEX_HDR_EMPTY"
    and "hi = OBEX_HDR_BODY \<or> length (enc_header hi v) \<le> add_limit (hnd w0) ob 0"
  obtains w' ob' where "OBEX_ObjectAddHeader E w (Some a) hi (hv_data v) (hv_len v) 0 = Some (1, w')" "making w0 w' a ob' (xs @ [(hi, v)])"
proof -
  have m: "objs w a = Some ob" "hnd w = hnd w0" using assms(1) by (simp_all add: making_def)
  obtain b where b: "obex_object_addheader E w a hi (hv_data v) (hv_len v) 0
      = Some (1, w\<lparr>objs := (objs w)(a := Some (ob\<lparr>
          tx_headerq := tx_headerq ob @ [(next_addr w, queued_element hi v 0 b)],
          totallen := s32 (totallen ob + int (length (enc_header hi v)))\<rparr>)), next_addr := Suc (next_addr w)\<rparr>)"
    "buf_wf b" "buf_bytes b = enc_header hi v"
    using addheader_spec [OF assms(2) m(1) assms(3,4), of 0] assms(5) m(2) by (auto simp: plain_flags_def)
  note q = queued_item [OF b(2,3) assms(4,3)]
  show ?thesis
    by (rule that [OF _ ], simp add: OBEX_ObjectAddHeader_def b(1))
       (use assms(1) q in \<open>force simp: making_def queue_ok_def\<close>)
qed

lemma made_put_request:
  assumes "making w0 w a ob xs" and "generous (env_alloc E)" and "serving up w0" and "items_bytes (map hdr_item xs) < 2147483648"
  shows "put_request E up w a ob"
proof -
  have "ob\<lparr>tx_headerq := [], totallen := 0\<rparr> = obex_object_setcmd obex_object_init OBEX_CMD_PUT (OBEX_CMD_PUT OR OBEX_FINAL)"
    using assms(1) by (simp add: making_def)
  note same = arg_cong [OF this]
  have "\<not> suspend ob" "tx_nonhdr_data ob = None" "ob_opcode ob = OBEX_CMD_PUT" "ob_lastopcode ob = OBEX_CMD_PUT OR OBEX_FINAL"
    "headeroffset ob = 0" "\<not> abort_req ob" "rx_ready ob 0"
    using same [of suspend] same [of tx_nonhdr_data] same [of ob_opcode] same [of ob_lastopcode] same [of headeroffset]
      same [of abort_req] same [of "\<lambda>ob. rx_ready ob 0"]
    by (simp_all add: obex_object_setcmd_def obex_object_init_def obex_object_setrsp_def obex_object_zero_def rx_ready_def)
  then show ?thesis using assms by (simp add: put_request_def sendable_def making_def serving_def nonhdr_bytes_def)
qed

section \<open>A file from one end to the other\<close>

text \<open>The user wants the file \<open>lname\<close>, which holds \<open>d\<close>, stored as \<open>rname\<close>.\<close>

definition user_puts :: "alloc \<Rightarrow> 'x unix \<Rightarrow> byte list \<Rightarrow> byte list \<Rightarrow> byte list \<Rightarrow> 'x \<Rightarrow> 'x \<Rightarrow> bool" where
  "user_puts A U lname rname d x x' \<longleftrightarrow> (\<exists>x1 x2. ux_word U x = (Some lname, x1) \<and> length lname < 200
     \<and> ux_word U x1 = (Some rname, x2) \<and> length rname < 100 \<and> 0 \<notin> set rname
     \<and> easy_readfile A U lname x2 = Some ((Some d, int (length d)), x'))"

definition text_header :: "byte list \<Rightarrow> byte list" where
  "text_header s = concat (map (\<lambda>x. [0, x]) (s @ [0]))"

definition put_headers :: "byte list \<Rightarrow> byte list \<Rightarrow> (byte \<times> hdr_value) list" where
  "put_headers rname d = [(OBEX_HDR_LENGTH, HInt (word_of_int (int (length d)))), (OBEX_HDR_NAME, HBytes (text_header rname)),
     (OBEX_HDR_BODY, HBytes d)]"

lemma length_text_header [simp]: "length (text_header s) = 2 * length s + 2"
  by (induction s) (simp_all add: text_header_def)

lemma name_in_place:
  assumes "0 \<notin> set s" and "length s < 100"
  obtains m where "CharToUnicode_here (s @ replicate (200 - length s) 0) 200 = Some (2 * int (length s) + 2, m)"
    "take (2 * length s + 2) m = text_header s" "2 * length s + 2 \<le> length m"
proof -
  let ?m = "s @ replicate (200 - length s) 0"
  have len: "takeWhile (\<lambda>x. x \<noteq> 0) ?m = s" using assms by (subst takeWhile_append2) (auto simp: takeWhile_replicate)
  have zero: "0 \<in> set ?m" using assms(2) by simp
  define m1 where "m1 = take (2 * length s) ?m @ [0, 0] @ drop (2 * length s + 2) ?m"
  have w1: "mem_write ?m (length s * 2) [0, 0] = Some m1" using assms(2) by (simp add: mem_write_def mult.commute m1_def)
  have "widen_here (length s) m1 = widen_loop (s @ [0]) (length s) m1"
    by (rule widen_here_loop) (use assms(2) in \<open>auto simp: m1_def nth_append\<close>)
  also have "\<dots> = Some (concat (map (\<lambda>x. [0, x]) s) @ [0, 0] @ drop (2 * length s + 2) ?m)"
    using assms(2) unfolding m1_def by (subst widen_loop_spec) simp_all
  finally have w2: "widen_here (length s) m1 = Some (text_header s @ drop (2 * length s + 2) ?m)" by (simp add: text_header_def)
  have "s32 (int (length s) * 2 + 2) = 2 * int (length s) + 2" using assms(2) by (simp add: s32_id)
  then have "CharToUnicode_here ?m 200 = Some (2 * int (length s) + 2, text_header s @ drop (2 * length s + 2) ?m)"
    using zero w1 w2 assms(2) by (simp add: CharToUnicode_here_def len Let_def)
  then show ?thesis by (rule that) simp_all
qed

lemma put_client_object_makes:
  assumes A: "generous (env_alloc E)" and "user_puts (env_alloc E) U lname rname d (os (ext w)) x'"
    and "length d < 1170000000" and "2 * length rname + 8 \<le> unat (mtu_tx (hnd w))" and "8 \<le> unat (mtu_tx (hnd w))"
  obtains w' ob where "put_client_object E U w = Some (Some (Some (next_addr w)), w')"
    "making (w\<lparr>ext := (ext w)\<lparr>os := x'\<rparr>\<rparr>) w' (next_addr w) ob (put_headers rname d)"
proof -
  obtain x1 x2 where u: "ux_word U (os (ext w)) = (Some lname, x1)" "length lname < 200" "ux_word U x1 = (Some rname, x2)" "length rname < 100"
    "0 \<notin> set rname" "easy_readfile (env_alloc E) U lname x2 = Some ((Some d, int (length d)), x')"
    using assms(2) by (auto simp: user_puts_def)
  define w0 where "w0 = w\<lparr>ext := (ext w)\<lparr>os := x'\<rparr>\<rparr>"
  have A': "generous (env_alloc (test_env E U))" using A by simp
  obtain w1 ob1 where n: "OBEX_ObjectNew (test_env E U) w0 OBEX_CMD_PUT = Some (Some (next_addr w0), w1)" "making w0 w1 (next_addr w0) ob1 []"
    by (rule making_start [OF A', of w0]) blast
  obtain m where m: "CharToUnicode_here (rname @ replicate (200 - length rname) 0) 200 = Some (2 * int (length rname) + 2, m)"
    "take (2 * length rname + 2) m = text_header rname" "2 * length rname + 2 \<le> length m"
    by (rule name_in_place [OF u(5,4)])
  have lim: "add_limit (hnd w0) ob 0 = unat (mtu_tx (hnd w)) - 3" for ob
  proof -
    define n where "n = unat (mtu_tx (hnd w))"
    have "n < 65536" "8 \<le> n" using assms(5) unfolding n_def by simp_all
    then have "u32 (int n - 3) = n - 3" by (simp add: u32_id nat_diff_distrib)
    moreover have "add_limit (hnd w0) ob 0 = u32 (int n - 3)" by (simp add: add_limit_def w0_def n_def)
    ultimately show ?thesis unfolding n_def by (rule trans [rotated])
  qed
  let ?len = "HInt (word_of_int (int (length d)))" and ?name = "HBytes (text_header rname)"
  have sz: "hdr_size_ok OBEX_HDR_LENGTH ?len" "hdr_size_ok OBEX_HDR_NAME ?name" "hdr_size_ok OBEX_HDR_BODY (HBytes d)"
    using assms(3) u(4) by (simp_all add: hdr_size_ok_def)
  have fit: "length (enc_header OBEX_HDR_LENGTH ?len) \<le> add_limit (hnd w0) ob 0" "length (enc_header OBEX_HDR_NAME ?name) \<le> add_limit (hnd w0) ob 0" for ob
    using assms(4,5) by (simp_all add: lim length_enc_header)
  obtain w2 ob2 where l: "OBEX_ObjectAddHeader (test_env E U) w1 (Some (next_addr w0)) OBEX_HDR_LENGTH (hv_data ?len) (hv_len ?len) 0 = Some (1, w2)"
    "making w0 w2 (next_addr w0) ob2 ([] @ [(OBEX_HDR_LENGTH, ?len)])"
    by (rule making_add [OF n(2) A' sz(1) _ disjI2 [OF fit(1)]]) simp_all
  obtain w3 ob3 where t: "OBEX_ObjectAddHeader (test_env E U) w2 (Some (next_addr w0)) OBEX_HDR_NAME (hv_data ?name) (hv_len ?name) 0 = Some (1, w3)"
    "making w0 w3 (next_addr w0) ob3 (([] @ [(OBEX_HDR_LENGTH, ?len)]) @ [(OBEX_HDR_NAME, ?name)])"
    by (rule making_add [OF l(2) A' sz(2) _ disjI2 [OF fit(2)]]) simp_all
  obtain w4 ob4 where b: "OBEX_ObjectAddHeader (test_env E U) w3 (Some (next_addr w0)) OBEX_HDR_BODY (hv_data (HBytes d)) (hv_len (HBytes d)) 0 = Some (1, w4)"
    "making w0 w4 (next_addr w0) ob4 ((([] @ [(OBEX_HDR_LENGTH, ?len)]) @ [(OBEX_HDR_NAME, ?name)]) @ [(OBEX_HDR_BODY, HBytes d)])"
    by (rule making_add [OF t(2) A' sz(3)]) simp_all
  have t': "OBEX_ObjectAddHeader (test_env E U) w2 (Some (next_addr w0)) OBEX_HDR_NAME (BS (Some m)) (2 * length rname + 2) 0 = Some (1, w3)"
    using t(1) addheader_prefix [OF m(3), of "test_env E U"] u(4) m(2) by (simp add: OBEX_ObjectAddHeader_def hv_data_def hv_len_def)
  have "u32 (2 * int (length rname) + 2) = 2 * length rname + 2" "u32 (int (length d)) = length d" using u(4) assms(3) by (simp_all add: u32_id)
  then have "put_client_object E U w = Some (Some (Some (next_addr w0)), w4)"
    using u m(1) n(1) l(1) t' b(1)
    by (simp add: put_client_object_def scan_word_def sys_os_def hv_data_def hv_len_def flip: w0_def)
  then show ?thesis using b(2) by (intro that) (simp_all add: w0_def put_headers_def)
qed

lemma name_chars_text: "0 \<notin> set s \<Longrightarrow> name_chars (text_header s) = s \<and> unicode_len (text_header s) \<noteq> None"
proof (induction s)
  case (Cons x s)
  then show ?case by (auto simp: name_chars_def text_header_def split: option.splits)
qed (simp add: name_chars_def text_header_def)

lemma put_headers_parts:
  assumes "0 \<notin> set rname"
  shows "put_parts (map (\<lambda>x. (fst x, value_bytes (snd x))) (put_headers rname d)) = (Some d, Some rname)"
  using name_chars_text [OF assms] by (simp add: put_parts_def put_headers_def put_found_def value_bytes_def)

lemma put_headers_queue:
  assumes "length rname < 100" and "length d < 180000000" and "255 \<le> mtu"
  shows "list_all (\<lambda>x. fst x = OBEX_HDR_BODY \<or> plain_hdr x) (put_headers rname d)"
    "safe_queue (mtu - 3) (map hdr_item (put_headers rname d))" "plains_le (mtu - 3) (map hdr_item (put_headers rname d))"
    "bytes_left (map hdr_item (put_headers rname d)) < 1300000000"
    "items_bytes (map hdr_item (put_headers rname d)) < 2147483648"
proof -
  have "unat (word_of_int (int (length d)) :: 32 word) < 1170000000"
    using assms(2) by (simp add: unsigned_of_nat take_bit_eq_mod)
  then show "list_all (\<lambda>x. fst x = OBEX_HDR_BODY \<or> plain_hdr x) (put_headers rname d)"
    using assms(1) by (simp add: put_headers_def plain_hdr_def hdr_ok_def hdr_kind_ok_def)
  show "safe_queue (mtu - 3) (map hdr_item (put_headers rname d))" "plains_le (mtu - 3) (map hdr_item (put_headers rname d))"
    "bytes_left (map hdr_item (put_headers rname d)) < 1300000000"
    "items_bytes (map hdr_item (put_headers rname d)) < 2147483648"
    using assms by (simp_all add: put_headers_def hdr_item_def length_enc_header value_bytes_def plains_le_def bytes_left_def
        items_bytes_def item_bytes_def to_send_def, linarith+)
qed

lemma put_headers_accepted:
  assumes "0 \<notin> set rname" and "length rname < 100" and "length d < 180000000" and "file_name (saved_name rname)"
  shows "cable_accepts (map (\<lambda>x. (fst x, value_bytes (snd x))) (put_headers rname d))"
    "put_name (map (\<lambda>x. (fst x, value_bytes (snd x))) (put_headers rname d)) = saved_name rname"
proof -
  show n: "put_name (map (\<lambda>x. (fst x, value_bytes (snd x))) (put_headers rname d)) = saved_name rname"
    by (simp add: put_name_def put_headers_parts [OF assms(1)])
  have "\<forall>x \<in> set (map (\<lambda>x. (fst x, value_bytes (snd x))) (put_headers rname d)). readable x"
    using assms name_chars_text [OF assms(1)] by (simp add: put_headers_def readable_def value_bytes_def)
  then show "cable_accepts (map (\<lambda>x. (fst x, value_bytes (snd x))) (put_headers rname d))"
    using n assms(4) by (simp add: cable_accepts_def)
qed

text \<open>
  C2: the command \<open>put\<close> of obex_test over a cable, with obex_test serving at the other end. The user asks for a local file
  to be stored under a name; both lines take whole packets, and the file system of the server takes what is written.
  After some number of rounds the request is done: in the server's directory the file with the last component of the
  name holds the contents, with the tail of a longer old file behind; nothing else has changed there, and the server is
  ready for the next request. The client's object is gone, but its variables are as before: \<open>clientdone\<close>, which the
  command waits for, has not been set.
\<close>

theorem cable_put_stores_file:
  assumes "serving (cable_up Ec Uc lc readyc sentc filesc) (c\<lparr>ext := (ext c)\<lparr>os := xc\<rparr>\<rparr>)" and "cur_object (hnd c) = None"
    and "ready_server (cable_up Es Us ls readys sents filess) s"
    and "user_puts (env_alloc Ec) Uc lname rname d (os (ext c)) xc" and "file_name (saved_name rname)"
    and "length d < 180000000" and "255 \<le> unat (mtu_tx (hnd c))" and "unat (mtu_tx (hnd c)) < 65533"
  shows "\<exists>a c0 c1 n c2 s'. put_client_object Ec Uc c = Some (Some (Some a), c0)
    \<and> OBEX_Request (test_env Ec Uc) c0 (Some a) = Some (0, c1)
    \<and> converse n (test_env Ec Uc) (cable_sent sentc) (test_env Es Us) (cable_sent sents) c1 s = Some (c2, s')
    \<and> state (hnd c2) = (MODE_SRV, STATE_IDLE) \<and> objs c2 a = None \<and> app (ext c2) = app (ext c)
    \<and> ready_server (cable_up Es Us ls readys sents filess) s'
    \<and> filess (os (ext s')) = (filess (os (ext s)))(saved_name rname := Some (written_over (filess (os (ext s)) (saved_name rname)) d))"
proof -
  define hs where "hs = map (\<lambda>x. (fst x, value_bytes (snd x))) (put_headers rname d)"
  have u: "0 \<notin> set rname" "length rname < 100" using assms(4) by (auto simp: user_puts_def)
  have A: "generous (env_alloc Ec)" using assms(1) by (simp add: serving_def cable_up_def)
  have srv: "cable_up Es Us ls readys sents filess (ext s)" using assms(3) by (simp add: ready_server_def serving_def)
  obtain c0 ob where m: "put_client_object Ec Uc c = Some (Some (Some (next_addr c)), c0)"
    "making (c\<lparr>ext := (ext c)\<lparr>os := xc\<rparr>\<rparr>) c0 (next_addr c) ob (put_headers rname d)"
    by (rule put_client_object_makes [OF A assms(4)]) (use u assms(6,7) in simp_all)
  have same: "hnd c0 = hnd c" "ext c0 = (ext c)\<lparr>os := xc\<rparr>" "map item_of (tx_headerq ob) = map hdr_item (put_headers rname d)"
    using m(2) by (simp_all add: making_def)
  have mtu: "7 \<le> unat (mtu_tx (hnd c0))" "unat (mtu_tx (hnd c0)) < 65533" "255 \<le> unat (mtu_tx (hnd c0))" "cur_object (hnd c0) = None"
    using assms(2,7,8) by (simp_all add: same)
  note q = put_headers_queue [OF u(2) assms(6) mtu(3)]
  note acc = put_headers_accepted [OF u assms(6,5), folded hs_def]
  have req: "put_request (test_env Ec Uc) (cable_up Ec Uc lc readyc sentc filesc) c0 (next_addr c) ob"
    by (rule made_put_request [OF m(2) _ assms(1) q(5)]) (simp add: A)
  obtain c1 n c2 s' where r: "OBEX_Request (test_env Ec Uc) c0 (Some (next_addr c)) = Some (0, c1)"
    "converse n (test_env Ec Uc) (cable_sent sentc) (test_env Es Us) (cable_sent sents) c1 s = Some (c2, s')"
    and d: "put_complete (cable_up Es Us ls readys sents filess) (cable_posted Us ls) (cable_files filess) (cable_keep Us)
       (cable_up Ec Uc lc readyc sentc filesc) (cable_files filesc) (\<lambda>r e. e) (next_addr c) hs (ext c0) (ext s) c2 s'"
    using cable_link.conversation [OF req mtu(4) assms(3) same(3) q(1) mtu(1,2) q(2-4) acc(1) [unfolded hs_def], folded hs_def]
    by (elim exE conjE) (rule that)
  obtain e where e: "cable_up Es Us ls readys sents filess e" "cable_files filess e = cable_files filess (ext s)"
    "ext s' = cable_posted Us ls (packet 0xA0 []) (cable_keep Us hs e)"
    using d by (auto simp: put_complete_def)
  have fin: "app (ext c2) = app (ext c)" "state (hnd c2) = (MODE_SRV, STATE_IDLE)" "objs c2 (next_addr c) = None"
    "ready_server (cable_up Es Us ls readys sents filess) s'"
    using d by (auto simp: put_complete_def cable_files_def same(2))
  have "filess (os (ext s')) = filess (put_saved Us hs (os e))"
    using cable_upD(6) [OF cable_upD(8) [OF e(1) acc(1)]] by (simp add: e(3) cable_posted_def cable_keep_def)
  also have "\<dots> = (filess (os (ext s)))(saved_name rname := Some (written_over (filess (os (ext s)) (saved_name rname)) d))"
    using cable_upD(10) [OF e(1) acc(1)] e(2) acc(2) put_headers_parts [OF u(1)] by (simp add: hs_def cable_files_def)
  finally show ?thesis
    by (intro exI [of _ "next_addr c"] exI [of _ c0] exI [of _ c1] exI [of _ n] exI [of _ c2] exI [of _ s'] conjI m(1) r fin)
qed

section \<open>An example\<close>

text \<open>
  A station with a line, descriptor 3, and files: the words the user will type, what has been sent, the files, and the
  one that is open as descriptor 4.
\<close>

record desk =
  dk_words :: "byte list list"
  dk_sent :: "byte list list"
  dk_files :: "byte list \<Rightarrow> byte list option"
  dk_open :: "byte list"

definition dk_text :: "desk \<Rightarrow> byte list \<Rightarrow> byte list" where
  "dk_text x n = (case dk_files x n of None \<Rightarrow> [] | Some s \<Rightarrow> s)"

definition desk_unix :: "desk unix" where
  "desk_unix = dead_unix\<lparr>
     ux_word := (\<lambda>x. case dk_words x of [] \<Rightarrow> (None, x) | s # ws \<Rightarrow> (Some s, x\<lparr>dk_words := ws\<rparr>)),
     ux_size := (\<lambda>n x. (int (length (dk_text x n)), x)),
     ux_open := (\<lambda>n x. if dk_files x n = None then (-1, x) else (4, x\<lparr>dk_open := n\<rparr>)),
     ux_create := (\<lambda>n x. (4, x\<lparr>dk_open := n, dk_files := (dk_files x)(n := Some (dk_text x n))\<rparr>)),
     ux_read := (\<lambda>f n x. ((int (length (take n (dk_text x (dk_open x)))), take n (dk_text x (dk_open x))), x)),
     ux_write := (\<lambda>f d x. (int (length d), if f = 3 then x\<lparr>dk_sent := dk_sent x @ [d]\<rparr>
        else x\<lparr>dk_files := (dk_files x)(dk_open x := Some (written_over (dk_files x (dk_open x)) d))\<rparr>)),
     ux_close := (\<lambda>f x. (0, x))\<rparr>"

lemma desk_calls [simp]:
  "ux_word desk_unix x = (case dk_words x of [] \<Rightarrow> (None, x) | s # ws \<Rightarrow> (Some s, x\<lparr>dk_words := ws\<rparr>))"
  "ux_size desk_unix n x = (int (length (dk_text x n)), x)"
  "ux_open desk_unix n x = (if dk_files x n = None then (-1, x) else (4, x\<lparr>dk_open := n\<rparr>))"
  "ux_read desk_unix f k x = ((int (length (take k (dk_text x (dk_open x)))), take k (dk_text x (dk_open x))), x)"
  "ux_close desk_unix f x = (0, x)"
  by (simp_all add: desk_unix_def)

lemma desk_serial: "serial_os desk_unix 3 (\<lambda>x. True) dk_sent dk_files"
  by (simp add: serial_os_def desk_unix_def dead_unix_def write_out_def written_over_def dk_text_def split: option.splits)

definition desk_world :: "byte list list \<Rightarrow> (byte list \<Rightarrow> byte list option) \<Rightarrow> desk test_world" where
  "desk_world ws files = \<lparr>hnd = ex_handle\<lparr>cur_object := None\<rparr>, objs = Map.empty, next_addr = 1,
     ext = \<lparr>app = test_vars (no_cable\<lparr>co_ttyfd := 3\<rparr>), os = \<lparr>dk_words = ws, dk_sent = [], dk_files = files, dk_open = []\<rparr>\<rparr>,
     libusb_ctx = CTX_NULL\<rparr>"

lemma desk_up:
  "cable_up calm_env desk_unix 3 (\<lambda>x. True) dk_sent dk_files e = (co_ttyfd (ta_cable (app e)) = 3)"
  by (simp add: cable_up_def desk_serial calm_env_def)

theorem cable_put_stores_file_witness:
  "\<exists>a c0 c1 n c2 s'. put_client_object calm_env desk_unix (desk_world [[97], [120, 47, 98]] [[97] \<mapsto> [1, 2, 3]]) = Some (Some (Some a), c0)
    \<and> OBEX_Request (test_env calm_env desk_unix) c0 (Some a) = Some (0, c1)
    \<and> converse n (test_env calm_env desk_unix) (cable_sent dk_sent) (test_env calm_env desk_unix) (cable_sent dk_sent) c1
        (desk_world [] [[98] \<mapsto> [7, 7, 7, 7, 7]]) = Some (c2, s')
    \<and> dk_files (os (ext s')) [98] = Some [1, 2, 3, 7, 7] \<and> \<not> ta_clientdone (app (ext c2))"
proof -
  let ?c = "desk_world [[97], [120, 47, 98]] [[97] \<mapsto> [1, 2, 3]]" and ?s = "desk_world [] [[98] \<mapsto> [7, 7, 7, 7, 7]]"
  let ?xc = "\<lparr>dk_words = [], dk_sent = [], dk_files = [[97 :: byte] \<mapsto> [1 :: byte, 2, 3]], dk_open = [97]\<rparr>"
  have name: "saved_name [120, 47, 98] = [98]" by (simp add: saved_name_def)
  have put: "user_puts (env_alloc calm_env) desk_unix [97] [120, 47, 98] [1, 2, 3] (os (ext ?c)) ?xc"
    by (simp add: user_puts_def desk_world_def easy_readfile_def get_filesize_def dk_text_def calm_env_def malloc_def zero_alloc_def
        s32_id u64_id mem_simps)
  have "serving (cable_up calm_env desk_unix 3 (\<lambda>x. True) dk_sent dk_files) (?c\<lparr>ext := (ext ?c)\<lparr>os := ?xc\<rparr>\<rparr>)"
    "ready_server (cable_up calm_env desk_unix 3 (\<lambda>x. True) dk_sent dk_files) ?s" "cur_object (hnd ?c) = None"
    "file_name (saved_name [120, 47, 98])" "255 \<le> unat (mtu_tx (hnd ?c))" "unat (mtu_tx (hnd ?c)) < 65533"
    by (simp_all add: serving_def ready_server_def desk_up desk_world_def test_vars_def no_cable_def ex_handle_def buf_wf_holding buf_cap_def
        file_name_def name)
  note st = this
  have small: "length [1 :: byte, 2, 3] < 180000000" by simp
  have w: "dk_files (os (ext ?s)) = [[98] \<mapsto> [7, 7, 7, 7, 7]]" "\<not> ta_clientdone (app (ext ?c))"
    by (simp_all add: desk_world_def test_vars_def)
  obtain a c0 c1 n c2 s' where r: "put_client_object calm_env desk_unix ?c = Some (Some (Some a), c0)"
    "OBEX_Request (test_env calm_env desk_unix) c0 (Some a) = Some (0, c1)"
    "converse n (test_env calm_env desk_unix) (cable_sent dk_sent) (test_env calm_env desk_unix) (cable_sent dk_sent) c1 ?s = Some (c2, s')"
    "app (ext c2) = app (ext ?c)"
    "dk_files (os (ext s')) = (dk_files (os (ext ?s)))(saved_name [120, 47, 98] :=
       Some (written_over (dk_files (os (ext ?s)) (saved_name [120, 47, 98])) [1, 2, 3]))"
    using cable_put_stores_file [OF st(1,3,2) put st(4) small st(5,6)] by (elim exE conjE) (rule that)
  have "dk_files (os (ext s')) [98] = Some [1, 2, 3, 7, 7]" "\<not> ta_clientdone (app (ext c2))"
    using w by (simp_all add: r(4,5) name written_over_def)
  with r(1-3) show ?thesis by (intro exI conjI)
qed

end
