(* ===== verification/Glib_Tests.thy ===== *)
theory Glib_Tests
  imports Glib_Client App_Io
begin

text \<open>
  glib/test-client.c and glib/test-lowlevel.c: the two test programs of the GLib binding, which send or fetch one
  object over a serial device. When the main loop runs which source is a parameter; what is printed is left out, and
  so are the signals that end the loop.
\<close>

section \<open>The system\<close>

text \<open>
  \<open>gu_device\<close> is \<open>open(_, O_RDWR | O_NOCTTY)\<close>, \<open>gu_raw\<close> flushes the line and makes it raw; \<open>gu_stat\<close> has the size and
  the time of a file.
\<close>

record 'x gl_unix = "'x unix" +
  gu_device :: "byte list \<Rightarrow> 'x \<Rightarrow> int \<times> 'x"
  gu_raw :: "int \<Rightarrow> 'x \<Rightarrow> 'x"
  gu_stat :: "byte list \<Rightarrow> 'x \<Rightarrow> (int \<times> int) option \<times> 'x"

definition open_device :: "'x gl_unix \<Rightarrow> byte list \<Rightarrow> 'x \<Rightarrow> int \<times> 'x" where
  "open_device U device x =
     (let (fd, x) = gu_device U device x in if fd < 0 then (fd, x) else (fd, gu_raw U fd x))"

text \<open>The variable \<open>io\<close> of \<open>main\<close>, which the watch function gets a pointer to, with the system.\<close>

record 'x watch_os =
  wo_io :: int
  wo_sys :: 'x

type_synonym 'x watch_world = "'x watch_os client_world"

definition watch_of :: "'x watch_world \<Rightarrow> 'x watch_os" where
  "watch_of w = sys_of (os (ext w))"

definition upd_watch :: "'x watch_world \<Rightarrow> ('x watch_os \<Rightarrow> 'x watch_os) \<Rightarrow> 'x watch_world" where
  "upd_watch w f = w\<lparr>ext := (ext w)\<lparr>os := (os (ext w))\<lparr>sys_of := f (watch_of w)\<rparr>\<rparr>\<rparr>"

definition sys_watch :: "('x \<Rightarrow> 'r \<times> 'x) \<Rightarrow> 'x watch_world \<Rightarrow> 'r \<times> 'x watch_world" where
  "sys_watch f w = (let (r, x) = f (wo_sys (watch_of w)) in (r, upd_watch w (\<lambda>s. s\<lparr>wo_sys := x\<rparr>)))"

section \<open>The watch function\<close>

text \<open>The condition is one of the four, as the library calls it.\<close>

partial_function (option) transfer_in :: "'x watch_os client_os gl_host env \<Rightarrow> 'x gl_unix \<Rightarrow> 'x watch_world \<Rightarrow> 'x watch_world option" where
  "transfer_in E U w = do {
     (r, w) \<leftarrow> obex_client_read E 1024 w;
     (case r of Inl _ \<Rightarrow> Some w
      | Inr d \<Rightarrow>
          (let w = (if d \<noteq> [] \<and> wo_io (watch_of w) \<ge> 0 then snd (sys_watch (ux_write U (wo_io (watch_of w)) d) w) else w) in
           if length d = 1024 then transfer_in E U w else Some w)) }"

text \<open>What the client does not accept of a block is lost, and nothing is flushed then.\<close>

definition transfer_out :: "'x watch_os client_os gl_host env \<Rightarrow> 'x gl_unix \<Rightarrow> 'x watch_world \<Rightarrow> 'x watch_world option" where
  "transfer_out E U w =
     (let io = wo_io (watch_of w) in
      if io < 0 then Some w
      else let ((actual, d), w) = sys_watch (ux_read U io 10000) w in
        if actual = 0
        then do {
          (_, w) \<leftarrow> obex_client_close E w;
          (let (_, w) = sys_watch (ux_close U (wo_io (watch_of w))) w in Some (upd_watch w (\<lambda>s. s\<lparr>wo_io := -1\<rparr>))) }
        else if actual > 0
        then do {
          (r, w) \<leftarrow> obex_client_write E d (nat actual) w;
          (case r of Inl _ \<Rightarrow> Some w
           | Inr written \<Rightarrow>
               (if written < nat actual then Some w else do { (_, w) \<leftarrow> obex_client_flush E w; Some w })) }
        else Some w)"

definition transfer ::
    "'x watch_os client_os gl_host env \<Rightarrow> 'x gl_unix \<Rightarrow> client_condition \<Rightarrow> 'x watch_world \<Rightarrow> 'x watch_world option" where
  "transfer E U cond w =
     (case cond of
        OBEX_CLIENT_COND_IN \<Rightarrow> transfer_in E U w
      | OBEX_CLIENT_COND_OUT \<Rightarrow> transfer_out E U w
      | OBEX_CLIENT_COND_DONE \<Rightarrow> do { (_, w) \<leftarrow> obex_client_get_error w; Some w }
      | OBEX_CLIENT_COND_ERR \<Rightarrow> Some w)"

section \<open>test-client.c\<close>

text \<open>
  No handler is connected to a signal. From inside the library only signals are emitted; the watch function is called
  by the main loop.
\<close>

definition quiet_glib :: "'y glib" where
  "quiet_glib = \<lparr>g_emit = (\<lambda>_ w. Some w), g_watch = (\<lambda>_ _ _ _. None)\<rparr>"

definition client_env :: "'y client_os gl_host env \<Rightarrow> zone \<Rightarrow> 'y client_os gl_host env" where
  "client_env E Z = gl_env E (client_callbacks quiet_glib) Z 2"

definition watch_glib :: "'x watch_os client_os gl_host env \<Rightarrow> 'x gl_unix \<Rightarrow> 'x watch_os glib" where
  "watch_glib E U = quiet_glib\<lparr>g_watch := (\<lambda>f cond data w. transfer E U cond w)\<rparr>"

text \<open>
  The main loop: what it is woken by, one after the other. The source of the device is removed when its callback says
  so; an event with an error bit is \<open>FD_READY True\<close>.
\<close>

datatype wakeup = FD_READY bool | FD_IDLE

fun main_loop :: "'y client_os gl_host env \<Rightarrow> 'y glib \<Rightarrow> bool \<Rightarrow> wakeup list \<Rightarrow> 'y client_world \<Rightarrow> 'y client_world option" where
  "main_loop E G attached [] w = Some w"
| "main_loop E G attached (FD_READY err # ts) w =
     (if attached then do { (keep, w) \<leftarrow> obex_client_callback E G err w; main_loop E G keep ts w }
      else main_loop E G attached ts w)"
| "main_loop E G attached (FD_IDLE # ts) w =
     (if idle_source (cpriv w) then do { (_, w) \<leftarrow> obex_client_put_idle G w; main_loop E G attached ts w }
      else main_loop E G attached ts w)"

text \<open>
  The request: a file from the command line is sent, otherwise \<open>devinfo.txt\<close> is fetched. The result is an exit value, or
  nothing when the program goes on.
\<close>

definition client_start_transfer ::
    "'x watch_os client_os gl_host env \<Rightarrow> 'x gl_unix \<Rightarrow> byte list list \<Rightarrow> 'x watch_world \<Rightarrow> (int option \<times> 'x watch_world) option" where
  "client_start_transfer E U argv w =
     (if length argv > 1
      then let (s, w) = sys_watch (gu_stat U (argv ! 1)) w in
        (case s of None \<Rightarrow> Some (Some 1, w)
         | Some (st_size, st_mtime) \<Rightarrow>
             (let (io, w) = sys_watch (ux_open U (argv ! 1)) w; w = upd_watch w (\<lambda>s. s\<lparr>wo_io := io\<rparr>) in
              if io < 0 then Some (Some 1, w)
              else do { (_, w) \<leftarrow> obex_client_put_object E None (Some (argv ! 1)) st_size st_mtime w; Some (None, w) }))
      else do { (_, w) \<leftarrow> obex_client_get_object E None (Some (bytes_of ''telecom/devinfo.txt'')) w; Some (None, w) })"

text \<open>
  \<open>context\<close>, \<open>cb\<close>, \<open>callback\<close>, \<open>self\<close>, \<open>func\<close> and \<open>data\<close> are addresses: of the context, of \<open>obex_event\<close>, of the structure
  \<open>callback\<close>, of the client, of \<open>transfer\<close> and of \<open>io\<close>. That the client cannot be attached is not looked at: it then has
  no handle.
\<close>

definition test_client_main ::
    "'x watch_os client_os gl_host env \<Rightarrow> 'x gl_unix \<Rightarrow> zone \<Rightarrow> ptr \<Rightarrow> ptr \<Rightarrow> ptr \<Rightarrow> ptr \<Rightarrow> ptr \<Rightarrow> ptr
     \<Rightarrow> byte list list \<Rightarrow> wakeup list \<Rightarrow> 'x \<Rightarrow> (int \<times> 'x) option" where
  "test_client_main E U Z context cb callback self func data argv wake x =
     (let E = client_env E Z; G = watch_glib E U; (fd, x) = open_device U (bytes_of ''/dev/rfcomm42'') x in
      if fd < 0 then Some (1, x)
      else do {
        (w, _) \<leftarrow> obex_client_attach_fd E context cb callback fd self
          \<lparr>priv = obex_client_init\<lparr>watch_func := func, watch_data := data\<rparr>, sys_of = \<lparr>wo_io = -1, wo_sys = x\<rparr>\<rparr>;
        w \<leftarrow> w;
        (code, w) \<leftarrow> client_start_transfer E U argv w;
        (case code of Some n \<Rightarrow> Some (n, wo_sys (watch_of w))
         | None \<Rightarrow> do {
             w \<leftarrow> main_loop E G True wake w;
             r \<leftarrow> obex_client_finalize E G w;
             (let s = sys_of (os (case r of Inl w \<Rightarrow> ext w | Inr (_, e, _) \<Rightarrow> e));
                  x = (if wo_io s \<ge> 0 then snd (ux_close U (wo_io s) (wo_sys s)) else wo_sys s)
              in Some (0, snd (ux_close U fd x))) }) })"

section \<open>test-lowlevel.c\<close>

definition no_callbacks :: "'x gl_callback" where
  "no_callbacks = \<lparr>connect_cfm = None, disconn_ind = None, progress_ind = None, command_ind = None\<rparr>"

text \<open>That the handle cannot be opened is not looked at; polling then reads through NULL.\<close>

definition test_lowlevel_main ::
    "'x gl_host env \<Rightarrow> 'x gl_unix \<Rightarrow> zone \<Rightarrow> ptr \<Rightarrow> ptr \<Rightarrow> 'x \<Rightarrow> (int \<times> 'x) option" where
  "test_lowlevel_main E U Z context cb x =
     (let E = gl_env E no_callbacks Z 2; (fd, x) = open_device U (bytes_of ''/dev/rfcomm42'') x in
      if fd < 0 then Some (1, x)
      else do {
        (w, _) \<leftarrow> obex_open E context cb fd 0 0 x;
        w \<leftarrow> w;
        (_, w) \<leftarrow> obex_connect E w None 0;
        w \<leftarrow> obex_poll E no_callbacks w;
        (_, w) \<leftarrow> obex_get E w None (Some (bytes_of ''telecom/devinfo.txt''));
        w \<leftarrow> obex_poll E no_callbacks w;
        (_, w) \<leftarrow> obex_disconnect E no_callbacks w;
        w \<leftarrow> obex_poll E no_callbacks w;
        r \<leftarrow> obex_close E w;
        (let x = os (case r of Inl w \<Rightarrow> ext w | Inr (_, e, _) \<Rightarrow> e) in Some (0, snd (ux_close U fd x))) })"

end
