(* ===== verification/Spec2Isabelle.thy ===== *)
theory Spec2Isabelle
  imports Roundtrip Upload Glib_Requests Glib_Client Put_Laws Cable_Transfer Glib_Tests
begin

text \<open>
  A model of the OpenOBEX library (src/lib of the repository) and of what is built on top of it, ircp, the
  file transfer program (src/ircp), the binding to GLib (src/glib) and the example programs (src/apps), with
  the theorems that make them correct.

  The program. OpenOBEX is a C library for the object exchange protocol. An application creates a handle
  (\<open>OBEX_Init\<close>), connects it or listens over a transport (IrDA, TCP/IP, Bluetooth, USB, file
  descriptors or functions of its own), queues headers on an object, and starts a request
  (\<open>OBEX_Request\<close>) or serves the peer's. Input enters through \<open>OBEX_HandleInput\<close> or
  \<open>OBEX_CustomDataFeed\<close>: \<open>obex_data_indication\<close> puts a packet together in the receive
  buffer and passes it to the state machine of the server or of the client, which unpacks it into the
  current object, packs an answer from its queue, hands it to the transport and reports events to the
  application. ircp is such an application: its client walks a directory tree and sends a SETPATH
  request for each change of directory and a PUT for each file, whose contents it feeds to the library as
  a stream; its server follows the SETPATH requests below its inbox and writes what it is sent to files. The GLib
  binding is a client with a buffer: \<open>obex_put\<close> and \<open>obex_get\<close> start a transfer, \<open>obex_write\<close> and
  \<open>obex_read\<close> fill and empty the buffer, the events of the library move its bytes from and to the stream of
  the object, and the object is suspended while there is nothing to move. Of the example programs, obex_test is a
  client and a server in one that a user drives, over any transport or over a serial cable, which is a custom
  transport of its own; three small programs send a file or wait for files.

  Conventions. The state is the record \<open>world\<close>: the handle (\<open>struct obex\<close>), the heap of objects, the
  state of libusb and the state \<open>ext\<close> of everything outside. A function that changes state takes
  and returns the world. Pointers to objects are numbers, and \<open>None\<close> of an object pointer is NULL. A
  computation is an option: \<open>None\<close> is undefined behaviour (an access outside a block or through NULL, a
  failed assertion) or a loop that does not end; C results are integers, so that every error of the code is
  a value. Widths matter where the code relies on them: bytes, 16 and 32 bit fields are words,
  \<open>size_t\<close> arithmetic is cut to 64 bits by \<open>u64\<close>. The record \<open>env\<close> has what is not in
  this repository: the allocator, the event callback and the transport functions of the application, the
  calls of POSIX, of the IrDA stack and of libusb. They are parameters of every definition, and what a
  theorem assumes of them is one named predicate (\<open>generous\<close>, \<open>write_contract\<close>,
  \<open>quiet_app\<close>, \<open>logging_app\<close>, \<open>socket_contract\<close>, \<open>usb_contract\<close>, \<open>usb0_contract\<close>). For ircp, the GLib binding and the examples the state outside
  is a pair (record \<open>host\<close>) of the program's own structure, which its callbacks reach through the
  user data of the handle, and the state of the operating system; the file functions of POSIX are the
  record \<open>posix\<close>, and what is assumed of them is \<open>posix_dirs\<close>, \<open>makes_dirs\<close>, \<open>on_disk\<close>, \<open>reads_file\<close>
  and \<open>writes_file\<close>. The environment of the library is then \<open>cli_env\<close> or \<open>srv_env\<close>, with ircp's
  callback in the place of the event callback. For the examples the calls of
  POSIX and of the serial line are the record \<open>unix\<close>, what is assumed of them is \<open>serial_os\<close>, \<open>arrives\<close> and
  \<open>silent_peer\<close>, and the environments are \<open>put_env\<close> and \<open>test_env\<close>. For the GLib binding it is \<open>gl_env\<close>. Its callback starts
  requests itself, which delivers events again; the last argument of \<open>gl_env\<close> bounds this nesting, and the
  theorems hold for every bound above 0: an event below only moves bytes or reports.

  The theories, each with the file it models.
   Prelude: the arithmetic of C, memory blocks, the allocator, bytes of numbers, shared lemmas.
   Databuffer (databuffer.c): lists and the buffer with room at both ends; the invariant
     \<open>buf_wf\<close>, and the refinement of byte sequences.
   Obex_Types (headers): the structures, the world and its environment.
   Obex_Header (obex_header.c): the header encoders and their wire format.
   Transport_IO (obex_transport.c, second half): fragmented writes, reading into the buffer.
   Obex_Core (obex_main.c, obex_object.c): objects, events, sending one packet.
   Obex_Object (obex_object.c, first half): queueing headers, packing.
   Packing: an abstract sender, that cuts a queue of items into packets, and its refinement by
     \<open>obex_object_send\<close>: what is sent, that all of it is, within the MTU.
   Obex_Receive (obex_object.c, second half, and obex_connect.c), Unpacking: the receiver against the
     grammar of packets. Roundtrip: sender and receiver together.
   Obex_Server (obex_server.c), Obex_Client (obex_client.c), Obex_Main (obex_main.c): the state machines,
     reassembly, cancelling.
   Frame: what a call leaves alone, as a calculus of postconditions and a locale for observers of the
     world, interpreted for the configuration and for the packets handed to the link.
   Server_Automaton, Client_Automaton: inductive step relations; every call of the C state machine is
     one step; invariants of the reachable handles, one packet at most for each call.
   Sockets (obex_main.c, inobex.c, btobex.c, irobex.c): the POSIX transports; opening a socket is all or
     nothing. Usb (usb1obex.c, usbutils.c): discovery and opening of USB interfaces. Usb0 (usbobex.c): the
     same over libusb 0.1, which is built where libusb 1 is missing; an adapter writes the calls of libusb 1 in
     terms of libusb 0.1, and what is proved of one transport is carried over to the other.
   Obex_Transport (obex_transport.c, first half): waiting for input, dispatch to the transports.
   Obex_Api (obex.c): all functions of the interface. Api_Laws: reassembly from any pieces, serving
     them once, new handles, requests, text conversions.
   Fresh_Headers: the addresses of received headers stay distinct. Conversation: a client and a server joined by
     a link that carries whole packets, round by round. Locales say what the library relies on: an end of the link
     (\<open>link_end\<close>), an application that serves PUT (\<open>put_acceptor\<close>), one that asks for it (\<open>put_requester\<close>), and
     both together (\<open>put_link\<close>); in them, a PUT request ends with both idle and the server's application in
     possession of the client's headers.
   Streaming: bodies the application supplies piece by piece, with a locale for what the packing loop
     relies on when it asks for data; a stream goes out whole, in fragments that fill their packets.
   Ircp_Io (ircp_io.c, dirtraverse.c): names, files, directories, the traversal as a total recursive
     function; which names are accepted. Traversal: the traversal visits a tree in preorder.
   Ircp_Server (ircp_server.c), Ircp_Client (ircp_client.c, ircp.c): the two halves of the program.
   Inbox: the names the server takes from headers, and where it goes and writes; when it stays below its
     inbox, and when it does not. Upload: the client interprets the locale of streams, the server
     stores the fragments; a file arrives whole.
   Glib_Time: the ISO 8601 time stamps of obex-lowlevel.c, with the calendar; a time survives both ways.
   Glib_Lowlevel (glib/obex-lowlevel.c): the context, the events, the requests, the buffer. Glib_Laws: a
     locale for a queue of bytes, interpreted for both directions of the buffer, and the locale of streams
     interpreted for what it hands to the library; what a closed transfer sends, what a second fragment in one
     packet does. Glib_Requests: what becomes of uploads, of waiting on a lost link, of small packets.
   Glib_Client (glib/obex-client.c, obex-error.c): the client object, its watch, the errors. Glib_Tests
     (glib/test-client.c, test-lowlevel.c): the two test programs; the wakeups of the main loop are a list.
   App_Io (apps/obex_io.c, and the end of a PUT): files, the object of a PUT, saving what came. Put_Programs
     (obex_put_common.c, irobex_palm3.c, irxfer.c, obex_tcp.c): the three small programs. Put_Laws: they save files
     in their directory only, and wait for ever when they send one.
   Cable (obex_test_cable.c): modem commands and the transport over a serial line. Test_Program (obex_test_client.c,
     obex_test_server.c, the callback of obex_test.c), Test_Main (main of obex_test.c): the program obex_test.
     Cable_Laws: the answers to modem commands, names converted in place. Cable_Transfer: obex_test at both ends of a
     cable interprets the locales of Conversation; a file the user sends is stored at the other end.

  Loops. Loops over a list or a counter are structural. The loops of the code that need not end are
  \<open>partial_function\<close>s: \<open>do_write_loop\<close>, \<open>send_stream_loop\<close>, \<open>send_headers\<close>,
  \<open>receive_headers\<close>, \<open>union_scan\<close>, \<open>service_scan\<close>, \<open>received_name\<close>, \<open>ircp_srv_sync_wait\<close>,
  \<open>cli_wait\<close>, of the GLib binding \<open>each_header\<close>, \<open>signal_events\<close> and \<open>poll_loop\<close>, and of the examples
  \<open>transfer_in\<close>, \<open>for_headers\<close>, \<open>at_read\<close>, \<open>wait_for_rsp\<close>, \<open>serve_files\<close>, \<open>serve_tcp\<close>, \<open>server_do\<close>, \<open>syncwait_loop\<close> and
  \<open>test_loop\<close>; what the
  theorems say of one is a result, or that there is none. The loops that wait for the peer or call the
  user end when these let them. \<open>visit_dir\<close> ends because every level makes the path longer and the code's
  buffers hold 4096 bytes. \<open>send_run\<close>, \<open>stream_packets\<close> and \<open>converse\<close> repeat a step with a bound on its repetitions, and
  the theorems show that there is one that suffices.

  Some theorems state what the code does where that is not what it means to do; the text before each says
  so.

  Not modelled: win32compat.c and the Windows branches belong to another build; debug output, \<open>buf_dump\<close> and the
  release of memory have no effect on the state (an object that is freed leaves the heap). A NULL handle is not
  passed. Of the example programs what they print is left out, and the lookup of host names
  and of Bluetooth addresses is a parameter. Of the GLib
  binding the signals, sources, reference counts and properties of GObject are left out: emitting a signal
  and calling a watch function are parameters, and the main loop calls the modelled functions. Of ircp the
  messages to the user and the command line are left out; a directory stream is the list of its entries
  when it is opened.
\<close>

end
